(* ===== verification/Prelude.thy ===== *)
theory Prelude
  imports Main "HOL-Library.Word" "HOL-Library.AList" "HOL-Library.Multiset"
begin

text \<open>
  Shared vocabulary of the development: machine integers, fallible results, Go slices (with the
  nil / empty distinction that JSON hashing observes), Go maps as association lists with distinct
  keys, and the generic lemmas on them.  The collections \<open>go_simps\<close> (equations that evaluate
  the Go-level wrappers) and \<open>res_simps\<close> (success of a chain of fallible steps) carry the
  proofs of the component theories.
\<close>

named_theorems go_simps \<open>equations of the Go-level helper functions\<close>
named_theorems res_simps \<open>when a fallible computation succeeds\<close>

section \<open>Machine integers\<close>

type_synonym byte = "8 word"
type_synonym uint8 = "8 word"
type_synonym uint32 = "32 word"
type_synonym uint64 = "64 word"

text \<open>Go's conversion \<open>int(u)\<close> of a 64-bit unsigned value on a 64-bit platform.\<close>

definition go_int :: "uint64 \<Rightarrow> int" where
  "go_int u = sint u"

definition go_uint64 :: "nat \<Rightarrow> uint64" where
  "go_uint64 n = word_of_nat n"

lemma go_int_inj: "go_int a = go_int b \<longleftrightarrow> a = b"
  by (auto simp: go_int_def intro: signed_word_eqI)

lemma sint_64_small: "n < 2 ^ 63 \<Longrightarrow> sint (word_of_nat n :: uint64) = int n"
  by (simp add: signed_of_nat signed_take_bit_int_eq_self)

lemma go_int_go_uint64: "n < 2 ^ 63 \<Longrightarrow> go_int (go_uint64 n) = int n"
  by (simp add: go_int_def go_uint64_def sint_64_small)

lemma go_uint64_inj: "m < 2 ^ 63 \<Longrightarrow> n < 2 ^ 63 \<Longrightarrow> go_uint64 m = go_uint64 n \<longleftrightarrow> m = n"
  using go_int_go_uint64 [of m] go_int_go_uint64 [of n] by (metis of_nat_eq_iff)

section \<open>Fallible computations\<close>

text \<open>
  A Go function that returns \<open>(T, error)\<close> becomes a value of \<open>'e + 'a\<close>: \<open>Inl\<close> the error,
  \<open>Inr\<close> the result.  \<open>bindE\<close> is the pattern \<open>if err != nil { return err }\<close>, \<open>wrapE\<close> the
  wrapping \<open>fmt.Errorf("...: %w", err)\<close>, \<open>foldE\<close> a loop with early return.
\<close>

definition bindE :: "'e + 'a \<Rightarrow> ('a \<Rightarrow> 'e + 'b) \<Rightarrow> 'e + 'b" where
  "bindE m f = (case m of Inl e \<Rightarrow> Inl e | Inr x \<Rightarrow> f x)"

definition wrapE :: "('e \<Rightarrow> 'f) \<Rightarrow> 'e + 'a \<Rightarrow> 'f + 'a" where
  "wrapE w m = (case m of Inl e \<Rightarrow> Inl (w e) | Inr x \<Rightarrow> Inr x)"

definition guardE :: "bool \<Rightarrow> 'e \<Rightarrow> 'e + unit" where
  "guardE ok e = (if ok then Inr () else Inl e)"

fun foldE :: "('s \<Rightarrow> 'a \<Rightarrow> 'e + 's) \<Rightarrow> 's \<Rightarrow> 'a list \<Rightarrow> 'e + 's" where
  "foldE f s [] = Inr s"
| "foldE f s (x # xs) = bindE (f s x) (\<lambda>s'. foldE f s' xs)"

lemma bindE_eval [simp, go_simps]:
  "bindE (Inl e) f = Inl e"
  "bindE (Inr x) f = f x"
  by (simp_all add: bindE_def)

lemma wrapE_eval [simp, go_simps]:
  "wrapE w (Inl e) = Inl (w e)"
  "wrapE w (Inr x) = Inr x"
  by (simp_all add: wrapE_def)

lemma guardE_eval [simp, go_simps]:
  "guardE True e = Inr ()"
  "guardE False e = Inl e"
  by (simp_all add: guardE_def)

lemma bindE_Inr [res_simps]: "bindE m f = Inr y \<longleftrightarrow> (\<exists>x. m = Inr x \<and> f x = Inr y)"
  by (cases m) auto

lemma bindE_Inl [res_simps]: "bindE m f = Inl e \<longleftrightarrow> m = Inl e \<or> (\<exists>x. m = Inr x \<and> f x = Inl e)"
  by (cases m) auto

lemma wrapE_Inr [res_simps]: "wrapE w m = Inr y \<longleftrightarrow> m = Inr y"
  by (cases m) auto

lemma guardE_Inr [res_simps]: "guardE ok e = Inr u \<longleftrightarrow> ok"
  by (cases ok) auto

lemma foldE_append: "foldE f s (xs @ ys) = bindE (foldE f s xs) (\<lambda>s'. foldE f s' ys)"
  by (induction xs arbitrary: s) (auto simp: bindE_def split: sum.splits)

lemma foldE_invariant:
  assumes "foldE f s xs = Inr s'" and "P s"
    and "\<And>x s s'. x \<in> set xs \<Longrightarrow> f s x = Inr s' \<Longrightarrow> P s \<Longrightarrow> P s'"
  shows "P s'"
  using assms
proof (induction xs arbitrary: s)
  case Nil
  then show ?case by simp
next
  case (Cons x xs)
  from Cons.prems(1) obtain t where t: "f s x = Inr t" "foldE f t xs = Inr s'"
    by (auto simp: bindE_Inr)
  from Cons.prems(3) [OF _ t(1) Cons.prems(2)] have "P t" by simp
  with t(2) show ?case by (rule Cons.IH) (use Cons.prems(3) in auto)
qed

text \<open>A loop whose body does not touch its state: it only checks.\<close>

lemma foldE_check:
  "foldE (\<lambda>u x. g x) () xs = Inr () \<longleftrightarrow> (\<forall>x\<in>set xs. g x = Inr ())"
  by (induction xs) (auto simp: bindE_Inr)

lemma option_eqI: "(\<And>v. x = Some v \<longleftrightarrow> y = Some v) \<Longrightarrow> x = y"
  by (cases x; cases y) auto

section \<open>Go slices\<close>

text \<open>
  A slice is \<open>None\<close> when nil and \<open>Some xs\<close> otherwise.  Length, iteration and indexing do not
  distinguish nil from empty (\<open>elems\<close>); \<open>encoding/json\<close> does (null against []).
\<close>

type_synonym 'a slice = "'a list option"

definition elems :: "'a slice \<Rightarrow> 'a list" where
  "elems s = (case s of None \<Rightarrow> [] | Some xs \<Rightarrow> xs)"

lemma elems_simps [simp, go_simps]: "elems None = []" "elems (Some xs) = xs"
  by (simp_all add: elems_def)

text \<open>\<open>if s == nil { s = []T{} }\<close>\<close>

definition nil_to_empty :: "'a slice \<Rightarrow> 'a slice" where
  "nil_to_empty s = Some (elems s)"

text \<open>What a Gob round trip leaves of a slice: an empty slice is not transmitted and comes back nil.\<close>

definition gob_slice :: "'a slice \<Rightarrow> 'a slice" where
  "gob_slice s = (if elems s = [] then None else Some (elems s))"

lemma elems_nil_to_empty [simp]: "elems (nil_to_empty s) = elems s"
  by (simp add: nil_to_empty_def)

lemma elems_gob_slice [simp]: "elems (gob_slice s) = elems s"
  by (simp add: gob_slice_def)

lemma nil_to_empty_gob_slice [simp]: "nil_to_empty (gob_slice s) = nil_to_empty s"
  by (simp add: nil_to_empty_def)

lemma nil_to_empty_idem [simp]: "nil_to_empty (nil_to_empty s) = nil_to_empty s"
  by (simp add: nil_to_empty_def)

section \<open>Go maps\<close>

text \<open>
  A Go map is an association list with distinct keys.  Looking a key up is \<open>map_of\<close>, storing is
  \<open>AList.update\<close>, \<open>delete\<close> is \<open>AList.delete\<close>, \<open>len\<close> is \<open>length\<close>.  The order in which
  \<open>range\<close> visits a map is chosen by the runtime anew at every loop: an operation whose outcome
  depends on it takes the visited sequence as an argument, and \<open>iterates\<close> says that it is one
  of the possible ones.
\<close>

type_synonym ('k, 'v) gomap = "('k \<times> 'v) list"

abbreviation mput :: "'k \<Rightarrow> 'v \<Rightarrow> ('k, 'v) gomap \<Rightarrow> ('k, 'v) gomap" where
  "mput \<equiv> AList.update"

abbreviation mdel :: "'k \<Rightarrow> ('k, 'v) gomap \<Rightarrow> ('k, 'v) gomap" where
  "mdel \<equiv> AList.delete"

definition wf_map :: "('k, 'v) gomap \<Rightarrow> bool" where
  "wf_map m \<longleftrightarrow> distinct (map fst m)"

definition iterates :: "('k \<times> 'v) list \<Rightarrow> ('k, 'v) gomap \<Rightarrow> bool" where
  "iterates order m \<longleftrightarrow> mset order = mset m"

lemma wf_map_Nil [simp]: "wf_map []"
  by (simp add: wf_map_def)

lemma wf_map_mput [simp]: "wf_map m \<Longrightarrow> wf_map (mput k v m)"
  by (simp add: wf_map_def distinct_update)

lemma wf_map_mdel [simp]: "wf_map m \<Longrightarrow> wf_map (mdel k m)"
  by (simp add: wf_map_def distinct_delete)

lemma iterates_refl [simp]: "iterates m m"
  by (simp add: iterates_def)

lemma iterates_set: "iterates order m \<Longrightarrow> set order = set m"
  by (metis iterates_def set_mset_mset)

lemma iterates_length: "iterates order m \<Longrightarrow> length order = length m"
  by (metis iterates_def size_mset)

lemma iterates_wf: "iterates order m \<Longrightarrow> wf_map m \<Longrightarrow> wf_map order"
  unfolding iterates_def wf_map_def by (metis mset_eq_imp_distinct_iff mset_map)

lemma map_of_iff_in_set: "wf_map m \<Longrightarrow> map_of m k = Some v \<longleftrightarrow> (k, v) \<in> set m"
  by (auto simp: wf_map_def map_of_is_SomeI dest: map_of_SomeD)

lemma iterates_map_of: "iterates order m \<Longrightarrow> wf_map m \<Longrightarrow> map_of order = map_of m"
proof (rule ext)
  fix k
  assume it: "iterates order m" and wf: "wf_map m"
  have "map_of order k = Some v \<longleftrightarrow> map_of m k = Some v" for v
    using it wf iterates_wf [OF it wf] by (simp add: map_of_iff_in_set iterates_set)
  then show "map_of order k = map_of m k"
    by (metis not_None_eq)
qed

text \<open>
  The order of one \<open>range\<close> loop over a map that the function itself obtains: a choice of a
  sequence for every map.
\<close>

type_synonym ('k, 'v) ranging = "('k, 'v) gomap \<Rightarrow> ('k \<times> 'v) list"

definition range_ok :: "('k, 'v) ranging \<Rightarrow> bool" where
  "range_ok \<rho> \<longleftrightarrow> (\<forall>m. iterates (\<rho> m) m)"

lemma range_ok_id [simp]: "range_ok (\<lambda>m. m)"
  by (simp add: range_ok_def)

lemma range_okD: "range_ok \<rho> \<Longrightarrow> iterates (\<rho> m) m"
  by (simp add: range_ok_def)

lemma set_mput: "wf_map m \<Longrightarrow> set (mput k v m) = insert (k, v) {kv \<in> set m. fst kv \<noteq> k}"
  by (induction m) (auto simp: wf_map_def image_iff)

lemma set_mdel: "set (mdel k m) = {kv \<in> set m. fst kv \<noteq> k}"
  by (induction m) auto

lemma map_of_mput: "map_of (mput k v m) = (map_of m)(k \<mapsto> v)"
  by (rule AList.update_conv')

lemma map_of_mdel: "map_of (mdel k m) = (map_of m)(k := None)"
  by (rule AList.delete_conv')

subsection \<open>Weights of a map\<close>

text \<open>
  The sum of a weight over the entries, and how storing and deleting change it.  Used for voting
  power and stakes, whose running totals are kept in 64-bit counters.
\<close>

definition msum :: "('v \<Rightarrow> 'a::comm_monoid_add) \<Rightarrow> ('k, 'v) gomap \<Rightarrow> 'a" where
  "msum w m = sum_list (map (w \<circ> snd) m)"

lemma msum_Nil [simp]: "msum w [] = 0"
  by (simp add: msum_def)

lemma msum_Cons [simp]: "msum w (kv # m) = w (snd kv) + msum w m"
  by (simp add: msum_def)

lemma msum_iterates: "iterates order m \<Longrightarrow> msum w order = msum w m"
  unfolding iterates_def msum_def by (metis mset_map sum_mset_sum_list)

lemma msum_mput_new: "k \<notin> fst ` set m \<Longrightarrow> msum w (mput k v m) = msum w m + w v"
  by (induction m) (auto simp: ac_simps)

lemma msum_mdel:
  "wf_map m \<Longrightarrow> map_of m k = Some v \<Longrightarrow> msum w m = w v + msum w (mdel k m)"
proof (induction m)
  case Nil
  then show ?case by simp
next
  case (Cons kv m)
  show ?case
  proof (cases "fst kv = k")
    case True
    with Cons.prems have "k \<notin> fst ` set m" by (auto simp: wf_map_def)
    then have "mdel k m = m" by (simp add: AList.delete_id)
    with True Cons.prems show ?thesis by (cases kv) simp
  next
    case False
    with Cons.prems have "map_of m k = Some v" "wf_map m"
      by (cases kv; simp add: wf_map_def)+
    from Cons.IH [OF this(2,1)] False show ?thesis
      by (cases kv) (simp add: ac_simps)
  qed
qed

lemma msum_mput_old:
  "wf_map m \<Longrightarrow> map_of m k = Some v \<Longrightarrow> w v + msum w (mput k v' m) = w v' + msum w m"
proof (induction m)
  case Nil
  then show ?case by simp
next
  case (Cons kv m)
  show ?case
  proof (cases "fst kv = k")
    case True
    with Cons.prems show ?thesis by (cases kv) (simp add: ac_simps)
  next
    case False
    with Cons.prems have "map_of m k = Some v" "wf_map m"
      by (cases kv; simp add: wf_map_def)+
    from Cons.IH [OF this(2,1)] False show ?thesis
      by (cases kv) (simp add: ac_simps)
  qed
qed

section \<open>Sums of 64-bit amounts\<close>

lemma unat_add_no_wrap:
  fixes a b :: uint64
  assumes "unat a + unat b < 2 ^ 64"
  shows "unat (a + b) = unat a + unat b"
  using assms by (simp add: unat_word_ariths)

lemma unat_sum_list_no_wrap:
  fixes xs :: "uint64 list"
  assumes "sum_list (map unat xs) < 2 ^ 64"
  shows "unat (sum_list xs) = sum_list (map unat xs)"
  using assms
proof (induction xs)
  case Nil
  then show ?case by simp
next
  case (Cons x xs)
  from Cons.prems have "sum_list (map unat xs) < 2 ^ 64" by simp
  then have IH: "unat (sum_list xs) = sum_list (map unat xs)" by (rule Cons.IH)
  show ?case using Cons.prems IH by (simp add: unat_add_no_wrap)
qed

lemma unat_sum_list_le:
  fixes xs :: "uint64 list"
  shows "unat (sum_list xs) \<le> sum_list (map unat xs)"
proof (induction xs)
  case Nil
  then show ?case by simp
next
  case (Cons x xs)
  have "unat (x + sum_list xs) \<le> unat x + unat (sum_list xs)"
    by (simp add: unat_word_ariths)
  with Cons.IH show ?case by simp
qed

lemma foldl_add_sum_list:
  fixes s :: "'b::comm_monoid_add"
  shows "foldl (\<lambda>acc x. acc + f x) s xs = s + sum_list (map f xs)"
  by (induction xs arbitrary: s) (simp_all add: ac_simps)

end
