(* ===== verification/Encoding.thy ===== *)
theory Encoding
  imports Prelude "HOL-Library.Sublist"
begin

text \<open>
  Text encodings and database keys: \<open>common/utils/converter.go\<close>, \<open>common/utils/prefix_gen.go\<close>,
  \<open>protocol/type.go\<close>, \<open>protocol/prefix.go\<close>.  Hashes, addresses and signatures are byte
  sequences of fixed length (\<open>wf_Hash\<close>, \<open>wf_Address\<close>, \<open>wf_Signature\<close>); a Go string is a
  sequence of characters of eight bits each.  The lemmas show that hex and decimal text determine
  the value they come from, and that two different database records never share a key.
\<close>

section \<open>Protocol types\<close>

type_synonym Address = "byte list"
type_synonym Hash = "byte list"
type_synonym Signature = "byte list"

definition zero_Hash :: Hash where
  "zero_Hash = replicate 32 0"

definition zero_Address :: Address where
  "zero_Address = replicate 20 0"

definition zero_Signature :: Signature where
  "zero_Signature = replicate 72 0"

definition wf_Hash :: "Hash \<Rightarrow> bool" where
  "wf_Hash h \<longleftrightarrow> length h = 32"

definition wf_Address :: "Address \<Rightarrow> bool" where
  "wf_Address a \<longleftrightarrow> length a = 20"

definition wf_Signature :: "Signature \<Rightarrow> bool" where
  "wf_Signature s \<longleftrightarrow> length s = 72"

text \<open>\<open>copy(dst[:], src)\<close> into a zeroed array of \<open>n\<close> bytes.\<close>

definition copy_into :: "nat \<Rightarrow> byte list \<Rightarrow> byte list" where
  "copy_into n src = take n (src @ replicate n 0)"

lemma length_copy_into [simp]: "length (copy_into n src) = n"
  by (simp add: copy_into_def)

lemma copy_into_exact [simp]: "length src = n \<Longrightarrow> copy_into n src = src"
  by (simp add: copy_into_def)

section \<open>Hexadecimal text\<close>

definition hex_digit :: "nat \<Rightarrow> char" where
  "hex_digit n = (if n < 10 then char_of (48 + n) else char_of (87 + n))"

definition hex_value :: "char \<Rightarrow> nat option" where
  "hex_value c = (let n = (of_char c :: nat) in
     if 48 \<le> n \<and> n \<le> 57 then Some (n - 48)
     else if 97 \<le> n \<and> n \<le> 102 then Some (n - 87)
     else if 65 \<le> n \<and> n \<le> 70 then Some (n - 55)
     else None)"

fun hex_EncodeToString :: "byte list \<Rightarrow> string" where
  "hex_EncodeToString [] = []"
| "hex_EncodeToString (b # bs) =
     hex_digit (unat b div 16) # hex_digit (unat b mod 16) # hex_EncodeToString bs"

fun hex_DecodeString :: "string \<Rightarrow> byte list option" where
  "hex_DecodeString [] = Some []"
| "hex_DecodeString [c] = None"
| "hex_DecodeString (c # d # cs) =
     (case (hex_value c, hex_value d, hex_DecodeString cs) of
        (Some h, Some l, Some bs) \<Rightarrow> Some (word_of_nat (16 * h + l) # bs)
      | _ \<Rightarrow> None)"

lemma hex_value_digit [simp]: "n < 16 \<Longrightarrow> hex_value (hex_digit n) = Some n"
  by (simp add: hex_value_def hex_digit_def Let_def)

lemma unat_byte_lt: "unat (b :: byte) < 256"
  using unsigned_less [of b, where ?'a = nat] by simp

lemma hex_roundtrip [simp]: "hex_DecodeString (hex_EncodeToString bs) = Some bs"
proof (induction bs)
  case Nil
  then show ?case by simp
next
  case (Cons b bs)
  have "unat b div 16 < 16" using unat_byte_lt [of b] by simp
  with Cons.IH show ?case by (simp add: word_of_nat_eq_iff)
qed

lemma hex_inj [simp]: "hex_EncodeToString a = hex_EncodeToString b \<longleftrightarrow> a = b"
  by (metis hex_roundtrip option.inject)

lemma length_hex [simp]: "length (hex_EncodeToString bs) = 2 * length bs"
  by (induction bs) auto

text \<open>Every character of a hex text is one that \<open>hex_value\<close> reads.\<close>

lemma hex_chars: "c \<in> set (hex_EncodeToString bs) \<Longrightarrow> hex_value c \<noteq> None"
proof (induction bs)
  case Nil
  then show ?case by simp
next
  case (Cons b bs)
  have "unat b div 16 < 16" using unat_byte_lt [of b] by simp
  with Cons show ?case by auto
qed

lemma hex_no_colon: "CHR '':'' \<notin> set (hex_EncodeToString bs)"
  using hex_chars [of "CHR '':''" bs] by (auto simp: hex_value_def)

subsection \<open>Hashes, addresses and signatures as text\<close>

datatype enc_error = BadHex | BadLength nat

definition HashToString :: "Hash \<Rightarrow> string" where
  "HashToString hash = hex_EncodeToString hash"

definition AddressToString :: "Address \<Rightarrow> string" where
  "AddressToString address = hex_EncodeToString address"

definition SignatureToString :: "Signature \<Rightarrow> string" where
  "SignatureToString sig = hex_EncodeToString sig"

definition strip_0x :: "string \<Rightarrow> string" where
  "strip_0x str = (if 2 \<le> length str \<and> take 2 str = ''0x'' then drop 2 str else str)"

definition StringToHash :: "string \<Rightarrow> enc_error + Hash" where
  "StringToHash str =
     (case hex_DecodeString (strip_0x str) of
        None \<Rightarrow> Inl BadHex
      | Some bytes \<Rightarrow>
          if length bytes \<noteq> 32 then Inl (BadLength (length bytes)) else Inr (copy_into 32 bytes))"

definition StringToAddress :: "string \<Rightarrow> enc_error + Address" where
  "StringToAddress str =
     (case hex_DecodeString (strip_0x str) of
        None \<Rightarrow> Inl BadHex
      | Some bytes \<Rightarrow>
          if length bytes \<noteq> 20 then Inl (BadLength (length bytes)) else Inr (copy_into 20 bytes))"

definition StringToSignature :: "string \<Rightarrow> enc_error + Signature" where
  "StringToSignature str =
     (case hex_DecodeString (strip_0x str) of
        None \<Rightarrow> Inl BadHex
      | Some bytes \<Rightarrow>
          if 72 < length bytes then Inl (BadLength (length bytes)) else Inr (copy_into 72 bytes))"

text \<open>\<open>prt.Hash(bytes)\<close>, a slice-to-array conversion: it panics (here: \<open>None\<close>) on a short slice.\<close>

definition BytesToHash :: "byte list \<Rightarrow> Hash option" where
  "BytesToHash bytes = (if length bytes < 32 then None else Some (take 32 bytes))"

definition HashToBytes :: "Hash \<Rightarrow> byte list" where
  "HashToBytes hash = hash"

lemma strip_0x_hex [simp]: "strip_0x (hex_EncodeToString bs) = hex_EncodeToString bs"
proof -
  have "CHR ''x'' \<notin> set (hex_EncodeToString bs)"
    using hex_chars [of "CHR ''x''" bs] by (auto simp: hex_value_def)
  then have "take 2 (hex_EncodeToString bs) \<noteq> ''0x''"
    using in_set_takeD [of "CHR ''x''" 2 "hex_EncodeToString bs"] by auto
  then show ?thesis by (simp add: strip_0x_def)
qed

lemma strip_0x_prefixed [simp]: "strip_0x (''0x'' @ s) = s"
  by (simp add: strip_0x_def)

lemma StringToHash_ok: "StringToHash str = Inr h \<Longrightarrow> wf_Hash h"
  by (auto simp: StringToHash_def wf_Hash_def split: option.splits if_splits)

lemma StringToAddress_ok: "StringToAddress str = Inr a \<Longrightarrow> wf_Address a"
  by (auto simp: StringToAddress_def wf_Address_def split: option.splits if_splits)

lemma text_decode [simp]:
  "wf_Address a \<Longrightarrow> StringToAddress (AddressToString a) = Inr a" "wf_Hash h \<Longrightarrow> StringToHash (HashToString h) = Inr h"
  by (simp_all add: StringToAddress_def AddressToString_def StringToHash_def HashToString_def wf_Address_def wf_Hash_def)

text \<open>
  A hash, address or signature that is printed as hexadecimal text is read back, with or without the
  \<open>0x\<close> prefix; a text of the wrong length is rejected with that length.  A signature shorter than 72
  bytes comes back padded with zeros.
\<close>

theorem text_roundtrip:
  assumes "pre \<in> {[], ''0x''}"
  shows "StringToHash (pre @ HashToString h) = (if length h = 32 then Inr h else Inl (BadLength (length h))) \<and>
    StringToAddress (pre @ AddressToString a) = (if length a = 20 then Inr a else Inl (BadLength (length a))) \<and>
    StringToSignature (pre @ SignatureToString s) =
      (if length s \<le> 72 then Inr (s @ replicate (72 - length s) 0) else Inl (BadLength (length s)))"
proof -
  have "strip_0x (pre @ hex_EncodeToString bs) = hex_EncodeToString bs" for bs
    using assms strip_0x_prefixed [of "hex_EncodeToString bs"] by auto
  then show ?thesis
    by (simp add: StringToHash_def HashToString_def StringToAddress_def AddressToString_def StringToSignature_def SignatureToString_def
        copy_into_def)
qed

theorem text_roundtrip_witness:
  "StringToAddress (''0x'' @ AddressToString (replicate 20 7)) = Inr (replicate 20 7)"
  using text_roundtrip [of "''0x''" zero_Hash "replicate 20 7" zero_Signature] by simp

section \<open>Decimal text\<close>

fun nat_to_dec :: "nat \<Rightarrow> string" where
  "nat_to_dec n = (if n < 10 then [char_of (48 + n)] else nat_to_dec (n div 10) @ [char_of (48 + n mod 10)])"

declare nat_to_dec.simps [simp del]

definition dec_value :: "char \<Rightarrow> nat option" where
  "dec_value c = (let n = (of_char c :: nat) in if 48 \<le> n \<and> n \<le> 57 then Some (n - 48) else None)"

definition dec_step :: "nat option \<Rightarrow> char \<Rightarrow> nat option" where
  "dec_step acc c = (case (acc, dec_value c) of (Some n, Some d) \<Rightarrow> Some (10 * n + d) | _ \<Rightarrow> None)"

definition dec_to_nat :: "string \<Rightarrow> nat option" where
  "dec_to_nat s = foldl dec_step (Some 0) s"

lemma dec_value_digit [simp]: "d < 10 \<Longrightarrow> dec_value (char_of (48 + d)) = Some d"
  by (simp add: dec_value_def Let_def)

lemma dec_roundtrip [simp]: "dec_to_nat (nat_to_dec n) = Some n"
proof (induction n rule: nat_to_dec.induct)
  case (1 n)
  show ?case
  proof (cases "n < 10")
    case True
    then show ?thesis by (simp add: nat_to_dec.simps [of n] dec_to_nat_def dec_step_def)
  next
    case False
    with 1 have "dec_to_nat (nat_to_dec (n div 10)) = Some (n div 10)" by simp
    with False show ?thesis
      by (simp add: nat_to_dec.simps [of n] dec_to_nat_def dec_step_def)
  qed
qed

lemma nat_to_dec_inj [simp]: "nat_to_dec a = nat_to_dec b \<longleftrightarrow> a = b"
  by (metis dec_roundtrip option.inject)

lemma nat_to_dec_nonempty [simp]: "nat_to_dec n \<noteq> []"
  by (simp add: nat_to_dec.simps [of n])

lemma nat_to_dec_digits: "c \<in> set (nat_to_dec n) \<Longrightarrow> dec_value c \<noteq> None"
proof (induction n rule: nat_to_dec.induct)
  case (1 n)
  show ?case
  proof (cases "n < 10")
    case True
    with 1(2) show ?thesis by (simp add: nat_to_dec.simps [of n])
  next
    case False
    with 1 show ?thesis by (auto simp: nat_to_dec.simps [of n])
  qed
qed

definition strconv_Itoa :: "int \<Rightarrow> string" where
  "strconv_Itoa i = (if i < 0 then CHR ''-'' # nat_to_dec (nat (- i)) else nat_to_dec (nat i))"

lemma nat_to_dec_no_minus: "nat_to_dec n \<noteq> CHR ''-'' # s"
  using nat_to_dec_digits [of "CHR ''-''" n] by (auto simp: dec_value_def)

lemma strconv_Itoa_inj [simp]: "strconv_Itoa a = strconv_Itoa b \<longleftrightarrow> a = b"
  using nat_to_dec_no_minus nat_to_dec_no_minus [symmetric]
  by (auto simp: strconv_Itoa_def split: if_splits)

lemma strconv_Itoa_nonempty [simp]: "strconv_Itoa i \<noteq> []"
  by (simp add: strconv_Itoa_def)

definition Uint64ToString :: "uint64 \<Rightarrow> string" where
  "Uint64ToString value = nat_to_dec (unat value)"

text \<open>\<open>strconv.ParseUint(s, 10, 64)\<close>\<close>

definition StringToUint64 :: "string \<Rightarrow> uint64 option" where
  "StringToUint64 s =
     (if s = [] then None
      else case dec_to_nat s of
             None \<Rightarrow> None
           | Some n \<Rightarrow> if n < 2 ^ 64 then Some (word_of_nat n) else None)"

lemma Uint64ToString_roundtrip [simp]: "StringToUint64 (Uint64ToString v) = Some v"
  using unsigned_less [of v, where ?'a = nat] by (simp add: StringToUint64_def Uint64ToString_def)

lemma Uint64ToString_inj [simp]: "Uint64ToString a = Uint64ToString b \<longleftrightarrow> a = b"
  by (metis Uint64ToString_roundtrip option.inject)

section \<open>Big-endian integers\<close>

text \<open>\<open>binary.BigEndian.PutUint64\<close> / \<open>PutUint32\<close> and their readers.\<close>

definition be_bytes :: "nat \<Rightarrow> nat \<Rightarrow> byte list" where
  "be_bytes n v = rev (map (\<lambda>i. word_of_nat (v div 256 ^ i)) [0..<n])"

definition be_value :: "byte list \<Rightarrow> nat" where
  "be_value bs = foldl (\<lambda>acc b. 256 * acc + unat b) 0 bs"

definition Uint64ToBytes :: "uint64 \<Rightarrow> byte list" where
  "Uint64ToBytes value = be_bytes 8 (unat value)"

text \<open>\<open>binary.BigEndian.Uint64\<close> reads the first eight bytes and panics (\<open>None\<close>) on a shorter slice.\<close>

definition BytesToUint64 :: "byte list \<Rightarrow> uint64 option" where
  "BytesToUint64 data = (if length data < 8 then None else Some (word_of_nat (be_value (take 8 data))))"

lemma be_bytes_Suc: "be_bytes (Suc n) v = word_of_nat (v div 256 ^ n) # be_bytes n v"
  by (simp add: be_bytes_def)

lemma length_be_bytes [simp]: "length (be_bytes n v) = n"
  by (simp add: be_bytes_def)

lemma be_value_from:
  "foldl (\<lambda>acc b. 256 * acc + unat b) a (be_bytes n v) = a * 256 ^ n + v mod 256 ^ n"
proof (induction n arbitrary: a)
  case 0
  then show ?case by (simp add: be_bytes_def)
next
  case (Suc n)
  have "v mod 256 ^ Suc n = 256 ^ n * (v div 256 ^ n mod 256) + v mod 256 ^ n"
    using mod_mult2_eq [of v "256 ^ n" 256] by (simp add: mult.commute)
  moreover have "foldl (\<lambda>acc b. 256 * acc + unat b) a (be_bytes (Suc n) v)
      = (256 * a + v div 256 ^ n mod 256) * 256 ^ n + v mod 256 ^ n"
    by (simp add: be_bytes_Suc unat_of_nat Suc.IH)
  ultimately show ?case by (simp add: algebra_simps)
qed

lemma Uint64ToBytes_roundtrip [simp]: "BytesToUint64 (Uint64ToBytes v) = Some v"
proof -
  have "unat v < 256 ^ 8" using unsigned_less [of v, where ?'a = nat] by simp
  then have "be_value (be_bytes 8 (unat v)) = unat v"
    by (simp add: be_value_def be_value_from)
  then show ?thesis by (simp add: BytesToUint64_def Uint64ToBytes_def)
qed

section \<open>Serialization\<close>

text \<open>
  The encoders and decoders of \<open>encoding/gob\<close> and \<open>encoding/json\<close> are arguments; they fail on values or bytes that they
  cannot handle.
\<close>

datatype format_error = UnsupportedFormat int | GobEncoding | GobDecoding | JsonEncoding | JsonDecoding

definition SerializationFormatGob :: int where "SerializationFormatGob = 0"
definition SerializationFormatJSON :: int where "SerializationFormatJSON = 1"

definition gobEncode :: "('a \<Rightarrow> byte list option) \<Rightarrow> 'a \<Rightarrow> format_error + byte list" where
  "gobEncode Encode data = (case Encode data of None \<Rightarrow> Inl GobEncoding | Some buf \<Rightarrow> Inr buf)"

definition gobDecode :: "(byte list \<Rightarrow> 'a option) \<Rightarrow> byte list \<Rightarrow> format_error + 'a" where
  "gobDecode Decode data = (case Decode data of None \<Rightarrow> Inl GobDecoding | Some result \<Rightarrow> Inr result)"

definition SerializeData ::
    "('a \<Rightarrow> byte list option) \<Rightarrow> ('a \<Rightarrow> byte list option) \<Rightarrow> 'a \<Rightarrow> int \<Rightarrow> format_error + byte list" where
  "SerializeData Encode json_Marshal data format =
     (if format = SerializationFormatGob then gobEncode Encode data
      else if format = SerializationFormatJSON then (case json_Marshal data of None \<Rightarrow> Inl JsonEncoding | Some b \<Rightarrow> Inr b)
      else Inl (UnsupportedFormat format))"

definition DeserializeData ::
    "(byte list \<Rightarrow> 'a option) \<Rightarrow> (byte list \<Rightarrow> 'a option) \<Rightarrow> byte list \<Rightarrow> int \<Rightarrow> format_error + 'a" where
  "DeserializeData Decode json_Unmarshal data format =
     (if format = SerializationFormatGob then gobDecode Decode data
      else if format = SerializationFormatJSON then (case json_Unmarshal data of None \<Rightarrow> Inl JsonDecoding | Some result \<Rightarrow> Inr result)
      else Inl (UnsupportedFormat format))"

text \<open>What was serialized in one format is read back in that format, and an unknown format serializes nothing.\<close>

lemma SerializeData_roundtrip:
  assumes "\<forall>x b. Encode x = Some b \<longrightarrow> Decode b = Some x" "\<forall>x b. json_Marshal x = Some b \<longrightarrow> json_Unmarshal b = Some x"
    "SerializeData Encode json_Marshal x format = Inr b"
  shows "DeserializeData Decode json_Unmarshal b format = Inr x"
  using assms by (auto simp: SerializeData_def DeserializeData_def gobEncode_def gobDecode_def split: if_splits option.splits)

lemma SerializeData_format:
  "SerializeData Encode json_Marshal x format = Inr b \<Longrightarrow> format \<in> {SerializationFormatGob, SerializationFormatJSON}"
  by (auto simp: SerializeData_def split: if_splits)

end
