(* ===== verification/Crypto.thy ===== *)
theory Crypto
  imports Encoding
begin

text \<open>
  Hashing and signatures: \<open>common/utils/crypto.go\<close>, \<open>common/crypto/*.go\<close>.  The primitives the
  code calls (SHA-256, Keccak-256, ECDSA over ASN.1, X.509 key parsing and the textual form that
  \<open>encoding/json\<close> gives a value) are the fields of the parameter \<open>crypto\<close>; what the code relies
  on is stated as the named hypotheses \<open>der_signatures\<close>, \<open>signatures_verify\<close>, \<open>sha256_size\<close>,
  \<open>keccak_size\<close> and \<open>hash_injective_on\<close>.  Key parsing, the DER length logic of
  \<open>VerifySignature\<close> and the address derivation are the code's own and are defined here.
\<close>

section \<open>Parameters\<close>

text \<open>
  The tree of values that \<open>encoding/json\<close> prints.  \<open>JBytes\<close> is a \<open>[]byte\<close> (printed as a
  base64 string), \<open>JArr\<close> also serves byte arrays (printed as lists of numbers).
\<close>

datatype json =
    JNull
  | JBool bool
  | JNum int
  | JStr string
  | JBytes "byte list"
  | JArr "json list"
  | JObj "(string \<times> json) list"

record PublicKey =
  pk_Curve :: string
  pk_X :: nat
  pk_Y :: nat

record PrivateKey =
  sk_D :: nat
  sk_PublicKey :: PublicKey

datatype pkix_key = EcdsaKey PublicKey | OtherKey

record crypto =
  sha256 :: "byte list \<Rightarrow> byte list"
  keccak256 :: "byte list \<Rightarrow> byte list"
  json_text :: "json \<Rightarrow> byte list"
  elliptic_MarshalCompressed :: "PublicKey \<Rightarrow> byte list"
  x509_ParsePKIXPublicKey :: "byte list \<Rightarrow> pkix_key option"
  x509_MarshalPKIXPublicKey :: "PublicKey \<Rightarrow> byte list option"
  x509_ParseECPrivateKey :: "byte list \<Rightarrow> PrivateKey option"
  ecdsa_VerifyASN1 :: "PublicKey \<Rightarrow> byte list \<Rightarrow> byte list \<Rightarrow> bool"
  ecdsa_SignASN1 :: "nat \<Rightarrow> PrivateKey \<Rightarrow> byte list \<Rightarrow> byte list option"

text \<open>
  \<open>ecdsa_SignASN1\<close> takes the random choice of the call as its first argument, so two
  signatures of the same data may differ.
\<close>

definition der_signatures :: "crypto \<Rightarrow> bool" where
  "der_signatures C \<longleftrightarrow>
     (\<forall>r sk d s. ecdsa_SignASN1 C r sk d = Some s \<longrightarrow>
        (\<exists>body. s = 0x30 # word_of_nat (length body) # body \<and> length body \<le> 70))"

definition signatures_verify :: "crypto \<Rightarrow> bool" where
  "signatures_verify C \<longleftrightarrow>
     (\<forall>r sk d s. ecdsa_SignASN1 C r sk d = Some s \<longrightarrow> ecdsa_VerifyASN1 C (sk_PublicKey sk) d s)"

definition sha256_size :: "crypto \<Rightarrow> bool" where
  "sha256_size C \<longleftrightarrow> (\<forall>bs. length (sha256 C bs) = 32)"

definition keccak_size :: "crypto \<Rightarrow> bool" where
  "keccak_size C \<longleftrightarrow> (\<forall>bs. length (keccak256 C bs) = 32)"

text \<open>No collision among the values of \<open>S\<close>: text and digest both tell them apart.\<close>

definition hash_injective_on :: "crypto \<Rightarrow> json set \<Rightarrow> bool" where
  "hash_injective_on C S \<longleftrightarrow> inj_on (\<lambda>j. sha256 C (json_text C j)) S"

section \<open>utils.Hash\<close>

text \<open>
  \<open>json.Marshal\<close> does not fail on the structs that are hashed (they hold integers, strings,
  byte slices and arrays of them), so the \<open>%v\<close> fallback is not reached.
\<close>

definition Hash_json :: "crypto \<Rightarrow> json \<Rightarrow> Hash" where
  "Hash_json C j = sha256 C (json_text C j)"

text \<open>How \<open>encoding/json\<close> sees the field types.\<close>

definition j_array :: "byte list \<Rightarrow> json" where
  "j_array bs = JArr (map (\<lambda>b. JNum (uint b)) bs)"

definition j_bytes :: "byte slice \<Rightarrow> json" where
  "j_bytes s = (case s of None \<Rightarrow> JNull | Some bs \<Rightarrow> JBytes bs)"

definition j_slice :: "('a \<Rightarrow> json) \<Rightarrow> 'a slice \<Rightarrow> json" where
  "j_slice f s = (case s of None \<Rightarrow> JNull | Some xs \<Rightarrow> JArr (map f xs))"

lemma map_inj_eq: "inj f \<Longrightarrow> map f xs = map f ys \<longleftrightarrow> xs = ys"
  by (simp add: inj_map_eq_map)

lemma j_array_inj [simp]: "j_array a = j_array b \<longleftrightarrow> a = b"
proof -
  have "inj (\<lambda>b::byte. JNum (uint b))" by (rule injI) (simp add: unsigned_word_eqI)
  then show ?thesis by (simp add: j_array_def map_inj_eq)
qed

lemma j_bytes_inj [simp]: "j_bytes a = j_bytes b \<longleftrightarrow> a = b"
  by (auto simp: j_bytes_def split: option.splits)

lemma j_slice_inj: "inj f \<Longrightarrow> j_slice f a = j_slice f b \<longleftrightarrow> a = b"
  by (auto simp: j_slice_def map_inj_eq split: option.splits)

section \<open>Keys, addresses and signatures\<close>

datatype crypto_error = EmptyKey | BadKey | NotEcdsa | NilKey | SignFailed | SigTooLong nat

definition BytesToPublicKey :: "crypto \<Rightarrow> byte list \<Rightarrow> crypto_error + PublicKey" where
  "BytesToPublicKey C data =
     (if length data = 0 then Inl EmptyKey
      else case x509_ParsePKIXPublicKey C data of
             None \<Rightarrow> Inl BadKey
           | Some OtherKey \<Rightarrow> Inl NotEcdsa
           | Some (EcdsaKey pub) \<Rightarrow> Inr pub)"

definition PublicKeyToBytes :: "crypto \<Rightarrow> PublicKey option \<Rightarrow> crypto_error + byte list" where
  "PublicKeyToBytes C publicKey =
     (case publicKey of
        None \<Rightarrow> Inl NilKey
      | Some pub \<Rightarrow> (case x509_MarshalPKIXPublicKey C pub of None \<Rightarrow> Inl BadKey | Some bs \<Rightarrow> Inr bs))"

text \<open>An empty slice gives the nil key and no error.\<close>

definition BytesToPrivateKey :: "crypto \<Rightarrow> byte list \<Rightarrow> crypto_error + PrivateKey option" where
  "BytesToPrivateKey C data =
     (if length data = 0 then Inr None
      else case x509_ParseECPrivateKey C data of None \<Rightarrow> Inl BadKey | Some sk \<Rightarrow> Inr (Some sk))"

definition PublicKeyToAddress :: "crypto \<Rightarrow> PublicKey \<Rightarrow> Address" where
  "PublicKeyToAddress C publicKey =
     (let pubBytes = elliptic_MarshalCompressed C publicKey;
          hashBytes = keccak256 C (drop 1 pubBytes)
      in copy_into 20 (drop (length hashBytes - 20) hashBytes))"

definition AddressTo0xPrefixString :: "Address \<Rightarrow> string" where
  "AddressTo0xPrefixString address = ''0x'' @ hex_EncodeToString address"

definition SignData :: "crypto \<Rightarrow> nat \<Rightarrow> PrivateKey option \<Rightarrow> byte list \<Rightarrow> crypto_error + Signature" where
  "SignData C r privateKey data =
     (case privateKey of
        None \<Rightarrow> Inl NilKey
      | Some sk \<Rightarrow>
          (case ecdsa_SignASN1 C r sk data of
             None \<Rightarrow> Inl SignFailed
           | Some signature \<Rightarrow>
               if 72 < length signature then Inl (SigTooLong (length signature))
               else Inr (copy_into 72 signature)))"

definition VerifySignature :: "crypto \<Rightarrow> PublicKey option \<Rightarrow> byte list \<Rightarrow> Signature \<Rightarrow> bool" where
  "VerifySignature C publicKey data sig =
     (case publicKey of
        None \<Rightarrow> False
      | Some pk \<Rightarrow>
          if length sig < 2 \<or> sig ! 0 \<noteq> 0x30 then False
          else let sigLen = 2 + unat (sig ! 1) in
               if length sig < sigLen then False
               else ecdsa_VerifyASN1 C pk data (take sigLen sig))"

definition VerifySignatureWithBytes ::
    "crypto \<Rightarrow> byte list \<Rightarrow> byte list \<Rightarrow> Signature \<Rightarrow> crypto_error + bool" where
  "VerifySignatureWithBytes C publicKeyBytes data sig =
     (if length publicKeyBytes = 0 then Inl EmptyKey
      else case x509_ParsePKIXPublicKey C publicKeyBytes of
             None \<Rightarrow> Inl BadKey
           | Some OtherKey \<Rightarrow> Inl NotEcdsa
           | Some (EcdsaKey publicKey) \<Rightarrow> Inr (VerifySignature C (Some publicKey) data sig))"

section \<open>What they guarantee\<close>

lemma PublicKeyToAddress_length [simp]: "length (PublicKeyToAddress C pk) = 20"
  by (simp add: PublicKeyToAddress_def Let_def)

lemma SignData_length: "SignData C r sk d = Inr s \<Longrightarrow> length s = 72"
  by (auto simp: SignData_def split: option.splits if_splits)

lemma unat_byte_small: "n < 256 \<Longrightarrow> unat (word_of_nat n :: byte) = n"
  by (simp add: unat_of_nat)

text \<open>
  The fixed 72-byte array pads a shorter DER signature with zeros; \<open>VerifySignature\<close> recovers
  the signature from the DER length byte.
\<close>

lemma der_trim:
  assumes "s = 0x30 # word_of_nat (length body) # body" and "length body \<le> 70"
  shows "VerifySignature C (Some pk) d (copy_into 72 s) = ecdsa_VerifyASN1 C pk d s"
proof -
  have len: "length s = 2 + length body" using assms(1) by simp
  then have pad: "copy_into 72 s = s @ replicate (70 - length body) 0"
    using assms(2) by (simp add: copy_into_def)
  have "copy_into 72 s ! 1 = word_of_nat (length body)"
    unfolding pad by (simp add: assms(1))
  then have "unat (copy_into 72 s ! 1) = length body"
    using assms(2) by (simp add: unat_byte_small)
  moreover have "copy_into 72 s ! 0 = 0x30" unfolding pad by (simp add: assms(1))
  moreover have "take (2 + length body) (copy_into 72 s) = s" by (simp add: pad len)
  ultimately show ?thesis
    using assms(2) by (simp add: VerifySignature_def Let_def)
qed

lemma SignData_verifies:
  assumes "der_signatures C" "signatures_verify C" "SignData C r (Some sk) d = Inr sig"
  shows "VerifySignature C (Some (sk_PublicKey sk)) d sig"
proof -
  from assms(3) obtain s where s: "ecdsa_SignASN1 C r sk d = Some s" "sig = copy_into 72 s"
    by (auto simp: SignData_def split: option.splits if_splits)
  from s(1) assms(1) obtain body where
    "s = 0x30 # word_of_nat (length body) # body" "length body \<le> 70"
    unfolding der_signatures_def by blast
  from der_trim [OF this] s assms(2) show ?thesis
    by (simp add: signatures_verify_def)
qed

lemma SignData_ok:
  assumes "der_signatures C" "ecdsa_SignASN1 C r sk d = Some s"
  shows "SignData C r (Some sk) d = Inr (copy_into 72 s)"
proof -
  from assms have "length s \<le> 72" by (force simp: der_signatures_def)
  with assms(2) show ?thesis by (simp add: SignData_def)
qed

lemma VerifySignatureWithBytes_eq:
  "VerifySignatureWithBytes C key d sig =
     bindE (BytesToPublicKey C key) (\<lambda>pk. Inr (VerifySignature C (Some pk) d sig))"
  by (auto simp: VerifySignatureWithBytes_def BytesToPublicKey_def split: option.splits pkix_key.splits)

text \<open>The all-zero signature, which unsigned inputs carry, never verifies.\<close>

lemma zero_signature_invalid: "\<not> VerifySignature C pk d zero_Signature"
  by (simp add: VerifySignature_def zero_Signature_def split: option.split)

end
