(* ===== verification/Keys.thy ===== *)
theory Keys
  imports Encoding
begin

text \<open>
  Database keys: \<open>protocol/prefix.go\<close> and \<open>common/utils/prefix_gen.go\<close>, with the two keys the
  consensus package writes.  Keys are strings (\<open>[]byte(s)\<close> of an ASCII string).  The section on
  separation shows that keys are injective in what they are built from and that the record kinds
  never overlap, so a write under one kind is invisible to the reads of the others.
\<close>

definition PrefixMetaHeight :: string where "PrefixMetaHeight = ''meta:height''"
definition PrefixMetaBlockHash :: string where "PrefixMetaBlockHash = ''meta:hash''"
definition PrefixBlock :: string where "PrefixBlock = ''blk:''"
definition PrefixBlockByHeight :: string where "PrefixBlockByHeight = ''blk:h:''"
definition PrefixTxs :: string where "PrefixTxs = ''tx:''"
definition PrefixTxStatus :: string where "PrefixTxStatus = ''tx:status:''"
definition PrefixTxBlock :: string where "PrefixTxBlock = ''tx:blk:''"
definition PrefixTxIn :: string where "PrefixTxIn = ''tx:in:''"
definition PrefixTxOut :: string where "PrefixTxOut = ''tx:out:''"
definition PrefixUtxo :: string where "PrefixUtxo = ''utxo:''"
definition PrefixUtxoList :: string where "PrefixUtxoList = ''utxo:addr:''"
definition PrefixUtxoBalance :: string where "PrefixUtxoBalance = ''utxo:bal:''"
definition PrefixAddress :: string where "PrefixAddress = ''addr:''"
definition PrefixAddressTxs :: string where "PrefixAddressTxs = ''addr:txs:''"
definition PrefixAddressReceived :: string where "PrefixAddressReceived = ''addr:recv:''"
definition PrefixAddressSent :: string where "PrefixAddressSent = ''addr:sent:''"
definition PrefixStakerInfo :: string where "PrefixStakerInfo = ''staker:''"
definition ValidatorSetKey :: string where "ValidatorSetKey = ''consensus:validators''"

definition WholeTxIdx :: int where "WholeTxIdx = - 1"

lemmas prefix_defs =
  PrefixMetaHeight_def PrefixMetaBlockHash_def PrefixBlock_def PrefixBlockByHeight_def
  PrefixTxs_def PrefixTxStatus_def PrefixTxBlock_def PrefixTxIn_def PrefixTxOut_def
  PrefixUtxo_def PrefixUtxoList_def PrefixUtxoBalance_def PrefixAddress_def PrefixAddressTxs_def
  PrefixAddressReceived_def PrefixAddressSent_def PrefixStakerInfo_def ValidatorSetKey_def

definition GetBlockHeightKey :: "uint64 \<Rightarrow> string" where
  "GetBlockHeightKey height = PrefixBlockByHeight @ Uint64ToString height"

definition GetBlockHashKey :: "Hash \<Rightarrow> string" where
  "GetBlockHashKey hash = PrefixBlock @ HashToString hash"

definition GetTxHashKey :: "Hash \<Rightarrow> string" where
  "GetTxHashKey txHash = PrefixTxs @ HashToString txHash"

definition GetTxStatusKey :: "Hash \<Rightarrow> string" where
  "GetTxStatusKey txHash = PrefixTxStatus @ HashToString txHash"

definition GetTxBlockHashKey :: "Hash \<Rightarrow> string" where
  "GetTxBlockHashKey txHash = PrefixTxBlock @ HashToString txHash"

definition GetTxInputKey :: "Hash \<Rightarrow> int \<Rightarrow> string" where
  "GetTxInputKey txHash index =
     (if 0 \<le> index then PrefixTxIn @ HashToString txHash @ '':'' @ strconv_Itoa index
      else PrefixTxIn @ HashToString txHash)"

definition GetTxOutputKey :: "Hash \<Rightarrow> int \<Rightarrow> string" where
  "GetTxOutputKey txHash index =
     (if 0 \<le> index then PrefixTxOut @ HashToString txHash @ '':'' @ strconv_Itoa index
      else PrefixTxOut @ HashToString txHash)"

definition GetUtxoKey :: "Hash \<Rightarrow> int \<Rightarrow> string" where
  "GetUtxoKey txHash outputIndex = PrefixUtxo @ HashToString txHash @ '':'' @ strconv_Itoa outputIndex"

definition GetUtxoListKey :: "Address \<Rightarrow> string" where
  "GetUtxoListKey address = PrefixUtxoList @ AddressToString address"

definition GetUtxoBalanceKey :: "Address \<Rightarrow> string" where
  "GetUtxoBalanceKey address = PrefixUtxoBalance @ AddressToString address"

text \<open>\<open>fmt.Sprintf("%s%d", proto.PrefixMetaHeight, height)\<close> of \<open>UpdateChainState\<close>.\<close>

definition HeightToHashKey :: "uint64 \<Rightarrow> string" where
  "HeightToHashKey height = PrefixMetaHeight @ Uint64ToString height"

lemmas key_defs =
  GetBlockHeightKey_def GetBlockHashKey_def GetTxHashKey_def GetTxStatusKey_def
  GetTxBlockHashKey_def GetTxInputKey_def GetTxOutputKey_def GetUtxoKey_def GetUtxoListKey_def
  GetUtxoBalanceKey_def HeightToHashKey_def HashToString_def AddressToString_def prefix_defs

section \<open>Separation of keys\<close>

lemma colon_split:
  assumes "c \<notin> set a" "c \<notin> set a'"
  shows "a @ c # b = a' @ c # b' \<longleftrightarrow> a = a' \<and> b = b'"
  using assms
proof (induction a arbitrary: a')
  case Nil
  then show ?case by (cases a') auto
next
  case (Cons x a)
  then show ?case by (cases a') auto
qed

lemma hex_not_in: "hex_value c = None \<Longrightarrow> c \<notin> set (hex_EncodeToString bs)"
  using hex_chars by fastforce

lemma hex_first_not: "hex_value c = None \<Longrightarrow> hex_EncodeToString bs \<noteq> c # s"
  using hex_not_in [of c bs] by auto

lemma GetUtxoKey_inj [simp]: "GetUtxoKey h i = GetUtxoKey h' i' \<longleftrightarrow> h = h' \<and> i = i'"
  using colon_split [OF hex_no_colon [of h] hex_no_colon [of h']] by (simp add: key_defs)

lemma GetUtxoListKey_inj [simp]: "GetUtxoListKey a = GetUtxoListKey b \<longleftrightarrow> a = b"
  by (simp add: key_defs)

lemma GetBlockHashKey_inj [simp]: "GetBlockHashKey a = GetBlockHashKey b \<longleftrightarrow> a = b"
  by (simp add: key_defs)

lemma GetBlockHeightKey_inj [simp]: "GetBlockHeightKey a = GetBlockHeightKey b \<longleftrightarrow> a = b"
  by (simp add: key_defs)

lemma GetTxHashKey_inj [simp]: "GetTxHashKey a = GetTxHashKey b \<longleftrightarrow> a = b"
  by (simp add: key_defs)

lemma GetTxBlockHashKey_inj [simp]: "GetTxBlockHashKey a = GetTxBlockHashKey b \<longleftrightarrow> a = b"
  by (simp add: key_defs)

lemma utxo_key_not_list_key [simp]: "GetUtxoKey h i \<noteq> GetUtxoListKey a" "GetUtxoListKey a \<noteq> GetUtxoKey h i"
proof -
  show "GetUtxoKey h i \<noteq> GetUtxoListKey a"
  proof
    assume "GetUtxoKey h i = GetUtxoListKey a"
    then have eq: "hex_EncodeToString h @ CHR '':'' # strconv_Itoa i
        = CHR ''a'' # CHR ''d'' # CHR ''d'' # CHR ''r'' # CHR '':'' # hex_EncodeToString a"
      by (simp add: key_defs)
    have r: "CHR ''r'' \<notin> set (hex_EncodeToString h)"
      by (rule hex_not_in) (simp add: hex_value_def)
    have "CHR ''r'' = (hex_EncodeToString h @ CHR '':'' # strconv_Itoa i) ! 3" by (simp add: eq)
    moreover have "CHR ''d'' = (hex_EncodeToString h @ CHR '':'' # strconv_Itoa i) ! 2" by (simp add: eq)
    moreover have "CHR ''a'' = (hex_EncodeToString h @ CHR '':'' # strconv_Itoa i) ! 0" by (simp add: eq)
    moreover have "length h = 0 \<or> length h = 1 \<or> 3 < 2 * length h" by arith
    then have "length (hex_EncodeToString h) = 0 \<or> length (hex_EncodeToString h) = 2
        \<or> 3 < length (hex_EncodeToString h)" by auto
    ultimately show False
      using r by (auto simp: nth_append)
  qed
  then show "GetUtxoListKey a \<noteq> GetUtxoKey h i" by metis
qed

text \<open>The kind of a record is the first character of its key.\<close>

lemma key_kinds:
  "hd (GetUtxoKey h i) = CHR ''u''" "hd (GetUtxoListKey a) = CHR ''u''"
  "hd (GetBlockHashKey h) = CHR ''b''" "hd (GetBlockHeightKey n) = CHR ''b''"
  "hd (GetTxHashKey h) = CHR ''t''" "hd (GetTxBlockHashKey h) = CHR ''t''"
  "hd (GetTxInputKey h i) = CHR ''t''" "hd (GetTxOutputKey h i) = CHR ''t''"
  "hd PrefixMetaHeight = CHR ''m''" "hd PrefixMetaBlockHash = CHR ''m''"
  "hd (HeightToHashKey n) = CHR ''m''" "hd PrefixStakerInfo = CHR ''s''"
  "hd ValidatorSetKey = CHR ''c''"
  by (simp_all add: key_defs)

lemma block_hash_key_not_height_key [simp]:
  "GetBlockHashKey h \<noteq> GetBlockHeightKey n" "GetBlockHeightKey n \<noteq> GetBlockHashKey h"
  using hex_first_not [of "CHR ''h''" h] by (auto simp: key_defs hex_value_def dest: sym)

lemma meta_keys_distinct [simp]:
  "HeightToHashKey n \<noteq> PrefixMetaHeight" "PrefixMetaHeight \<noteq> HeightToHashKey n"
  "HeightToHashKey n \<noteq> PrefixMetaBlockHash" "PrefixMetaBlockHash \<noteq> HeightToHashKey n"
  "PrefixMetaHeight \<noteq> PrefixMetaBlockHash" "PrefixMetaBlockHash \<noteq> PrefixMetaHeight"
  by (auto simp: key_defs Uint64ToString_def dest: sym)

end
