(* ===== verification/Data_Model.thy ===== *)
theory Data_Model
  imports Crypto Keys
begin

text \<open>
  The program's data: configuration (\<open>config/config.go\<close>), transactions and their outputs
  (\<open>core/transaction.go\<close>, \<open>core/utxo.go\<close>, \<open>core/type.go\<close>), blocks (\<open>core/block.go\<close>), accounts
  (\<open>core/account.go\<close>), stakers and validators (\<open>consensus/staking.go\<close>,
  \<open>consensus/validator.go\<close>), what is stored of them in LevelDB, and the errors of the core
  package.  A Go pointer to a struct is the struct: nil elements inside slices are not modelled.
  An \<open>int64\<close> timestamp is an \<open>int\<close>; amounts, heights and powers keep their 64 bits.
\<close>

section \<open>Configuration\<close>

record Common =
  cm_Level :: string
  cm_ServiceName :: string
  cm_Port :: int
  cm_Mode :: string
  cm_NetworkID :: string
  cm_BlockProducer :: bool

record Version =
  ver_Transaction :: string
  ver_Protocol :: string

record Genesis =
  gen_SystemAddresses :: "string list"
  gen_SystemBalances :: "uint64 list"
  gen_Timestamp :: int

record ValidatorConfig =
  vc_Address :: string
  vc_PublicKey :: string
  vc_VotingPower :: uint64

record FeeConfig =
  fee_MinFee :: uint64
  fee_BlockReward :: uint64

record TransactionConfig =
  tc_MaxMemoSize :: uint64
  tc_MaxDataSize :: uint64

record Config =
  cfg_Common :: Common
  cfg_Version :: Version
  cfg_Genesis :: Genesis
  cfg_Validators :: "ValidatorConfig list"
  cfg_Fee :: FeeConfig
  cfg_Transaction :: TransactionConfig
  cfg_ProposerSelection :: string

section \<open>Transactions, unspent outputs and blocks\<close>

definition TxTypeGeneral :: uint8 where "TxTypeGeneral = 0"
definition TxTypeStaking :: uint8 where "TxTypeStaking = 1"
definition TxTypeUnStaking :: uint8 where "TxTypeUnStaking = 2"
definition TxTypeCoinbase :: uint8 where "TxTypeCoinbase = 3"
definition TxTypeEtc :: uint8 where "TxTypeEtc = 4"

definition MaxTxsPerBlock :: nat where "MaxTxsPerBlock = 100"

record TxInput =
  in_TxID :: Hash
  in_OutputIndex :: uint64
  in_Signature :: Signature
  in_PublicKey :: "byte slice"

record TxOutput =
  out_Address :: Address
  out_Amount :: uint64
  out_TxType :: uint8

record Transaction =
  tx_Version :: string
  tx_NetworkID :: string
  tx_ID :: Hash
  tx_Timestamp :: int
  tx_Inputs :: "TxInput slice"
  tx_Outputs :: "TxOutput slice"
  tx_Memo :: string
  tx_Data :: "byte slice"

record TxIOPair =
  io_TxIns :: "TxInput slice"
  io_TxOuts :: "TxOutput slice"

record UTXO =
  utxo_TxId :: Hash
  utxo_OutputIndex :: uint64
  utxo_TxOut :: TxOutput
  utxo_Height :: uint64
  utxo_Spent :: bool
  utxo_SpentHeight :: uint64

type_synonym AddrUTXOSet = "(string, bool) gomap"

record BlockHeader =
  hdr_Hash :: Hash
  hdr_PrevHash :: Hash
  hdr_Version :: string
  hdr_Height :: uint64
  hdr_MerkleRoot :: Hash
  hdr_Timestamp :: int

record CommitSignature =
  cs_ValidatorAddress :: Address
  cs_Signature :: Signature
  cs_Timestamp :: int

record Block =
  blk_Header :: BlockHeader
  blk_Transactions :: "Transaction list"
  blk_Proposer :: Address
  blk_Signature :: Signature
  blk_CommitSignatures :: "CommitSignature list"

abbreviation blk_Height :: "Block \<Rightarrow> uint64" where
  "blk_Height b \<equiv> hdr_Height (blk_Header b)"

abbreviation blk_Hash :: "Block \<Rightarrow> Hash" where
  "blk_Hash b \<equiv> hdr_Hash (blk_Header b)"

abbreviation ins :: "Transaction \<Rightarrow> TxInput list" where
  "ins tx \<equiv> elems (tx_Inputs tx)"

abbreviation outs :: "Transaction \<Rightarrow> TxOutput list" where
  "outs tx \<equiv> elems (tx_Outputs tx)"

record Account =
  acc_Address :: Address
  acc_Status :: string
  acc_Balance :: uint64
  acc_CreatedAt :: int
  acc_UpdatedAt :: int

section \<open>Stakers and validators\<close>

record Staker =
  st_Address :: Address
  st_PublicKey :: "byte list"
  st_Amount :: uint64
  st_StartTime :: int
  st_EndTime :: int
  st_IsActive :: bool

record StakerSet =
  ss_Stakers :: "(string, Staker) gomap"
  ss_TotalStaked :: uint64

record Validator =
  val_Address :: Address
  val_PublicKey :: "byte list"
  val_VotingPower :: uint64
  val_IsActive :: bool

record ValidatorSet =
  vs_Validators :: "(string, Validator) gomap"
  vs_TotalVotingPower :: uint64

section \<open>The database\<close>

text \<open>
  A stored value is the Go value that was serialised into it.  Gob writes every field but drops
  empty slices, so a decoded value has nil slices where the original had empty ones
  (\<open>gob_tx\<close>, \<open>gob_block\<close>); decoding into another type fails.  Gob encoding of these types does
  not fail, so the serialisation error branches of the code are not reached.
\<close>

datatype dbval =
    GobBlock Block
  | GobTx Transaction
  | GobTxInputs "TxInput list"
  | GobTxOutputs "TxOutput list"
  | GobTxInput TxInput
  | GobTxOutput TxOutput
  | GobUtxo UTXO
  | GobAddrSet AddrUTXOSet
  | GobAccount Account
  | GobTxList "Hash list"
  | GobStakerSet StakerSet
  | GobValidatorSet ValidatorSet
  | RawBytes "byte list"
  | RawText string

definition gob_in :: "TxInput \<Rightarrow> TxInput" where
  "gob_in i = i\<lparr>in_PublicKey := gob_slice (in_PublicKey i)\<rparr>"

definition gob_tx :: "Transaction \<Rightarrow> Transaction" where
  "gob_tx tx = tx\<lparr>tx_Inputs := gob_slice (map_option (map gob_in) (tx_Inputs tx)),
                  tx_Outputs := gob_slice (tx_Outputs tx),
                  tx_Data := gob_slice (tx_Data tx)\<rparr>"

definition gob_block :: "Block \<Rightarrow> Block" where
  "gob_block b = b\<lparr>blk_Transactions := map gob_tx (blk_Transactions b)\<rparr>"

text \<open>
  LevelDB (\<open>github.com/syndtr/goleveldb\<close>) is a third-party package.  All the program sees of a
  database is what \<open>Get\<close> answers, so a database state is that answer for every key; how writes
  change it is the parameter \<open>db_ops\<close>, with the documented behaviour as the hypothesis
  \<open>db_laws\<close>: a successful write makes each key of the batch answer with the last value put under
  it and leaves every other key as it was.  A write may fail (\<open>None\<close>); \<open>db_reliable\<close> says it
  does not.
\<close>

datatype get_error = ErrNotFound | ErrIO

type_synonym leveldb = "string \<Rightarrow> get_error + dbval"
type_synonym batch = "(string \<times> dbval) list"

record db_ops =
  db_Write :: "leveldb \<Rightarrow> batch \<Rightarrow> leveldb option"
  db_Put :: "leveldb \<Rightarrow> string \<Rightarrow> dbval \<Rightarrow> leveldb option"

fun apply_batch :: "leveldb \<Rightarrow> batch \<Rightarrow> leveldb" where
  "apply_batch d [] = d"
| "apply_batch d ((k, v) # b) = apply_batch (d(k := Inr v)) b"

definition db_laws :: "db_ops \<Rightarrow> bool" where
  "db_laws W \<longleftrightarrow>
     (\<forall>d b d'. db_Write W d b = Some d' \<longrightarrow> d' = apply_batch d b) \<and>
     (\<forall>d k v d'. db_Put W d k v = Some d' \<longrightarrow> d' = d(k := Inr v))"

definition db_reliable :: "db_ops \<Rightarrow> bool" where
  "db_reliable W \<longleftrightarrow> (\<forall>d b. db_Write W d b \<noteq> None) \<and> (\<forall>d k v. db_Put W d k v \<noteq> None)"

text \<open>An in-memory store that satisfies both: the instance the witnesses use.\<close>

definition mem_ops :: db_ops where
  "mem_ops = \<lparr>db_Write = (\<lambda>d b. Some (apply_batch d b)), db_Put = (\<lambda>d k v. Some (d(k := Inr v)))\<rparr>"

definition empty_db :: leveldb where
  "empty_db = (\<lambda>_. Inl ErrNotFound)"

lemma mem_ops_laws [simp]: "db_laws mem_ops" "db_reliable mem_ops"
  by (simp_all add: db_laws_def db_reliable_def mem_ops_def)

lemma db_WriteD: "db_laws W \<Longrightarrow> db_Write W d b = Some d' \<Longrightarrow> d' = apply_batch d b"
  by (simp add: db_laws_def)

lemma db_PutD: "db_laws W \<Longrightarrow> db_Put W d k v = Some d' \<Longrightarrow> d' = d(k := Inr v)"
  by (simp add: db_laws_def)

lemma apply_batch_append: "apply_batch d (a @ b) = apply_batch (apply_batch d a) b"
  by (induction a arbitrary: d) auto

lemma apply_batch_snoc: "apply_batch d (a @ [(k, v)]) = (apply_batch d a)(k := Inr v)"
  by (simp add: apply_batch_append)

lemma apply_batch_other: "k \<notin> fst ` set b \<Longrightarrow> apply_batch d b k = d k"
  by (induction d b rule: apply_batch.induct) auto

text \<open>Reading back a batch: the last put under a key wins.\<close>

lemma apply_batch_map_of: "apply_batch d b k = (case map_of (rev b) k of None \<Rightarrow> d k | Some v \<Rightarrow> Inr v)"
proof (induction b rule: rev_induct)
  case Nil
  then show ?case by simp
next
  case (snoc kv b)
  then show ?case by (cases kv) (simp add: apply_batch_snoc)
qed

section \<open>Errors of the core package\<close>

text \<open>
  The checks of \<open>core/validate.go\<close> on a block and on a transaction, and the errors around them.
  \<open>Wrap msg e\<close> is \<open>fmt.Errorf("msg: %w", e)\<close>.
\<close>

datatype block_check =
    PrevHashMismatch
  | MerkleRootMismatch
  | BlockHashMismatch
  | HeightNotContinuous uint64 uint64
  | TimestampBeforePrev
  | TimestampInFuture
  | TooManyTxs nat
  | DuplicateTx Hash
  | DuplicateUtxo Hash uint64
  | EmptyProposer
  | NotAValidator
  | BadProposerSignature
  | GenesisHeightNotZero
  | GenesisPrevHashNotZero

datatype tx_check =
    TxHashMismatch
  | NetworkMismatch
  | MemoTooLong
  | DataTooLong
  | UtxoNotFound Hash uint64
  | UtxoAlreadySpent Hash uint64
  | InsufficientInput uint64 uint64
  | FeeTooLow uint64 uint64
  | CoinbaseHasInputs
  | CoinbaseNoOutput
  | CoinbaseZeroAmount
  | PublicKeyEmpty
  | KeyMismatch
  | InvalidSignature

datatype core_error =
    DbGet get_error
  | DbWriteFailed
  | Deserialize
  | TxCheck tx_check
  | BlockCheck block_check
  | KeyError crypto_error
  | Wrap string core_error
  | NotEnoughBalance uint64 uint64
  | TxAlreadyInMempool
  | InsufficientCommit uint64 uint64
  | BadCommitSignature Address
  | GenesisCountMismatch
  | GenesisBadAddress
  | BadHeightFormat
  | NoBlocksYet
  | GenesisNotAdded

section \<open>Decoding what was stored\<close>

definition as_block :: "dbval \<Rightarrow> core_error + Block" where
  "as_block v = (case v of GobBlock b \<Rightarrow> Inr b | _ \<Rightarrow> Inl Deserialize)"

definition as_tx :: "dbval \<Rightarrow> core_error + Transaction" where
  "as_tx v = (case v of GobTx t \<Rightarrow> Inr t | _ \<Rightarrow> Inl Deserialize)"

definition as_utxo :: "dbval \<Rightarrow> core_error + UTXO" where
  "as_utxo v = (case v of GobUtxo u \<Rightarrow> Inr u | _ \<Rightarrow> Inl Deserialize)"

definition as_addr_set :: "dbval \<Rightarrow> core_error + AddrUTXOSet" where
  "as_addr_set v = (case v of GobAddrSet s \<Rightarrow> Inr s | _ \<Rightarrow> Inl Deserialize)"

definition as_account :: "dbval \<Rightarrow> core_error + Account" where
  "as_account v = (case v of GobAccount a \<Rightarrow> Inr a | _ \<Rightarrow> Inl Deserialize)"

definition as_tx_list :: "dbval \<Rightarrow> core_error + Hash list" where
  "as_tx_list v = (case v of GobTxList l \<Rightarrow> Inr l | _ \<Rightarrow> Inl Deserialize)"

definition as_bytes :: "dbval \<Rightarrow> core_error + byte list" where
  "as_bytes v = (case v of RawBytes b \<Rightarrow> Inr b | _ \<Rightarrow> Inl Deserialize)"

definition as_text :: "dbval \<Rightarrow> core_error + string" where
  "as_text v = (case v of RawText s \<Rightarrow> Inr s | _ \<Rightarrow> Inl Deserialize)"

lemmas as_defs = as_block_def as_tx_def as_utxo_def as_addr_set_def as_account_def as_tx_list_def
  as_bytes_def as_text_def

lemma as_simps [simp, go_simps]:
  "as_block (GobBlock b) = Inr b" "as_tx (GobTx t) = Inr t" "as_utxo (GobUtxo u) = Inr u"
  "as_addr_set (GobAddrSet s) = Inr s" "as_account (GobAccount a) = Inr a"
  "as_tx_list (GobTxList l) = Inr l" "as_bytes (RawBytes bs) = Inr bs" "as_text (RawText txt) = Inr txt"
  by (simp_all add: as_defs)

lemma as_utxo_Inr [res_simps]: "as_utxo v = Inr u \<longleftrightarrow> v = GobUtxo u"
  by (cases v) (auto simp: as_defs)

lemma as_addr_set_Inr [res_simps]: "as_addr_set v = Inr s \<longleftrightarrow> v = GobAddrSet s"
  by (cases v) (auto simp: as_defs)

lemma as_block_Inr [res_simps]: "as_block v = Inr b \<longleftrightarrow> v = GobBlock b"
  by (cases v) (auto simp: as_defs)

lemma as_bytes_Inr [res_simps]: "as_bytes v = Inr bs \<longleftrightarrow> v = RawBytes bs"
  by (cases v) (auto simp: as_defs)

definition db_Get :: "leveldb \<Rightarrow> string \<Rightarrow> core_error + dbval" where
  "db_Get db key = wrapE DbGet (db key)"

lemma db_Get_Inr [res_simps]: "db_Get db k = Inr v \<longleftrightarrow> db k = Inr v"
  by (simp add: db_Get_def wrapE_Inr)

end
