(* ===== verification/Sample.thy ===== *)
theory Sample
  imports Data_Model
begin

text \<open>
  A concrete instance of the parameters of the model, on which the hypotheses of the theorems are
  shown to hold: a checksum in place of SHA-256 and Keccak-256, keys that are one byte long,
  signatures that name their key, and a network with two funded addresses.
\<close>

section \<open>Hashes and keys\<close>

fun toy_json :: "json \<Rightarrow> byte" where
  "toy_json JNull = 1"
| "toy_json (JBool b) = (if b then 2 else 3)"
| "toy_json (JNum n) = word_of_int n"
| "toy_json (JStr s) = word_of_nat (length s)"
| "toy_json (JBytes bs) = sum_list bs"
| "toy_json (JArr js) = foldl (\<lambda>n j. n + toy_json j) 0 js"
| "toy_json (JObj kvs) = foldl (\<lambda>n kv. n * 3 + toy_json (snd kv)) 0 kvs"

definition toy_hash :: "byte list \<Rightarrow> byte list" where
  "toy_hash bs = replicate 31 0 @ [sum_list bs]"

definition toy_key :: "nat \<Rightarrow> PrivateKey" where
  "toy_key n = \<lparr>sk_D = n, sk_PublicKey = \<lparr>pk_Curve = ''P-256'', pk_X = n, pk_Y = 0\<rparr>\<rparr>"

definition toy :: crypto where
  "toy = \<lparr>sha256 = toy_hash, keccak256 = toy_hash, json_text = (\<lambda>j. [toy_json j]),
     elliptic_MarshalCompressed = (\<lambda>pk. [2, word_of_nat (pk_X pk)]),
     x509_ParsePKIXPublicKey = (\<lambda>bs. if length bs = 1 then Some (EcdsaKey (sk_PublicKey (toy_key (unat (hd bs))))) else None),
     x509_MarshalPKIXPublicKey = (\<lambda>pk. Some [word_of_nat (pk_X pk)]),
     x509_ParseECPrivateKey = (\<lambda>bs. if length bs = 1 then Some (toy_key (unat (hd bs))) else None),
     ecdsa_VerifyASN1 = (\<lambda>pk d s. s = [0x30, 1, word_of_nat (pk_X pk)]),
     ecdsa_SignASN1 = (\<lambda>r sk d. Some [0x30, 1, word_of_nat (pk_X (sk_PublicKey sk))])\<rparr>"

lemma toy_laws [simp]:
  "der_signatures toy" "signatures_verify toy" "sha256_size toy" "keccak_size toy"
proof -
  show "der_signatures toy" unfolding der_signatures_def toy_def by (auto intro: exI [of _ "[_]"])
qed (auto simp: signatures_verify_def sha256_size_def keccak_size_def toy_def toy_hash_def)

section \<open>A network\<close>

definition toy_address :: "byte \<Rightarrow> Address" where
  "toy_address b = replicate 19 0 @ [b]"

lemma toy_address_inj [simp]: "toy_address a = toy_address b \<longleftrightarrow> a = b" "toy_address a = zero_Address \<longleftrightarrow> a = 0"
proof -
  have "zero_Address = toy_address 0" by (simp add: toy_address_def zero_Address_def numeral_eq_Suc)
  then show "toy_address a = zero_Address \<longleftrightarrow> a = 0" by (metis toy_address_def append_same_eq list.inject same_append_eq)
qed (simp add: toy_address_def)

definition toy_cfg :: Config where
  "toy_cfg =
     \<lparr>cfg_Common = \<lparr>cm_Level = ''dev'', cm_ServiceName = ''abcfe'', cm_Port = 8000, cm_Mode = ''boot'', cm_NetworkID = ''abcfe'',
        cm_BlockProducer = True\<rparr>,
      cfg_Version = \<lparr>ver_Transaction = ''1'', ver_Protocol = ''1''\<rparr>,
      cfg_Genesis = \<lparr>gen_SystemAddresses = [AddressToString (toy_address 1), AddressToString (toy_address 2)],
        gen_SystemBalances = [100, 50], gen_Timestamp = 5\<rparr>,
      cfg_Validators = [],
      cfg_Fee = \<lparr>fee_MinFee = 1, fee_BlockReward = 10\<rparr>,
      cfg_Transaction = \<lparr>tc_MaxMemoSize = 0, tc_MaxDataSize = 0\<rparr>,
      cfg_ProposerSelection = ''roundrobin''\<rparr>"

end
