(* ===== verification/Transactions.thy ===== *)
theory Transactions
  imports Sample
begin

text \<open>
  The stateless part of \<open>core/transaction.go\<close> and \<open>core/validate.go\<close>: how a transaction and a
  block header are hashed, \<open>ValidateTxHash\<close>, and the Merkle tree.  The lemmas show that an ID
  commits to everything but the signatures and the nil / empty distinction of inputs and data,
  that it survives a Gob round trip, that the Merkle recursion returns on every non-empty list
  and that a Merkle root binds the list of IDs of a known length.
\<close>

section \<open>Transaction and header hashes\<close>

definition json_TxInput :: "TxInput \<Rightarrow> json" where
  "json_TxInput i = JObj
     [(''txId'', j_array (in_TxID i)),
      (''outputIndex'', JNum (uint (in_OutputIndex i))),
      (''signature'', j_array (in_Signature i)),
      (''publicKey'', j_bytes (in_PublicKey i))]"

definition json_TxOutput :: "TxOutput \<Rightarrow> json" where
  "json_TxOutput out = JObj
     [(''address'', j_array (out_Address out)),
      (''amount'', JNum (uint (out_Amount out))),
      (''txType'', JNum (uint (out_TxType out)))]"

definition json_Transaction :: "Transaction \<Rightarrow> json" where
  "json_Transaction tx = JObj
     [(''version'', JStr (tx_Version tx)),
      (''networkId'', JStr (tx_NetworkID tx)),
      (''id'', j_array (tx_ID tx)),
      (''timestamp'', JNum (tx_Timestamp tx)),
      (''inputs'', j_slice json_TxInput (tx_Inputs tx)),
      (''outputs'', j_slice json_TxOutput (tx_Outputs tx)),
      (''memo'', JStr (tx_Memo tx)),
      (''data'', j_bytes (tx_Data tx))]"

definition json_BlockHeader :: "BlockHeader \<Rightarrow> json" where
  "json_BlockHeader h = JObj
     [(''hash'', j_array (hdr_Hash h)),
      (''prevHash'', j_array (hdr_PrevHash h)),
      (''version'', JStr (hdr_Version h)),
      (''height'', JNum (uint (hdr_Height h))),
      (''merkleRoot'', j_array (hdr_MerkleRoot h)),
      (''timestamp'', JNum (hdr_Timestamp h))]"

definition Hash_Transaction :: "crypto \<Rightarrow> Transaction \<Rightarrow> Hash" where
  "Hash_Transaction C tx = Hash_json C (json_Transaction tx)"

definition Hash_BlockHeader :: "crypto \<Rightarrow> BlockHeader \<Rightarrow> Hash" where
  "Hash_BlockHeader C h = Hash_json C (json_BlockHeader h)"

lemma uint_word_eq [simp]: "uint (a :: 'a::len word) = uint b \<longleftrightarrow> a = b"
  by (auto intro: unsigned_word_eqI)

lemma json_TxInput_inj: "inj json_TxInput"
  by (rule injI) (simp add: json_TxInput_def)

lemma json_TxOutput_inj: "inj json_TxOutput"
  by (rule injI) (simp add: json_TxOutput_def)

lemma json_Transaction_inj: "inj json_Transaction"
  by (rule injI)
    (simp add: json_Transaction_def j_slice_inj [OF json_TxInput_inj] j_slice_inj [OF json_TxOutput_inj])

lemma json_BlockHeader_inj: "inj json_BlockHeader"
  by (rule injI) (simp add: json_BlockHeader_def)

section \<open>ValidateTxHash\<close>

text \<open>
  The function blanks the ID and the signatures, replaces nil data and inputs by empty ones,
  hashes, and restores the fields it changed; its net effect is the comparison.
\<close>

definition clear_sig :: "TxInput \<Rightarrow> TxInput" where
  "clear_sig i = i\<lparr>in_Signature := zero_Signature\<rparr>"

definition tx_preimage :: "Transaction \<Rightarrow> Transaction" where
  "tx_preimage tx = tx\<lparr>
     tx_ID := zero_Hash,
     tx_Data := nil_to_empty (tx_Data tx),
     tx_Inputs := map_option (map clear_sig) (nil_to_empty (tx_Inputs tx))\<rparr>"

definition ValidateTxHash :: "crypto \<Rightarrow> Transaction \<Rightarrow> core_error + unit" where
  "ValidateTxHash C tx =
     guardE (tx_ID tx = Hash_Transaction C (tx_preimage tx)) (TxCheck TxHashMismatch)"

lemma ValidateTxHash_ok [res_simps]:
  "ValidateTxHash C tx = Inr u \<longleftrightarrow> tx_ID tx = Hash_Transaction C (tx_preimage tx)"
  by (simp add: ValidateTxHash_def guardE_Inr)

lemma clear_sig_simps [simp]:
  "in_TxID (clear_sig i) = in_TxID i" "in_OutputIndex (clear_sig i) = in_OutputIndex i"
  "in_PublicKey (clear_sig i) = in_PublicKey i" "in_Signature (clear_sig i) = zero_Signature"
  "clear_sig (clear_sig i) = clear_sig i"
  by (simp_all add: clear_sig_def)

text \<open>
  A transaction whose input keys are non-empty and that has an output keeps its ID when Gob turns
  empty slices into nil ones.
\<close>

definition gob_stable :: "Transaction \<Rightarrow> bool" where
  "gob_stable tx \<longleftrightarrow> outs tx \<noteq> [] \<and> (\<forall>i\<in>set (ins tx). elems (in_PublicKey i) \<noteq> [])"

lemma gob_slice_nonempty: "elems s \<noteq> [] \<Longrightarrow> gob_slice s = s"
  by (cases s) (auto simp: gob_slice_def)

lemma gob_in_stable: "elems (in_PublicKey i) \<noteq> [] \<Longrightarrow> gob_in i = i"
  by (simp add: gob_in_def gob_slice_nonempty)

lemma gob_tx_preimage: "gob_stable tx \<Longrightarrow> tx_preimage (gob_tx tx) = tx_preimage tx"
proof -
  assume st: "gob_stable tx"
  then have "map gob_in (ins tx) = ins tx"
    by (simp add: gob_stable_def gob_in_stable map_idI)
  then have "elems (map_option (map gob_in) (tx_Inputs tx)) = ins tx"
    by (cases "tx_Inputs tx") auto
  then show ?thesis
    using st by (simp add: tx_preimage_def gob_tx_def gob_stable_def gob_slice_nonempty nil_to_empty_def)
qed

lemma gob_tx_ID [simp]: "tx_ID (gob_tx tx) = tx_ID tx"
  by (simp add: gob_tx_def)

section \<open>The Merkle tree\<close>

text \<open>
  \<open>buildMerkleTree\<close> doubles the last hash of an odd level, hashes adjacent pairs and recurses.
  On the empty list the Go code recurses forever: the model is \<open>None\<close> there.
\<close>

definition even_out :: "Hash list \<Rightarrow> Hash list" where
  "even_out hashes = (if length hashes mod 2 \<noteq> 0 then hashes @ [last hashes] else hashes)"

fun hash_pairs :: "crypto \<Rightarrow> Hash list \<Rightarrow> Hash list" where
  "hash_pairs C (a # b # hashes) = sha256 C (a @ b) # hash_pairs C hashes"
| "hash_pairs C hashes = []"

partial_function (option) buildMerkleTree :: "crypto \<Rightarrow> Hash list \<Rightarrow> Hash option" where
  "buildMerkleTree C hashes =
     (if length hashes = 1 then Some (hd hashes)
      else buildMerkleTree C (hash_pairs C (even_out hashes)))"

text \<open>The caller never passes the empty list, so the result is there (\<open>buildMerkleTree_returns\<close>).\<close>

definition calculateMerkleRoot :: "crypto \<Rightarrow> Transaction list \<Rightarrow> Hash" where
  "calculateMerkleRoot C txs =
     (if length txs = 0 then zero_Hash else the (buildMerkleTree C (map tx_ID txs)))"

lemma length_hash_pairs [simp]: "length (hash_pairs C hs) = length hs div 2"
  by (induction C hs rule: hash_pairs.induct) auto

lemma length_even_out: "length (even_out hs) = 2 * ((length hs + 1) div 2)"
  by (simp add: even_out_def) presburger

lemma merkle_level_shorter:
  "2 \<le> length hs \<Longrightarrow> length (hash_pairs C (even_out hs)) < length hs \<and> hash_pairs C (even_out hs) \<noteq> []"
proof -
  assume "2 \<le> length hs"
  then have "length (hash_pairs C (even_out hs)) < length hs" "0 < length (hash_pairs C (even_out hs))"
    by (simp_all add: length_even_out)
  then show ?thesis by (metis length_0_conv less_irrefl)
qed

lemma buildMerkleTree_returns: "hs \<noteq> [] \<Longrightarrow> \<exists>r. buildMerkleTree C hs = Some r"
proof (induction hs rule: length_induct)
  case (1 hs)
  show ?case
  proof (cases "length hs = 1")
    case True
    then show ?thesis by (subst buildMerkleTree.simps) simp
  next
    case False
    with 1(2) have "2 \<le> length hs" by (cases hs; cases "tl hs") auto
    from merkle_level_shorter [OF this] 1(1) have
      "\<exists>r. buildMerkleTree C (hash_pairs C (even_out hs)) = Some r" by blast
    with False show ?thesis by (subst buildMerkleTree.simps) simp
  qed
qed

lemma buildMerkleTree_step:
  "2 \<le> length hs \<Longrightarrow> buildMerkleTree C hs = buildMerkleTree C (hash_pairs C (even_out hs))"
  by (subst buildMerkleTree.simps) simp

lemma buildMerkleTree_single [simp]: "buildMerkleTree C [h] = Some h"
  by (subst buildMerkleTree.simps) simp

text \<open>The byte strings that are hashed on the way to the root.\<close>

fun pair_inputs :: "Hash list \<Rightarrow> byte list list" where
  "pair_inputs (a # b # hashes) = (a @ b) # pair_inputs hashes"
| "pair_inputs hashes = []"

function merkle_inputs :: "crypto \<Rightarrow> Hash list \<Rightarrow> byte list list" where
  "merkle_inputs C hashes =
     (if length hashes < 2 then []
      else pair_inputs (even_out hashes) @ merkle_inputs C (hash_pairs C (even_out hashes)))"
  by pat_completeness auto
termination
proof (relation "measure (\<lambda>(C, hs). length hs)")
  fix C :: crypto and hs :: "Hash list"
  assume "\<not> length hs < 2"
  then show "((C, hash_pairs C (even_out hs)), C, hs) \<in> measure (\<lambda>(C, hs). length hs)"
    using merkle_level_shorter [of hs C] by simp
qed simp

declare merkle_inputs.simps [simp del]

lemma hash_pairs_inputs: "hash_pairs C hs = map (sha256 C) (pair_inputs hs)"
  by (induction C hs rule: hash_pairs.induct) auto

lemma pair_inputs_inj:
  assumes "length xs = length ys" "even (length xs)"
    and "\<forall>h\<in>set xs \<union> set ys. length h = 32" "pair_inputs xs = pair_inputs ys"
  shows "xs = ys"
  using assms
proof (induction xs arbitrary: ys rule: pair_inputs.induct)
  case (1 a b xs)
  from 1(2) obtain c d ys' where ys: "ys = c # d # ys'" by (cases ys; cases "tl ys") auto
  with 1 have "a @ b = c @ d" "length a = length c" "xs = ys'" by auto
  then show ?case by (simp add: ys)
qed (auto simp: length_Suc_conv)

lemma even_out_inj: "length xs = length ys \<Longrightarrow> even_out xs = even_out ys \<Longrightarrow> xs = ys"
  by (auto simp: even_out_def split: if_splits)

lemma even_out_set: "set (even_out hs) \<subseteq> set hs \<union> {last hs}"
  by (auto simp: even_out_def)

lemma even_out_sizes: "hs \<noteq> [] \<Longrightarrow> \<forall>h\<in>set hs. length h = 32 \<Longrightarrow> \<forall>h\<in>set (even_out hs). length h = 32"
  by (auto simp: even_out_def split: if_splits)

lemma merkle_binding:
  assumes "sha256_size C" "length xs = length ys" "xs \<noteq> []"
    and "\<forall>h\<in>set xs \<union> set ys. length h = 32"
    and "inj_on (sha256 C) (set (merkle_inputs C xs) \<union> set (merkle_inputs C ys))"
    and "buildMerkleTree C xs = buildMerkleTree C ys"
  shows "xs = ys"
  using assms(2-)
proof (induction xs arbitrary: ys rule: length_induct)
  case (1 xs)
  show ?case
  proof (cases "length xs < 2")
    case True
    with 1(2,3) obtain a b where "xs = [a]" "ys = [b]"
      by (cases xs; cases ys) auto
    with 1(6) show ?thesis by simp
  next
    case False
    then have two: "2 \<le> length xs" "2 \<le> length ys" using 1(2) by auto
    let ?xs = "hash_pairs C (even_out xs)" and ?ys = "hash_pairs C (even_out ys)"
    have split: "set (merkle_inputs C zs) = set (pair_inputs (even_out zs)) \<union> set (merkle_inputs C (hash_pairs C (even_out zs)))"
      if "2 \<le> length zs" for zs using that by (subst merkle_inputs.simps) simp
    have inj: "inj_on (sha256 C) (set (pair_inputs (even_out xs)) \<union> set (pair_inputs (even_out ys)))"
      "inj_on (sha256 C) (set (merkle_inputs C ?xs) \<union> set (merkle_inputs C ?ys))"
      by (rule inj_on_subset [OF 1(5)], unfold split [OF two(1)] split [OF two(2)], blast)+
    have "?xs = ?ys"
    proof (rule 1(1) [rule_format])
      show "length ?xs < length xs" "?xs \<noteq> []" using merkle_level_shorter [OF two(1)] by auto
      show "length ?xs = length ?ys" using 1(2) by (simp add: length_even_out)
      show "length h = 32" if "h \<in> set ?xs \<union> set ?ys" for h
        using that assms(1) by (auto simp: hash_pairs_inputs sha256_size_def)
      show "buildMerkleTree C ?xs = buildMerkleTree C ?ys"
        using 1(6) two by (simp add: buildMerkleTree_step)
    qed (fact inj(2))
    then have "map (sha256 C) (pair_inputs (even_out xs)) = map (sha256 C) (pair_inputs (even_out ys))"
      by (simp only: hash_pairs_inputs)
    then have pairs: "pair_inputs (even_out xs) = pair_inputs (even_out ys)"
      using inj(1) by (rule map_inj_on)
    have ys: "ys \<noteq> []" using 1(2,3) by auto
    have all32: "\<forall>h\<in>set xs. length h = 32" "\<forall>h\<in>set ys. length h = 32" using 1(4) unfolding ball_Un by blast+
    have sizes: "\<forall>h\<in>set (even_out xs) \<union> set (even_out ys). length h = 32"
      using even_out_sizes [OF 1(3) all32(1)] even_out_sizes [OF ys all32(2)] by (simp only: ball_Un)
    have "length (even_out xs) = length (even_out ys)" "even (length (even_out xs))"
      by (simp_all add: length_even_out 1(2))
    from pair_inputs_inj [OF this sizes pairs] have "even_out xs = even_out ys" .
    with 1(2) show ?thesis by (rule even_out_inj)
  qed
qed

text \<open>
  Doubling the last hash makes an odd list and the list that repeats its last element share
  their root, so the root alone does not bind the number of transactions.
\<close>

lemma merkle_duplicate_last:
  assumes "odd (length hs)" "2 \<le> length hs"
  shows "buildMerkleTree C (hs @ [last hs]) = buildMerkleTree C hs"
proof -
  have "even_out (hs @ [last hs]) = even_out hs" using assms(1) by (simp add: even_out_def odd_iff_mod_2_eq_one)
  then show ?thesis using assms(2) by (simp add: buildMerkleTree_step)
qed

lemma buildMerkleTree_nonempty:
  assumes "buildMerkleTree C hs = Some r"
  shows "hs \<noteq> []"
proof (rule buildMerkleTree.raw_induct [where P = "\<lambda>C hs r. hs \<noteq> []", OF _ assms])
  fix f C hs r
  assume IH: "\<And>C hs y. f C hs = Some y \<Longrightarrow> hs \<noteq> []"
    and step: "(if length hs = 1 then Some (hd hs) else f C (hash_pairs C (even_out hs))) = Some r"
  show "hs \<noteq> []"
  proof
    assume "hs = []"
    with step have "f C [] = Some r" by (simp add: even_out_def)
    from IH [OF this] show False by simp
  qed
qed

section \<open>Properties\<close>

text \<open>
  C32: An identifier commits to a transaction: two transactions that pass the hash check and have the same
  identifier agree in everything that is hashed, that is in all but their signatures and the distinction between
  nil and empty inputs and data, as long as the hash does not collide on the two encodings.
\<close>

theorem tx_id_commits:
  assumes "ValidateTxHash C tx = Inr ()" "ValidateTxHash C tx' = Inr ()" "tx_ID tx = tx_ID tx'"
    "hash_injective_on C {json_Transaction (tx_preimage tx), json_Transaction (tx_preimage tx')}"
  shows "tx_preimage tx = tx_preimage tx'"
proof -
  let ?j = "json_Transaction (tx_preimage tx)" and ?j' = "json_Transaction (tx_preimage tx')"
  have "sha256 C (json_text C ?j) = sha256 C (json_text C ?j')"
    using assms(1-3) by (simp add: ValidateTxHash_ok Hash_Transaction_def Hash_json_def)
  then have "?j = ?j'" using assms(4) unfolding hash_injective_on_def inj_on_def by blast
  with json_Transaction_inj show ?thesis by (rule injD)
qed

definition toy_payment :: "Signature \<Rightarrow> Transaction" where
  "toy_payment sig =
     (let tx = \<lparr>tx_Version = ''1'', tx_NetworkID = ''abcfe'', tx_ID = zero_Hash, tx_Timestamp = 9,
          tx_Inputs = Some [\<lparr>in_TxID = zero_Hash, in_OutputIndex = 0, in_Signature = sig, in_PublicKey = Some [1]\<rparr>],
          tx_Outputs = Some [\<lparr>out_Address = toy_address 2, out_Amount = 5, out_TxType = TxTypeGeneral\<rparr>],
          tx_Memo = [], tx_Data = None\<rparr>
      in tx\<lparr>tx_ID := Hash_Transaction toy (tx_preimage tx)\<rparr>)"

lemma toy_payment_hash [simp]: "ValidateTxHash toy (toy_payment sig) = Inr ()" "gob_stable (toy_payment sig)"
  by (simp_all add: ValidateTxHash_ok toy_payment_def Let_def tx_preimage_def gob_stable_def)

lemma toy_payment_preimage: "tx_preimage (toy_payment a) = tx_preimage (toy_payment b)"
  unfolding toy_payment_def Let_def tx_preimage_def by (simp add: clear_sig_def nil_to_empty_def)

lemma toy_payment_id: "tx_ID (toy_payment a) = tx_ID (toy_payment b)"
  using toy_payment_hash(1) [of a] toy_payment_hash(1) [of b] toy_payment_preimage [of a b] by (simp only: ValidateTxHash_ok)

theorem tx_id_commits_witness: "tx_preimage (toy_payment zero_Signature) = tx_preimage (toy_payment (replicate 72 1))"
  by (rule tx_id_commits [OF toy_payment_hash(1) toy_payment_hash(1) toy_payment_id])
    (simp add: hash_injective_on_def toy_payment_preimage [of "replicate 72 1" zero_Signature])

text \<open>
  A transaction that has an output, and a public key in each input, passes the hash check after it was stored
  and loaded with Gob exactly when it did before: turning empty slices into nil does not change its identifier.
\<close>

theorem gob_keeps_hash:
  assumes "gob_stable tx"
  shows "ValidateTxHash C (gob_tx tx) = ValidateTxHash C tx"
  by (simp add: ValidateTxHash_def gob_tx_preimage [OF assms])

theorem gob_keeps_hash_witness: "ValidateTxHash toy (gob_tx (toy_payment zero_Signature)) = Inr ()"
  using gob_keeps_hash [OF toy_payment_hash(2), of toy zero_Signature] by simp

text \<open>
  The recursion that builds a Merkle tree returns on every non-empty list of hashes, and on the empty list,
  which \<open>calculateMerkleRoot\<close> excludes, it does not.
\<close>

theorem merkle_returns: "buildMerkleTree C hs = None \<longleftrightarrow> hs = []"
  using buildMerkleTree_returns [of hs C] buildMerkleTree_nonempty [of C hs] by (cases "buildMerkleTree C hs") auto



text \<open>
  The length is not bound: an odd list of hashes and the same list with its last hash repeated have the same
  root, so the root of a block does not exclude a duplicated last transaction.
\<close>

theorem merkle_root_duplicate:
  assumes "odd (length txs)" "2 \<le> length txs"
  shows "calculateMerkleRoot C (txs @ [last txs]) = calculateMerkleRoot C txs"
proof -
  have "txs \<noteq> []" using assms by auto
  then show ?thesis
    using merkle_duplicate_last [of "map tx_ID txs" C] assms by (simp add: calculateMerkleRoot_def last_map)
qed

theorem merkle_root_duplicate_witness:
  "\<forall>a b c. calculateMerkleRoot toy [toy_payment a, toy_payment b, toy_payment c, toy_payment c] =
     calculateMerkleRoot toy [toy_payment a, toy_payment b, toy_payment c]"
  using merkle_root_duplicate [of "[toy_payment a, toy_payment b, toy_payment c]" toy for a b c] by simp

end
