(* ===== verification/Mempool.thy ===== *)
theory Mempool
  imports Transactions
begin

text \<open>
  \<open>core/mempool.go\<close>: the pool of transactions that wait for a block, a map from the hex ID to the
  transaction and its fee.  Each method holds the pool's lock, so it is one atomic function here.
  The locale \<open>tx_pool\<close> is the contract its clients (block building, block import, the API) rely
  on; it is interpreted on the pool's operations.
\<close>

section \<open>State and operations\<close>

record TxWithFee =
  twf_Tx :: Transaction
  twf_Fee :: uint64

type_synonym Mempool = "(string, TxWithFee) gomap"

definition NewMempool :: Mempool where
  "NewMempool = []"

definition NewTransactionWithFee :: "Mempool \<Rightarrow> Transaction \<Rightarrow> uint64 \<Rightarrow> core_error + Mempool" where
  "NewTransactionWithFee p tx fee =
     (let txId = HashToString (tx_ID tx) in
      if map_of p txId \<noteq> None then Inl TxAlreadyInMempool
      else Inr (mput txId \<lparr>twf_Tx = tx, twf_Fee = fee\<rparr> p))"

text \<open>The fee is recorded as 0.\<close>

definition NewTranaction :: "Mempool \<Rightarrow> Transaction \<Rightarrow> core_error + Mempool" where
  "NewTranaction p tx =
     (let txId = HashToString (tx_ID tx) in
      if map_of p txId \<noteq> None then Inl TxAlreadyInMempool
      else Inr (mput txId \<lparr>twf_Tx = tx, twf_Fee = 0\<rparr> p))"

definition GetTx_mempool :: "Mempool \<Rightarrow> Hash \<Rightarrow> Transaction option" where
  "GetTx_mempool p txId = map_option twf_Tx (map_of p (HashToString txId))"

text \<open>
  \<open>order\<close> is the sequence in which \<open>range p.transactions\<close> visits the map.  \<open>sort.Slice\<close> is not
  stable; since \<open>order\<close> is arbitrary, a stable sort of it yields every outcome.
\<close>

definition GetTxs :: "(string \<times> TxWithFee) list \<Rightarrow> Transaction list" where
  "GetTxs order =
     (let txsWithFee = sort_key (\<lambda>t. - uint (twf_Fee t)) (map snd order);
          txs = map twf_Tx txsWithFee
      in if MaxTxsPerBlock < length txs then take MaxTxsPerBlock txs else txs)"

definition GetTxCount :: "Mempool \<Rightarrow> nat" where
  "GetTxCount p = length p"

definition DelTx :: "Mempool \<Rightarrow> Hash \<Rightarrow> Mempool" where
  "DelTx p txId = mdel (HashToString txId) p"

definition Clear :: "Mempool \<Rightarrow> Mempool" where
  "Clear p = []"

definition UpdateTxFee :: "Mempool \<Rightarrow> Hash \<Rightarrow> uint64 \<Rightarrow> Mempool" where
  "UpdateTxFee p txId fee =
     (case map_of p (HashToString txId) of
        None \<Rightarrow> p
      | Some t \<Rightarrow> mput (HashToString txId) (t\<lparr>twf_Fee := fee\<rparr>) p)"

definition isOnMempool :: "Mempool \<Rightarrow> Hash \<Rightarrow> uint64 \<Rightarrow> bool" where
  "isOnMempool p txId outputIndex =
     list_ex (\<lambda>(k, t). list_ex (\<lambda>i. in_OutputIndex i = outputIndex \<and> in_TxID i = txId) (ins (twf_Tx t))) p"

section \<open>Invariant\<close>

text \<open>Distinct keys, and every transaction sits under the hex text of its ID.\<close>

definition wf_Mempool :: "Mempool \<Rightarrow> bool" where
  "wf_Mempool p \<longleftrightarrow> wf_map p \<and> (\<forall>(k, t)\<in>set p. k = HashToString (tx_ID (twf_Tx t)))"

lemma wf_MempoolI:
  "wf_map p \<Longrightarrow> (\<And>k t. (k, t) \<in> set p \<Longrightarrow> k = HashToString (tx_ID (twf_Tx t))) \<Longrightarrow> wf_Mempool p"
  by (auto simp: wf_Mempool_def)

lemma wf_NewMempool [simp]: "wf_Mempool NewMempool"
  by (simp add: wf_Mempool_def NewMempool_def)

lemma wf_NewTransactionWithFee: "wf_Mempool p \<Longrightarrow> NewTransactionWithFee p tx fee = Inr p' \<Longrightarrow> wf_Mempool p'"
  by (auto simp: wf_Mempool_def NewTransactionWithFee_def Let_def set_mput split: if_splits)

lemma NewTranaction_fee_0: "NewTranaction p tx = NewTransactionWithFee p tx 0"
  by (simp add: NewTranaction_def NewTransactionWithFee_def)

lemma wf_NewTranaction: "wf_Mempool p \<Longrightarrow> NewTranaction p tx = Inr p' \<Longrightarrow> wf_Mempool p'"
  by (auto simp: NewTranaction_fee_0 dest: wf_NewTransactionWithFee)

lemma wf_DelTx: "wf_Mempool p \<Longrightarrow> wf_Mempool (DelTx p h)"
  by (auto simp: wf_Mempool_def DelTx_def set_mdel)

lemma wf_UpdateTxFee: "wf_Mempool p \<Longrightarrow> wf_Mempool (UpdateTxFee p h fee)"
  by (auto simp: wf_Mempool_def UpdateTxFee_def set_mput split: option.splits dest: map_of_SomeD)

lemma HashToString_inj [simp]: "HashToString a = HashToString b \<longleftrightarrow> a = b"
  by (simp add: HashToString_def)

section \<open>The contract of the pool\<close>

locale tx_pool =
  fixes add :: "'p \<Rightarrow> Transaction \<Rightarrow> core_error + 'p"
    and del :: "'p \<Rightarrow> Hash \<Rightarrow> 'p"
    and look :: "'p \<Rightarrow> Hash \<Rightarrow> Transaction option"
    and invar :: "'p \<Rightarrow> bool"
  assumes add_fails: "invar p \<Longrightarrow> (\<exists>e. add p tx = Inl e) \<longleftrightarrow> look p (tx_ID tx) \<noteq> None"
    and add_invar: "invar p \<Longrightarrow> add p tx = Inr p' \<Longrightarrow> invar p'"
    and add_look: "invar p \<Longrightarrow> add p tx = Inr p' \<Longrightarrow> look p' = (look p)(tx_ID tx \<mapsto> tx)"
    and del_invar: "invar p \<Longrightarrow> invar (del p h)"
    and del_look: "invar p \<Longrightarrow> look (del p h) = (look p)(h := None)"
begin

lemma del_all_invar: "invar p \<Longrightarrow> invar (foldl del p hs)"
  by (induction hs arbitrary: p) (simp_all add: del_invar)

lemma del_all_look: "invar p \<Longrightarrow> look (foldl del p hs) h = (if h \<in> set hs then None else look p h)"
  by (induction hs arbitrary: p) (simp_all add: del_look del_invar)

text \<open>A rejected addition means the ID is pooled already; an accepted one cannot be repeated.\<close>

lemma add_once: "invar p \<Longrightarrow> add p tx = Inr p' \<Longrightarrow> tx_ID tx' = tx_ID tx \<Longrightarrow> \<exists>e. add p' tx' = Inl e"
  using add_fails [of p' tx'] add_look [of p tx p'] add_invar [of p tx p'] by simp

lemma add_del: "invar p \<Longrightarrow> add p tx = Inr p' \<Longrightarrow> look (del p' (tx_ID tx)) = look p"
proof -
  assume p: "invar p" "add p tx = Inr p'"
  have "look p (tx_ID tx) = None" using add_fails [OF p(1), of tx] p(2) by auto
  then show ?thesis using p by (simp add: del_look add_invar add_look fun_upd_idem)
qed

end

interpretation pool: tx_pool NewTranaction DelTx GetTx_mempool wf_Mempool
proof unfold_locales
  fix p tx p' h
  assume wf: "wf_Mempool p"
  show "(\<exists>e. NewTranaction p tx = Inl e) \<longleftrightarrow> GetTx_mempool p (tx_ID tx) \<noteq> None"
    by (auto simp: NewTranaction_def GetTx_mempool_def Let_def)
  show "wf_Mempool (DelTx p h)" using wf by (rule wf_DelTx)
  show "GetTx_mempool (DelTx p h) = (GetTx_mempool p)(h := None)"
    by (rule ext) (simp add: GetTx_mempool_def DelTx_def map_of_mdel)
  assume add: "NewTranaction p tx = Inr p'"
  show "wf_Mempool p'" using wf add by (rule wf_NewTranaction)
  show "GetTx_mempool p' = (GetTx_mempool p)(tx_ID tx \<mapsto> tx)"
    using add by (auto simp: GetTx_mempool_def NewTranaction_def Let_def update_conv fun_eq_iff split: if_splits)
qed

section \<open>Selection for a block\<close>

text \<open>The fee under which the pool keeps a transaction.\<close>

definition pool_fee :: "(string \<times> TxWithFee) list \<Rightarrow> Transaction \<Rightarrow> uint64" where
  "pool_fee p tx = (case map_of p (HashToString (tx_ID tx)) of None \<Rightarrow> 0 | Some t \<Rightarrow> twf_Fee t)"

lemma sort_key_take_drop:
  assumes "x \<in> set (take n (sort_key f xs))" "y \<in> set (drop n (sort_key f xs))"
  shows "f x \<le> f y"
proof -
  have "sorted (map f (take n (sort_key f xs) @ drop n (sort_key f xs)))" by simp
  with assms show ?thesis unfolding map_append sorted_append by auto
qed

lemma GetTxs_eq: "GetTxs order = take MaxTxsPerBlock (map twf_Tx (sort_key (\<lambda>t. - uint (twf_Fee t)) (map snd order)))"
  by (simp add: GetTxs_def Let_def)

lemma GetTxs_length: "length (GetTxs order) = min MaxTxsPerBlock (length order)"
  by (simp add: GetTxs_eq)

lemma set_GetTxs: "set (GetTxs order) \<subseteq> twf_Tx ` snd ` set order"
  unfolding GetTxs_eq by (auto dest!: in_set_takeD)

lemma pool_fee_entry:
  "wf_Mempool p \<Longrightarrow> (k, t) \<in> set p \<Longrightarrow> pool_fee p (twf_Tx t) = twf_Fee t"
proof -
  assume wf: "wf_Mempool p" and kt: "(k, t) \<in> set p"
  then have "map_of p k = Some t" "k = HashToString (tx_ID (twf_Tx t))"
    by (auto simp: wf_Mempool_def map_of_iff_in_set)
  then show ?thesis by (simp add: pool_fee_def)
qed

lemma pool_txs_distinct: "wf_Mempool p \<Longrightarrow> distinct (map (tx_ID \<circ> twf_Tx \<circ> snd) p)"
proof -
  assume wf: "wf_Mempool p"
  then have "map fst p = map HashToString (map (tx_ID \<circ> twf_Tx \<circ> snd) p)"
    by (auto simp: wf_Mempool_def)
  with wf show ?thesis by (metis distinct_map wf_Mempool_def wf_map_def)
qed

lemma GetTxs_distinct:
  assumes "wf_Mempool order"
  shows "distinct (map tx_ID (GetTxs order))"
proof -
  let ?s = "sort_key (\<lambda>t. - uint (twf_Fee t)) (map snd order)"
  have "mset (map (tx_ID \<circ> twf_Tx) ?s) = mset (map (tx_ID \<circ> twf_Tx) (map snd order))"
    by (simp only: mset_map mset_sort)
  then have "distinct (map (tx_ID \<circ> twf_Tx) ?s)"
    using pool_txs_distinct [OF assms] by (metis comp_assoc map_map mset_eq_imp_distinct_iff)
  then show ?thesis
    by (simp add: GetTxs_eq take_map [symmetric] comp_def)
qed

lemma GetTxs_descending:
  assumes "wf_Mempool order"
  shows "sorted (map (\<lambda>tx. - uint (pool_fee order tx)) (GetTxs order))"
proof -
  let ?f = "\<lambda>t. - uint (twf_Fee t)"
  let ?s = "sort_key ?f (map snd order)"
  have fee: "pool_fee order (twf_Tx t) = twf_Fee t" if "t \<in> set ?s" for t
    using that pool_fee_entry [OF assms] by auto
  have "map (\<lambda>tx. - uint (pool_fee order tx)) (map twf_Tx (take MaxTxsPerBlock ?s)) = map ?f (take MaxTxsPerBlock ?s)"
    using fee by (auto dest: in_set_takeD)
  moreover have "sorted (map ?f (take MaxTxsPerBlock ?s))"
    by (metis sorted_sort_key sorted_wrt_take take_map)
  ultimately show ?thesis unfolding GetTxs_eq take_map by metis
qed

lemma GetTxs_best:
  assumes wf: "wf_Mempool order" and "tx \<in> set (GetTxs order)"
    and "(k, t) \<in> set order" and "twf_Tx t \<notin> set (GetTxs order)"
  shows "twf_Fee t \<le> pool_fee order tx"
proof -
  let ?s = "sort_key (\<lambda>t. - uint (twf_Fee t)) (map snd order)"
  obtain t' where t': "t' \<in> set (take MaxTxsPerBlock ?s)" "tx = twf_Tx t'"
    using assms(2) by (auto simp: GetTxs_eq take_map)
  have "t \<in> set ?s" using assms(3) by force
  moreover have "t \<notin> set (take MaxTxsPerBlock ?s)" using assms(4) by (auto simp: GetTxs_eq take_map)
  ultimately have "t \<in> set (drop MaxTxsPerBlock ?s)"
    by (metis Un_iff append_take_drop_id set_append)
  with t'(1) have "- uint (twf_Fee t') \<le> - uint (twf_Fee t)" by (rule sort_key_take_drop)
  moreover have "pool_fee order tx = twf_Fee t'"
    using pool_fee_entry [OF wf] t' by (auto dest!: in_set_takeD)
  ultimately show ?thesis by (simp add: word_le_def)
qed

section \<open>Properties\<close>

text \<open>
  The mempool is a map from identifiers: adding a transaction fails exactly when one with its identifier is
  there; otherwise only that entry appears, the invariant is kept, and deleting it restores every lookup.
\<close>

theorem mempool_contract:
  assumes "wf_Mempool p"
  shows "case NewTranaction p tx of
      Inl e \<Rightarrow> GetTx_mempool p (tx_ID tx) \<noteq> None
    | Inr p' \<Rightarrow> GetTx_mempool p (tx_ID tx) = None \<and> wf_Mempool p' \<and> GetTx_mempool p' = (GetTx_mempool p)(tx_ID tx \<mapsto> tx) \<and>
        GetTx_mempool (DelTx p' (tx_ID tx)) = GetTx_mempool p"
proof (cases "NewTranaction p tx")
  case (Inl e)
  with pool.add_fails [OF assms, of tx] show ?thesis by auto
next
  case (Inr p')
  have "GetTx_mempool p (tx_ID tx) = None" using pool.add_fails [OF assms, of tx] Inr by auto
  with Inr pool.add_invar [OF assms Inr] pool.add_look [OF assms Inr] pool.add_del [OF assms Inr] show ?thesis by simp
qed

theorem mempool_contract_witness: "\<exists>p. NewTranaction NewMempool (toy_payment zero_Signature) = Inr p \<and>
    GetTx_mempool p (tx_ID (toy_payment zero_Signature)) = Some (toy_payment zero_Signature)"
proof -
  obtain p where p: "NewTranaction NewMempool (toy_payment zero_Signature) = Inr p" by (simp add: NewTranaction_def NewMempool_def Let_def)
  from mempool_contract [OF wf_NewMempool, of "toy_payment zero_Signature"] p show ?thesis by simp
qed

text \<open>
  The transactions taken for a block are at most 100 and as many as there are below that, have distinct
  identifiers, come in order of decreasing stored fee, and none that is left out has a larger fee than one taken.
\<close>

theorem GetTxs_selection:
  assumes "wf_Mempool order"
  shows "length (GetTxs order) = min MaxTxsPerBlock (length order) \<and> distinct (map tx_ID (GetTxs order)) \<and>
    sorted (map (\<lambda>tx. - uint (pool_fee order tx)) (GetTxs order)) \<and>
    (\<forall>tx\<in>set (GetTxs order). \<forall>(k, t)\<in>set order. twf_Tx t \<notin> set (GetTxs order) \<longrightarrow> twf_Fee t \<le> pool_fee order tx)"
  using GetTxs_length GetTxs_distinct [OF assms] GetTxs_descending [OF assms] GetTxs_best [OF assms] by blast

theorem GetTxs_selection_witness:
  "length (GetTxs [(HashToString (tx_ID (toy_payment [])), \<lparr>twf_Tx = toy_payment [], twf_Fee = 3\<rparr>)]) = 1"
  using GetTxs_selection [of "[(HashToString (tx_ID (toy_payment [])), \<lparr>twf_Tx = toy_payment [], twf_Fee = 3\<rparr>)]"]
  by (simp add: wf_Mempool_def wf_map_def MaxTxsPerBlock_def)

end
