(* ===== verification/Blockchain.thy ===== *)
theory Blockchain
  imports Mempool
begin

text \<open>
  \<open>core/blockchain.go\<close>: the chain object, its tip in memory and in the database, and the
  configuration getters.  \<open>NewChainState\<close> is in theory \<open>Chain\<close>, after the operations it calls.
  Every method runs under the chain's lock, so each is one atomic step on the record.
\<close>

section \<open>State\<close>

record BlockChain =
  bc_LatestHeight :: uint64
  bc_LatestBlockHash :: string
  bc_db :: leveldb
  bc_cfg :: Config
  bc_Mempool :: Mempool

text \<open>
  The callback interface \<open>ProposerValidator\<close>; the consensus package supplies it
  (\<open>SetProposerValidator\<close>), \<open>None\<close> is the nil interface of a node without one.
\<close>

record ProposerValidator =
  pv_ValidateProposerSignature :: "Address \<Rightarrow> Hash \<Rightarrow> Signature \<Rightarrow> bool"
  pv_IsValidProposer :: "Address \<Rightarrow> uint64 \<Rightarrow> bool"
  pv_ValidateCommitSignatures :: "Hash \<Rightarrow> CommitSignature list \<Rightarrow> core_error + unit"

section \<open>The tip of the chain\<close>

definition LoadChainDB :: "BlockChain \<Rightarrow> core_error + BlockChain" where
  "LoadChainDB p =
     (case bc_db p PrefixMetaHeight of
        Inl ErrIO \<Rightarrow> Inl (Wrap ''failed to load latest height'' (DbGet ErrIO))
      | Inl ErrNotFound \<Rightarrow> Inr (p\<lparr>bc_LatestHeight := 0, bc_LatestBlockHash := []\<rparr>)
      | Inr v \<Rightarrow>
          bindE (as_text v) (\<lambda>heightText.
          case StringToUint64 heightText of
            None \<Rightarrow> Inl (Wrap ''invaild height format'' BadHeightFormat)
          | Some height \<Rightarrow>
              (case bc_db p PrefixMetaBlockHash of
                 Inl ErrIO \<Rightarrow> Inl (Wrap ''failed to load latest block hash'' (DbGet ErrIO))
               | Inl ErrNotFound \<Rightarrow> Inr (p\<lparr>bc_LatestHeight := height, bc_LatestBlockHash := []\<rparr>)
               | Inr w \<Rightarrow>
                   bindE (as_text w) (\<lambda>blkHash.
                   Inr (p\<lparr>bc_LatestHeight := height, bc_LatestBlockHash := blkHash\<rparr>)))))"

text \<open>\<open>GetChainStatus\<close> returns a copy with only the tip set.\<close>

definition GetChainStatus :: "BlockChain option \<Rightarrow> uint64 \<times> string" where
  "GetChainStatus p = (case p of None \<Rightarrow> (0, []) | Some bc \<Rightarrow> (bc_LatestHeight bc, bc_LatestBlockHash bc))"

definition GetLatestHeight :: "BlockChain \<Rightarrow> uint64" where
  "GetLatestHeight p = bc_LatestHeight p"

definition GetLatestBlockHash :: "BlockChain \<Rightarrow> core_error + string" where
  "GetLatestBlockHash p =
     (if bc_LatestBlockHash p = [] then Inl NoBlocksYet else Inr (bc_LatestBlockHash p))"

text \<open>
  The memory update comes before the database write and stays if the write fails; the result is
  the new state together with the error, if any.
\<close>

definition UpdateChainState ::
    "db_ops \<Rightarrow> BlockChain \<Rightarrow> uint64 \<Rightarrow> string \<Rightarrow> BlockChain \<times> core_error option" where
  "UpdateChainState W p height blockHash =
     (if height = 0 \<and> blockHash = [] then (p, None)
      else let p' = p\<lparr>bc_LatestBlockHash := blockHash, bc_LatestHeight := height\<rparr>;
               b = [(PrefixMetaHeight, RawText (Uint64ToString height)),
                    (PrefixMetaBlockHash, RawText blockHash),
                    (HeightToHashKey height, RawText blockHash)]
           in case db_Write W (bc_db p') b of
                None \<Rightarrow> (p', Some DbWriteFailed)
              | Some db' \<Rightarrow> (p'\<lparr>bc_db := db'\<rparr>, None))"

definition GetNetworkID :: "BlockChain \<Rightarrow> string" where
  "GetNetworkID p = cm_NetworkID (cfg_Common (bc_cfg p))"

definition GetMinFee :: "BlockChain \<Rightarrow> uint64" where
  "GetMinFee p = fee_MinFee (cfg_Fee (bc_cfg p))"

definition GetBlockReward :: "BlockChain \<Rightarrow> uint64" where
  "GetBlockReward p = fee_BlockReward (cfg_Fee (bc_cfg p))"

definition GetMaxMemoSize :: "BlockChain \<Rightarrow> uint64" where
  "GetMaxMemoSize p = tc_MaxMemoSize (cfg_Transaction (bc_cfg p))"

definition GetMaxDataSize :: "BlockChain \<Rightarrow> uint64" where
  "GetMaxDataSize p = tc_MaxDataSize (cfg_Transaction (bc_cfg p))"

section \<open>Restart\<close>

text \<open>The database agrees with the tip in memory.\<close>

definition tip_stored :: "BlockChain \<Rightarrow> bool" where
  "tip_stored p \<longleftrightarrow>
     bc_db p PrefixMetaHeight = Inr (RawText (Uint64ToString (bc_LatestHeight p))) \<and>
     bc_db p PrefixMetaBlockHash = Inr (RawText (bc_LatestBlockHash p))"

lemma tip_stored_load:
  "tip_stored p \<Longrightarrow>
   LoadChainDB (q\<lparr>bc_db := bc_db p\<rparr>) =
     Inr (q\<lparr>bc_db := bc_db p, bc_LatestHeight := bc_LatestHeight p, bc_LatestBlockHash := bc_LatestBlockHash p\<rparr>)"
  by (simp add: tip_stored_def LoadChainDB_def)

lemma UpdateChainState_ok:
  assumes "db_laws W" "UpdateChainState W p h s = (p', None)" "\<not> (h = 0 \<and> s = [])"
  shows "tip_stored p'" "bc_LatestHeight p' = h" "bc_LatestBlockHash p' = s"
    "bc_db p' = apply_batch (bc_db p) [(PrefixMetaHeight, RawText (Uint64ToString h)),
       (PrefixMetaBlockHash, RawText s), (HeightToHashKey h, RawText s)]"
proof -
  let ?b = "[(PrefixMetaHeight, RawText (Uint64ToString h)),
       (PrefixMetaBlockHash, RawText s), (HeightToHashKey h, RawText s)]"
  from assms(2,3) obtain db' where db': "db_Write W (bc_db p) ?b = Some db'"
    and p': "p' = p\<lparr>bc_LatestBlockHash := s, bc_LatestHeight := h, bc_db := db'\<rparr>"
    by (auto simp: UpdateChainState_def Let_def split: if_splits option.splits)
  have "db' = apply_batch (bc_db p) ?b" using assms(1) db' by (rule db_WriteD)
  with p' show "tip_stored p'" "bc_LatestHeight p' = h" "bc_LatestBlockHash p' = s"
    "bc_db p' = apply_batch (bc_db p) ?b"
    by (simp_all add: tip_stored_def)
qed

lemma UpdateChainState_frame:
  "UpdateChainState W p h s = (p', e) \<Longrightarrow> bc_cfg p' = bc_cfg p \<and> bc_Mempool p' = bc_Mempool p"
  by (auto simp: UpdateChainState_def Let_def split: if_splits option.splits)

end
