(* ===== verification/Utxo.thy ===== *)
theory Utxo
  imports Blockchain
begin

text \<open>
  \<open>core/utxo.go\<close>: the set of transaction outputs, stored one record per output and one index per
  address.  \<open>UpdateUtxo\<close> reads the database and extends a batch; nothing it puts is visible to its
  own reads.  \<open>utxo_at\<close> is the abstract ledger a database stands for; the lemmas show that
  \<open>UpdateUtxo\<close> refines the abstract step \<open>ledger_step\<close> and keeps the address index complete and
  sound, so that \<open>GetUtxoList\<close> returns exactly the unspent outputs of an address.
\<close>

section \<open>Operations\<close>

definition get_list :: "leveldb \<Rightarrow> Address \<Rightarrow> core_error + AddrUTXOSet" where
  "get_list db a =
     bindE (wrapE (Wrap ''failed to get utxo data from db'') (db_Get db (GetUtxoListKey a))) (\<lambda>v.
     wrapE (Wrap ''failed to deserialize utxo list'') (as_addr_set v))"

text \<open>The body of the first loop of \<open>UpdateUtxo\<close>: one input.\<close>

definition spend_input :: "leveldb \<Rightarrow> uint64 \<Rightarrow> batch \<Rightarrow> TxInput \<Rightarrow> core_error + batch" where
  "spend_input db height b input =
     (let utxoKey = GetUtxoKey (in_TxID input) (go_int (in_OutputIndex input)) in
      bindE (wrapE (Wrap ''failed to get utxo data from db'') (db_Get db utxoKey)) (\<lambda>v.
      bindE (wrapE (Wrap ''failed to deserialize utxo data'') (as_utxo v)) (\<lambda>utxo.
      if utxo_Spent utxo
      then Inl (TxCheck (UtxoAlreadySpent (in_TxID input) (in_OutputIndex input)))
      else
        let utxo' = utxo\<lparr>utxo_Spent := True, utxo_SpentHeight := height\<rparr>;
            b' = b @ [(utxoKey, GobUtxo utxo')];
            owner = out_Address (utxo_TxOut utxo')
        in bindE (get_list db owner) (\<lambda>utxoList.
           Inr (b' @ [(GetUtxoListKey owner, GobAddrSet (mdel utxoKey utxoList))])))))"

definition spend_tx :: "leveldb \<Rightarrow> uint64 \<Rightarrow> batch \<Rightarrow> Transaction \<Rightarrow> core_error + batch" where
  "spend_tx db height b tx = (if 0 < height then foldE (spend_input db height) b (ins tx) else Inr b)"

text \<open>The address lists loaded so far, by address.\<close>

type_synonym addr_map = "(Address, AddrUTXOSet) gomap"

definition load_list :: "leveldb \<Rightarrow> addr_map \<Rightarrow> Address \<Rightarrow> core_error + AddrUTXOSet" where
  "load_list db am a =
     (case map_of am a of
        Some utxoList \<Rightarrow> Inr utxoList
      | None \<Rightarrow>
          (case db (GetUtxoListKey a) of
             Inr v \<Rightarrow> wrapE (Wrap ''failed to deserialize utxo list'') (as_addr_set v)
           | Inl ErrIO \<Rightarrow> Inl (Wrap ''failed to get utxo list'' (DbGet ErrIO))
           | Inl ErrNotFound \<Rightarrow> Inr []))"

definition new_utxo :: "uint64 \<Rightarrow> Hash \<Rightarrow> nat \<Rightarrow> TxOutput \<Rightarrow> UTXO" where
  "new_utxo height txId outputIndex output =
     \<lparr>utxo_TxId = txId, utxo_OutputIndex = go_uint64 outputIndex, utxo_TxOut = output,
      utxo_Height = height, utxo_Spent = False, utxo_SpentHeight = 0\<rparr>"

definition add_output ::
    "leveldb \<Rightarrow> uint64 \<Rightarrow> Hash \<Rightarrow> batch \<times> addr_map \<Rightarrow> nat \<times> TxOutput \<Rightarrow> core_error + (batch \<times> addr_map)" where
  "add_output db height txId st io =
     (let (b, am) = st; (outputIndex, output) = io;
          utxoKey = GetUtxoKey txId (int outputIndex) in
      bindE (load_list db am (out_Address output)) (\<lambda>utxoList.
      Inr (b @ [(utxoKey, GobUtxo (new_utxo height txId outputIndex output))],
           mput (out_Address output) (mput utxoKey True utxoList) am)))"

definition add_outputs ::
    "leveldb \<Rightarrow> uint64 \<Rightarrow> batch \<times> addr_map \<Rightarrow> Transaction \<Rightarrow> core_error + (batch \<times> addr_map)" where
  "add_outputs db height st tx = foldE (add_output db height (tx_ID tx)) st (enumerate 0 (outs tx))"

text \<open>The final loop stores one list per address; the keys differ, so the order does not matter.\<close>

definition UpdateUtxo :: "BlockChain \<Rightarrow> batch \<Rightarrow> Block \<Rightarrow> core_error + batch" where
  "UpdateUtxo p b blk =
     (let db = bc_db p; height = blk_Height blk in
      bindE (foldE (spend_tx db height) b (blk_Transactions blk)) (\<lambda>b1.
      bindE (foldE (add_outputs db height) (b1, []) (blk_Transactions blk)) (\<lambda>(b2, am).
      Inr (b2 @ map (\<lambda>(a, utxoList). (GetUtxoListKey a, GobAddrSet utxoList)) am))))"

definition GetUtxoByTxIdAndIdx :: "BlockChain \<Rightarrow> Hash \<Rightarrow> uint64 \<Rightarrow> core_error + UTXO" where
  "GetUtxoByTxIdAndIdx p txId outputIndex =
     bindE (wrapE (Wrap ''failed to get utxo data from db'')
              (db_Get (bc_db p) (GetUtxoKey txId (go_int outputIndex)))) (\<lambda>v.
     wrapE (Wrap ''failed to deserialize utxo data'') (as_utxo v))"

text \<open>The body of the loop of \<open>GetUtxoList\<close>: load one key of the index and keep it if spendable.\<close>

definition collect_utxo :: "BlockChain \<Rightarrow> bool \<Rightarrow> UTXO list \<Rightarrow> string \<times> bool \<Rightarrow> core_error + UTXO list" where
  "collect_utxo p mempoolCheck result kv =
     bindE (wrapE (Wrap ''failed to get utxo data from db'') (db_Get (bc_db p) (fst kv))) (\<lambda>v.
     bindE (wrapE (Wrap ''failed to deserialize utxo list'') (as_utxo v)) (\<lambda>utxo.
     if utxo_Spent utxo then Inr result
     else if mempoolCheck \<and> isOnMempool (bc_Mempool p) (utxo_TxId utxo) (utxo_OutputIndex utxo)
     then Inr result
     else Inr (result @ [utxo])))"

definition GetUtxoList ::
    "(string, bool) ranging \<Rightarrow> BlockChain \<Rightarrow> Address \<Rightarrow> bool \<Rightarrow> core_error + UTXO list" where
  "GetUtxoList \<rho> p address mempoolCheck =
     bindE (get_list (bc_db p) address) (\<lambda>utxoList.
     foldE (collect_utxo p mempoolCheck) [] (\<rho> utxoList))"

definition CalBalanceUtxo :: "UTXO list \<Rightarrow> uint64" where
  "CalBalanceUtxo utxos =
     foldl (\<lambda>amount utxo. if \<not> utxo_Spent utxo then amount + out_Amount (utxo_TxOut utxo) else amount) 0 utxos"

lemma CalBalanceUtxo_eq:
  "CalBalanceUtxo us = sum_list (map (out_Amount \<circ> utxo_TxOut) (filter (\<lambda>u. \<not> utxo_Spent u) us))"
proof -
  have "foldl (\<lambda>amount utxo. if \<not> utxo_Spent utxo then amount + out_Amount (utxo_TxOut utxo) else amount) s us
    = s + sum_list (map (out_Amount \<circ> utxo_TxOut) (filter (\<lambda>u. \<not> utxo_Spent u) us))" for s
    by (induction us arbitrary: s) (simp_all add: add.assoc)
  then show ?thesis by (simp add: CalBalanceUtxo_def)
qed

section \<open>The abstract ledger\<close>

type_synonym outpoint = "Hash \<times> uint64"
type_synonym ledger = "outpoint \<Rightarrow> UTXO option"

definition utxo_at :: "leveldb \<Rightarrow> ledger" where
  "utxo_at db op = (case db (GetUtxoKey (fst op) (go_int (snd op))) of Inr (GobUtxo u) \<Rightarrow> Some u | _ \<Rightarrow> None)"

definition addr_set :: "leveldb \<Rightarrow> Address \<Rightarrow> AddrUTXOSet option" where
  "addr_set db a = (case db (GetUtxoListKey a) of Inr (GobAddrSet s) \<Rightarrow> Some s | _ \<Rightarrow> None)"

definition in_op :: "TxInput \<Rightarrow> outpoint" where
  "in_op i = (in_TxID i, in_OutputIndex i)"

definition block_inputs :: "Block \<Rightarrow> outpoint list" where
  "block_inputs blk = concat (map (\<lambda>tx. map in_op (ins tx)) (blk_Transactions blk))"

definition tx_new_utxos :: "uint64 \<Rightarrow> Transaction \<Rightarrow> (outpoint \<times> UTXO) list" where
  "tx_new_utxos height tx =
     map (\<lambda>(i, out). ((tx_ID tx, go_uint64 i), new_utxo height (tx_ID tx) i out)) (enumerate 0 (outs tx))"

definition block_new_utxos :: "Block \<Rightarrow> (outpoint \<times> UTXO) list" where
  "block_new_utxos blk = concat (map (tx_new_utxos (blk_Height blk)) (blk_Transactions blk))"

definition mark_spent :: "uint64 \<Rightarrow> UTXO \<Rightarrow> UTXO" where
  "mark_spent height u = u\<lparr>utxo_Spent := True, utxo_SpentHeight := height\<rparr>"

text \<open>
  The specification of a block on the ledger: above the genesis height the outputs it consumes
  are marked spent, then its outputs are added (unspent), replacing what stood there.
\<close>

definition ledger_spend :: "uint64 \<Rightarrow> outpoint set \<Rightarrow> ledger \<Rightarrow> ledger" where
  "ledger_spend height S L op = (if op \<in> S then map_option (mark_spent height) (L op) else L op)"

definition ledger_step :: "Block \<Rightarrow> ledger \<Rightarrow> ledger" where
  "ledger_step blk L =
     ledger_spend (blk_Height blk) (if 0 < blk_Height blk then set (block_inputs blk) else {}) L
       ++ map_of (rev (block_new_utxos blk))"

text \<open>Sizes that fit the index type: a transaction has fewer than \<open>2^63\<close> outputs.\<close>

definition small_block :: "Block \<Rightarrow> bool" where
  "small_block blk \<longleftrightarrow> (\<forall>tx\<in>set (blk_Transactions blk). length (outs tx) < 2 ^ 63)"

lemma utxo_at_Some: "utxo_at db op = Some u \<longleftrightarrow> db (GetUtxoKey (fst op) (go_int (snd op))) = Inr (GobUtxo u)"
  by (auto simp: utxo_at_def split: sum.splits dbval.splits)

lemma addr_set_Some: "addr_set db a = Some s \<longleftrightarrow> db (GetUtxoListKey a) = Inr (GobAddrSet s)"
  by (auto simp: addr_set_def split: sum.splits dbval.splits)

lemma utxo_at_upd [simp]:
  "utxo_at (d(GetUtxoKey h i := Inr (GobUtxo u))) op =
     (if fst op = h \<and> go_int (snd op) = i then Some u else utxo_at d op)"
  "utxo_at (d(GetUtxoListKey a := v)) op = utxo_at d op"
  by (simp_all add: utxo_at_def)

lemma addr_set_upd [simp]:
  "addr_set (d(GetUtxoKey h i := v)) a = addr_set d a"
  "addr_set (d(GetUtxoListKey a' := Inr (GobAddrSet s))) a = (if a = a' then Some s else addr_set d a)"
  by (simp_all add: addr_set_def)

lemma get_list_Inr [res_simps]: "get_list db a = Inr s \<longleftrightarrow> addr_set db a = Some s"
  by (auto simp: get_list_def res_simps addr_set_Some)

lemma GetUtxoByTxIdAndIdx_Inr [res_simps]:
  "GetUtxoByTxIdAndIdx p h i = Inr u \<longleftrightarrow> utxo_at (bc_db p) (h, i) = Some u"
  by (auto simp: GetUtxoByTxIdAndIdx_def res_simps utxo_at_Some)

section \<open>Consuming the inputs\<close>

text \<open>What a successful step for one input does, in terms of the ledger and the index.\<close>

lemma spend_input_Inr:
  "spend_input db h b i = Inr b' \<longleftrightarrow>
     (\<exists>u s. utxo_at db (in_op i) = Some u \<and> \<not> utxo_Spent u \<and>
        addr_set db (out_Address (utxo_TxOut u)) = Some s \<and>
        b' = b @ [(GetUtxoKey (in_TxID i) (go_int (in_OutputIndex i)), GobUtxo (mark_spent h u)),
                  (GetUtxoListKey (out_Address (utxo_TxOut u)),
                   GobAddrSet (mdel (GetUtxoKey (in_TxID i) (go_int (in_OutputIndex i))) s))])"
  by (auto simp: spend_input_def Let_def res_simps utxo_at_Some in_op_def mark_spent_def)

text \<open>
  The state of the first phase after the inputs \<open>ops\<close>: the ledger has exactly them marked, each
  was unspent, and each address list has lost at most keys of them.
\<close>

definition spent_phase :: "leveldb \<Rightarrow> uint64 \<Rightarrow> outpoint set \<Rightarrow> batch \<Rightarrow> bool" where
  "spent_phase db h S b \<longleftrightarrow>
     utxo_at (apply_batch db b) = ledger_spend h S (utxo_at db) \<and>
     (\<forall>op\<in>S. \<exists>u. utxo_at db op = Some u \<and> \<not> utxo_Spent u) \<and>
     (\<forall>a. addr_set (apply_batch db b) a = addr_set db a \<or>
        (\<exists>s op. op \<in> S \<and> addr_set db a = Some s \<and>
           addr_set (apply_batch db b) a = Some (mdel (GetUtxoKey (fst op) (go_int (snd op))) s)))"

lemma spend_input_phase:
  assumes "spent_phase db h S b" "spend_input db h b i = Inr b'"
  shows "spent_phase db h (insert (in_op i) S) b'"
proof -
  let ?k = "GetUtxoKey (in_TxID i) (go_int (in_OutputIndex i))"
  from assms(2) obtain u s where u: "utxo_at db (in_op i) = Some u" "\<not> utxo_Spent u"
    and s: "addr_set db (out_Address (utxo_TxOut u)) = Some s"
    and b': "b' = b @ [(?k, GobUtxo (mark_spent h u)), (GetUtxoListKey (out_Address (utxo_TxOut u)), GobAddrSet (mdel ?k s))]"
    unfolding spend_input_Inr by blast
  let ?d = "apply_batch db b"
  have d': "apply_batch db b' = ?d(?k := Inr (GobUtxo (mark_spent h u)),
      GetUtxoListKey (out_Address (utxo_TxOut u)) := Inr (GobAddrSet (mdel ?k s)))"
    by (simp add: b' apply_batch_append)
  have led: "utxo_at ?d = ledger_spend h S (utxo_at db)"
    using assms(1) by (simp add: spent_phase_def)
  have "utxo_at (apply_batch db b') op = ledger_spend h (insert (in_op i) S) (utxo_at db) op" for op
    using u(1) by (cases op) (auto simp: d' led ledger_spend_def in_op_def go_int_inj)
  moreover have "\<forall>op\<in>insert (in_op i) S. \<exists>u. utxo_at db op = Some u \<and> \<not> utxo_Spent u"
    using assms(1) u by (auto simp: spent_phase_def)
  moreover have "addr_set (apply_batch db b') a = addr_set db a \<or>
        (\<exists>s op. op \<in> insert (in_op i) S \<and> addr_set db a = Some s \<and>
           addr_set (apply_batch db b') a = Some (mdel (GetUtxoKey (fst op) (go_int (snd op))) s))" for a
  proof (cases "a = out_Address (utxo_TxOut u)")
    case True
    then have "addr_set (apply_batch db b') a = Some (mdel ?k s)" by (simp add: d')
    with s True show ?thesis by (auto simp: in_op_def)
  next
    case False
    then have "addr_set (apply_batch db b') a = addr_set ?d a" by (simp add: d')
    with assms(1) show ?thesis unfolding spent_phase_def by fastforce
  qed
  ultimately show ?thesis by (auto simp: spent_phase_def)
qed

lemma spend_inputs_phase:
  "spent_phase db h S b \<Longrightarrow> foldE (spend_input db h) b is = Inr b' \<Longrightarrow> spent_phase db h (S \<union> in_op ` set is) b'"
proof (induction "is" arbitrary: S b)
  case Nil
  then show ?case by simp
next
  case (Cons i "is")
  from Cons.prems(2) obtain b1 where b1: "spend_input db h b i = Inr b1" "foldE (spend_input db h) b1 is = Inr b'"
    by (auto simp: res_simps)
  from spend_input_phase [OF Cons.prems(1) b1(1)] b1(2)
  have "spent_phase db h (insert (in_op i) S \<union> in_op ` set is) b'" by (rule Cons.IH)
  then show ?case by (simp add: insert_commute Un_commute)
qed

lemma spend_txs_phase:
  "0 < h \<Longrightarrow> spent_phase db h S b \<Longrightarrow> foldE (spend_tx db h) b txs = Inr b' \<Longrightarrow>
   spent_phase db h (S \<union> set (concat (map (\<lambda>tx. map in_op (ins tx)) txs))) b'"
proof (induction txs arbitrary: S b)
  case Nil
  then show ?case by simp
next
  case (Cons tx txs)
  from Cons.prems(3) obtain b1 where b1: "spend_tx db h b tx = Inr b1" "foldE (spend_tx db h) b1 txs = Inr b'"
    by (auto simp: res_simps)
  from b1(1) Cons.prems(1) have "foldE (spend_input db h) b (ins tx) = Inr b1" by (simp add: spend_tx_def)
  note b1 = this b1(2)
  from Cons.IH [OF Cons.prems(1) spend_inputs_phase [OF Cons.prems(2) b1(1)] b1(2)]
  show ?case by (simp add: Un_assoc)
qed

lemma spend_genesis: "foldE (spend_tx db 0) b txs = Inr b' \<Longrightarrow> b' = b"
  by (induction txs arbitrary: b) (auto simp: spend_tx_def)

text \<open>A batch that touches no output record and no index leaves both views as they were.\<close>

definition quiet :: "batch \<Rightarrow> bool" where
  "quiet b \<longleftrightarrow> (\<forall>k\<in>fst ` set b. hd k \<noteq> CHR ''u'')"

lemma quiet_views:
  assumes "quiet b"
  shows "utxo_at (apply_batch db b) = utxo_at db" "addr_set (apply_batch db b) = addr_set db"
proof -
  have "apply_batch db b k = db k" if "hd k = CHR ''u''" for k
    using assms that by (intro apply_batch_other) (auto simp: quiet_def)
  then show "utxo_at (apply_batch db b) = utxo_at db" "addr_set (apply_batch db b) = addr_set db"
    by (auto simp: utxo_at_def addr_set_def fun_eq_iff key_kinds)
qed

lemma quiet_phase: "quiet b \<Longrightarrow> spent_phase db h {} b"
  by (auto simp: spent_phase_def quiet_views ledger_spend_def fun_eq_iff)

definition consumed :: "Block \<Rightarrow> outpoint set" where
  "consumed blk = (if 0 < blk_Height blk then set (block_inputs blk) else {})"

lemma spend_block_phase:
  assumes "quiet b" "foldE (spend_tx db (blk_Height blk)) b (blk_Transactions blk) = Inr b1"
  shows "spent_phase db (blk_Height blk) (consumed blk) b1"
proof (cases "blk_Height blk = 0")
  case True
  with assms spend_genesis have "b1 = b" by metis
  with assms(1) True show ?thesis by (simp add: quiet_phase consumed_def)
next
  case False
  then have "0 < blk_Height blk" by (simp add: word_gt_0)
  from spend_txs_phase [OF this quiet_phase [OF assms(1)] assms(2)] this
  show ?thesis by (simp add: consumed_def block_inputs_def)
qed


section \<open>Adding the outputs\<close>

abbreviation owner :: "UTXO \<Rightarrow> Address" where
  "owner u \<equiv> out_Address (utxo_TxOut u)"

definition op_key :: "outpoint \<Rightarrow> string" where
  "op_key op = GetUtxoKey (fst op) (go_int (snd op))"

lemma op_key_inj [simp]: "op_key a = op_key b \<longleftrightarrow> a = b"
  by (cases a; cases b) (simp add: op_key_def go_int_inj)

lemma utxo_at_key: "utxo_at db op = Some u \<longleftrightarrow> db (op_key op) = Inr (GobUtxo u)"
  by (simp add: utxo_at_Some op_key_def)

definition index_keys :: "leveldb \<Rightarrow> Address \<Rightarrow> string set" where
  "index_keys db a = (case addr_set db a of None \<Rightarrow> {} | Some s \<Rightarrow> fst ` set s)"

text \<open>The keys that a list of new outputs adds to the index of an address.\<close>

definition new_keys :: "(outpoint \<times> UTXO) list \<Rightarrow> Address \<Rightarrow> string set" where
  "new_keys news a = {op_key op | op u. (op, u) \<in> set news \<and> owner u = a}"

definition index_wf :: "leveldb \<Rightarrow> bool" where
  "index_wf db \<longleftrightarrow> (\<forall>a s. addr_set db a = Some s \<longrightarrow> wf_map s)"

definition list_of :: "leveldb \<Rightarrow> (outpoint \<times> UTXO) list \<Rightarrow> Address \<Rightarrow> AddrUTXOSet \<Rightarrow> bool" where
  "list_of db news a s \<longleftrightarrow> fst ` set s = index_keys db a \<union> new_keys news a \<and> wf_map s"

definition out_phase ::
    "leveldb \<Rightarrow> ledger \<Rightarrow> (Address \<Rightarrow> AddrUTXOSet option) \<Rightarrow> (outpoint \<times> UTXO) list \<Rightarrow> batch \<times> addr_map \<Rightarrow> bool" where
  "out_phase db L A news st \<longleftrightarrow>
     utxo_at (apply_batch db (fst st)) = L ++ map_of (rev news) \<and>
     addr_set (apply_batch db (fst st)) = A \<and>
     wf_map (snd st) \<and>
     fst ` set (snd st) = owner ` snd ` set news \<and>
     (\<forall>a s. map_of (snd st) a = Some s \<longrightarrow> list_of db news a s)"

lemma load_list_Inr:
  "load_list db am a = Inr s \<Longrightarrow> map_of am a = Some s \<or>
     (map_of am a = None \<and> (addr_set db a = Some s \<or> addr_set db a = None \<and> s = []))"
  by (auto simp: load_list_def addr_set_def res_simps split: option.splits sum.splits get_error.splits)

lemma new_keys_snoc:
  "new_keys (news @ [(op, u)]) a = (if owner u = a then insert (op_key op) (new_keys news a) else new_keys news a)"
  by (cases op) (auto simp: new_keys_def)

lemma new_keys_no_owner: "a \<notin> owner ` snd ` set news \<Longrightarrow> new_keys news a = {}"
  by (force simp: new_keys_def)

lemma load_list_of:
  assumes "out_phase db L A news (b, am)" "index_wf db" "load_list db am a = Inr s"
  shows "list_of db news a s"
  using load_list_Inr [OF assms(3)]
proof
  assume "map_of am a = Some s"
  with assms(1) show ?thesis by (simp add: out_phase_def)
next
  assume new: "map_of am a = None \<and> (addr_set db a = Some s \<or> addr_set db a = None \<and> s = [])"
  then have "a \<notin> owner ` snd ` set news"
    using assms(1) by (simp add: out_phase_def map_of_eq_None_iff)
  then have "new_keys news a = {}" by (rule new_keys_no_owner)
  with new assms(2) show ?thesis by (elim conjE disjE) (simp_all add: list_of_def index_keys_def index_wf_def)
qed

lemma list_of_add:
  "list_of db news (owner u) s \<Longrightarrow> list_of db (news @ [(op, u)]) (owner u) (mput (op_key op) True s)"
  by (force simp: list_of_def new_keys_snoc set_mput)

lemma add_output_phase:
  assumes ph: "out_phase db L A news st" and wf: "index_wf db"
    and ok: "add_output db h txId st (i, out) = Inr st'" and i: "i < 2 ^ 63"
  shows "out_phase db L A (news @ [((txId, go_uint64 i), new_utxo h txId i out)]) st'"
proof -
  obtain b am where st: "st = (b, am)" by (cases st)
  let ?u = "new_utxo h txId i out" and ?op = "(txId, go_uint64 i)"
  have own: "owner ?u = out_Address out" by (simp add: new_utxo_def)
  have key: "GetUtxoKey txId (int i) = op_key ?op" using i by (simp add: op_key_def go_int_go_uint64)
  from ok obtain s where s: "load_list db am (out_Address out) = Inr s"
    and st': "st' = (b @ [(op_key ?op, GobUtxo ?u)], mput (out_Address out) (mput (op_key ?op) True s) am)"
    by (auto simp: add_output_def st key res_simps Let_def)
  from load_list_of [OF ph [unfolded st] wf s] have l: "list_of db news (out_Address out) s" .
  have "utxo_at (apply_batch db (fst st')) op = (L ++ map_of (rev (news @ [(?op, ?u)]))) op" for op
    using ph by (cases op) (auto simp: out_phase_def st st' apply_batch_snoc op_key_def go_int_inj map_add_def)
  moreover have "addr_set (apply_batch db (fst st')) = A"
    using ph by (auto simp: out_phase_def st st' apply_batch_snoc op_key_def)
  moreover have "wf_map (snd st')" using ph by (simp add: out_phase_def st st')
  moreover have "fst ` set (snd st') = owner ` snd ` set (news @ [(?op, ?u)])"
    using ph by (auto simp: out_phase_def st st' dom_update own)
  moreover have "list_of db (news @ [(?op, ?u)]) a t" if "map_of (snd st') a = Some t" for a t
  proof (cases "a = out_Address out")
    case True
    then have "t = mput (op_key ?op) True s" using that by (simp add: st' map_of_mput)
    with l True own list_of_add [of db news ?u s ?op] show ?thesis by simp
  next
    case False
    then have "map_of am a = Some t" using that by (simp add: st' map_of_mput)
    with ph have "list_of db news a t" by (simp add: out_phase_def st)
    with False own show ?thesis by (simp add: list_of_def new_keys_snoc)
  qed
  ultimately show ?thesis by (auto simp: out_phase_def)
qed

lemma enumerate_Suc_map: "enumerate n (xs @ [x]) = enumerate n xs @ [(n + length xs, x)]"
  by (simp add: enumerate_append_eq)

lemma add_outputs_phase:
  assumes "out_phase db L A news st" "index_wf db" "add_outputs db h st tx = Inr st'" "length (outs tx) < 2 ^ 63"
  shows "out_phase db L A (news @ tx_new_utxos h tx) st'"
proof -
  define f where "f = (\<lambda>(i, out). ((tx_ID tx, go_uint64 i), new_utxo h (tx_ID tx) i out))"
  have "out_phase db L A (news @ map f xs) st'"
    if "foldE (add_output db h (tx_ID tx)) st xs = Inr st'" "\<forall>x\<in>set xs. fst x < 2 ^ 63"
      "out_phase db L A news st" for xs news st
    using that
  proof (induction xs arbitrary: st news)
    case Nil
    then show ?case by simp
  next
    case (Cons x xs)
    from Cons.prems(1) obtain st1 where st1: "add_output db h (tx_ID tx) st x = Inr st1"
      "foldE (add_output db h (tx_ID tx)) st1 xs = Inr st'" by (auto simp: res_simps)
    obtain i out where x: "x = (i, out)" by (cases x)
    have "out_phase db L A (news @ [f x]) st1"
      using add_output_phase [OF Cons.prems(3) assms(2) st1(1) [unfolded x]] Cons.prems(2) by (simp add: x f_def)
    from Cons.IH [OF st1(2) _ this] Cons.prems(2) show ?case by simp
  qed
  from this [OF assms(3) [unfolded add_outputs_def] _ assms(1)] assms(4)
  show ?thesis by (auto simp: tx_new_utxos_def f_def in_set_enumerate_eq)
qed

lemma add_block_phase:
  assumes "index_wf db" "foldE (add_outputs db h) st txs = Inr st'"
    "\<forall>tx\<in>set txs. length (outs tx) < 2 ^ 63" "out_phase db L A news st"
  shows "out_phase db L A (news @ concat (map (tx_new_utxos h) txs)) st'"
  using assms(2-)
proof (induction txs arbitrary: st news)
  case Nil
  then show ?case by simp
next
  case (Cons tx txs)
  from Cons.prems(1) obtain st1 where st1: "add_outputs db h st tx = Inr st1"
    "foldE (add_outputs db h) st1 txs = Inr st'" by (auto simp: res_simps)
  have "out_phase db L A (news @ tx_new_utxos h tx) st1"
    by (rule add_outputs_phase [OF Cons.prems(3) assms(1) st1(1)]) (use Cons.prems(2) in simp)
  from Cons.IH [OF st1(2) _ this] Cons.prems(2) show ?case by simp
qed

text \<open>The final loop over the loaded lists.\<close>

definition store_lists :: "addr_map \<Rightarrow> batch" where
  "store_lists am = map (\<lambda>(a, utxoList). (GetUtxoListKey a, GobAddrSet utxoList)) am"

lemma store_lists_views:
  assumes "wf_map am"
  shows "utxo_at (apply_batch d (store_lists am)) = utxo_at d"
    "addr_set (apply_batch d (store_lists am)) a = (case map_of am a of None \<Rightarrow> addr_set d a | Some s \<Rightarrow> Some s)"
proof -
  have "op_key op \<notin> fst ` set (store_lists am)" for op
    by (auto simp: store_lists_def op_key_def)
  then have "apply_batch d (store_lists am) (op_key op) = d (op_key op)" for op
    by (rule apply_batch_other)
  then show "utxo_at (apply_batch d (store_lists am)) = utxo_at d"
    by (auto simp: utxo_at_def op_key_def fun_eq_iff)
  show "addr_set (apply_batch d (store_lists am)) a = (case map_of am a of None \<Rightarrow> addr_set d a | Some s \<Rightarrow> Some s)"
    using assms
  proof (induction am arbitrary: d)
    case Nil
    then show ?case by (simp add: store_lists_def)
  next
    case (Cons kv am)
    obtain a' s' where kv: "kv = (a', s')" by (cases kv)
    have wf: "wf_map am" "map_of am a' = None"
      using Cons.prems by (auto simp: kv wf_map_def map_of_eq_None_iff)
    have "apply_batch d (store_lists (kv # am)) = apply_batch (d(GetUtxoListKey a' := Inr (GobAddrSet s'))) (store_lists am)"
      by (simp add: store_lists_def kv)
    with Cons.IH [OF wf(1)] wf(2) show ?case by (auto simp: kv split: option.split)
  qed
qed


section \<open>Refinement of a block\<close>

lemma UpdateUtxo_phases:
  assumes "UpdateUtxo p b blk = Inr b'"
  obtains b1 b2 am where
    "foldE (spend_tx (bc_db p) (blk_Height blk)) b (blk_Transactions blk) = Inr b1"
    "foldE (add_outputs (bc_db p) (blk_Height blk)) (b1, []) (blk_Transactions blk) = Inr (b2, am)"
    "b' = b2 @ store_lists am"
  using assms by (auto simp: UpdateUtxo_def store_lists_def Let_def res_simps)

text \<open>
  What a successful \<open>UpdateUtxo\<close> leaves: the ledger is the abstract step of the old one, the
  consumed outputs were unspent, and the index of every owner of a new output is the stored one
  with the new keys, that of any other address loses at most consumed keys.
\<close>

lemma UpdateUtxo_effect:
  assumes "UpdateUtxo p b blk = Inr b'" "quiet b" "index_wf (bc_db p)" "small_block blk"
  defines "d \<equiv> apply_batch (bc_db p) b'" and "news \<equiv> block_new_utxos blk"
  shows "utxo_at d = ledger_step blk (utxo_at (bc_db p))"
    and "\<forall>op\<in>consumed blk. \<exists>u. utxo_at (bc_db p) op = Some u \<and> \<not> utxo_Spent u"
    and "a \<in> owner ` snd ` set news \<Longrightarrow> \<exists>s. addr_set d a = Some s \<and> list_of (bc_db p) news a s"
    and "a \<notin> owner ` snd ` set news \<Longrightarrow> addr_set d a = addr_set (bc_db p) a \<or>
          (\<exists>s op. op \<in> consumed blk \<and> addr_set (bc_db p) a = Some s \<and> addr_set d a = Some (mdel (op_key op) s))"
proof -
  obtain b1 b2 am where ph:
    "foldE (spend_tx (bc_db p) (blk_Height blk)) b (blk_Transactions blk) = Inr b1"
    "foldE (add_outputs (bc_db p) (blk_Height blk)) (b1, []) (blk_Transactions blk) = Inr (b2, am)"
    and b': "b' = b2 @ store_lists am"
    by (rule UpdateUtxo_phases [OF assms(1)])
  from spend_block_phase [OF assms(2) ph(1)]
  have sp: "spent_phase (bc_db p) (blk_Height blk) (consumed blk) b1" .
  let ?A = "addr_set (apply_batch (bc_db p) b1)"
  have "out_phase (bc_db p) (utxo_at (apply_batch (bc_db p) b1)) ?A [] (b1, [])"
    by (simp add: out_phase_def)
  from add_block_phase [OF assms(3) ph(2) _ this] assms(4)
  have op: "out_phase (bc_db p) (utxo_at (apply_batch (bc_db p) b1)) ?A news (b2, am)"
    by (simp add: small_block_def news_def block_new_utxos_def)
  then have wf: "wf_map am" and own: "fst ` set am = owner ` snd ` set news"
    by (simp_all add: out_phase_def)
  have d: "d = apply_batch (apply_batch (bc_db p) b2) (store_lists am)"
    by (simp add: d_def b' apply_batch_append)
  show "utxo_at d = ledger_step blk (utxo_at (bc_db p))"
    using op sp by (simp add: d store_lists_views [OF wf] out_phase_def spent_phase_def ledger_step_def
        news_def consumed_def)
  show "\<forall>op\<in>consumed blk. \<exists>u. utxo_at (bc_db p) op = Some u \<and> \<not> utxo_Spent u"
    using sp by (simp add: spent_phase_def)
  show "\<exists>s. addr_set d a = Some s \<and> list_of (bc_db p) news a s" if "a \<in> owner ` snd ` set news"
  proof -
    from that own obtain s where s: "map_of am a = Some s" by (metis map_of_eq_None_iff not_None_eq)
    with op have "list_of (bc_db p) news a s" by (simp add: out_phase_def)
    with s show ?thesis by (simp add: d store_lists_views(2) [OF wf])
  qed
  show "addr_set d a = addr_set (bc_db p) a \<or>
      (\<exists>s op. op \<in> consumed blk \<and> addr_set (bc_db p) a = Some s \<and> addr_set d a = Some (mdel (op_key op) s))"
    if "a \<notin> owner ` snd ` set news"
  proof -
    from that own have "map_of am a = None" by (simp add: map_of_eq_None_iff)
    moreover have "addr_set (apply_batch (bc_db p) b2) a = ?A a" using op by (simp add: out_phase_def)
    ultimately have "addr_set d a = ?A a" by (simp add: d store_lists_views(2) [OF wf])
    with sp show ?thesis unfolding spent_phase_def op_key_def by auto
  qed
qed

section \<open>The address index\<close>

text \<open>
  A database is consistent when a record is stored under its own outpoint, the list of an address
  holds exactly keys of outputs it owns (spent ones may linger), and every unspent output is in
  the list of its owner.
\<close>

definition records_ok :: "leveldb \<Rightarrow> bool" where
  "records_ok db \<longleftrightarrow> (\<forall>op u. utxo_at db op = Some u \<longrightarrow> (utxo_TxId u, utxo_OutputIndex u) = op)"

definition index_complete :: "leveldb \<Rightarrow> bool" where
  "index_complete db \<longleftrightarrow>
     (\<forall>op u. utxo_at db op = Some u \<and> \<not> utxo_Spent u \<longrightarrow> op_key op \<in> index_keys db (owner u))"

lemma index_completeD:
  "index_complete db \<Longrightarrow> utxo_at db op = Some u \<Longrightarrow> \<not> utxo_Spent u \<Longrightarrow> op_key op \<in> index_keys db (owner u)"
  unfolding index_complete_def by blast

definition index_sound :: "leveldb \<Rightarrow> bool" where
  "index_sound db \<longleftrightarrow>
     (\<forall>a k. k \<in> index_keys db a \<longrightarrow> (\<exists>op u. k = op_key op \<and> utxo_at db op = Some u \<and> owner u = a))"

definition utxo_db_ok :: "leveldb \<Rightarrow> bool" where
  "utxo_db_ok db \<longleftrightarrow> records_ok db \<and> index_wf db \<and> index_complete db \<and> index_sound db"

text \<open>
  A new output stands at an outpoint that is free or has the same owner already.  Transaction IDs
  are hashes of the outputs, so only a collision or two different lists under one ID break it.
\<close>

definition same_owners :: "leveldb \<Rightarrow> Block \<Rightarrow> bool" where
  "same_owners db blk \<longleftrightarrow>
     (\<forall>(op, u)\<in>set (block_new_utxos blk). \<forall>u'. utxo_at db op = Some u' \<longrightarrow> owner u' = owner u) \<and>
     (\<forall>(op, u)\<in>set (block_new_utxos blk). \<forall>(op', u')\<in>set (block_new_utxos blk). op = op' \<longrightarrow> owner u' = owner u)"

lemma empty_db_ok [simp]: "utxo_db_ok empty_db"
  by (simp add: utxo_db_ok_def records_ok_def index_wf_def index_complete_def index_sound_def
      index_keys_def utxo_at_def addr_set_def empty_db_def)

lemma new_utxo_self: "(op, u) \<in> set (block_new_utxos blk) \<Longrightarrow>
    (utxo_TxId u, utxo_OutputIndex u) = op \<and> \<not> utxo_Spent u \<and> utxo_Height u = blk_Height blk"
  by (auto simp: block_new_utxos_def tx_new_utxos_def new_utxo_def)

lemma mark_spent_simps [simp]:
  "utxo_Spent (mark_spent h u)" "owner (mark_spent h u) = owner u"
  "utxo_TxId (mark_spent h u) = utxo_TxId u" "utxo_OutputIndex (mark_spent h u) = utxo_OutputIndex u"
  "utxo_TxOut (mark_spent h u) = utxo_TxOut u"
  by (simp_all add: mark_spent_def)

text \<open>Every record after the step is new, or the old one, or the old one marked.\<close>

lemma ledger_step_cases:
  assumes "ledger_step blk L op = Some u"
  obtains (new) "(op, u) \<in> set (block_new_utxos blk)"
  | (kept) "L op = Some u" "op \<notin> consumed blk" "op \<notin> fst ` set (block_new_utxos blk)"
  | (spent) u0 where "L op = Some u0" "op \<in> consumed blk" "u = mark_spent (blk_Height blk) u0"
      "op \<notin> fst ` set (block_new_utxos blk)"
proof (cases "map_of (rev (block_new_utxos blk)) op")
  case None
  then have "op \<notin> fst ` set (block_new_utxos blk)" by (simp add: map_of_eq_None_iff)
  with None assms kept spent show ?thesis
    by (auto simp: ledger_step_def consumed_def ledger_spend_def map_add_def split: if_splits)
next
  case (Some v)
  then have "(op, v) \<in> set (block_new_utxos blk)" by (auto dest: map_of_SomeD)
  with Some assms new show ?thesis by (auto simp: ledger_step_def map_add_def)
qed

lemma ledger_step_old:
  assumes "L op = Some u0"
  obtains u where "ledger_step blk L op = Some u" "(op, u) \<in> set (block_new_utxos blk) \<or> owner u = owner u0"
proof (cases "map_of (rev (block_new_utxos blk)) op")
  case None
  with assms that [of "if op \<in> consumed blk then mark_spent (blk_Height blk) u0 else u0"] show ?thesis
    by (auto simp: ledger_step_def consumed_def ledger_spend_def map_add_def split: if_splits)
next
  case (Some v)
  then have "(op, v) \<in> set (block_new_utxos blk)" by (auto dest: map_of_SomeD)
  with Some that show ?thesis by (auto simp: ledger_step_def map_add_def)
qed


lemma ledger_step_new:
  assumes "(op, u) \<in> set (block_new_utxos blk)"
  obtains v where "ledger_step blk L op = Some v" "(op, v) \<in> set (block_new_utxos blk)"
proof -
  from assms obtain v where v: "map_of (rev (block_new_utxos blk)) op = Some v"
    by (metis map_of_eq_None_iff fst_conv image_eqI not_None_eq set_rev)
  then have "(op, v) \<in> set (block_new_utxos blk)" by (auto dest: map_of_SomeD)
  with v that show ?thesis by (auto simp: ledger_step_def map_add_def)
qed

lemma mdel_keys: "fst ` set (mdel k s) = fst ` set s - {k}"
  by (auto simp: set_mdel image_iff)

text \<open>The index of an address after the step, as a set of keys.\<close>

lemma UpdateUtxo_index:
  assumes "UpdateUtxo p b blk = Inr b'" "quiet b" "index_wf (bc_db p)" "small_block blk"
  defines "d \<equiv> apply_batch (bc_db p) b'"
  shows "index_keys d a \<subseteq> index_keys (bc_db p) a \<union> new_keys (block_new_utxos blk) a"
    and "index_keys (bc_db p) a \<union> new_keys (block_new_utxos blk) a \<subseteq> index_keys d a \<union> op_key ` consumed blk"
    and "new_keys (block_new_utxos blk) a \<subseteq> index_keys d a"
    and "addr_set d a = Some s \<Longrightarrow> wf_map s"
proof -
  note eff = UpdateUtxo_effect [OF assms(1-4), folded d_def]
  have "index_keys d a \<subseteq> index_keys (bc_db p) a \<union> new_keys (block_new_utxos blk) a \<and>
     index_keys (bc_db p) a \<union> new_keys (block_new_utxos blk) a \<subseteq> index_keys d a \<union> op_key ` consumed blk \<and>
     new_keys (block_new_utxos blk) a \<subseteq> index_keys d a \<and> (\<forall>s. addr_set d a = Some s \<longrightarrow> wf_map s)"
  proof (cases "a \<in> owner ` snd ` set (block_new_utxos blk)")
    case True
    from eff(3) [OF this] show ?thesis by (auto simp: list_of_def index_keys_def)
  next
    case False
    from new_keys_no_owner [OF this] eff(4) [OF False] assms(3) show ?thesis
      by (elim disjE exE conjE) (auto simp: index_keys_def index_wf_def mdel_keys split: option.split)
  qed
  then show "index_keys d a \<subseteq> index_keys (bc_db p) a \<union> new_keys (block_new_utxos blk) a"
    "index_keys (bc_db p) a \<union> new_keys (block_new_utxos blk) a \<subseteq> index_keys d a \<union> op_key ` consumed blk"
    "new_keys (block_new_utxos blk) a \<subseteq> index_keys d a" "addr_set d a = Some s \<Longrightarrow> wf_map s"
    by blast+
qed

lemma UpdateUtxo_preserves:
  assumes "UpdateUtxo p b blk = Inr b'" "quiet b" "small_block blk"
    and ok: "utxo_db_ok (bc_db p)" and own: "same_owners (bc_db p) blk"
  shows "utxo_db_ok (apply_batch (bc_db p) b')"
proof -
  let ?d = "apply_batch (bc_db p) b'" and ?db = "bc_db p"
  have wf: "index_wf ?db" and rec: "records_ok ?db" and comp: "index_complete ?db" and snd: "index_sound ?db"
    using ok by (simp_all add: utxo_db_ok_def)
  note led = UpdateUtxo_effect(1) [OF assms(1,2) wf assms(3)]
  note idx = UpdateUtxo_index [OF assms(1,2) wf assms(3)]
  have "records_ok ?d"
    unfolding records_ok_def led
  proof (intro allI impI)
    fix op u
    assume "ledger_step blk (utxo_at ?db) op = Some u"
    then show "(utxo_TxId u, utxo_OutputIndex u) = op"
    proof (cases rule: ledger_step_cases)
      case new
      then show ?thesis by (simp add: new_utxo_self)
    next
      case kept
      with rec show ?thesis unfolding records_ok_def by blast
    next
      case (spent u0)
      from rec spent(1) have "(utxo_TxId u0, utxo_OutputIndex u0) = op" unfolding records_ok_def by blast
      with spent(3) show ?thesis by simp
    qed
  qed
  moreover have "index_wf ?d" unfolding index_wf_def using idx(4) by blast
  moreover have "index_complete ?d"
    unfolding index_complete_def led
  proof (intro allI impI, elim conjE)
    fix op u
    assume "ledger_step blk (utxo_at ?db) op = Some u" and unspent: "\<not> utxo_Spent u"
    then show "op_key op \<in> index_keys ?d (owner u)"
    proof (cases rule: ledger_step_cases)
      case new
      then have "op_key op \<in> new_keys (block_new_utxos blk) (owner u)" unfolding new_keys_def by blast
      with idx(3) show ?thesis by blast
    next
      case kept
      with comp unspent have "op_key op \<in> index_keys ?db (owner u)" by (simp add: index_completeD)
      with idx(2) [of "owner u"] kept(2) show ?thesis by auto
    next
      case spent
      with unspent show ?thesis by simp
    qed
  qed
  moreover have "index_sound ?d"
    unfolding index_sound_def led
  proof (intro allI impI)
    fix a k
    assume "k \<in> index_keys ?d a"
    with idx(1) consider "k \<in> index_keys ?db a" | "k \<in> new_keys (block_new_utxos blk) a" by blast
    then show "\<exists>op u. k = op_key op \<and> ledger_step blk (utxo_at ?db) op = Some u \<and> owner u = a"
    proof cases
      case 1
      with snd obtain op u0 where op: "k = op_key op" "utxo_at ?db op = Some u0" "owner u0 = a"
        unfolding index_sound_def by blast
      obtain u where "ledger_step blk (utxo_at ?db) op = Some u" "(op, u) \<in> set (block_new_utxos blk) \<or> owner u = owner u0"
        by (rule ledger_step_old [of "utxo_at ?db" op u0 blk]) (use op(2) in auto)
      with op own show ?thesis unfolding same_owners_def by fastforce
    next
      case 2
      then obtain op u0 where op: "k = op_key op" "(op, u0) \<in> set (block_new_utxos blk)" "owner u0 = a"
        by (auto simp: new_keys_def)
      obtain u where "ledger_step blk (utxo_at ?db) op = Some u" "(op, u) \<in> set (block_new_utxos blk)"
        by (rule ledger_step_new [OF op(2)])
      with op own show ?thesis unfolding same_owners_def by fastforce
    qed
  qed
  ultimately show ?thesis by (simp add: utxo_db_ok_def)
qed

section \<open>When a block is accepted\<close>

text \<open>Every list key is absent or holds a list: no I/O failure, no foreign record.\<close>

definition lists_readable :: "leveldb \<Rightarrow> bool" where
  "lists_readable db \<longleftrightarrow> (\<forall>a. db (GetUtxoListKey a) = Inl ErrNotFound \<or> (\<exists>s. db (GetUtxoListKey a) = Inr (GobAddrSet s)))"

lemma foldE_succeeds:
  "(\<And>s x. x \<in> set xs \<Longrightarrow> \<exists>s'. f s x = Inr s') \<Longrightarrow> \<exists>s'. foldE f s xs = Inr s'"
proof (induction xs arbitrary: s)
  case Nil
  then show ?case by simp
next
  case (Cons x xs)
  obtain s1 where "f s x = Inr s1" using Cons.prems [of x s] by auto
  with Cons.IH [of s1] Cons.prems show ?case by auto
qed

lemma load_list_succeeds: "lists_readable db \<Longrightarrow> \<exists>s. load_list db am a = Inr s"
  unfolding lists_readable_def load_list_def
  by (erule allE [of _ a]) (auto split: option.split)

lemma spend_input_succeeds:
  assumes "utxo_at db (in_op i) = Some u" "\<not> utxo_Spent u" "index_complete db"
  shows "\<exists>b'. spend_input db h b i = Inr b'"
proof -
  from assms have "index_keys db (owner u) \<noteq> {}" unfolding index_complete_def by blast
  then obtain s where "addr_set db (owner u) = Some s" by (auto simp: index_keys_def split: option.splits)
  with assms show ?thesis by (auto simp: spend_input_Inr)
qed

lemma UpdateUtxo_succeeds:
  assumes "lists_readable (bc_db p)" "index_complete (bc_db p)"
    and unspent: "\<forall>op\<in>consumed blk. \<exists>u. utxo_at (bc_db p) op = Some u \<and> \<not> utxo_Spent u"
  shows "\<exists>b'. UpdateUtxo p b blk = Inr b'"
proof -
  let ?db = "bc_db p" and ?h = "blk_Height blk" and ?txs = "blk_Transactions blk"
  have inp: "\<exists>b1. spend_input ?db ?h b i = Inr b1" if "0 < ?h" "tx \<in> set ?txs" "i \<in> set (ins tx)" for b tx i
  proof -
    from that unspent obtain u where "utxo_at ?db (in_op i) = Some u" "\<not> utxo_Spent u"
      by (auto simp: consumed_def block_inputs_def)
    then show ?thesis by (rule spend_input_succeeds [OF _ _ assms(2)])
  qed
  have "\<exists>b1. spend_tx ?db ?h b tx = Inr b1" if "tx \<in> set ?txs" for b tx
    using inp [OF _ that] foldE_succeeds [of "ins tx" "spend_input ?db ?h" b] by (simp add: spend_tx_def)
  then obtain b1 where b1: "foldE (spend_tx ?db ?h) b ?txs = Inr b1"
    using foldE_succeeds [of ?txs "spend_tx ?db ?h" b] by blast
  have "\<exists>st'. add_output ?db ?h txId st io = Inr st'" for txId st io
    using load_list_succeeds [OF assms(1), of "snd st" "out_Address (snd io)"]
    by (cases st; cases io) (auto simp: add_output_def Let_def)
  then have "\<exists>st'. add_outputs ?db ?h st tx = Inr st'" for st tx
    unfolding add_outputs_def by (rule foldE_succeeds)
  then obtain st2 where "foldE (add_outputs ?db ?h) (b1, []) ?txs = Inr st2"
    using foldE_succeeds [of ?txs "add_outputs ?db ?h" "(b1, [])"] by blast
  with b1 show ?thesis by (cases st2) (simp add: UpdateUtxo_def Let_def)
qed

section \<open>Listing an address\<close>

definition unspent_of :: "leveldb \<Rightarrow> Address \<Rightarrow> UTXO set" where
  "unspent_of db a = {u. \<exists>op. utxo_at db op = Some u \<and> \<not> utxo_Spent u \<and> owner u = a}"

text \<open>What the mempool check hides.\<close>

definition hidden :: "BlockChain \<Rightarrow> bool \<Rightarrow> UTXO \<Rightarrow> bool" where
  "hidden p mempoolCheck u \<longleftrightarrow> mempoolCheck \<and> isOnMempool (bc_Mempool p) (utxo_TxId u) (utxo_OutputIndex u)"

lemma collect_fold:
  assumes "\<forall>kv\<in>set kvs. \<exists>u. bc_db p (fst kv) = Inr (GobUtxo u)"
  shows "foldE (collect_utxo p mc) acc kvs = Inr (acc @
     filter (\<lambda>u. \<not> utxo_Spent u \<and> \<not> hidden p mc u)
       (map (\<lambda>kv. case bc_db p (fst kv) of Inr (GobUtxo u) \<Rightarrow> u | _ \<Rightarrow> undefined) kvs))"
  using assms
proof (induction kvs arbitrary: acc)
  case Nil
  then show ?case by simp
next
  case (Cons kv kvs)
  then obtain u where "bc_db p (fst kv) = Inr (GobUtxo u)" by auto
  with Cons.IH Cons.prems show ?case by (auto simp: collect_utxo_def db_Get_def hidden_def)
qed

lemma GetUtxoList_exact:
  assumes ok: "utxo_db_ok (bc_db p)" and \<rho>: "range_ok \<rho>" and s: "addr_set (bc_db p) a = Some s"
  shows "\<exists>us. GetUtxoList \<rho> p a mc = Inr us \<and> distinct us \<and> set us = {u \<in> unspent_of (bc_db p) a. \<not> hidden p mc u}"
proof -
  let ?db = "bc_db p" and ?kvs = "\<rho> s"
  let ?val = "\<lambda>kv. case ?db (fst kv) of Inr (GobUtxo u) \<Rightarrow> u | _ \<Rightarrow> undefined"
  let ?us = "filter (\<lambda>u. \<not> utxo_Spent u \<and> \<not> hidden p mc u) (map ?val ?kvs)"
  have it: "iterates ?kvs s" using \<rho> by (rule range_okD)
  have wfs: "wf_map s" using ok s by (auto simp: utxo_db_ok_def index_wf_def)
  have keys: "fst ` set ?kvs = index_keys ?db a" using iterates_set [OF it] s by (simp add: index_keys_def)
  have rec: "\<exists>op u. fst kv = op_key op \<and> utxo_at ?db op = Some u \<and> owner u = a" if "kv \<in> set ?kvs" for kv
    using ok keys that unfolding utxo_db_ok_def index_sound_def by blast
  have "get_list ?db a = Inr s" by (simp add: get_list_Inr s)
  moreover have "\<forall>kv\<in>set ?kvs. \<exists>u. ?db (fst kv) = Inr (GobUtxo u)"
    using rec by (metis utxo_at_key)
  ultimately have "GetUtxoList \<rho> p a mc = Inr ?us"
    by (simp add: GetUtxoList_def collect_fold)
  moreover have "distinct ?us"
  proof (rule distinct_filter, unfold distinct_map, intro conjI inj_onI)
    have "wf_map ?kvs" using it wfs by (rule iterates_wf)
    then show "distinct ?kvs" by (simp add: wf_map_def distinct_map)
    fix x y
    assume xy: "x \<in> set ?kvs" "y \<in> set ?kvs" "?val x = ?val y"
    from rec [OF xy(1)] rec [OF xy(2)] obtain o1 u1 o2 u2 where
      "fst x = op_key o1" "utxo_at ?db o1 = Some u1" "fst y = op_key o2" "utxo_at ?db o2 = Some u2" by blast
    moreover from this xy(3) have "u1 = u2" by (simp add: utxo_at_key)
    ultimately have "fst x = fst y" using ok by (metis records_ok_def utxo_db_ok_def)
    with xy(1,2) \<open>wf_map ?kvs\<close> show "x = y" by (metis eq_key_imp_eq_value prod.collapse wf_map_def)
  qed
  moreover have "u \<in> set ?us \<longleftrightarrow> u \<in> unspent_of ?db a \<and> \<not> hidden p mc u" for u
  proof
    assume "u \<in> set ?us"
    then obtain kv where "kv \<in> set ?kvs" "u = ?val kv" "\<not> utxo_Spent u" "\<not> hidden p mc u" by auto
    moreover from rec [OF this(1)] obtain op u1 where "fst kv = op_key op" "utxo_at ?db op = Some u1" "owner u1 = a"
      by blast
    moreover from this \<open>u = ?val kv\<close> have "u1 = u" by (simp add: utxo_at_key)
    ultimately show "u \<in> unspent_of ?db a \<and> \<not> hidden p mc u" unfolding unspent_of_def by blast
  next
    assume u: "u \<in> unspent_of ?db a \<and> \<not> hidden p mc u"
    then obtain op where op: "utxo_at ?db op = Some u" "\<not> utxo_Spent u" "owner u = a"
      by (auto simp: unspent_of_def)
    with ok keys have "op_key op \<in> fst ` set ?kvs" by (auto simp: utxo_db_ok_def dest: index_completeD)
    then obtain kv where "kv \<in> set ?kvs" "fst kv = op_key op" by auto
    with op u show "u \<in> set ?us" by (auto simp: utxo_at_key image_iff intro!: bexI [of _ kv])
  qed
  ultimately show ?thesis by blast
qed

lemma unspent_of_unlisted:
  "utxo_db_ok db \<Longrightarrow> addr_set db a = None \<Longrightarrow> unspent_of db a = {}"
  by (fastforce simp: unspent_of_def utxo_db_ok_def index_complete_def index_keys_def)

lemma CalBalanceUtxo_sum:
  "distinct us \<Longrightarrow> \<forall>u\<in>set us. \<not> utxo_Spent u \<Longrightarrow>
   CalBalanceUtxo us = (\<Sum>u\<in>set us. out_Amount (utxo_TxOut u))"
  by (simp add: CalBalanceUtxo_eq filter_True sum_list_distinct_conv_sum_set)

end
