(* ===== verification/Block_Store.thy ===== *)
theory Block_Store
  imports Utxo
begin

text \<open>
  What \<open>AddBlock\<close> stores of a block and how it is read back: \<open>saveBlockData\<close>, \<open>saveTxData\<close>,
  \<open>getBlockByHeightNoLock\<close>, \<open>GetBlockByHash\<close> of \<open>core/block.go\<close> and the readers \<open>GetTx\<close>,
  \<open>GetBlockHashByTxId\<close>, \<open>GetInputTx\<close>, \<open>GetOutputTx\<close>, \<open>GetInputTxByIdx\<close>, \<open>GetOutputTxByIdx\<close>
  and \<open>GetAddressTransactions\<close> of \<open>core/transaction.go\<close>.  The lemmas show that every reader
  returns what was saved.
\<close>

section \<open>Saving\<close>

definition saveBlockData :: "batch \<Rightarrow> Block \<Rightarrow> batch" where
  "saveBlockData b blk =
     b @ [(GetBlockHashKey (blk_Hash blk), GobBlock (gob_block blk)),
          (GetBlockHeightKey (blk_Height blk), RawBytes (blk_Hash blk))]"

text \<open>The body of the loop of \<open>saveTxData\<close>.\<close>

definition tx_records :: "Hash \<Rightarrow> Transaction \<Rightarrow> batch" where
  "tx_records blkHash tx =
     [(GetTxHashKey (tx_ID tx), GobTx (gob_tx tx)),
      (GetTxBlockHashKey (tx_ID tx), RawBytes (HashToBytes blkHash)),
      (GetTxInputKey (tx_ID tx) WholeTxIdx, GobTxInputs (map gob_in (ins tx))),
      (GetTxOutputKey (tx_ID tx) WholeTxIdx, GobTxOutputs (outs tx))] @
     map (\<lambda>(idx, input). (GetTxInputKey (tx_ID tx) (int idx), GobTxInput (gob_in input))) (enumerate 0 (ins tx)) @
     map (\<lambda>(idx, output). (GetTxOutputKey (tx_ID tx) (int idx), GobTxOutput output)) (enumerate 0 (outs tx))"

definition saveTxData :: "batch \<Rightarrow> Block \<Rightarrow> batch" where
  "saveTxData b blk = foldl (\<lambda>b tx. b @ tx_records (blk_Hash blk) tx) b (blk_Transactions blk)"

section \<open>Reading\<close>

definition getBlockByHeightNoLock :: "BlockChain \<Rightarrow> uint64 \<Rightarrow> core_error + Block" where
  "getBlockByHeightNoLock p height =
     bindE (wrapE (Wrap ''failed to get block hash from db'') (db_Get (bc_db p) (GetBlockHeightKey height))) (\<lambda>v.
     bindE (as_bytes v) (\<lambda>blkHashBytes.
     let blkHash = copy_into 32 blkHashBytes in
     bindE (wrapE (Wrap ''failed to get block data from db'') (db_Get (bc_db p) (GetBlockHashKey blkHash))) (\<lambda>w.
     wrapE (Wrap ''failed to deserialize block data'') (as_block w))))"

definition GetBlockByHeight :: "BlockChain \<Rightarrow> uint64 \<Rightarrow> core_error + Block" where
  "GetBlockByHeight p height = getBlockByHeightNoLock p height"

definition GetBlockByHash :: "BlockChain \<Rightarrow> Hash \<Rightarrow> core_error + Block" where
  "GetBlockByHash p hash =
     bindE (wrapE (Wrap ''failed to get block hash from db'') (db_Get (bc_db p) (GetBlockHashKey hash))) (\<lambda>v.
     wrapE (Wrap ''failed to deserialize block data'') (as_block v))"

definition GetTx :: "BlockChain \<Rightarrow> Hash \<Rightarrow> core_error + Transaction" where
  "GetTx p txId =
     bindE (wrapE (Wrap ''failed to get block hash from db'') (db_Get (bc_db p) (GetTxHashKey txId))) (\<lambda>v.
     wrapE (Wrap ''failed to deserialize block data'') (as_tx v))"

text \<open>\<open>BytesToHash\<close> panics on a value shorter than 32 bytes: the result is then \<open>Inr None\<close>.\<close>

definition GetBlockHashByTxId :: "BlockChain \<Rightarrow> Hash \<Rightarrow> core_error + Hash option" where
  "GetBlockHashByTxId p txId =
     bindE (wrapE (Wrap ''failed to get block hash from db'') (db_Get (bc_db p) (GetTxBlockHashKey txId))) (\<lambda>v.
     bindE (as_bytes v) (\<lambda>blkHashBytes. Inr (BytesToHash blkHashBytes)))"

definition as_tx_inputs :: "dbval \<Rightarrow> core_error + TxInput list" where
  "as_tx_inputs v = (case v of GobTxInputs l \<Rightarrow> Inr l | _ \<Rightarrow> Inl Deserialize)"

definition as_tx_outputs :: "dbval \<Rightarrow> core_error + TxOutput list" where
  "as_tx_outputs v = (case v of GobTxOutputs l \<Rightarrow> Inr l | _ \<Rightarrow> Inl Deserialize)"

definition as_tx_input :: "dbval \<Rightarrow> core_error + TxInput" where
  "as_tx_input v = (case v of GobTxInput i \<Rightarrow> Inr i | _ \<Rightarrow> Inl Deserialize)"

definition as_tx_output :: "dbval \<Rightarrow> core_error + TxOutput" where
  "as_tx_output v = (case v of GobTxOutput i \<Rightarrow> Inr i | _ \<Rightarrow> Inl Deserialize)"

definition GetInputTx :: "BlockChain \<Rightarrow> Hash \<Rightarrow> core_error + TxInput list" where
  "GetInputTx p txId =
     bindE (wrapE (Wrap ''failed to get tx input data from db'') (db_Get (bc_db p) (GetTxInputKey txId WholeTxIdx))) (\<lambda>v.
     wrapE (Wrap ''failed to deserialize tx input data'') (as_tx_inputs v))"

definition GetOutputTx :: "BlockChain \<Rightarrow> Hash \<Rightarrow> core_error + TxOutput list" where
  "GetOutputTx p txId =
     bindE (wrapE (Wrap ''failed to get tx output data from db'') (db_Get (bc_db p) (GetTxOutputKey txId WholeTxIdx))) (\<lambda>v.
     wrapE (Wrap ''failed to deserialize tx output data'') (as_tx_outputs v))"

definition GetInputTxByIdx :: "BlockChain \<Rightarrow> Hash \<Rightarrow> int \<Rightarrow> core_error + TxInput" where
  "GetInputTxByIdx p txId idx =
     bindE (wrapE (Wrap ''failed to get tx input data from db'') (db_Get (bc_db p) (GetTxInputKey txId idx))) (\<lambda>v.
     wrapE (Wrap ''failed to deserialize tx input data'') (as_tx_input v))"

definition GetOutputTxByIdx :: "BlockChain \<Rightarrow> Hash \<Rightarrow> int \<Rightarrow> core_error + TxOutput" where
  "GetOutputTxByIdx p txId idx =
     bindE (wrapE (Wrap ''failed to get tx output data from db'') (db_Get (bc_db p) (GetTxOutputKey txId idx))) (\<lambda>v.
     wrapE (Wrap ''failed to deserialize tx output data'') (as_tx_output v))"

subsection \<open>GetAddressTransactions\<close>

record AddressTxInfo =
  ati_TxID :: Hash
  ati_Type :: string
  ati_Amount :: uint64
  ati_Timestamp :: int
  ati_Height :: uint64
  ati_Spent :: bool
  ati_Index :: uint64

definition output_info :: "BlockChain \<Rightarrow> uint64 \<Rightarrow> Transaction \<Rightarrow> nat \<times> TxOutput \<Rightarrow> AddressTxInfo" where
  "output_info p height tx io =
     (let (idx, output) = io;
          isSpent = (case GetUtxoByTxIdAndIdx p (tx_ID tx) (go_uint64 idx) of
                       Inl e \<Rightarrow> True
                     | Inr utxo \<Rightarrow> utxo_Spent utxo)
      in \<lparr>ati_TxID = tx_ID tx, ati_Type = ''received'', ati_Amount = out_Amount output,
          ati_Timestamp = tx_Timestamp tx, ati_Height = height, ati_Spent = isSpent,
          ati_Index = go_uint64 idx\<rparr>)"

definition block_infos :: "BlockChain \<Rightarrow> Address \<Rightarrow> uint64 \<Rightarrow> AddressTxInfo list" where
  "block_infos p address height =
     (case GetBlockByHeight p height of
        Inl e \<Rightarrow> []
      | Inr block \<Rightarrow>
          concat (map (\<lambda>tx. map (output_info p height tx)
                    (filter (\<lambda>(idx, output). out_Address output = address) (enumerate 0 (outs tx))))
                  (blk_Transactions block)))"

text \<open>
  The loop \<open>for height := 0; height <= latestHeight; height++\<close> never ends when the latest height
  is the largest 64-bit value; the model is then \<open>None\<close>.
\<close>

partial_function (option) address_loop ::
    "BlockChain \<Rightarrow> Address \<Rightarrow> uint64 \<Rightarrow> uint64 \<Rightarrow> AddressTxInfo list \<Rightarrow> AddressTxInfo list option" where
  "address_loop p address latestHeight height txInfos =
     (if height \<le> latestHeight
      then address_loop p address latestHeight (height + 1) (txInfos @ block_infos p address height)
      else Some txInfos)"

definition GetAddressTransactions :: "BlockChain \<Rightarrow> Address \<Rightarrow> AddressTxInfo list option" where
  "GetAddressTransactions p address = address_loop p address (bc_LatestHeight p) 0 []"

section \<open>Keys of the records\<close>

lemma hex_not_prefixed:
  "hex_value c = None \<Longrightarrow> c \<in> set pre \<Longrightarrow> hex_EncodeToString bs \<noteq> pre @ s"
  using hex_not_in [of c bs] by auto

lemma tx_keys_distinct [simp]:
  "GetTxHashKey h \<noteq> GetTxBlockHashKey h'" "GetTxHashKey h \<noteq> GetTxInputKey h' i" "GetTxHashKey h \<noteq> GetTxOutputKey h' i"
  "GetTxBlockHashKey h \<noteq> GetTxInputKey h' i" "GetTxBlockHashKey h \<noteq> GetTxOutputKey h' i"
  "GetTxInputKey h i \<noteq> GetTxOutputKey h' i'"
  using hex_not_prefixed [of "CHR ''l''" "''blk:''" h] hex_not_prefixed [of "CHR ''i''" "''in:''" h]
    hex_not_prefixed [of "CHR ''o''" "''out:''" h]
  by (auto simp: key_defs hex_value_def)

lemmas tx_keys_distinct' [simp] = tx_keys_distinct [symmetric]

lemma hex_colon_not_hex [simp]:
  "hex_EncodeToString a \<noteq> hex_EncodeToString b @ CHR '':'' # s"
  "hex_EncodeToString b @ CHR '':'' # s \<noteq> hex_EncodeToString a"
  using hex_no_colon [of a] by (metis in_set_conv_decomp)+

lemma GetTxInputKey_inj [simp]:
  "- 1 \<le> i \<Longrightarrow> - 1 \<le> j \<Longrightarrow> GetTxInputKey h i = GetTxInputKey h' j \<longleftrightarrow> h = h' \<and> i = j"
  using colon_split [OF hex_no_colon [of h] hex_no_colon [of h']] by (auto simp: key_defs)

lemma GetTxOutputKey_inj [simp]:
  "- 1 \<le> i \<Longrightarrow> - 1 \<le> j \<Longrightarrow> GetTxOutputKey h i = GetTxOutputKey h' j \<longleftrightarrow> h = h' \<and> i = j"
  using colon_split [OF hex_no_colon [of h] hex_no_colon [of h']] by (auto simp: key_defs)

section \<open>Reading back\<close>

lemma saveTxData_eq: "saveTxData b blk = b @ concat (map (tx_records (blk_Hash blk)) (blk_Transactions blk))"
proof -
  have "foldl (\<lambda>b tx. b @ f tx) b txs = b @ concat (map f txs)" for f :: "Transaction \<Rightarrow> batch" and b txs
    by (induction txs arbitrary: b) simp_all
  then show ?thesis by (simp add: saveTxData_def)
qed

text \<open>What stands under a key that is put exactly once.\<close>

lemma apply_batch_once:
  assumes "(k, v) \<in> set b" "\<forall>v'. (k, v') \<in> set b \<longrightarrow> v' = v"
  shows "apply_batch d b k = Inr v"
proof -
  from assms(1) obtain w where w: "map_of (rev b) k = Some w"
    by (metis map_of_eq_None_iff fst_conv image_eqI not_None_eq set_rev)
  then have "w = v" using assms(2) by (auto dest: map_of_SomeD)
  with w show ?thesis by (simp add: apply_batch_map_of)
qed

lemma tx_records_kind: "kv \<in> set (tx_records h tx) \<Longrightarrow> hd (fst kv) = CHR ''t''"
  by (auto simp: tx_records_def key_kinds)

lemma saved_quiet: "quiet (saveTxData (saveBlockData [] blk) blk)"
  by (auto simp: quiet_def saveTxData_eq saveBlockData_def key_kinds dest!: tx_records_kind)

text \<open>What \<open>UpdateUtxo\<close> appends to the batch: records of outputs and lists of addresses.\<close>

lemma UpdateUtxo_appends:
  assumes "UpdateUtxo p b blk = Inr b'"
    and utxo: "\<And>h i u. Q (GetUtxoKey h i, GobUtxo u)" and lst: "\<And>a s. Q (GetUtxoListKey a, GobAddrSet s)"
  obtains b2 where "b' = b @ b2" "\<forall>kv\<in>set b2. Q kv"
proof -
  define P where "P c \<longleftrightarrow> (\<exists>b2. c = b @ b2 \<and> (\<forall>kv\<in>set b2. Q kv))" for c
  have P_add: "P (c @ e)" if "P c" "\<forall>kv\<in>set e. Q kv" for c e
  proof -
    from that(1) obtain b2 where "c = b @ b2" "\<forall>kv\<in>set b2. Q kv" by (auto simp: P_def)
    with that(2) have "c @ e = b @ (b2 @ e)" "\<forall>kv\<in>set (b2 @ e). Q kv" by auto
    then show ?thesis unfolding P_def by blast
  qed
  from assms(1) obtain b1 b2 am where ph:
    "foldE (spend_tx (bc_db p) (blk_Height blk)) b (blk_Transactions blk) = Inr b1"
    "foldE (add_outputs (bc_db p) (blk_Height blk)) (b1, []) (blk_Transactions blk) = Inr (b2, am)"
    "b' = b2 @ store_lists am" by (rule UpdateUtxo_phases)
  have in_step: "P c'" if "spend_input db h c i = Inr c'" "P c" for db h c i c'
    using that utxo lst by (auto simp: spend_input_Inr intro!: P_add)
  have "P c'" if "spend_tx db h c tx = Inr c'" "P c" for db h c tx c'
    using that foldE_invariant [of "spend_input db h" c "ins tx" c' P] in_step
    by (auto simp: spend_tx_def split: if_splits)
  with foldE_invariant [OF ph(1), where P = P] have "P b1" by (auto simp: P_def)
  moreover have out_step: "P (fst st')" if "add_output db h t st io = Inr st'" "P (fst st)" for db h t st io st'
    using that utxo by (cases st; cases io) (auto simp: add_output_def Let_def res_simps intro!: P_add)
  have "P (fst st')" if "add_outputs db h st tx = Inr st'" "P (fst st)" for db h st tx st'
    using that foldE_invariant [of "add_output db h (tx_ID tx)" st "enumerate 0 (outs tx)" st' "\<lambda>st. P (fst st)"] out_step
    by (auto simp: add_outputs_def)
  with foldE_invariant [OF ph(2), where P = "\<lambda>st. P (fst st)"] \<open>P b1\<close> have "P b2" by auto
  then have "P b'" unfolding ph(3) by (rule P_add) (auto simp: store_lists_def lst)
  with that show thesis by (auto simp: P_def)
qed

lemma UpdateUtxo_keys:
  assumes "UpdateUtxo p b blk = Inr b'"
  obtains b2 where "b' = b @ b2" "\<forall>k\<in>fst ` set b2. hd k = CHR ''u''"
  by (rule UpdateUtxo_appends [OF assms, of "\<lambda>kv. hd (fst kv) = CHR ''u''"]) (auto simp: key_kinds)

definition list_records :: "batch \<Rightarrow> bool" where
  "list_records b \<longleftrightarrow> (\<forall>(k, v)\<in>set b. \<forall>a. k = GetUtxoListKey a \<longrightarrow> (\<exists>s. v = GobAddrSet s))"

lemma lists_readable_batch:
  assumes "lists_readable d" "list_records b"
  shows "lists_readable (apply_batch d b)"
  unfolding lists_readable_def
proof
  fix a
  show "apply_batch d b (GetUtxoListKey a) = Inl ErrNotFound \<or> (\<exists>s. apply_batch d b (GetUtxoListKey a) = Inr (GobAddrSet s))"
  proof (cases "map_of (rev b) (GetUtxoListKey a)")
    case None
    with assms(1) show ?thesis by (simp add: apply_batch_map_of lists_readable_def)
  next
    case (Some v)
    then have "(GetUtxoListKey a, v) \<in> set b" by (auto dest: map_of_SomeD)
    with assms(2) Some show ?thesis by (auto simp: apply_batch_map_of list_records_def)
  qed
qed

lemma UpdateUtxo_list_records: "UpdateUtxo p b blk = Inr b' \<Longrightarrow> list_records b \<Longrightarrow> list_records b'"
  by (erule UpdateUtxo_appends [of p b blk b' "\<lambda>(k, v). \<forall>a. k = GetUtxoListKey a \<longrightarrow> (\<exists>s. v = GobAddrSet s)"])
    (auto simp: list_records_def)

lemma quiet_list_records: "quiet b \<Longrightarrow> list_records b"
  by (force simp: quiet_def list_records_def key_kinds)

text \<open>The batch of a block: its records and then the ledger changes \<open>u\<close>, which use other keys.\<close>

definition block_batch :: "Block \<Rightarrow> batch \<Rightarrow> batch" where
  "block_batch blk u = saveTxData (saveBlockData [] blk) blk @ u"

definition utxo_batch :: "batch \<Rightarrow> bool" where
  "utxo_batch u \<longleftrightarrow> (\<forall>k\<in>fst ` set u. hd k = CHR ''u'')"

lemma block_batch_block:
  assumes "utxo_batch u"
  shows "apply_batch d (block_batch blk u) (GetBlockHashKey (blk_Hash blk)) = Inr (GobBlock (gob_block blk))"
    "apply_batch d (block_batch blk u) (GetBlockHeightKey (blk_Height blk)) = Inr (RawBytes (blk_Hash blk))"
proof -
  have not_u: "(k, v) \<notin> set u" if "hd k \<noteq> CHR ''u''" for k v
    using assms that by (force simp: utxo_batch_def)
  have not_t: "(k, v) \<notin> set (tx_records h tx)" if "hd k \<noteq> CHR ''t''" for k v h tx
    using tx_records_kind [of "(k, v)" h tx] that by auto
  note keys = key_kinds not_u not_t block_batch_def saveTxData_eq saveBlockData_def
  show "apply_batch d (block_batch blk u) (GetBlockHashKey (blk_Hash blk)) = Inr (GobBlock (gob_block blk))"
    by (rule apply_batch_once) (auto simp: keys)
  show "apply_batch d (block_batch blk u) (GetBlockHeightKey (blk_Height blk)) = Inr (RawBytes (blk_Hash blk))"
    by (rule apply_batch_once) (auto simp: keys)
qed

lemma block_batch_frame:
  assumes "utxo_batch u" "hd k \<noteq> CHR ''u''" "hd k \<noteq> CHR ''t''"
    "k \<noteq> GetBlockHashKey (blk_Hash blk)" "k \<noteq> GetBlockHeightKey (blk_Height blk)"
  shows "apply_batch d (block_batch blk u) k = d k"
  using assms
  by (intro apply_batch_other)
    (auto simp: block_batch_def saveTxData_eq saveBlockData_def utxo_batch_def dest!: tx_records_kind)

text \<open>A value recorded for a transaction is found under its key, if the IDs of the block differ.\<close>

lemma block_batch_tx:
  assumes u: "utxo_batch u" and tx: "tx \<in> set (blk_Transactions blk)"
    and dist: "distinct (map tx_ID (blk_Transactions blk))"
    and kv: "(k, v) \<in> set (tx_records (blk_Hash blk) tx)"
    and once: "\<And>v'. (k, v') \<in> set (tx_records (blk_Hash blk) tx) \<Longrightarrow> v' = v"
    and other: "\<And>tx' v'. tx_ID tx' \<noteq> tx_ID tx \<Longrightarrow> (k, v') \<notin> set (tx_records (blk_Hash blk) tx')"
  shows "apply_batch d (block_batch blk u) k = Inr v"
proof (rule apply_batch_once)
  show "(k, v) \<in> set (block_batch blk u)" using tx kv by (auto simp: block_batch_def saveTxData_eq)
  have hd: "hd k = CHR ''t''" using tx_records_kind [OF kv] by simp
  show "\<forall>v'. (k, v') \<in> set (block_batch blk u) \<longrightarrow> v' = v"
  proof (intro allI impI)
    fix v'
    assume "(k, v') \<in> set (block_batch blk u)"
    moreover have "(k, v') \<notin> set u" using u hd by (force simp: utxo_batch_def)
    ultimately obtain tx' where tx': "tx' \<in> set (blk_Transactions blk)" "(k, v') \<in> set (tx_records (blk_Hash blk) tx')"
      using hd by (auto simp: block_batch_def saveTxData_eq saveBlockData_def key_kinds)
    with other have "tx_ID tx' = tx_ID tx" by blast
    with dist tx tx'(1) have "tx' = tx" by (meson distinct_map inj_onD)
    with tx'(2) once show "v' = v" by blast
  qed
qed

lemma block_batch_tx_records:
  assumes "utxo_batch u" "tx \<in> set (blk_Transactions blk)" "distinct (map tx_ID (blk_Transactions blk))"
  shows "apply_batch d (block_batch blk u) (GetTxHashKey (tx_ID tx)) = Inr (GobTx (gob_tx tx))"
    "apply_batch d (block_batch blk u) (GetTxBlockHashKey (tx_ID tx)) = Inr (RawBytes (blk_Hash blk))"
    "apply_batch d (block_batch blk u) (GetTxInputKey (tx_ID tx) WholeTxIdx) = Inr (GobTxInputs (map gob_in (ins tx)))"
    "apply_batch d (block_batch blk u) (GetTxOutputKey (tx_ID tx) WholeTxIdx) = Inr (GobTxOutputs (outs tx))"
  by (rule block_batch_tx [OF assms];
      auto simp: tx_records_def HashToBytes_def WholeTxIdx_def)+

lemma block_batch_tx_indexed:
  assumes "utxo_batch u" "tx \<in> set (blk_Transactions blk)" "distinct (map tx_ID (blk_Transactions blk))"
  shows "i < length (ins tx) \<Longrightarrow>
      apply_batch d (block_batch blk u) (GetTxInputKey (tx_ID tx) (int i)) = Inr (GobTxInput (gob_in (ins tx ! i)))"
    "i < length (outs tx) \<Longrightarrow>
      apply_batch d (block_batch blk u) (GetTxOutputKey (tx_ID tx) (int i)) = Inr (GobTxOutput (outs tx ! i))"
proof -
  have mem: "(i, xs ! i) \<in> set (enumerate 0 xs)" if "i < length xs" for xs :: "'x list"
    using that by (simp add: in_set_enumerate_eq)
  show "apply_batch d (block_batch blk u) (GetTxInputKey (tx_ID tx) (int i)) = Inr (GobTxInput (gob_in (ins tx ! i)))"
    if "i < length (ins tx)"
    by (rule block_batch_tx [OF assms])
      (use mem [OF that] in \<open>force simp: tx_records_def\<close>, auto simp: tx_records_def WholeTxIdx_def in_set_enumerate_eq)
  show "apply_batch d (block_batch blk u) (GetTxOutputKey (tx_ID tx) (int i)) = Inr (GobTxOutput (outs tx ! i))"
    if "i < length (outs tx)"
    by (rule block_batch_tx [OF assms])
      (use mem [OF that] in \<open>force simp: tx_records_def\<close>, auto simp: tx_records_def WholeTxIdx_def in_set_enumerate_eq)
qed

section \<open>The address history\<close>

lemma address_loop_upto:
  assumes "latest < - 1"
  shows "unat h \<le> Suc (unat latest) \<Longrightarrow> address_loop p a latest h acc =
    Some (acc @ concat (map (\<lambda>n. block_infos p a (word_of_nat n)) [unat h ..< Suc (unat latest)]))"
proof (induction "Suc (unat latest) - unat h" arbitrary: h acc)
  case 0
  then have "\<not> h \<le> latest" by (simp add: word_le_nat_alt)
  with 0 show ?case by (subst address_loop.simps) simp
next
  case (Suc n)
  then have le: "h \<le> latest" by (simp add: word_le_nat_alt)
  have "unat latest < 2 ^ 64 - 1" using assms by (simp add: word_less_nat_alt unsigned_minus_1_eq_mask mask_eq_exp_minus_1)
  with le have "unat h + unat (1 :: uint64) < 2 ^ 64" by (simp add: word_le_nat_alt)
  from unat_add_no_wrap [OF this] have "unat (h + 1) = Suc (unat h)" by simp
  moreover from this have "n = Suc (unat latest) - unat (h + 1)" "unat (h + 1) \<le> Suc (unat latest)"
    using Suc.hyps(2) by linarith+
  ultimately show ?case
    using Suc.hyps(1) [of "h + 1" "acc @ block_infos p a h"] le
    by (subst address_loop.simps) (simp add: upt_conv_Cons word_le_nat_alt del: upt_Suc)
qed

lemma address_loop_max:
  assumes "address_loop p a latest h acc = Some infos"
  shows "latest \<noteq> - 1"
proof (rule address_loop.raw_induct [where P = "\<lambda>p a latest h acc r. latest \<noteq> - 1", OF _ assms])
  fix f p a r and latest h :: uint64 and acc
  assume IH: "\<And>p a latest h acc y. f p a latest h acc = Some y \<Longrightarrow> latest \<noteq> - 1"
    and step: "(if h \<le> latest then f p a latest (h + 1) (acc @ block_infos p a h) else Some acc) = Some r"
  show "latest \<noteq> - 1"
  proof
    assume max: "latest = - 1"
    then have "h \<le> latest" by (simp add: word_order.extremum)
    with step have "f p a latest (h + 1) (acc @ block_infos p a h) = Some r" by simp
    from IH [OF this] max show False by simp
  qed
qed


end
