(* ===== verification/Validate.thy ===== *)
theory Validate
  imports Block_Store
begin

text \<open>
  \<open>core/validate.go\<close> (and \<open>ValidateTxSignatures\<close> of \<open>core/transaction.go\<close>): the checks on a
  block and on a transaction, in the order of the code, with the early return of each.  The clock
  reading of \<open>ValidateTimestamp\<close> is the argument \<open>now\<close>.  The lemmas characterise acceptance:
  what an accepted transaction consumes and pays, that an accepted block consumes distinct unspent
  outputs, and how amounts behave with and without 64-bit wrap-around.
\<close>

section \<open>Checks on a block\<close>

definition MaxFutureBlockTime :: int where "MaxFutureBlockTime = 2 * 60 * 60"

definition ValidatePrevHash :: "Block \<Rightarrow> Hash \<Rightarrow> core_error + unit" where
  "ValidatePrevHash block expectedPrevHash =
     guardE (hdr_PrevHash (blk_Header block) = expectedPrevHash) (BlockCheck PrevHashMismatch)"

definition ValidateMerkleRoot :: "crypto \<Rightarrow> Block \<Rightarrow> core_error + unit" where
  "ValidateMerkleRoot C block =
     guardE (hdr_MerkleRoot (blk_Header block) = calculateMerkleRoot C (blk_Transactions block))
       (BlockCheck MerkleRootMismatch)"

definition ValidateBlockHash :: "crypto \<Rightarrow> Block \<Rightarrow> core_error + unit" where
  "ValidateBlockHash C block =
     guardE (blk_Hash block = Hash_BlockHeader C ((blk_Header block)\<lparr>hdr_Hash := zero_Hash\<rparr>))
       (BlockCheck BlockHashMismatch)"

definition ValidateHeightContinuity :: "uint64 \<Rightarrow> uint64 \<Rightarrow> core_error + unit" where
  "ValidateHeightContinuity blockHeight prevBlockHeight =
     guardE (blockHeight = prevBlockHeight + 1)
       (BlockCheck (HeightNotContinuous (prevBlockHeight + 1) blockHeight))"

definition ValidateTimestamp :: "int \<Rightarrow> int \<Rightarrow> int \<Rightarrow> core_error + unit" where
  "ValidateTimestamp now blockTimestamp prevBlockTimestamp =
     (if blockTimestamp < prevBlockTimestamp then Inl (BlockCheck TimestampBeforePrev)
      else if now + MaxFutureBlockTime < blockTimestamp then Inl (BlockCheck TimestampInFuture)
      else Inr ())"

definition ValidateTxCount :: "Transaction list \<Rightarrow> core_error + unit" where
  "ValidateTxCount txs = guardE (length txs \<le> MaxTxsPerBlock) (BlockCheck (TooManyTxs (length txs)))"

definition see_tx :: "Hash list \<Rightarrow> Transaction \<Rightarrow> core_error + Hash list" where
  "see_tx seen tx =
     (if List.member seen (tx_ID tx) then Inl (BlockCheck (DuplicateTx (tx_ID tx))) else Inr (tx_ID tx # seen))"

definition ValidateDuplicateTx :: "Transaction list \<Rightarrow> core_error + unit" where
  "ValidateDuplicateTx txs = bindE (foldE see_tx [] txs) (\<lambda>_. Inr ())"

text \<open>\<open>fmt.Sprintf("%s:%d", HashToString(TxID), OutputIndex)\<close>\<close>

definition input_key :: "TxInput \<Rightarrow> string" where
  "input_key input = HashToString (in_TxID input) @ '':'' @ Uint64ToString (in_OutputIndex input)"

definition see_input :: "string list \<Rightarrow> TxInput \<Rightarrow> core_error + string list" where
  "see_input seen input =
     (if List.member seen (input_key input)
      then Inl (BlockCheck (DuplicateUtxo (in_TxID input) (in_OutputIndex input)))
      else Inr (input_key input # seen))"

definition ValidateDuplicateUTXO :: "Transaction list \<Rightarrow> core_error + unit" where
  "ValidateDuplicateUTXO txs =
     bindE (foldE (\<lambda>seen tx. foldE see_input seen (ins tx)) [] txs) (\<lambda>_. Inr ())"

definition ValidateProposer :: "Block \<Rightarrow> core_error + unit" where
  "ValidateProposer block = guardE (blk_Proposer block \<noteq> zero_Address) (BlockCheck EmptyProposer)"

definition ValidateProposerSignature :: "Block \<Rightarrow> ProposerValidator option \<Rightarrow> core_error + unit" where
  "ValidateProposerSignature block validator =
     (case validator of
        None \<Rightarrow> Inr ()
      | Some v \<Rightarrow>
          if \<not> pv_IsValidProposer v (blk_Proposer block) (blk_Height block) then Inl (BlockCheck NotAValidator)
          else if \<not> pv_ValidateProposerSignature v (blk_Proposer block) (blk_Hash block) (blk_Signature block)
          then Inl (BlockCheck BadProposerSignature)
          else Inr ())"

section \<open>Checks on a transaction\<close>

definition ValidateTxInputSignature ::
    "crypto \<Rightarrow> Transaction \<Rightarrow> TxInput \<Rightarrow> UTXO \<Rightarrow> core_error + unit" where
  "ValidateTxInputSignature C tx input utxo =
     (if length (elems (in_PublicKey input)) = 0 then Inl (TxCheck PublicKeyEmpty)
      else bindE (wrapE (Wrap ''failed to parse public key'' \<circ> KeyError) (BytesToPublicKey C (elems (in_PublicKey input))))
        (\<lambda>publicKey.
         if PublicKeyToAddress C publicKey \<noteq> out_Address (utxo_TxOut utxo) then Inl (TxCheck KeyMismatch)
         else if \<not> VerifySignature C (Some publicKey) (HashToBytes (tx_ID tx)) (in_Signature input)
         then Inl (TxCheck InvalidSignature)
         else Inr ()))"

definition ValidateAllTxSignatures :: "crypto \<Rightarrow> BlockChain \<Rightarrow> Transaction \<Rightarrow> core_error + unit" where
  "ValidateAllTxSignatures C p tx =
     (if length (ins tx) = 0 then Inr ()
      else foldE (\<lambda>_ input.
        bindE (wrapE (Wrap ''UTXO not found for input'')
                 (db_Get (bc_db p) (GetUtxoKey (in_TxID input) (go_int (in_OutputIndex input))))) (\<lambda>v.
        bindE (wrapE (Wrap ''failed to deserialize UTXO'') (as_utxo v)) (\<lambda>utxo.
        wrapE (Wrap ''signature validation failed for input'') (ValidateTxInputSignature C tx input utxo))))
        () (ins tx))"

definition ValidateCoinbaseTx :: "Transaction \<Rightarrow> core_error + unit" where
  "ValidateCoinbaseTx tx =
     (if length (ins tx) \<noteq> 0 then Inl (TxCheck CoinbaseHasInputs)
      else if length (outs tx) = 0 then Inl (TxCheck CoinbaseNoOutput)
      else let totalOutput = foldl (\<lambda>acc output. acc + out_Amount output) 0 (outs tx) in
           if totalOutput = 0 then Inl (TxCheck CoinbaseZeroAmount)
           else Inr ())"

text \<open>The body of the input loop of \<open>ValidateTransaction\<close>: it adds the amount of an unspent output.\<close>

definition add_input :: "BlockChain \<Rightarrow> uint64 \<Rightarrow> TxInput \<Rightarrow> core_error + uint64" where
  "add_input p inputSum input =
     (case bc_db p (GetUtxoKey (in_TxID input) (go_int (in_OutputIndex input))) of
        Inl e \<Rightarrow> Inl (TxCheck (UtxoNotFound (in_TxID input) (in_OutputIndex input)))
      | Inr v \<Rightarrow>
          bindE (wrapE (Wrap ''failed to deserialize UTXO'') (as_utxo v)) (\<lambda>utxo.
          if utxo_Spent utxo then Inl (TxCheck (UtxoAlreadySpent (in_TxID input) (in_OutputIndex input)))
          else Inr (inputSum + out_Amount (utxo_TxOut utxo))))"

definition ValidateTransaction :: "crypto \<Rightarrow> BlockChain \<Rightarrow> Transaction \<Rightarrow> core_error + unit" where
  "ValidateTransaction C p tx =
     bindE (ValidateTxHash C tx) (\<lambda>_.
     if tx_NetworkID tx \<noteq> cm_NetworkID (cfg_Common (bc_cfg p)) then Inl (TxCheck NetworkMismatch)
     else if 0 < GetMaxMemoSize p \<and> GetMaxMemoSize p < go_uint64 (length (tx_Memo tx)) then Inl (TxCheck MemoTooLong)
     else if 0 < GetMaxDataSize p \<and> GetMaxDataSize p < go_uint64 (length (elems (tx_Data tx)))
     then Inl (TxCheck DataTooLong)
     else if length (ins tx) = 0 then ValidateCoinbaseTx tx
     else bindE (foldE (add_input p) 0 (ins tx)) (\<lambda>inputSum.
       let outputSum = foldl (\<lambda>acc output. acc + out_Amount output) 0 (outs tx) in
       if inputSum < outputSum then Inl (TxCheck (InsufficientInput inputSum outputSum))
       else let implicitFee = inputSum - outputSum; minFee = GetMinFee p in
       if implicitFee < minFee then Inl (TxCheck (FeeTooLow implicitFee minFee))
       else wrapE (Wrap ''signature validation failed'') (ValidateAllTxSignatures C p tx)))"

definition CalculateTxFee :: "BlockChain \<Rightarrow> Transaction \<Rightarrow> core_error + uint64" where
  "CalculateTxFee p tx =
     (if length (ins tx) = 0 then Inr 0
      else bindE (foldE (\<lambda>inputSum input.
             bindE (wrapE (Wrap ''failed to get UTXO'') (GetUtxoByTxIdAndIdx p (in_TxID input) (in_OutputIndex input)))
               (\<lambda>utxo. Inr (inputSum + out_Amount (utxo_TxOut utxo)))) 0 (ins tx)) (\<lambda>inputSum.
           let outputSum = foldl (\<lambda>acc output. acc + out_Amount output) 0 (outs tx) in
           if inputSum < outputSum then Inl (TxCheck (InsufficientInput inputSum outputSum))
           else Inr (inputSum - outputSum)))"

text \<open>
  \<open>ValidateTxSignatures\<close> of \<open>core/transaction.go\<close>, used on the submission path; \<open>check_signer\<close> is
  the body of its loop.
\<close>

definition check_signer :: "crypto \<Rightarrow> BlockChain \<Rightarrow> Transaction \<Rightarrow> TxInput \<Rightarrow> core_error + unit" where
  "check_signer C p tx input =
     (if length (elems (in_PublicKey input)) = 0 then Inl (TxCheck PublicKeyEmpty)
      else bindE (wrapE (Wrap ''signature verification error'' \<circ> KeyError)
             (VerifySignatureWithBytes C (elems (in_PublicKey input)) (HashToBytes (tx_ID tx)) (in_Signature input))) (\<lambda>valid.
      if \<not> valid then Inl (TxCheck InvalidSignature)
      else bindE (wrapE (Wrap ''failed to parse public key'' \<circ> KeyError)
             (BytesToPublicKey C (elems (in_PublicKey input)))) (\<lambda>pubKey.
      let signerAddr = PublicKeyToAddress C pubKey in
      bindE (wrapE (Wrap ''failed to get referenced UTXO'')
             (GetUtxoByTxIdAndIdx p (in_TxID input) (in_OutputIndex input))) (\<lambda>utxo.
      if signerAddr \<noteq> out_Address (utxo_TxOut utxo) then Inl (TxCheck KeyMismatch) else Inr ()))))"

definition ValidateTxSignatures :: "crypto \<Rightarrow> BlockChain \<Rightarrow> Transaction \<Rightarrow> core_error + unit" where
  "ValidateTxSignatures C p tx =
     (if length (ins tx) = 0 then Inr () else foldE (\<lambda>_ input. check_signer C p tx input) () (ins tx))"

section \<open>ValidateBlock\<close>

definition validateGenesisBlock :: "crypto \<Rightarrow> Block \<Rightarrow> core_error + unit" where
  "validateGenesisBlock C block =
     (if blk_Height block \<noteq> 0 then Inl (BlockCheck GenesisHeightNotZero)
      else if hdr_PrevHash (blk_Header block) \<noteq> zero_Hash then Inl (BlockCheck GenesisPrevHashNotZero)
      else bindE (ValidateMerkleRoot C block) (\<lambda>_. ValidateBlockHash C block))"

text \<open>Step 8: the commit signatures, when asked for and a validator is set.\<close>

definition check_commit :: "ProposerValidator option \<Rightarrow> Block \<Rightarrow> bool \<Rightarrow> core_error + unit" where
  "check_commit pv block checkCommit =
     (case pv of
        Some v \<Rightarrow> if checkCommit
                  then wrapE (Wrap ''BFT consensus validation failed'')
                         (pv_ValidateCommitSignatures v (blk_Hash block) (blk_CommitSignatures block))
                  else Inr ()
      | None \<Rightarrow> Inr ())"

text \<open>
  \<open>pv\<close> is the chain's \<open>proposerValidator\<close>; \<open>SetProposerValidator\<close> installs it and
  \<open>GetProposerValidator\<close> returns it.
\<close>

definition ValidateBlock ::
    "crypto \<Rightarrow> int \<Rightarrow> ProposerValidator option \<Rightarrow> BlockChain \<Rightarrow> Block \<Rightarrow> bool \<Rightarrow> core_error + unit" where
  "ValidateBlock C now pv p block checkCommit =
     (if blk_Height block = 0 then validateGenesisBlock C block
      else bindE (wrapE (Wrap ''failed to get prev block'') (getBlockByHeightNoLock p (blk_Height block - 1))) (\<lambda>prevBlock.
      bindE (ValidatePrevHash block (blk_Hash prevBlock)) (\<lambda>_.
      bindE (ValidateMerkleRoot C block) (\<lambda>_.
      bindE (ValidateBlockHash C block) (\<lambda>_.
      bindE (ValidateHeightContinuity (blk_Height block) (blk_Height prevBlock)) (\<lambda>_.
      bindE (ValidateTimestamp now (hdr_Timestamp (blk_Header block)) (hdr_Timestamp (blk_Header prevBlock))) (\<lambda>_.
      bindE (ValidateProposer block) (\<lambda>_.
      bindE (ValidateProposerSignature block pv) (\<lambda>_.
      bindE (check_commit pv block checkCommit) (\<lambda>_.
      bindE (ValidateTxCount (blk_Transactions block)) (\<lambda>_.
      bindE (ValidateDuplicateTx (blk_Transactions block)) (\<lambda>_.
      bindE (ValidateDuplicateUTXO (blk_Transactions block)) (\<lambda>_.
      foldE (\<lambda>_ tx. wrapE (Wrap ''invalid transaction'') (ValidateTransaction C p tx)) ()
        (blk_Transactions block))))))))))))))"

section \<open>Acceptance\<close>

lemma block_check_ok [res_simps]:
  "ValidatePrevHash b h = Inr u \<longleftrightarrow> hdr_PrevHash (blk_Header b) = h"
  "ValidateMerkleRoot C b = Inr u \<longleftrightarrow> hdr_MerkleRoot (blk_Header b) = calculateMerkleRoot C (blk_Transactions b)"
  "ValidateBlockHash C b = Inr u \<longleftrightarrow> blk_Hash b = Hash_BlockHeader C ((blk_Header b)\<lparr>hdr_Hash := zero_Hash\<rparr>)"
  "ValidateHeightContinuity n m = Inr u \<longleftrightarrow> n = m + 1"
  "ValidateTimestamp now t s = Inr u \<longleftrightarrow> s \<le> t \<and> t \<le> now + MaxFutureBlockTime"
  "ValidateTxCount txs = Inr u \<longleftrightarrow> length txs \<le> MaxTxsPerBlock"
  "ValidateProposer b = Inr u \<longleftrightarrow> blk_Proposer b \<noteq> zero_Address"
  by (auto simp: ValidatePrevHash_def ValidateMerkleRoot_def ValidateBlockHash_def ValidateHeightContinuity_def
      ValidateTimestamp_def ValidateTxCount_def ValidateProposer_def guardE_Inr)

text \<open>A scan with a set of seen keys succeeds exactly on sequences without repetition.\<close>

lemma foldE_seen:
  assumes "\<And>seen x seen'. f seen x = Inr seen' \<longleftrightarrow> g x \<notin> set seen \<and> seen' = g x # seen"
  shows "foldE f seen xs = Inr seen' \<longleftrightarrow>
     distinct (map g xs) \<and> set (map g xs) \<inter> set seen = {} \<and> seen' = rev (map g xs) @ seen"
  by (induction xs arbitrary: seen) (auto simp: bindE_Inr assms)

lemma ValidateDuplicateTx_ok [res_simps]: "ValidateDuplicateTx txs = Inr u \<longleftrightarrow> distinct (map tx_ID txs)"
proof -
  have "see_tx seen tx = Inr seen' \<longleftrightarrow> tx_ID tx \<notin> set seen \<and> seen' = tx_ID tx # seen" for seen tx seen'
    by (auto simp: see_tx_def)
  from foldE_seen [of see_tx tx_ID, OF this] show ?thesis by (simp add: ValidateDuplicateTx_def bindE_Inr)
qed

lemma foldE_concat: "foldE (\<lambda>s x. foldE f s (g x)) s xs = foldE f s (concat (map g xs))"
  by (induction xs arbitrary: s) (simp_all add: foldE_append)

lemma input_key_inj: "input_key i = input_key j \<longleftrightarrow> in_op i = in_op j"
  using colon_split [OF hex_no_colon [of "in_TxID i"] hex_no_colon [of "in_TxID j"]]
  by (simp add: input_key_def HashToString_def in_op_def)

definition txs_inputs :: "Transaction list \<Rightarrow> outpoint list" where
  "txs_inputs txs = concat (map (\<lambda>tx. map in_op (ins tx)) txs)"

lemma distinct_input_keys: "distinct (map input_key is) \<longleftrightarrow> distinct (map in_op is)"
  by (induction "is") (auto simp: input_key_inj)

lemma ValidateDuplicateUTXO_ok [res_simps]: "ValidateDuplicateUTXO txs = Inr u \<longleftrightarrow> distinct (txs_inputs txs)"
proof -
  have "see_input seen i = Inr seen' \<longleftrightarrow> input_key i \<notin> set seen \<and> seen' = input_key i # seen" for seen i seen'
    by (auto simp: see_input_def)
  note seen = foldE_seen [of see_input input_key, OF this]
  have "map in_op (concat (map ins txs)) = txs_inputs txs" by (simp add: txs_inputs_def map_concat comp_def)
  with seen [of "[]" "concat (map ins txs)"] show ?thesis
    by (simp add: ValidateDuplicateUTXO_def bindE_Inr foldE_concat distinct_input_keys)
qed

section \<open>What an accepted transaction pays\<close>

text \<open>The amounts of the unspent outputs a transaction consumes, as stored.\<close>

definition input_amounts :: "leveldb \<Rightarrow> Transaction \<Rightarrow> uint64 list" where
  "input_amounts db tx =
     map (\<lambda>i. case utxo_at db (in_op i) of None \<Rightarrow> 0 | Some u \<Rightarrow> out_Amount (utxo_TxOut u)) (ins tx)"

definition output_amounts :: "Transaction \<Rightarrow> uint64 list" where
  "output_amounts tx = map out_Amount (outs tx)"

definition spendable :: "leveldb \<Rightarrow> outpoint \<Rightarrow> bool" where
  "spendable db op \<longleftrightarrow> (\<exists>u. utxo_at db op = Some u \<and> \<not> utxo_Spent u)"

lemma add_input_ok:
  "add_input p s i = Inr s' \<longleftrightarrow>
     (\<exists>u. utxo_at (bc_db p) (in_op i) = Some u \<and> \<not> utxo_Spent u \<and> s' = s + out_Amount (utxo_TxOut u))"
  by (auto simp: add_input_def utxo_at_Some in_op_def res_simps split: sum.splits)

lemma add_inputs_ok:
  "foldE (add_input p) s is = Inr s' \<longleftrightarrow>
     (\<forall>i\<in>set is. spendable (bc_db p) (in_op i)) \<and>
     s' = s + sum_list (map (\<lambda>i. case utxo_at (bc_db p) (in_op i) of None \<Rightarrow> 0 | Some u \<Rightarrow> out_Amount (utxo_TxOut u)) is)"
  by (induction "is" arbitrary: s) (auto simp: bindE_Inr add_input_ok spendable_def)

lemma output_sum: "foldl (\<lambda>acc output. acc + out_Amount output) 0 os = sum_list (map out_Amount os)"
  by (simp add: foldl_add_sum_list)

definition input_signed :: "crypto \<Rightarrow> leveldb \<Rightarrow> Transaction \<Rightarrow> TxInput \<Rightarrow> bool" where
  "input_signed C db tx i \<longleftrightarrow>
     (\<exists>u pk. utxo_at db (in_op i) = Some u \<and> BytesToPublicKey C (elems (in_PublicKey i)) = Inr pk \<and>
        PublicKeyToAddress C pk = owner u \<and> VerifySignature C (Some pk) (tx_ID tx) (in_Signature i))"

lemma BytesToPublicKey_nonempty: "BytesToPublicKey C bs = Inr pk \<Longrightarrow> bs \<noteq> []"
  by (auto simp: BytesToPublicKey_def)

lemma ValidateTxInputSignature_ok:
  "ValidateTxInputSignature C tx i u = Inr x \<longleftrightarrow>
     (\<exists>pk. BytesToPublicKey C (elems (in_PublicKey i)) = Inr pk \<and>
        PublicKeyToAddress C pk = owner u \<and> VerifySignature C (Some pk) (tx_ID tx) (in_Signature i))"
  by (auto simp: ValidateTxInputSignature_def res_simps HashToBytes_def dest: BytesToPublicKey_nonempty)

lemma ValidateAllTxSignatures_ok:
  "ValidateAllTxSignatures C p tx = Inr x \<longleftrightarrow> (\<forall>i\<in>set (ins tx). input_signed C (bc_db p) tx i)"
proof (cases "ins tx = []")
  case True
  then show ?thesis by (simp add: ValidateAllTxSignatures_def)
next
  case False
  then show ?thesis
    by (auto simp: ValidateAllTxSignatures_def foldE_check res_simps ValidateTxInputSignature_ok
        input_signed_def utxo_at_Some in_op_def)
qed

text \<open>The two signature checks of the code accept the same transactions.\<close>

lemma check_signer_ok: "check_signer C p tx i = Inr x \<longleftrightarrow> input_signed C (bc_db p) tx i"
proof (cases "BytesToPublicKey C (elems (in_PublicKey i))")
  case (Inl e)
  then show ?thesis by (simp add: check_signer_def VerifySignatureWithBytes_eq input_signed_def)
next
  case (Inr pk)
  then have "elems (in_PublicKey i) \<noteq> []" by (rule BytesToPublicKey_nonempty)
  with Inr show ?thesis
    by (cases "VerifySignature C (Some pk) (tx_ID tx) (in_Signature i)")
      (auto simp: check_signer_def VerifySignatureWithBytes_eq input_signed_def HashToBytes_def in_op_def
        bindE_Inr wrapE_Inr GetUtxoByTxIdAndIdx_Inr)
qed

lemma ValidateTxSignatures_ok:
  "ValidateTxSignatures C p tx = Inr x \<longleftrightarrow> (\<forall>i\<in>set (ins tx). input_signed C (bc_db p) tx i)"
  by (cases "ins tx = []") (simp_all add: ValidateTxSignatures_def foldE_check check_signer_ok)

text \<open>Acceptance of a transaction, spelled out.\<close>

definition tx_form_ok :: "crypto \<Rightarrow> BlockChain \<Rightarrow> Transaction \<Rightarrow> bool" where
  "tx_form_ok C p tx \<longleftrightarrow>
     tx_ID tx = Hash_Transaction C (tx_preimage tx) \<and>
     tx_NetworkID tx = cm_NetworkID (cfg_Common (bc_cfg p)) \<and>
     (GetMaxMemoSize p = 0 \<or> go_uint64 (length (tx_Memo tx)) \<le> GetMaxMemoSize p) \<and>
     (GetMaxDataSize p = 0 \<or> go_uint64 (length (elems (tx_Data tx))) \<le> GetMaxDataSize p)"

lemma ValidateCoinbaseTx_ok:
  "ValidateCoinbaseTx tx = Inr u \<longleftrightarrow> ins tx = [] \<and> outs tx \<noteq> [] \<and> sum_list (output_amounts tx) \<noteq> 0"
  by (auto simp: ValidateCoinbaseTx_def Let_def output_sum output_amounts_def)

lemma ValidateTransaction_coinbase:
  assumes "ins tx = []"
  shows "ValidateTransaction C p tx = Inr u \<longleftrightarrow>
     tx_form_ok C p tx \<and> outs tx \<noteq> [] \<and> sum_list (output_amounts tx) \<noteq> 0"
  using assms ValidateCoinbaseTx_ok [of tx u]
  by (auto simp: ValidateTransaction_def tx_form_ok_def bindE_Inr ValidateTxHash_ok word_gt_0 not_less split: if_splits)

lemma ValidateTransaction_transfer:
  assumes "ins tx \<noteq> []"
  shows "ValidateTransaction C p tx = Inr u \<longleftrightarrow>
     tx_form_ok C p tx \<and> (\<forall>i\<in>set (ins tx). spendable (bc_db p) (in_op i)) \<and>
     sum_list (output_amounts tx) \<le> sum_list (input_amounts (bc_db p) tx) \<and>
     GetMinFee p \<le> sum_list (input_amounts (bc_db p) tx) - sum_list (output_amounts tx) \<and>
     (\<forall>i\<in>set (ins tx). input_signed C (bc_db p) tx i)"
proof -
  let ?i = "sum_list (input_amounts (bc_db p) tx)" and ?o = "sum_list (output_amounts tx)"
  have sums: "foldE (add_input p) 0 (ins tx) = Inr s \<longleftrightarrow>
      (\<forall>i\<in>set (ins tx). spendable (bc_db p) (in_op i)) \<and> s = ?i" for s
    by (simp add: add_inputs_ok input_amounts_def)
  have "bindE (foldE (add_input p) 0 (ins tx)) (\<lambda>inputSum.
       let outputSum = foldl (\<lambda>acc output. acc + out_Amount output) 0 (outs tx) in
       if inputSum < outputSum then Inl (TxCheck (InsufficientInput inputSum outputSum))
       else let implicitFee = inputSum - outputSum; minFee = GetMinFee p in
       if implicitFee < minFee then Inl (TxCheck (FeeTooLow implicitFee minFee))
       else wrapE (Wrap ''signature validation failed'') (ValidateAllTxSignatures C p tx)) = Inr u \<longleftrightarrow>
     (\<forall>i\<in>set (ins tx). spendable (bc_db p) (in_op i)) \<and> ?o \<le> ?i \<and> GetMinFee p \<le> ?i - ?o \<and>
     (\<forall>i\<in>set (ins tx). input_signed C (bc_db p) tx i)"
    unfolding bindE_Inr sums output_sum output_amounts_def [symmetric]
    using ValidateAllTxSignatures_ok [of C p tx u]
    by (auto simp: Let_def not_less wrapE_Inr split: if_splits)
  with assms show ?thesis
    by (auto simp: ValidateTransaction_def tx_form_ok_def bindE_Inr ValidateTxHash_ok word_gt_0 not_less split: if_splits)
qed

lemma ValidateTransaction_spendable:
  "ValidateTransaction C p tx = Inr u \<Longrightarrow> i \<in> set (ins tx) \<Longrightarrow> spendable (bc_db p) (in_op i)"
  using ValidateTransaction_transfer [of tx C p u] by (cases "ins tx = []") auto

lemma ValidateTransaction_form: "ValidateTransaction C p tx = Inr u \<Longrightarrow> tx_form_ok C p tx"
  using ValidateTransaction_transfer [of tx C p u] ValidateTransaction_coinbase [of tx C p u]
  by (cases "ins tx = []") auto

section \<open>Acceptance of a block\<close>

lemma check_commit_ok [res_simps]:
  "check_commit pv blk cc = Inr u \<longleftrightarrow>
     (cc \<longrightarrow> (\<forall>v. pv = Some v \<longrightarrow> pv_ValidateCommitSignatures v (blk_Hash blk) (blk_CommitSignatures blk) = Inr u))"
  by (auto simp: check_commit_def wrapE_Inr split: option.splits)

lemma ValidateProposerSignature_ok [res_simps]:
  "ValidateProposerSignature blk pv = Inr u \<longleftrightarrow>
     (\<forall>v. pv = Some v \<longrightarrow> pv_IsValidProposer v (blk_Proposer blk) (blk_Height blk) \<and>
        pv_ValidateProposerSignature v (blk_Proposer blk) (blk_Hash blk) (blk_Signature blk))"
  by (auto simp: ValidateProposerSignature_def split: option.splits)

text \<open>The header follows the block \<open>prev\<close>, and its own fields are consistent.\<close>

definition header_ok :: "crypto \<Rightarrow> int \<Rightarrow> Block \<Rightarrow> Block \<Rightarrow> bool" where
  "header_ok C now prev blk \<longleftrightarrow>
     hdr_PrevHash (blk_Header blk) = blk_Hash prev \<and>
     hdr_MerkleRoot (blk_Header blk) = calculateMerkleRoot C (blk_Transactions blk) \<and>
     blk_Hash blk = Hash_BlockHeader C ((blk_Header blk)\<lparr>hdr_Hash := zero_Hash\<rparr>) \<and>
     blk_Height blk = blk_Height prev + 1 \<and>
     hdr_Timestamp (blk_Header prev) \<le> hdr_Timestamp (blk_Header blk) \<and>
     hdr_Timestamp (blk_Header blk) \<le> now + MaxFutureBlockTime \<and>
     blk_Proposer blk \<noteq> zero_Address"

definition body_ok :: "crypto \<Rightarrow> BlockChain \<Rightarrow> Transaction list \<Rightarrow> bool" where
  "body_ok C p txs \<longleftrightarrow>
     length txs \<le> MaxTxsPerBlock \<and> distinct (map tx_ID txs) \<and> distinct (txs_inputs txs) \<and>
     (\<forall>tx\<in>set txs. ValidateTransaction C p tx = Inr ())"

lemma ValidateBlock_ok:
  assumes "blk_Height blk \<noteq> 0"
  shows "ValidateBlock C now pv p blk cc = Inr u \<longleftrightarrow>
     (\<exists>prev. getBlockByHeightNoLock p (blk_Height blk - 1) = Inr prev \<and> header_ok C now prev blk) \<and>
     ValidateProposerSignature blk pv = Inr () \<and> check_commit pv blk cc = Inr () \<and>
     body_ok C p (blk_Transactions blk)"
  using assms unfolding ValidateBlock_def header_ok_def body_ok_def
  by (simp add: bindE_Inr wrapE_Inr block_check_ok ValidateDuplicateTx_ok ValidateDuplicateUTXO_ok foldE_check) blast

lemma validateGenesisBlock_ok:
  "validateGenesisBlock C blk = Inr u \<longleftrightarrow>
     blk_Height blk = 0 \<and> hdr_PrevHash (blk_Header blk) = zero_Hash \<and>
     hdr_MerkleRoot (blk_Header blk) = calculateMerkleRoot C (blk_Transactions blk) \<and>
     blk_Hash blk = Hash_BlockHeader C ((blk_Header blk)\<lparr>hdr_Hash := zero_Hash\<rparr>)"
  by (auto simp: validateGenesisBlock_def bindE_Inr block_check_ok)

lemma body_ok_spendable: "body_ok C p (blk_Transactions blk) \<Longrightarrow> op \<in> set (block_inputs blk) \<Longrightarrow> spendable (bc_db p) op"
  by (auto simp: body_ok_def block_inputs_def dest!: ValidateTransaction_spendable)

lemma block_inputs_txs: "block_inputs blk = txs_inputs (blk_Transactions blk)"
  by (simp add: block_inputs_def txs_inputs_def)

text \<open>The fee of an accepted transaction is what its inputs exceed its outputs by.\<close>

lemma CalculateTxFee_eq:
  assumes "\<forall>i\<in>set (ins tx). spendable (bc_db p) (in_op i)" "ins tx \<noteq> []"
  shows "CalculateTxFee p tx =
     (let s = sum_list (input_amounts (bc_db p) tx); out = sum_list (output_amounts tx)
      in if s < out then Inl (TxCheck (InsufficientInput s out)) else Inr (s - out))"
proof -
  have "foldE (\<lambda>inputSum input.
             bindE (wrapE (Wrap ''failed to get UTXO'') (GetUtxoByTxIdAndIdx p (in_TxID input) (in_OutputIndex input)))
               (\<lambda>utxo. Inr (inputSum + out_Amount (utxo_TxOut utxo)))) s is
      = Inr (s + sum_list (map (\<lambda>i. case utxo_at (bc_db p) (in_op i) of None \<Rightarrow> 0 | Some u \<Rightarrow> out_Amount (utxo_TxOut u)) is))"
    if "\<forall>i\<in>set is. spendable (bc_db p) (in_op i)" for s "is"
    using that
  proof (induction "is" arbitrary: s)
    case Nil
    then show ?case by simp
  next
    case (Cons i "is")
    then obtain u where u: "utxo_at (bc_db p) (in_op i) = Some u" by (auto simp: spendable_def)
    then have "GetUtxoByTxIdAndIdx p (in_TxID i) (in_OutputIndex i) = Inr u"
      by (simp add: GetUtxoByTxIdAndIdx_Inr in_op_def)
    with Cons u show ?case by (simp add: add.assoc)
  qed
  from this [OF assms(1)] assms(2) show ?thesis
    by (simp add: CalculateTxFee_def input_amounts_def output_sum output_amounts_def Let_def)
qed

lemma CalculateTxFee_valid:
  assumes "ValidateTransaction C p tx = Inr u" "ins tx \<noteq> []"
  shows "CalculateTxFee p tx = Inr (sum_list (input_amounts (bc_db p) tx) - sum_list (output_amounts tx))"
  using assms ValidateTransaction_transfer [OF assms(2), of C p u]
  by (simp add: CalculateTxFee_eq Let_def not_less [symmetric])

section \<open>Conservation of value\<close>

text \<open>
  The sums are taken modulo \<open>2^64\<close>.  When the inputs and outputs of a transaction do not
  overflow, an accepted transaction pays out its inputs less a fee of at least the minimum.
\<close>

definition no_overflow :: "leveldb \<Rightarrow> Transaction \<Rightarrow> bool" where
  "no_overflow db tx \<longleftrightarrow>
     sum_list (map unat (input_amounts db tx)) < 2 ^ 64 \<and> sum_list (map unat (output_amounts tx)) < 2 ^ 64"

lemma ValidateTransaction_conserves:
  assumes "ValidateTransaction C p tx = Inr u" "ins tx \<noteq> []" "no_overflow (bc_db p) tx"
  shows "sum_list (map unat (output_amounts tx)) + unat (GetMinFee p) \<le> sum_list (map unat (input_amounts (bc_db p) tx))"
proof -
  let ?i = "sum_list (input_amounts (bc_db p) tx)" and ?o = "sum_list (output_amounts tx)"
  from assms(1,2) have le: "?o \<le> ?i" "GetMinFee p \<le> ?i - ?o"
    using ValidateTransaction_transfer [OF assms(2), of C p u] by auto
  from le(1) have "unat (?i - ?o) = unat ?i - unat ?o" by (rule unat_sub)
  with le have "unat ?o + unat (GetMinFee p) \<le> unat ?i" by (simp add: word_le_nat_alt)
  moreover have "unat ?i = sum_list (map unat (input_amounts (bc_db p) tx))"
    "unat ?o = sum_list (map unat (output_amounts tx))"
    using assms(3) by (simp_all add: no_overflow_def unat_sum_list_no_wrap)
  ultimately show ?thesis by simp
qed

end
