(* ===== verification/Transfers.thy ===== *)
theory Transfers
  imports Validate
begin

text \<open>
  Building transactions, \<open>core/transaction.go\<close>: \<open>SetTransferTx\<close>, \<open>setTxIOPair\<close>,
  \<open>setTxInput\<close>, \<open>setTxOutput\<close>, \<open>SubmitTx\<close> and \<open>CreateSignedTx\<close>.  The clock is the argument \<open>now\<close>,
  the order in which the address index is visited the argument \<open>\<rho>\<close>, the randomness of the
  signatures the argument \<open>r\<close> (by input).  The lemmas show what coin selection collects, that the
  outputs and the fee add up to the inputs, and that a transaction built and signed by
  \<open>CreateSignedTx\<close> passes \<open>ValidateTransaction\<close>.
\<close>

section \<open>Operations\<close>

definition setTxInput :: "Hash \<Rightarrow> uint64 \<Rightarrow> Signature \<Rightarrow> byte slice \<Rightarrow> TxInput" where
  "setTxInput txOutID txOutIdx sig pubKey =
     \<lparr>in_TxID = txOutID, in_OutputIndex = txOutIdx, in_Signature = sig, in_PublicKey = nil_to_empty pubKey\<rparr>"

definition setTxOutput :: "Address \<Rightarrow> uint64 \<Rightarrow> uint8 \<Rightarrow> TxOutput" where
  "setTxOutput toAddr amount txType = \<lparr>out_Address = toAddr, out_Amount = amount, out_TxType = txType\<rparr>"

text \<open>
  The selection loop: take outputs until the required amount is reached; the result is the outputs
  taken and their total (modulo \<open>2^64\<close>).
\<close>

fun take_utxos :: "uint64 \<Rightarrow> uint64 \<Rightarrow> UTXO list \<Rightarrow> UTXO list \<times> uint64" where
  "take_utxos requiredAmount tot [] = ([], tot)"
| "take_utxos requiredAmount tot (utxo # utxos) =
     (if requiredAmount \<le> tot then ([], tot)
      else let (taken, tot') = take_utxos requiredAmount (tot + out_Amount (utxo_TxOut utxo)) utxos
           in (utxo # taken, tot'))"

text \<open>\<open>append\<close> to a nil slice: nil if nothing was appended.\<close>

definition appended :: "'a list \<Rightarrow> 'a slice" where
  "appended xs = (if xs = [] then None else Some xs)"

definition pay_outputs :: "Address \<Rightarrow> Address \<Rightarrow> uint64 \<Rightarrow> uint64 \<Rightarrow> uint64 \<Rightarrow> uint8 \<Rightarrow> TxOutput list" where
  "pay_outputs from to amount requiredAmount tot txType =
     setTxOutput to amount txType #
     (if requiredAmount < tot then [setTxOutput from (tot - requiredAmount) txType] else [])"

definition setTxIOPair ::
    "UTXO list \<Rightarrow> Address \<Rightarrow> Address \<Rightarrow> uint64 \<Rightarrow> uint64 \<Rightarrow> uint8 \<Rightarrow> core_error + TxIOPair" where
  "setTxIOPair utxos from to amount fee txType =
     (let requiredAmount = amount + fee;
          (taken, tot) = take_utxos requiredAmount 0 utxos;
          txIns = map (\<lambda>utxo. setTxInput (utxo_TxId utxo) (utxo_OutputIndex utxo) zero_Signature None) taken
      in if tot < requiredAmount then Inl (NotEnoughBalance tot requiredAmount)
         else Inr \<lparr>io_TxIns = appended txIns,
                   io_TxOuts = Some (pay_outputs from to amount requiredAmount tot txType)\<rparr>)"

definition unsigned_tx :: "BlockChain \<Rightarrow> int \<Rightarrow> TxInput slice \<Rightarrow> TxOutput slice \<Rightarrow> string \<Rightarrow> byte slice \<Rightarrow> Transaction" where
  "unsigned_tx p now txIns txOuts memo data =
     \<lparr>tx_Version = ver_Transaction (cfg_Version (bc_cfg p)),
      tx_NetworkID = cm_NetworkID (cfg_Common (bc_cfg p)),
      tx_ID = zero_Hash, tx_Timestamp = now,
      tx_Inputs = nil_to_empty txIns, tx_Outputs = txOuts, tx_Memo = memo, tx_Data = nil_to_empty data\<rparr>"

definition SetTransferTx ::
    "crypto \<Rightarrow> (string, bool) ranging \<Rightarrow> BlockChain \<Rightarrow> int \<Rightarrow> Address \<Rightarrow> Address \<Rightarrow> uint64 \<Rightarrow> uint64 \<Rightarrow>
     string \<Rightarrow> byte slice \<Rightarrow> uint8 \<Rightarrow> core_error + Transaction" where
  "SetTransferTx C \<rho> p now from to amount fee memo data txType =
     bindE (GetUtxoList \<rho> p from True) (\<lambda>utxos.
     let requiredAmount = amount + fee in
     if CalBalanceUtxo utxos < requiredAmount
     then Inl (NotEnoughBalance (CalBalanceUtxo utxos) requiredAmount)
     else bindE (setTxIOPair utxos from to amount fee txType) (\<lambda>txInAndOut.
       let tx = unsigned_tx p now (io_TxIns txInAndOut) (io_TxOuts txInAndOut) memo data
       in Inr (tx\<lparr>tx_ID := Hash_Transaction C tx\<rparr>)))"

text \<open>\<open>SubmitTx\<close> lists the address twice; the two map iterations may differ.\<close>

definition SubmitTx ::
    "crypto \<Rightarrow> (string, bool) ranging \<Rightarrow> (string, bool) ranging \<Rightarrow> BlockChain \<Rightarrow> int \<Rightarrow> Address \<Rightarrow> Address \<Rightarrow>
     uint64 \<Rightarrow> uint64 \<Rightarrow> string \<Rightarrow> byte slice \<Rightarrow> uint8 \<Rightarrow> core_error + BlockChain" where
  "SubmitTx C \<rho>1 \<rho>2 p now from to amount fee memo data txType =
     bindE (wrapE (Wrap ''failed to get balance'') (GetUtxoList \<rho>1 p from True)) (\<lambda>utxoList.
     let requiredAmount = amount + fee; balance = CalBalanceUtxo utxoList in
     if balance < requiredAmount then Inl (NotEnoughBalance balance requiredAmount)
     else bindE (wrapE (Wrap ''failed to set transaction'')
                   (SetTransferTx C \<rho>2 p now from to amount fee memo data txType)) (\<lambda>tx.
          bindE (wrapE (Wrap ''failed to save transaction in mempool'') (NewTranaction (bc_Mempool p) tx)) (\<lambda>m.
          Inr (p\<lparr>bc_Mempool := m\<rparr>))))"

text \<open>The signing loop: every input is signed over the transaction ID, with its own randomness.\<close>

fun sign_inputs ::
    "crypto \<Rightarrow> (nat \<Rightarrow> nat) \<Rightarrow> PrivateKey option \<Rightarrow> byte list \<Rightarrow> nat \<Rightarrow> TxInput list \<Rightarrow> core_error + TxInput list" where
  "sign_inputs C r privateKey txHashBytes i [] = Inr []"
| "sign_inputs C r privateKey txHashBytes i (input # inputs) =
     bindE (wrapE (Wrap ''failed to sign input'' \<circ> KeyError) (SignData C (r i) privateKey txHashBytes)) (\<lambda>sig.
     bindE (sign_inputs C r privateKey txHashBytes (Suc i) inputs) (\<lambda>sgd.
     Inr (input\<lparr>in_Signature := sig\<rparr> # sgd)))"

definition CreateSignedTx ::
    "crypto \<Rightarrow> (string, bool) ranging \<Rightarrow> (nat \<Rightarrow> nat) \<Rightarrow> BlockChain \<Rightarrow> int \<Rightarrow> Address \<Rightarrow> Address \<Rightarrow> uint64 \<Rightarrow> uint64 \<Rightarrow>
     string \<Rightarrow> byte slice \<Rightarrow> uint8 \<Rightarrow> byte list \<Rightarrow> byte slice \<Rightarrow> core_error + Transaction" where
  "CreateSignedTx C \<rho> r p now from to amount fee memo data txType privateKeyBytes publicKeyBytes =
     bindE (wrapE (Wrap ''failed to get UTXO list'') (GetUtxoList \<rho> p from True)) (\<lambda>utxos.
     let requiredAmount = amount + fee; balance = CalBalanceUtxo utxos in
     if balance < requiredAmount then Inl (NotEnoughBalance balance requiredAmount)
     else let (taken, tot) = take_utxos requiredAmount 0 utxos;
              txIns = map (\<lambda>utxo. \<lparr>in_TxID = utxo_TxId utxo, in_OutputIndex = utxo_OutputIndex utxo,
                                   in_Signature = zero_Signature, in_PublicKey = nil_to_empty publicKeyBytes\<rparr>) taken
          in if tot < requiredAmount then Inl (NotEnoughBalance tot requiredAmount)
             else let tx0 = unsigned_tx p now (appended txIns)
                              (Some (pay_outputs from to amount requiredAmount tot txType)) memo data;
                      tx = tx0\<lparr>tx_ID := Hash_Transaction C tx0\<rparr>
                  in bindE (wrapE (Wrap ''failed to parse private key'' \<circ> KeyError) (BytesToPrivateKey C privateKeyBytes)) (\<lambda>privateKey.
                     bindE (sign_inputs C r privateKey (HashToBytes (tx_ID tx)) 0 (ins tx)) (\<lambda>sgd.
                     Inr (tx\<lparr>tx_Inputs := Some sgd\<rparr>))))"

section \<open>Coin selection\<close>

abbreviation amount_of :: "UTXO \<Rightarrow> uint64" where
  "amount_of u \<equiv> out_Amount (utxo_TxOut u)"

lemma take_utxos_prefix:
  "take_utxos req t us = (taken, tot) \<Longrightarrow>
     (\<exists>rest. us = taken @ rest) \<and> tot = t + sum_list (map amount_of taken)"
proof (induction req t us arbitrary: taken tot rule: take_utxos.induct)
  case (1 req t)
  then show ?case by simp
next
  case (2 req t u us)
  show ?case
  proof (cases "req \<le> t")
    case True
    with 2(2) show ?thesis by simp
  next
    case False
    with 2(2) obtain taken' where t': "take_utxos req (t + amount_of u) us = (taken', tot)" "taken = u # taken'"
      by (auto split: prod.splits)
    from 2(1) [OF False t'(1)] t'(2) show ?thesis by (auto simp: add.assoc)
  qed
qed

text \<open>
  Selection reaches the required amount whenever the listed outputs are worth it and their sum
  does not wrap, and it never takes an output after the amount was reached.
\<close>

lemma take_utxos_enough:
  assumes "unat t + sum_list (map (unat \<circ> amount_of) us) < 2 ^ 64"
    "unat req \<le> unat t + sum_list (map (unat \<circ> amount_of) us)" "take_utxos req t us = (taken, tot)"
  shows "req \<le> tot"
  using assms
proof (induction req t us arbitrary: taken tot rule: take_utxos.induct)
  case (1 req t)
  then show ?case by (simp add: word_le_nat_alt)
next
  case (2 req t u us)
  show ?case
  proof (cases "req \<le> t")
    case True
    with 2(4) show ?thesis using 2(2-) by auto
  next
    case False
    have nw: "unat (t + amount_of u) = unat t + unat (amount_of u)"
      using 2(2) by (intro unat_add_no_wrap) simp
    obtain taken' where t': "take_utxos req (t + amount_of u) us = (taken', tot)"
      using 2(4) False by (auto split: prod.splits)
    show ?thesis by (rule 2(1) [OF False _ _ t']) (use 2(2,3) nw in auto)
  qed
qed

lemma take_utxos_minimal:
  "take_utxos req t us = (taken @ [u], tot) \<Longrightarrow> t + sum_list (map amount_of taken) < req"
proof (induction req t us arbitrary: taken tot rule: take_utxos.induct)
  case (1 req t)
  then show ?case by simp
next
  case (2 req t v us)
  then have lt: "\<not> req \<le> t" by auto
  with 2(2) obtain taken' where t': "take_utxos req (t + amount_of v) us = (taken', tot)" "taken @ [u] = v # taken'"
    by (auto split: prod.splits)
  show ?case
  proof (cases taken)
    case Nil
    with lt show ?thesis by simp
  next
    case (Cons w ws)
    with t' have "take_utxos req (t + amount_of v) us = (ws @ [u], tot)" "w = v" by auto
    from 2(1) [OF lt this(1)] this(2) Cons show ?thesis by (simp add: add.assoc)
  qed
qed

lemma take_utxos_empty: "take_utxos 0 t us = ([], t)"
  by (cases us) simp_all

lemma pay_outputs_sum:
  "req = amount + fee \<Longrightarrow> req \<le> tot \<Longrightarrow>
   sum_list (map out_Amount (pay_outputs from to amount req tot ty)) = tot - fee"
  by (auto simp: pay_outputs_def setTxOutput_def)


section \<open>A signed transaction is valid\<close>

text \<open>What the signing loop leaves: the inputs it was given, each with a signature of the hash.\<close>

lemma sign_inputs_ok:
  assumes "sign_inputs C r sk h i is = Inr sgd"
  shows "map clear_sig sgd = map clear_sig is \<and>
     (\<forall>x\<in>set sgd. \<exists>n. SignData C n sk h = Inr (in_Signature x)) \<and> map in_PublicKey sgd = map in_PublicKey is"
  using assms
proof (induction "is" arbitrary: i sgd)
  case Nil
  then show ?case by simp
next
  case (Cons x "is")
  from Cons.prems obtain sig rest where s: "SignData C (r i) sk h = Inr sig"
    "sign_inputs C r sk h (Suc i) is = Inr rest" "sgd = x\<lparr>in_Signature := sig\<rparr> # rest"
    by (auto simp: bindE_Inr wrapE_Inr)
  from Cons.IH [OF s(2)] s(1,3) show ?case by (auto simp: clear_sig_def)
qed

lemma sign_inputs_succeeds:
  assumes "der_signatures C" "\<forall>n. ecdsa_SignASN1 C n sk h \<noteq> None"
  shows "\<exists>sgd. sign_inputs C r (Some sk) h i is = Inr sgd"
proof (induction "is" arbitrary: i)
  case Nil
  then show ?case by simp
next
  case (Cons x "is")
  from assms(2) obtain s where "ecdsa_SignASN1 C (r i) sk h = Some s" by blast
  from SignData_ok [OF assms(1) this] Cons.IH [of "Suc i"] show ?case by auto
qed

text \<open>The transaction before signing, from the outputs taken.\<close>

definition spend_inputs :: "byte slice \<Rightarrow> UTXO list \<Rightarrow> TxInput list" where
  "spend_inputs pub taken =
     map (\<lambda>utxo. \<lparr>in_TxID = utxo_TxId utxo, in_OutputIndex = utxo_OutputIndex utxo,
                  in_Signature = zero_Signature, in_PublicKey = nil_to_empty pub\<rparr>) taken"

lemma spend_inputs_cleared: "map clear_sig (spend_inputs pub taken) = spend_inputs pub taken"
  by (simp add: spend_inputs_def clear_sig_def)

lemma elems_appended [simp]: "elems (appended xs) = xs"
  by (simp add: appended_def)

lemma nil_to_empty_appended [simp]: "nil_to_empty (appended xs) = Some xs"
  by (simp add: nil_to_empty_def appended_def)

lemma CreateSignedTx_cases:
  assumes "CreateSignedTx C \<rho> r p now from to amount fee memo data ty priv pub = Inr tx"
  obtains us taken tot sk sgd tx0 where
    "GetUtxoList \<rho> p from True = Inr us" "take_utxos (amount + fee) 0 us = (taken, tot)" "amount + fee \<le> tot"
    "tx0 = unsigned_tx p now (Some (spend_inputs pub taken)) (Some (pay_outputs from to amount (amount + fee) tot ty)) memo data"
    "BytesToPrivateKey C priv = Inr sk"
    "sign_inputs C r sk (Hash_Transaction C tx0) 0 (spend_inputs pub taken) = Inr sgd"
    "tx = tx0\<lparr>tx_ID := Hash_Transaction C tx0, tx_Inputs := Some sgd\<rparr>"
proof -
  from assms obtain us where us: "GetUtxoList \<rho> p from True = Inr us"
    by (auto simp: CreateSignedTx_def bindE_Inr wrapE_Inr)
  obtain taken tot where t: "take_utxos (amount + fee) 0 us = (taken, tot)" by (cases "take_utxos (amount + fee) 0 us")
  have u: "unsigned_tx p now (appended (spend_inputs pub taken)) = unsigned_tx p now (Some (spend_inputs pub taken))"
    by (simp add: unsigned_tx_def fun_eq_iff nil_to_empty_def)
  from assms us t that show thesis
    unfolding CreateSignedTx_def
    by (auto simp: bindE_Inr wrapE_Inr Let_def HashToBytes_def spend_inputs_def [symmetric] u not_less
        unsigned_tx_def split: if_splits)
qed

lemma signed_preimage:
  assumes "tx0 = unsigned_tx p now (Some (spend_inputs pub taken)) os memo data"
    "map clear_sig sgd = spend_inputs pub taken"
  shows "tx_preimage (tx0\<lparr>tx_ID := h, tx_Inputs := Some sgd\<rparr>) = tx0"
  using assms by (simp add: tx_preimage_def unsigned_tx_def nil_to_empty_def)


text \<open>The outputs taken are spendable outputs of the sender, and the inputs name them.\<close>

lemma GetUtxoList_set:
  assumes "utxo_db_ok (bc_db p)" "range_ok \<rho>" "GetUtxoList \<rho> p a mc = Inr us"
  shows "distinct us \<and> set us = {u \<in> unspent_of (bc_db p) a. \<not> hidden p mc u}"
proof -
  from assms(3) obtain s where "addr_set (bc_db p) a = Some s" by (auto simp: GetUtxoList_def bindE_Inr get_list_Inr)
  from GetUtxoList_exact [OF assms(1,2) this, of mc] assms(3) show ?thesis by auto
qed

lemma taken_outpoint:
  assumes "utxo_db_ok db" "u \<in> unspent_of db a"
  shows "utxo_at db (utxo_TxId u, utxo_OutputIndex u) = Some u \<and> \<not> utxo_Spent u \<and> owner u = a"
proof -
  from assms(2) obtain op where op: "utxo_at db op = Some u" "\<not> utxo_Spent u" "owner u = a"
    unfolding unspent_of_def by blast
  with assms(1) have "(utxo_TxId u, utxo_OutputIndex u) = op"
    unfolding utxo_db_ok_def records_ok_def by blast
  with op show ?thesis by simp
qed

text \<open>The request a client makes: a key pair of the sender, positive amounts that do not wrap, a
  sufficient fee, and sizes within the limits.\<close>

definition good_request ::
    "crypto \<Rightarrow> BlockChain \<Rightarrow> Address \<Rightarrow> uint64 \<Rightarrow> uint64 \<Rightarrow> string \<Rightarrow> byte slice \<Rightarrow> byte list \<Rightarrow> byte slice \<Rightarrow> bool" where
  "good_request C p from amount fee memo data priv pub \<longleftrightarrow>
     (\<exists>sk. BytesToPrivateKey C priv = Inr (Some sk) \<and> BytesToPublicKey C (elems pub) = Inr (sk_PublicKey sk) \<and>
        PublicKeyToAddress C (sk_PublicKey sk) = from) \<and>
     0 < unat amount + unat fee \<and> unat amount + unat fee < 2 ^ 64 \<and> GetMinFee p \<le> fee \<and>
     (GetMaxMemoSize p = 0 \<or> go_uint64 (length memo) \<le> GetMaxMemoSize p) \<and>
     (GetMaxDataSize p = 0 \<or> go_uint64 (length (elems data)) \<le> GetMaxDataSize p)"

lemma input_amounts_spent:
  assumes "utxo_db_ok db" "set taken \<subseteq> unspent_of db a" "map clear_sig (ins tx) = spend_inputs pub taken"
  shows "input_amounts db tx = map amount_of taken \<and> map in_op (ins tx) = map (\<lambda>u. (utxo_TxId u, utxo_OutputIndex u)) taken"
proof -
  have "map in_op (ins tx) = map in_op (map clear_sig (ins tx))" by (simp add: in_op_def comp_def)
  then have ops: "map in_op (ins tx) = map (\<lambda>u. (utxo_TxId u, utxo_OutputIndex u)) taken"
    by (simp add: assms(3) spend_inputs_def in_op_def comp_def)
  have "input_amounts db tx = map (\<lambda>op. case utxo_at db op of None \<Rightarrow> 0 | Some u \<Rightarrow> amount_of u) (map in_op (ins tx))"
    by (simp add: input_amounts_def comp_def)
  also have "\<dots> = map amount_of taken"
    unfolding ops using assms(2) taken_outpoint [OF assms(1)] by (auto simp: comp_def)
  finally show ?thesis using ops by blast
qed

lemma spent_input_of:
  assumes "map in_op is = map (\<lambda>u. (utxo_TxId u, utxo_OutputIndex u)) taken" "x \<in> set is"
  obtains u where "u \<in> set taken" "in_op x = (utxo_TxId u, utxo_OutputIndex u)"
proof -
  from assms(2) have "in_op x \<in> set (map in_op is)" by simp
  with assms(1) that show thesis by auto
qed

text \<open>Inputs that name the sender's outputs, signed with the sender's key, verify.\<close>

lemma signed_inputs_ok:
  assumes db: "utxo_db_ok db" and sub: "set taken \<subseteq> unspent_of db a" and C: "der_signatures C" "signatures_verify C"
    and k: "BytesToPublicKey C (elems pub) = Inr (sk_PublicKey k)" "PublicKeyToAddress C (sk_PublicKey k) = a"
    and sg: "sign_inputs C r (Some k) (tx_ID tx) 0 (spend_inputs pub taken) = Inr (ins tx)"
    and ops: "map in_op (ins tx) = map (\<lambda>u. (utxo_TxId u, utxo_OutputIndex u)) taken"
    and x: "x \<in> set (ins tx)"
  shows "input_signed C db tx x"
proof -
  obtain u where u: "u \<in> set taken" "in_op x = (utxo_TxId u, utxo_OutputIndex u)"
    by (rule spent_input_of [OF ops x])
  have "map in_PublicKey (ins tx) = map in_PublicKey (spend_inputs pub taken)"
    using sign_inputs_ok [OF sg] by blast
  with x have "in_PublicKey x \<in> in_PublicKey ` set (spend_inputs pub taken)" by (metis image_eqI list.set_map)
  then have "in_PublicKey x = nil_to_empty pub" by (auto simp: spend_inputs_def)
  moreover obtain n where n: "SignData C n (Some k) (tx_ID tx) = Inr (in_Signature x)"
    using sign_inputs_ok [OF sg] x by blast
  have "VerifySignature C (Some (sk_PublicKey k)) (tx_ID tx) (in_Signature x)"
    by (rule SignData_verifies [OF C n])
  moreover have "utxo_at db (in_op x) = Some u" "owner u = a"
    using taken_outpoint [OF db, of u a] u sub by auto
  ultimately show ?thesis unfolding input_signed_def using k by auto
qed

lemma CreateSignedTx_valid:
  assumes db: "utxo_db_ok (bc_db p)" and \<rho>: "range_ok \<rho>" and C: "der_signatures C" "signatures_verify C"
    and req: "good_request C p src amount fee memo data priv pub"
    and ok: "CreateSignedTx C \<rho> r p now src dst amount fee memo data ty priv pub = Inr tx"
  shows "ValidateTransaction C p tx = Inr ()"
proof -
  obtain us taken tot sk sgd tx0 where c:
    "GetUtxoList \<rho> p src True = Inr us" "take_utxos (amount + fee) 0 us = (taken, tot)" "amount + fee \<le> tot"
    "tx0 = unsigned_tx p now (Some (spend_inputs pub taken)) (Some (pay_outputs src dst amount (amount + fee) tot ty)) memo data"
    "BytesToPrivateKey C priv = Inr sk"
    "sign_inputs C r sk (Hash_Transaction C tx0) 0 (spend_inputs pub taken) = Inr sgd"
    "tx = tx0\<lparr>tx_ID := Hash_Transaction C tx0, tx_Inputs := Some sgd\<rparr>"
    by (rule CreateSignedTx_cases [OF ok])
  obtain k where k: "sk = Some k" "BytesToPublicKey C (elems pub) = Inr (sk_PublicKey k)" "PublicKeyToAddress C (sk_PublicKey k) = src"
    using req c(5) by (auto simp: good_request_def)
  have nw: "unat (amount + fee) = unat amount + unat fee" "0 < unat amount + unat fee"
    using req by (simp_all add: good_request_def unat_add_no_wrap)
  have cl: "map clear_sig sgd = spend_inputs pub taken" using sign_inputs_ok [OF c(6)] by (simp add: spend_inputs_cleared)
  from take_utxos_prefix [OF c(2)] obtain rest where us: "us = taken @ rest" and tot: "tot = sum_list (map amount_of taken)" by auto
  have sub: "set taken \<subseteq> unspent_of (bc_db p) src" using GetUtxoList_set [OF db \<rho> c(1)] us by auto
  have tx: "ins tx = sgd" "tx_ID tx = Hash_Transaction C tx0" "outs tx = pay_outputs src dst amount (amount + fee) tot ty"
    by (simp_all add: c(4,7) unsigned_tx_def)
  from input_amounts_spent [OF db sub, of tx pub] cl have amts: "input_amounts (bc_db p) tx = map amount_of taken"
    and ops: "map in_op (ins tx) = map (\<lambda>u. (utxo_TxId u, utxo_OutputIndex u)) taken" by (simp_all add: tx)
  have "amount + fee \<noteq> 0" using nw by (metis less_irrefl unat_0)
  then have "taken \<noteq> []" using tot c(3) by auto
  then have ne: "ins tx \<noteq> []" using cl by (auto simp: tx spend_inputs_def)
  have "tx_form_ok C p tx"
    using req signed_preimage [OF c(4) cl, of "Hash_Transaction C tx0"]
    by (simp add: tx_form_ok_def tx c(7)) (simp add: good_request_def c(4) unsigned_tx_def)
  moreover have "spendable (bc_db p) (in_op x)" if "x \<in> set (ins tx)" for x
    using spent_input_of [OF ops that] sub taken_outpoint [OF db] unfolding spendable_def by (metis subsetD)
  moreover have "input_signed C (bc_db p) tx x" if "x \<in> set (ins tx)" for x
    by (rule signed_inputs_ok [OF db sub C k(2,3) _ ops that]) (use c(6) k(1) tx in simp)
  moreover have out: "sum_list (output_amounts tx) = tot - fee"
    using c(3) by (simp add: output_amounts_def tx pay_outputs_sum)
  moreover have "fee \<le> tot" using c(3) nw by (simp add: word_le_nat_alt)
  then have "tot - fee \<le> tot" by (simp add: word_le_nat_alt unat_sub)
  moreover have "GetMinFee p \<le> fee" using req by (simp add: good_request_def)
  ultimately show ?thesis
    unfolding ValidateTransaction_transfer [OF ne] amts tot [symmetric] by (simp add: out)
qed


section \<open>When building succeeds\<close>

lemma CalBalanceUtxo_unspent:
  "\<forall>u\<in>set us. \<not> utxo_Spent u \<Longrightarrow> CalBalanceUtxo us = sum_list (map amount_of us)"
  by (simp add: CalBalanceUtxo_eq filter_True comp_def)

lemma CreateSignedTx_succeeds:
  assumes us: "GetUtxoList \<rho> p src True = Inr us" "\<forall>u\<in>set us. \<not> utxo_Spent u"
    and nw: "sum_list (map (unat \<circ> amount_of) us) < 2 ^ 64"
    and enough: "unat amount + unat fee \<le> sum_list (map (unat \<circ> amount_of) us)"
    and key: "BytesToPrivateKey C priv = Inr (Some k)" "der_signatures C" "\<forall>n h. ecdsa_SignASN1 C n k h \<noteq> None"
  shows "\<exists>tx. CreateSignedTx C \<rho> r p now src dst amount fee memo data ty priv pub = Inr tx"
proof -
  have req: "unat (amount + fee) = unat amount + unat fee"
    using nw enough by (intro unat_add_no_wrap) simp
  have "unat (CalBalanceUtxo us) = sum_list (map (unat \<circ> amount_of) us)"
    using nw unat_sum_list_no_wrap [of "map amount_of us"] by (simp add: CalBalanceUtxo_unspent us(2) comp_def)
  then have bal: "amount + fee \<le> CalBalanceUtxo us" using enough req by (simp add: word_le_nat_alt)
  obtain taken tot where t: "take_utxos (amount + fee) 0 us = (taken, tot)" by (cases "take_utxos (amount + fee) 0 us")
  have "amount + fee \<le> tot" by (rule take_utxos_enough [OF _ _ t]) (use nw enough req in simp_all)
  moreover have "\<exists>sgd. sign_inputs C r (Some k) h 0 is = Inr sgd" for h "is"
    by (rule sign_inputs_succeeds) (use key in auto)
  ultimately show ?thesis
    using us(1) bal t key(1) by (auto simp: CreateSignedTx_def Let_def not_less [symmetric] bindE_Inr)
qed

text \<open>With enough unspent outputs and keys that belong to the sender, a transfer is created, valid and signed.\<close>

lemma CreateSignedTx_accepted:
  assumes db: "utxo_db_ok (bc_db p)" "range_ok \<rho>" and C: "der_signatures C" "signatures_verify C"
    and req: "good_request C p src amount fee memo data priv pub"
    and sgn: "\<forall>n k h. ecdsa_SignASN1 C n k h \<noteq> None"
    and us: "GetUtxoList \<rho> p src True = Inr us" "sum_list (map (unat \<circ> amount_of) us) < 2 ^ 64"
      "unat amount + unat fee \<le> sum_list (map (unat \<circ> amount_of) us)"
  shows "\<exists>tx. CreateSignedTx C \<rho> r p now src dst amount fee memo data ty priv pub = Inr tx \<and>
     ValidateTransaction C p tx = Inr () \<and> ValidateTxSignatures C p tx = Inr () \<and> hd (outs tx) = setTxOutput dst amount ty"
proof -
  from req obtain k where k: "BytesToPrivateKey C priv = Inr (Some k)" unfolding good_request_def by blast
  have "\<forall>u\<in>set us. \<not> utxo_Spent u" using GetUtxoList_set [OF db us(1)] by (auto simp: unspent_of_def)
  from CreateSignedTx_succeeds [OF us(1) this us(2,3) k C(1)] sgn obtain tx where
    tx: "CreateSignedTx C \<rho> r p now src dst amount fee memo data ty priv pub = Inr tx" by blast
  have v: "ValidateTransaction C p tx = Inr ()" by (rule CreateSignedTx_valid [OF db C req tx])
  obtain taken tot sk sgd tx0 where c:
    "tx0 = unsigned_tx p now (Some (spend_inputs pub taken)) (Some (pay_outputs src dst amount (amount + fee) tot ty)) memo data"
    "tx = tx0\<lparr>tx_ID := Hash_Transaction C tx0, tx_Inputs := Some sgd\<rparr>"
    by (rule CreateSignedTx_cases [OF tx])
  then have "hd (outs tx) = setTxOutput dst amount ty" by (simp add: unsigned_tx_def pay_outputs_def)
  moreover have "ValidateTxSignatures C p tx = Inr ()"
    using v by (cases "ins tx = []") (simp_all add: ValidateTxSignatures_ok ValidateTransaction_transfer)
  ultimately show ?thesis using tx v by blast
qed

text \<open>
  The sum \<open>amount + fee\<close> is not guarded against overflow: when it wraps to 0 the check of the
  balance is void, no output is consumed, and the transaction pays \<open>amount\<close> out of nothing; since
  it has no inputs, validation takes it for a coinbase transaction and accepts it.
\<close>

theorem CreateSignedTx_wrap_mints:
  assumes us: "GetUtxoList \<rho> p src True = Inr us" and wrap: "amount + fee = 0" "amount \<noteq> 0"
    and key: "BytesToPrivateKey C priv = Inr (Some k)"
    and sizes: "GetMaxMemoSize p = 0 \<or> go_uint64 (length memo) \<le> GetMaxMemoSize p"
      "GetMaxDataSize p = 0 \<or> go_uint64 (length (elems data)) \<le> GetMaxDataSize p"
  shows "\<exists>tx. CreateSignedTx C \<rho> r p now src dst amount fee memo data ty priv pub = Inr tx \<and>
     ins tx = [] \<and> outs tx = [setTxOutput dst amount ty] \<and> ValidateTransaction C p tx = Inr ()"
proof -
  define tx0 where "tx0 = unsigned_tx p now None (Some [setTxOutput dst amount ty]) memo data"
  let ?tx = "tx0\<lparr>tx_ID := Hash_Transaction C tx0, tx_Inputs := Some []\<rparr>"
  have none: "unsigned_tx p now (appended []) = unsigned_tx p now None" by (simp add: appended_def)
  have pay: "pay_outputs src dst amount 0 0 ty = [setTxOutput dst amount ty]" by (simp add: pay_outputs_def)
  have ins0: "ins (unsigned_tx p now None os memo data) = []" for os by (simp add: unsigned_tx_def)
  have "CreateSignedTx C \<rho> r p now src dst amount fee memo data ty priv pub = Inr ?tx"
    using us key by (simp add: CreateSignedTx_def wrap take_utxos_empty Let_def none pay ins0 tx0_def)
  moreover have fields: "ins ?tx = []" "outs ?tx = [setTxOutput dst amount ty]"
    by (simp_all add: tx0_def unsigned_tx_def)
  moreover have "tx_preimage ?tx = tx0" by (simp add: tx_preimage_def tx0_def unsigned_tx_def nil_to_empty_def)
  then have "tx_form_ok C p ?tx"
    using sizes by (simp add: tx_form_ok_def) (simp add: tx0_def unsigned_tx_def)
  then have "ValidateTransaction C p ?tx = Inr ()"
    unfolding ValidateTransaction_coinbase [OF fields(1)] output_amounts_def fields(2)
    using wrap(2) by (simp add: setTxOutput_def)
  ultimately show ?thesis by blast
qed

end
