(* ===== verification/Chain.thy ===== *)
theory Chain
  imports Transfers
begin

text \<open>
  Building and importing blocks: \<open>SetBlock\<close>, \<open>createCoinbaseTx\<close>, \<open>SignBlock\<close>, \<open>AddBlock\<close>
  (\<open>core/block.go\<close>), the genesis block (\<open>core/genesis.go\<close>) and \<open>NewChainState\<close>
  (\<open>core/blockchain.go\<close>).  The clock of the genesis block is the argument \<open>now\<close>, the order in which
  the mempool is visited the argument \<open>order\<close>.
\<close>

section \<open>Building a block\<close>

definition coinbase_memo :: "uint64 \<Rightarrow> uint64 \<Rightarrow> uint64 \<Rightarrow> string" where
  "coinbase_memo height blockReward totalFees =
     ''Block '' @ Uint64ToString height @ '' Coinbase: reward='' @ Uint64ToString blockReward @
     '', fees='' @ Uint64ToString totalFees"

definition createCoinbaseTx :: "crypto \<Rightarrow> BlockChain \<Rightarrow> Address \<Rightarrow> uint64 \<Rightarrow> uint64 \<Rightarrow> int \<Rightarrow> Transaction" where
  "createCoinbaseTx C p proposer height totalFees blockTimestamp =
     (let blockReward = GetBlockReward p;
          totalReward = blockReward + totalFees;
          coinbaseTx = \<lparr>tx_Version = ver_Transaction (cfg_Version (bc_cfg p)),
                        tx_NetworkID = cm_NetworkID (cfg_Common (bc_cfg p)),
                        tx_ID = zero_Hash, tx_Timestamp = blockTimestamp, tx_Inputs = Some [],
                        tx_Outputs = Some [\<lparr>out_Address = proposer, out_Amount = totalReward, out_TxType = TxTypeCoinbase\<rparr>],
                        tx_Memo = coinbase_memo height blockReward totalFees, tx_Data = Some []\<rparr>
      in coinbaseTx\<lparr>tx_ID := Hash_Transaction C coinbaseTx\<rparr>)"

text \<open>The state of the loop of \<open>SetBlock\<close> over the candidates, and its body.\<close>

record BlockTemplate =
  bt_validTxs :: "Transaction list"
  bt_invalidTxIds :: "Hash list"
  bt_totalFees :: uint64
  bt_usedUTXOs :: "string list"

definition consider_tx :: "crypto \<Rightarrow> BlockChain \<Rightarrow> BlockTemplate \<Rightarrow> Transaction \<Rightarrow> BlockTemplate" where
  "consider_tx C p t tx =
     (let reject = t\<lparr>bt_invalidTxIds := bt_invalidTxIds t @ [tx_ID tx]\<rparr> in
      case ValidateTransaction C p tx of
        Inl e \<Rightarrow> reject
      | Inr _ \<Rightarrow>
          if list_ex (\<lambda>input. List.member (bt_usedUTXOs t) (input_key input)) (ins tx) then reject
          else (case CalculateTxFee p tx of
                  Inl e \<Rightarrow> reject
                | Inr fee \<Rightarrow>
                    t\<lparr>bt_usedUTXOs := map input_key (ins tx) @ bt_usedUTXOs t,
                      bt_totalFees := bt_totalFees t + fee,
                      bt_validTxs := bt_validTxs t @ [tx]\<rparr>))"

definition block_template :: "crypto \<Rightarrow> BlockChain \<Rightarrow> Transaction list \<Rightarrow> BlockTemplate" where
  "block_template C p candidateTxs =
     foldl (consider_tx C p) \<lparr>bt_validTxs = [], bt_invalidTxIds = [], bt_totalFees = 0, bt_usedUTXOs = []\<rparr> candidateTxs"

definition template_txs :: "crypto \<Rightarrow> BlockChain \<Rightarrow> uint64 \<Rightarrow> Address \<Rightarrow> int \<Rightarrow> BlockTemplate \<Rightarrow> Transaction list" where
  "template_txs C p height proposer blockTimestamp t =
     (if proposer \<noteq> zero_Address
      then createCoinbaseTx C p proposer height (bt_totalFees t) blockTimestamp # bt_validTxs t
      else bt_validTxs t)"

definition seal :: "crypto \<Rightarrow> BlockHeader \<Rightarrow> BlockHeader" where
  "seal C h = h\<lparr>hdr_Hash := Hash_BlockHeader C h\<rparr>"

definition SetBlock ::
    "crypto \<Rightarrow> (string \<times> TxWithFee) list \<Rightarrow> BlockChain \<Rightarrow> Hash \<Rightarrow> uint64 \<Rightarrow> Address \<Rightarrow> int \<Rightarrow> BlockChain \<times> Block" where
  "SetBlock C order p prevHash height proposer blockTimestamp =
     (let t = block_template C p (GetTxs order);
          p' = p\<lparr>bc_Mempool := foldl DelTx (bc_Mempool p) (bt_invalidTxIds t)\<rparr>;
          txs = template_txs C p height proposer blockTimestamp t;
          blkHeader = \<lparr>hdr_Hash = zero_Hash, hdr_PrevHash = prevHash,
                       hdr_Version = ver_Protocol (cfg_Version (bc_cfg p)), hdr_Height = height,
                       hdr_MerkleRoot = calculateMerkleRoot C txs, hdr_Timestamp = blockTimestamp\<rparr>
      in (p', \<lparr>blk_Header = seal C blkHeader, blk_Transactions = txs, blk_Proposer = proposer,
               blk_Signature = zero_Signature, blk_CommitSignatures = []\<rparr>))"

definition SignBlock :: "Block \<Rightarrow> Signature \<Rightarrow> Block" where
  "SignBlock blk sig = blk\<lparr>blk_Signature := sig\<rparr>"

section \<open>Importing a block\<close>

definition AddBlock :: "db_ops \<Rightarrow> BlockChain \<Rightarrow> Block \<Rightarrow> BlockChain \<times> (core_error + bool)" where
  "AddBlock W p blk =
     (case UpdateUtxo p (saveTxData (saveBlockData [] blk) blk) blk of
        Inl e \<Rightarrow> (p, Inl (Wrap ''failed to save utxo into db'' e))
      | Inr batch \<Rightarrow>
          (case db_Write W (bc_db p) batch of
             None \<Rightarrow> (p, Inl (Wrap ''failed to write batch'' DbWriteFailed))
           | Some db' \<Rightarrow>
               let p1 = p\<lparr>bc_db := db',
                          bc_Mempool := foldl (\<lambda>m tx. DelTx m (tx_ID tx)) (bc_Mempool p) (blk_Transactions blk)\<rparr>
               in if bc_LatestHeight p1 < blk_Height blk \<or> blk_Height blk = 0
                  then (case UpdateChainState W p1 (blk_Height blk) (HashToString (blk_Hash blk)) of
                          (p2, Some e) \<Rightarrow> (p2, Inl (Wrap ''failed to update chain status'' e))
                        | (p2, None) \<Rightarrow> (p2, Inr True))
                  else (p1, Inr True)))"

section \<open>Genesis\<close>

definition genesis_output :: "TxOutput list \<Rightarrow> string \<times> uint64 \<Rightarrow> core_error + TxOutput list" where
  "genesis_output txOuts ab =
     (case StringToAddress (fst ab) of
        Inl e \<Rightarrow> Inl GenesisBadAddress
      | Inr addr \<Rightarrow> Inr (txOuts @ [\<lparr>out_Address = addr, out_Amount = snd ab, out_TxType = TxTypeGeneral\<rparr>]))"

definition setGenesisTxs :: "crypto \<Rightarrow> BlockChain \<Rightarrow> int \<Rightarrow> core_error + Transaction list" where
  "setGenesisTxs C p genesisTimestamp =
     (let systemAddrs = gen_SystemAddresses (cfg_Genesis (bc_cfg p));
          systemBals = gen_SystemBalances (cfg_Genesis (bc_cfg p)) in
      if length systemAddrs \<noteq> length systemBals then Inl GenesisCountMismatch
      else bindE (foldE genesis_output [] (zip systemAddrs systemBals)) (\<lambda>txOuts.
        let tx = \<lparr>tx_Version = ver_Transaction (cfg_Version (bc_cfg p)), tx_NetworkID = [],
                  tx_ID = zero_Hash, tx_Timestamp = genesisTimestamp, tx_Inputs = Some [],
                  tx_Outputs = Some txOuts, tx_Memo = ''ABCFE Chain Genesis Block'', tx_Data = None\<rparr>
        in Inr [tx\<lparr>tx_ID := Hash_Transaction C tx\<rparr>]))"

definition SetGenesisBlock :: "crypto \<Rightarrow> int \<Rightarrow> BlockChain \<Rightarrow> core_error + Block" where
  "SetGenesisBlock C now p =
     (let genesisTimestamp = (if gen_Timestamp (cfg_Genesis (bc_cfg p)) = 0 then now
                              else gen_Timestamp (cfg_Genesis (bc_cfg p))) in
      bindE (setGenesisTxs C p genesisTimestamp) (\<lambda>txs.
      let blkHeader = \<lparr>hdr_Hash = zero_Hash, hdr_PrevHash = zero_Hash,
                       hdr_Version = ver_Protocol (cfg_Version (bc_cfg p)), hdr_Height = 0,
                       hdr_MerkleRoot = calculateMerkleRoot C txs, hdr_Timestamp = genesisTimestamp\<rparr>
      in Inr \<lparr>blk_Header = seal C blkHeader, blk_Transactions = txs, blk_Proposer = zero_Address,
              blk_Signature = zero_Signature, blk_CommitSignatures = []\<rparr>))"

definition NewChainState :: "crypto \<Rightarrow> db_ops \<Rightarrow> int \<Rightarrow> leveldb \<Rightarrow> Config \<Rightarrow> core_error + BlockChain" where
  "NewChainState C W now db cfg =
     bindE (LoadChainDB \<lparr>bc_LatestHeight = 0, bc_LatestBlockHash = [], bc_db = db, bc_cfg = cfg,
                         bc_Mempool = NewMempool\<rparr>) (\<lambda>bc.
     let shouldCreateGenesis =
           (cm_Mode (cfg_Common cfg) = ''boot'' \<or> cm_BlockProducer (cfg_Common cfg)) \<and>
           (bc_LatestHeight bc = 0 \<and> bc_LatestBlockHash bc = [])
     in if shouldCreateGenesis
        then bindE (SetGenesisBlock C now bc) (\<lambda>genesisBlk.
             case AddBlock W bc genesisBlk of
               (bc', Inl e) \<Rightarrow> Inl e
             | (bc', Inr result) \<Rightarrow> if \<not> result then Inl GenesisNotAdded else Inr bc')
        else Inr bc)"

section \<open>What a successful import does\<close>

text \<open>The tip moves when the height grows (or for a genesis block), and is stored.\<close>

definition moves_tip :: "BlockChain \<Rightarrow> Block \<Rightarrow> bool" where
  "moves_tip p blk \<longleftrightarrow> bc_LatestHeight p < blk_Height blk \<or> blk_Height blk = 0"

definition tip_batch :: "Block \<Rightarrow> batch" where
  "tip_batch blk =
     [(PrefixMetaHeight, RawText (Uint64ToString (blk_Height blk))),
      (PrefixMetaBlockHash, RawText (HashToString (blk_Hash blk))),
      (HeightToHashKey (blk_Height blk), RawText (HashToString (blk_Hash blk)))]"

lemma HashToString_nonempty: "wf_Hash h \<Longrightarrow> HashToString h \<noteq> []"
  unfolding HashToString_def wf_Hash_def by (metis length_hex list.size(3) mult_is_0 zero_neq_numeral)

lemma AddBlock_ok:
  assumes W: "db_laws W" and wf: "wf_Hash (blk_Hash blk)" and ok: "AddBlock W p blk = (p', Inr r)"
  obtains u where "UpdateUtxo p (saveTxData (saveBlockData [] blk) blk) blk = Inr (block_batch blk u)"
    "utxo_batch u"
    "bc_db p' = apply_batch (bc_db p) (block_batch blk u @ (if moves_tip p blk then tip_batch blk else []))"
    "bc_Mempool p' = foldl DelTx (bc_Mempool p) (map tx_ID (blk_Transactions blk))"
    "bc_cfg p' = bc_cfg p"
    "moves_tip p blk \<Longrightarrow> bc_LatestHeight p' = blk_Height blk \<and> bc_LatestBlockHash p' = HashToString (blk_Hash blk) \<and> tip_stored p'"
    "\<not> moves_tip p blk \<Longrightarrow> bc_LatestHeight p' = bc_LatestHeight p \<and> bc_LatestBlockHash p' = bc_LatestBlockHash p"
proof -
  let ?saved = "saveTxData (saveBlockData [] blk) blk"
  from ok obtain b db' where b: "UpdateUtxo p ?saved blk = Inr b" "db_Write W (bc_db p) b = Some db'"
    by (auto simp: AddBlock_def split: sum.splits option.splits)
  obtain u where u: "b = ?saved @ u" "\<forall>k\<in>fst ` set u. hd k = CHR ''u''" by (rule UpdateUtxo_keys [OF b(1)])
  have db': "db' = apply_batch (bc_db p) b" by (rule db_WriteD [OF W b(2)])
  have fm: "foldl (\<lambda>m tx. DelTx m (tx_ID tx)) m txs = foldl DelTx m (map tx_ID txs)" for m txs
    by (induction txs arbitrary: m) simp_all
  define p1 where "p1 = p\<lparr>bc_db := db', bc_Mempool := foldl DelTx (bc_Mempool p) (map tx_ID (blk_Transactions blk))\<rparr>"
  have p': "p' = p1" if "\<not> moves_tip p blk"
    using ok b that by (auto simp: AddBlock_def moves_tip_def p1_def fm Let_def split: prod.splits option.splits)
  have up: "UpdateChainState W p1 (blk_Height blk) (HashToString (blk_Hash blk)) = (p', None)" if "moves_tip p blk"
    using ok b that by (auto simp: AddBlock_def moves_tip_def p1_def fm Let_def split: prod.splits option.splits)
  have ne: "\<not> (blk_Height blk = 0 \<and> HashToString (blk_Hash blk) = [])" using HashToString_nonempty [OF wf] by simp
  note tip = UpdateChainState_ok [OF W up ne] UpdateChainState_frame [OF up]
  show thesis
  proof (rule that [of u])
    show "UpdateUtxo p ?saved blk = Inr (block_batch blk u)" using b(1) u(1) by (simp add: block_batch_def)
    show "utxo_batch u" using u(2) by (simp add: utxo_batch_def)
    show "bc_db p' = apply_batch (bc_db p) (block_batch blk u @ (if moves_tip p blk then tip_batch blk else []))"
      using tip(4) p' db' u(1) by (cases "moves_tip p blk") (simp_all add: p1_def block_batch_def apply_batch_append tip_batch_def)
    show "bc_Mempool p' = foldl DelTx (bc_Mempool p) (map tx_ID (blk_Transactions blk))" "bc_cfg p' = bc_cfg p"
      using tip(5) p' by (cases "moves_tip p blk"; simp add: p1_def)+
  qed (use tip p' in \<open>auto simp: p1_def\<close>)
qed


lemma tip_batch_kind: "kv \<in> set (tip_batch blk) \<Longrightarrow> hd (fst kv) = CHR ''m''"
  by (auto simp: tip_batch_def key_kinds)

lemma tip_batch_quiet: "quiet (if c then tip_batch blk else [])"
  by (auto simp: quiet_def dest!: tip_batch_kind)

lemma tip_batch_other: "hd k \<noteq> CHR ''m'' \<Longrightarrow> apply_batch d (if c then tip_batch blk else []) k = d k"
  by (rule apply_batch_other) (auto dest!: tip_batch_kind)

text \<open>The ledger and the index after an import.\<close>

lemma AddBlock_views:
  assumes W: "db_laws W" and wf: "wf_Hash (blk_Hash blk)" and ok: "AddBlock W p blk = (p', Inr r)"
  obtains b where "UpdateUtxo p (saveTxData (saveBlockData [] blk) blk) blk = Inr b"
    "utxo_at (bc_db p') = utxo_at (apply_batch (bc_db p) b)" "addr_set (bc_db p') = addr_set (apply_batch (bc_db p) b)"
proof -
  obtain u where u: "UpdateUtxo p (saveTxData (saveBlockData [] blk) blk) blk = Inr (block_batch blk u)"
    "bc_db p' = apply_batch (bc_db p) (block_batch blk u @ (if moves_tip p blk then tip_batch blk else []))"
    by (rule AddBlock_ok [OF W wf ok])
  show thesis by (rule that [OF u(1)]) (simp_all only: u(2) apply_batch_append quiet_views [OF tip_batch_quiet])
qed

lemma AddBlock_ledger:
  assumes "db_laws W" "wf_Hash (blk_Hash blk)" "small_block blk" "index_wf (bc_db p)" "AddBlock W p blk = (p', Inr r)"
  shows "utxo_at (bc_db p') = ledger_step blk (utxo_at (bc_db p))"
    and "\<forall>op\<in>consumed blk. spendable (bc_db p) op"
proof -
  obtain b where b: "UpdateUtxo p (saveTxData (saveBlockData [] blk) blk) blk = Inr b"
    "utxo_at (bc_db p') = utxo_at (apply_batch (bc_db p) b)" by (rule AddBlock_views [OF assms(1,2,5)])
  note eff = UpdateUtxo_effect [OF b(1) saved_quiet assms(4,3)]
  show "utxo_at (bc_db p') = ledger_step blk (utxo_at (bc_db p))" using eff(1) b(2) by simp
  show "\<forall>op\<in>consumed blk. spendable (bc_db p) op" using eff(2) by (simp add: spendable_def)
qed

lemma utxo_db_ok_cong:
  "utxo_at d = utxo_at d' \<Longrightarrow> addr_set d = addr_set d' \<Longrightarrow> utxo_db_ok d = utxo_db_ok d'"
  by (simp add: utxo_db_ok_def records_ok_def index_wf_def index_complete_def index_sound_def index_keys_def)

lemma AddBlock_db_ok:
  assumes "db_laws W" "wf_Hash (blk_Hash blk)" "small_block blk" "utxo_db_ok (bc_db p)" "same_owners (bc_db p) blk"
    "AddBlock W p blk = (p', Inr r)"
  shows "utxo_db_ok (bc_db p')"
proof -
  obtain b where b: "UpdateUtxo p (saveTxData (saveBlockData [] blk) blk) blk = Inr b"
    "utxo_at (bc_db p') = utxo_at (apply_batch (bc_db p) b)" "addr_set (bc_db p') = addr_set (apply_batch (bc_db p) b)"
    by (rule AddBlock_views [OF assms(1,2,6)])
  from UpdateUtxo_preserves [OF b(1) saved_quiet assms(3,4,5)] show ?thesis
    by (simp add: utxo_db_ok_cong [OF b(2,3)])
qed

text \<open>Reading the block back, by height, by hash and by transaction.\<close>

lemma AddBlock_reads:
  assumes W: "db_laws W" and wf: "wf_Hash (blk_Hash blk)" and ok: "AddBlock W p blk = (p', Inr r)"
  shows "GetBlockByHeight p' (blk_Height blk) = Inr (gob_block blk)"
    "GetBlockByHash p' (blk_Hash blk) = Inr (gob_block blk)"
proof -
  obtain u where u: "utxo_batch u"
    "bc_db p' = apply_batch (bc_db p) (block_batch blk u @ (if moves_tip p blk then tip_batch blk else []))"
    by (rule AddBlock_ok [OF W wf ok])
  have look: "bc_db p' k = apply_batch (bc_db p) (block_batch blk u) k" if "hd k \<noteq> CHR ''m''" for k
    unfolding u(2) apply_batch_append by (rule tip_batch_other [OF that])
  show "GetBlockByHash p' (blk_Hash blk) = Inr (gob_block blk)"
    by (simp add: GetBlockByHash_def db_Get_def look key_kinds block_batch_block [OF u(1)])
  show "GetBlockByHeight p' (blk_Height blk) = Inr (gob_block blk)"
    using wf by (simp add: GetBlockByHeight_def getBlockByHeightNoLock_def db_Get_def look key_kinds
        block_batch_block [OF u(1)] Let_def wf_Hash_def)
qed

lemma AddBlock_tx_reads:
  assumes W: "db_laws W" and wf: "wf_Hash (blk_Hash blk)" and ok: "AddBlock W p blk = (p', Inr r)"
    and tx: "tx \<in> set (blk_Transactions blk)" and dist: "distinct (map tx_ID (blk_Transactions blk))"
  shows "GetTx p' (tx_ID tx) = Inr (gob_tx tx)" "GetBlockHashByTxId p' (tx_ID tx) = Inr (Some (blk_Hash blk))"
    "GetInputTx p' (tx_ID tx) = Inr (map gob_in (ins tx))" "GetOutputTx p' (tx_ID tx) = Inr (outs tx)"
    "i < length (ins tx) \<Longrightarrow> GetInputTxByIdx p' (tx_ID tx) (int i) = Inr (gob_in (ins tx ! i))"
    "i < length (outs tx) \<Longrightarrow> GetOutputTxByIdx p' (tx_ID tx) (int i) = Inr (outs tx ! i)"
proof -
  obtain u where u: "utxo_batch u"
    "bc_db p' = apply_batch (bc_db p) (block_batch blk u @ (if moves_tip p blk then tip_batch blk else []))"
    by (rule AddBlock_ok [OF W wf ok])
  have look: "bc_db p' k = apply_batch (bc_db p) (block_batch blk u) k" if "hd k \<noteq> CHR ''m''" for k
    unfolding u(2) apply_batch_append by (rule tip_batch_other [OF that])
  note recs = block_batch_tx_records [OF u(1) tx dist] block_batch_tx_indexed [OF u(1) tx dist]
  note readers = db_Get_def look key_kinds recs
  show "GetTx p' (tx_ID tx) = Inr (gob_tx tx)" by (simp add: GetTx_def readers)
  show "GetBlockHashByTxId p' (tx_ID tx) = Inr (Some (blk_Hash blk))"
    using wf by (simp add: GetBlockHashByTxId_def readers BytesToHash_def wf_Hash_def)
  show "GetInputTx p' (tx_ID tx) = Inr (map gob_in (ins tx))" by (simp add: GetInputTx_def readers as_tx_inputs_def)
  show "GetOutputTx p' (tx_ID tx) = Inr (outs tx)" by (simp add: GetOutputTx_def readers as_tx_outputs_def)
  show "GetInputTxByIdx p' (tx_ID tx) (int i) = Inr (gob_in (ins tx ! i))" if "i < length (ins tx)"
    using that by (simp add: GetInputTxByIdx_def readers as_tx_input_def)
  show "GetOutputTxByIdx p' (tx_ID tx) (int i) = Inr (outs tx ! i)" if "i < length (outs tx)"
    using that by (simp add: GetOutputTxByIdx_def readers as_tx_output_def)
qed

text \<open>Blocks at other heights and under other hashes stay as they are.\<close>

lemma AddBlock_reads_other:
  assumes W: "db_laws W" and wf: "wf_Hash (blk_Hash blk)" and ok: "AddBlock W p blk = (p', Inr r)"
    and n: "n \<noteq> blk_Height blk" and old: "GetBlockByHeight p n = Inr b" "\<forall>h. bc_db p (GetBlockHeightKey n) = Inr (RawBytes h) \<longrightarrow> copy_into 32 h \<noteq> blk_Hash blk"
  shows "GetBlockByHeight p' n = Inr b"
proof -
  obtain u where u: "utxo_batch u"
    "bc_db p' = apply_batch (bc_db p) (block_batch blk u @ (if moves_tip p blk then tip_batch blk else []))"
    by (rule AddBlock_ok [OF W wf ok])
  have look: "bc_db p' k = bc_db p k"
    if "hd k = CHR ''b''" "k \<noteq> GetBlockHashKey (blk_Hash blk)" "k \<noteq> GetBlockHeightKey (blk_Height blk)" for k
    unfolding u(2) apply_batch_append using that by (simp add: tip_batch_other block_batch_frame [OF u(1)])
  from old(1) obtain h where h: "bc_db p (GetBlockHeightKey n) = Inr (RawBytes h)"
    by (auto simp: GetBlockByHeight_def getBlockByHeightNoLock_def res_simps)
  with old n show ?thesis
    by (simp add: GetBlockByHeight_def getBlockByHeightNoLock_def db_Get_def look key_kinds Let_def)
qed

text \<open>A rejected import leaves the chain object as it was, unless the tip update itself failed.\<close>

lemma AddBlock_atomic:
  assumes "AddBlock W p blk = (p', Inl e)"
  shows "p' = p \<or> (\<exists>e'. e = Wrap ''failed to update chain status'' e')"
  using assms by (auto simp: AddBlock_def Let_def split: sum.splits option.splits prod.splits if_splits)

section \<open>A validated block is accepted\<close>

text \<open>The address lists stay readable.\<close>

lemma AddBlock_lists_readable:
  assumes W: "db_laws W" and wf: "wf_Hash (blk_Hash blk)" and ok: "AddBlock W p blk = (p', Inr r)" and db: "lists_readable (bc_db p)"
  shows "lists_readable (bc_db p')"
proof -
  obtain u where u: "UpdateUtxo p (saveTxData (saveBlockData [] blk) blk) blk = Inr (block_batch blk u)"
    "bc_db p' = apply_batch (bc_db p) (block_batch blk u @ (if moves_tip p blk then tip_batch blk else []))"
    by (rule AddBlock_ok [OF W wf ok])
  have "list_records (block_batch blk u)" by (rule UpdateUtxo_list_records [OF u(1) quiet_list_records [OF saved_quiet]])
  moreover have "quiet (tip_batch blk)" by (simp add: quiet_def tip_batch_def key_kinds)
  then have "list_records (tip_batch blk)" by (rule quiet_list_records)
  ultimately show ?thesis
    unfolding u(2) using db by (simp add: apply_batch_append lists_readable_batch)
qed

lemma AddBlock_succeeds:
  assumes "db_reliable W" "lists_readable (bc_db p)" "index_complete (bc_db p)"
    "\<forall>op\<in>consumed blk. spendable (bc_db p) op"
  shows "\<exists>p'. AddBlock W p blk = (p', Inr True)"
proof -
  obtain b where "UpdateUtxo p (saveTxData (saveBlockData [] blk) blk) blk = Inr b"
    using UpdateUtxo_succeeds [OF assms(2,3)] assms(4) unfolding spendable_def by blast
  moreover obtain db' where "db_Write W (bc_db p) b = Some db'"
    using assms(1) unfolding db_reliable_def by blast
  moreover have "\<exists>q'. UpdateChainState W q h s = (q', None)" for q h s
  proof -
    obtain d where "db_Write W (bc_db q) [(PrefixMetaHeight, RawText (Uint64ToString h)),
        (PrefixMetaBlockHash, RawText s), (HeightToHashKey h, RawText s)] = Some d"
      using assms(1) unfolding db_reliable_def by blast
    then show ?thesis by (simp add: UpdateChainState_def Let_def)
  qed
  ultimately show ?thesis
    unfolding AddBlock_def Let_def by simp (metis (no_types, lifting) old.prod.case option.simps(4))
qed

lemma ValidateBlock_consumes:
  assumes "ValidateBlock C now pv p blk cc = Inr u"
  shows "\<forall>op\<in>consumed blk. spendable (bc_db p) op"
proof (cases "blk_Height blk = 0")
  case True
  then show ?thesis by (simp add: consumed_def)
next
  case False
  with assms have "body_ok C p (blk_Transactions blk)" by (simp add: ValidateBlock_ok)
  then show ?thesis by (auto simp: consumed_def dest: body_ok_spendable)
qed


section \<open>A block built by SetBlock is valid\<close>

definition tx_fee :: "leveldb \<Rightarrow> Transaction \<Rightarrow> uint64" where
  "tx_fee db tx = (if ins tx = [] then 0 else sum_list (input_amounts db tx) - sum_list (output_amounts tx))"

lemma CalculateTxFee_fee: "ValidateTransaction C p tx = Inr u \<Longrightarrow> CalculateTxFee p tx = Inr (tx_fee (bc_db p) tx)"
  using CalculateTxFee_valid [of C p tx u] by (cases "ins tx = []") (simp_all add: tx_fee_def CalculateTxFee_def)

text \<open>The template after the candidates \<open>txs\<close>.\<close>

definition template_inv :: "crypto \<Rightarrow> BlockChain \<Rightarrow> Transaction list \<Rightarrow> BlockTemplate \<Rightarrow> bool" where
  "template_inv C p txs t \<longleftrightarrow>
     set (bt_validTxs t) \<subseteq> set txs \<and> length (bt_validTxs t) \<le> length txs \<and>
     (distinct (map tx_ID txs) \<longrightarrow> distinct (map tx_ID (bt_validTxs t))) \<and>
     (\<forall>tx\<in>set (bt_validTxs t). ValidateTransaction C p tx = Inr ()) \<and>
     set (bt_usedUTXOs t) = input_key ` set (concat (map ins (bt_validTxs t))) \<and>
     ((\<forall>tx\<in>set txs. distinct (map in_op (ins tx))) \<longrightarrow> distinct (txs_inputs (bt_validTxs t))) \<and>
     bt_totalFees t = sum_list (map (tx_fee (bc_db p)) (bt_validTxs t))"

lemma consider_tx_cases:
  obtains (reject) "consider_tx C p t tx = t\<lparr>bt_invalidTxIds := bt_invalidTxIds t @ [tx_ID tx]\<rparr>"
  | (accept) "ValidateTransaction C p tx = Inr ()" "input_key ` set (ins tx) \<inter> set (bt_usedUTXOs t) = {}"
      "consider_tx C p t tx = t\<lparr>bt_usedUTXOs := map input_key (ins tx) @ bt_usedUTXOs t,
         bt_totalFees := bt_totalFees t + tx_fee (bc_db p) tx, bt_validTxs := bt_validTxs t @ [tx]\<rparr>"
proof (cases "ValidateTransaction C p tx")
  case (Inl e)
  with reject show ?thesis by (simp add: consider_tx_def)
next
  case (Inr u)
  show ?thesis
  proof (cases "list_ex (\<lambda>input. List.member (bt_usedUTXOs t) (input_key input)) (ins tx)")
    case True
    with Inr reject show ?thesis by (simp add: consider_tx_def)
  next
    case False
    then have "input_key ` set (ins tx) \<inter> set (bt_usedUTXOs t) = {}" by (auto simp: list_ex_iff)
    with False Inr CalculateTxFee_fee [OF Inr] accept show ?thesis by (simp add: consider_tx_def)
  qed
qed

lemma used_disjoint:
  assumes "input_key ` set (ins tx) \<inter> input_key ` set (concat (map ins txs)) = {}"
  shows "set (map in_op (ins tx)) \<inter> set (txs_inputs txs) = {}"
proof -
  have "in_op i \<noteq> in_op j" if "i \<in> set (ins tx)" "j \<in> set (concat (map ins txs))" for i j
    using assms that input_key_inj [of i j] by blast
  then show ?thesis by (fastforce simp: txs_inputs_def)
qed

lemma template_inv_step:
  assumes "template_inv C p txs t"
  shows "template_inv C p (txs @ [tx]) (consider_tx C p t tx)"
proof (cases rule: consider_tx_cases [of C p t tx])
  case reject
  with assms show ?thesis by (auto simp: template_inv_def)
next
  case accept
  have used: "set (bt_usedUTXOs t) = input_key ` set (concat (map ins (bt_validTxs t)))"
    and sub: "set (bt_validTxs t) \<subseteq> set txs"
    using assms by (simp_all add: template_inv_def)
  have "txs_inputs (bt_validTxs t @ [tx]) = txs_inputs (bt_validTxs t) @ map in_op (ins tx)"
    by (simp add: txs_inputs_def)
  moreover have "set (txs_inputs (bt_validTxs t)) \<inter> set (map in_op (ins tx)) = {}"
    using used_disjoint [OF accept(2) [unfolded used]] by blast
  ultimately have "distinct (txs_inputs (bt_validTxs t @ [tx]))"
    if "\<forall>x\<in>set (txs @ [tx]). distinct (map in_op (ins x))"
    using assms that by (simp add: template_inv_def)
  moreover have "distinct (map tx_ID (bt_validTxs t @ [tx]))" if "distinct (map tx_ID (txs @ [tx]))"
    using assms that sub by (auto simp: template_inv_def)
  ultimately show ?thesis
    using assms accept(1) by (auto simp: template_inv_def accept(3))
qed

lemma block_template_inv: "template_inv C p txs (block_template C p txs)"
proof (induction txs rule: rev_induct)
  case Nil
  then show ?case by (simp add: block_template_def template_inv_def txs_inputs_def)
next
  case (snoc tx txs)
  then show ?case using template_inv_step [of C p txs _ tx] by (simp add: block_template_def)
qed

lemma coinbase_fields [simp]:
  "ins (createCoinbaseTx C p a h f ts) = []"
  "outs (createCoinbaseTx C p a h f ts) = [\<lparr>out_Address = a, out_Amount = GetBlockReward p + f, out_TxType = TxTypeCoinbase\<rparr>]"
  "tx_Memo (createCoinbaseTx C p a h f ts) = coinbase_memo h (GetBlockReward p) f"
  by (simp_all add: createCoinbaseTx_def Let_def)

lemma coinbase_valid:
  assumes "GetBlockReward p + f \<noteq> 0"
    "GetMaxMemoSize p = 0 \<or> go_uint64 (length (coinbase_memo h (GetBlockReward p) f)) \<le> GetMaxMemoSize p"
  shows "ValidateTransaction C p (createCoinbaseTx C p a h f ts) = Inr ()"
proof -
  let ?tx = "createCoinbaseTx C p a h f ts"
  have "tx_preimage ?tx = ?tx\<lparr>tx_ID := zero_Hash\<rparr>"
    by (simp add: tx_preimage_def createCoinbaseTx_def Let_def nil_to_empty_def)
  then have "tx_form_ok C p ?tx"
    using assms(2) by (simp add: tx_form_ok_def) (simp add: createCoinbaseTx_def Let_def go_uint64_def)
  with assms(1) show ?thesis
    by (simp add: ValidateTransaction_coinbase output_amounts_def)
qed

text \<open>
  The circumstances under which \<open>SetBlock\<close> builds a valid block on \<open>prev\<close>: room for the coinbase,
  no pooled transaction that names an output twice, and a coinbase that fits and is new.
\<close>

definition can_build :: "crypto \<Rightarrow> (string \<times> TxWithFee) list \<Rightarrow> BlockChain \<Rightarrow> uint64 \<Rightarrow> Address \<Rightarrow> int \<Rightarrow> bool" where
  "can_build C order p height proposer ts \<longleftrightarrow>
     (let t = block_template C p (GetTxs order); cb = createCoinbaseTx C p proposer height (bt_totalFees t) ts in
      wf_Mempool (bc_Mempool p) \<and> iterates order (bc_Mempool p) \<and> length (bc_Mempool p) < MaxTxsPerBlock \<and>
      (\<forall>(k, w)\<in>set (bc_Mempool p). distinct (map in_op (ins (twf_Tx w))) \<and> tx_ID (twf_Tx w) \<noteq> tx_ID cb) \<and>
      proposer \<noteq> zero_Address \<and> GetBlockReward p + bt_totalFees t \<noteq> 0 \<and>
      (GetMaxMemoSize p = 0 \<or> go_uint64 (length (tx_Memo cb)) \<le> GetMaxMemoSize p))"

lemma wf_Mempool_order: "wf_Mempool m \<Longrightarrow> iterates order m \<Longrightarrow> wf_Mempool order"
  using iterates_wf [of order m] iterates_set [of order m] by (simp add: wf_Mempool_def)

lemma SetBlock_body:
  assumes ok: "can_build C order p height proposer ts"
    and b: "SetBlock C order p prevHash height proposer ts = (p', blk)"
  shows "body_ok C p (blk_Transactions blk)"
proof -
  let ?t = "block_template C p (GetTxs order)"
  let ?cb = "createCoinbaseTx C p proposer height (bt_totalFees ?t) ts"
  have pool: "wf_Mempool order" "length order < MaxTxsPerBlock" "set order = set (bc_Mempool p)"
    using ok wf_Mempool_order iterates_length iterates_set unfolding can_build_def Let_def by metis+
  have txs: "blk_Transactions blk = ?cb # bt_validTxs ?t"
    using b ok by (auto simp: SetBlock_def template_txs_def can_build_def Let_def)
  note inv = block_template_inv [of C p "GetTxs order", unfolded template_inv_def]
  have cand: "distinct (map in_op (ins tx)) \<and> tx_ID tx \<noteq> tx_ID ?cb" if "tx \<in> set (GetTxs order)" for tx
  proof -
    from that set_GetTxs [of order] obtain k w where "(k, w) \<in> set (bc_Mempool p)" "tx = twf_Tx w"
      using pool(3) by fastforce
    with ok show ?thesis unfolding can_build_def Let_def by blast
  qed
  have "length (GetTxs order) < MaxTxsPerBlock" using pool(2) by (simp add: GetTxs_length)
  moreover have "tx_ID ?cb \<notin> tx_ID ` set (bt_validTxs ?t)" using inv cand by fastforce
  moreover have "ValidateTransaction C p ?cb = Inr ()"
    by (rule coinbase_valid) (use ok in \<open>simp_all add: can_build_def Let_def\<close>)
  ultimately show ?thesis
    using inv cand GetTxs_distinct [OF pool(1)] by (simp add: body_ok_def txs txs_inputs_def)
qed


text \<open>Validation reads only the database and the configuration of a chain object.\<close>

lemma ValidateTransaction_cong:
  assumes "bc_db p = bc_db q" "bc_cfg p = bc_cfg q"
  shows "ValidateTransaction C p tx = ValidateTransaction C q tx"
proof -
  have "add_input p = add_input q" using assms by (intro ext) (simp add: add_input_def)
  moreover have "ValidateAllTxSignatures C p tx = ValidateAllTxSignatures C q tx"
    using assms by (simp add: ValidateAllTxSignatures_def)
  moreover have "GetMaxMemoSize p = GetMaxMemoSize q" "GetMaxDataSize p = GetMaxDataSize q" "GetMinFee p = GetMinFee q"
    using assms(2) by (simp_all add: GetMaxMemoSize_def GetMaxDataSize_def GetMinFee_def)
  ultimately show ?thesis using assms by (simp only: ValidateTransaction_def)
qed

lemma SetBlock_fields:
  assumes "SetBlock C order p prevHash height proposer ts = (p', blk)"
  shows "bc_db p' = bc_db p" "bc_cfg p' = bc_cfg p" "blk_Height blk = height" "blk_Proposer blk = proposer"
    "hdr_PrevHash (blk_Header blk) = prevHash" "hdr_Timestamp (blk_Header blk) = ts"
    "hdr_MerkleRoot (blk_Header blk) = calculateMerkleRoot C (blk_Transactions blk)"
    "blk_Hash blk = Hash_BlockHeader C ((blk_Header blk)\<lparr>hdr_Hash := zero_Hash\<rparr>)"
  using assms by (auto simp: SetBlock_def Let_def seal_def)

lemma SetBlock_valid:
  assumes ok: "can_build C order p height proposer ts"
    and b: "SetBlock C order p prevHash height proposer ts = (p', blk)"
    and prev: "getBlockByHeightNoLock p (height - 1) = Inr prev" "prevHash = blk_Hash prev" "height = blk_Height prev + 1"
    and ts: "height \<noteq> 0" "hdr_Timestamp (blk_Header prev) \<le> ts" "ts \<le> now + MaxFutureBlockTime"
    and sig: "ValidateProposerSignature (SignBlock blk sig) pv = Inr ()"
  shows "ValidateBlock C now pv p' (SignBlock blk sig) False = Inr ()"
proof -
  note f = SetBlock_fields [OF b]
  have "proposer \<noteq> zero_Address" using ok by (simp add: can_build_def Let_def)
  then have "header_ok C now prev (SignBlock blk sig)" using f prev ts by (simp add: header_ok_def SignBlock_def)
  moreover have "getBlockByHeightNoLock p' (height - 1) = Inr prev"
    using prev(1) f(1) by (simp add: getBlockByHeightNoLock_def)
  moreover have "body_ok C p' (blk_Transactions blk)"
    using SetBlock_body [OF ok b] ValidateTransaction_cong [OF f(1,2), of C] by (simp add: body_ok_def)
  moreover have "blk_Height (SignBlock blk sig) \<noteq> 0" using f(3) ts(1) by (simp add: SignBlock_def)
  ultimately show ?thesis
    using sig f(3) by (simp add: ValidateBlock_ok check_commit_def) (simp add: SignBlock_def split: option.split)
qed

section \<open>Genesis and restart\<close>

lemma setGenesisTxs_single:
  assumes "setGenesisTxs C p ts = Inr txs"
  obtains tx where "txs = [tx]" "ins tx = []" "tx_ID tx = Hash_Transaction C (tx\<lparr>tx_ID := zero_Hash\<rparr>)"
  using assms by (auto simp: setGenesisTxs_def Let_def bindE_Inr split: if_splits)

lemma genesis_outputs:
  assumes "foldE genesis_output acc xs = Inr os"
  shows "map out_Amount os = map out_Amount acc @ map snd xs"
  using assms
  by (induction xs arbitrary: acc) (auto simp: bindE_Inr genesis_output_def split: sum.splits)

text \<open>The genesis transaction pays the configured balances, in order.\<close>

lemma setGenesisTxs_amounts:
  assumes "setGenesisTxs C p ts = Inr txs"
  shows "concat (map output_amounts txs) = gen_SystemBalances (cfg_Genesis (bc_cfg p))"
proof -
  let ?as = "gen_SystemAddresses (cfg_Genesis (bc_cfg p))" and ?bs = "gen_SystemBalances (cfg_Genesis (bc_cfg p))"
  from assms have len: "length ?as = length ?bs" by (auto simp: setGenesisTxs_def Let_def split: if_splits)
  from assms obtain os where os: "foldE genesis_output [] (zip ?as ?bs) = Inr os" and "map outs txs = [os]"
    by (auto simp: setGenesisTxs_def Let_def bindE_Inr split: if_splits)
  then have "concat (map output_amounts txs) = map out_Amount os"
    by (cases txs) (auto simp: output_amounts_def)
  with genesis_outputs [OF os] len show ?thesis by simp
qed

lemma SetGenesisBlock_valid:
  assumes "SetGenesisBlock C now p = Inr blk"
  shows "ValidateBlock C now' pv p blk cc = Inr ()" "blk_Height blk = 0"
  using assms by (auto simp: SetGenesisBlock_def Let_def bindE_Inr ValidateBlock_def validateGenesisBlock_ok seal_def)

text \<open>A restart on the database of a running chain resumes at its tip.\<close>

lemma NewChainState_restart:
  assumes "tip_stored p" "bc_LatestBlockHash p \<noteq> []"
  shows "NewChainState C W now (bc_db p) (bc_cfg p) = Inr (p\<lparr>bc_Mempool := NewMempool\<rparr>)"
proof -
  let ?q = "\<lparr>bc_LatestHeight = 0, bc_LatestBlockHash = [], bc_db = bc_db p, bc_cfg = bc_cfg p, bc_Mempool = NewMempool\<rparr>"
  from tip_stored_load [OF assms(1), of ?q] assms(2) show ?thesis
    by (simp add: NewChainState_def Let_def)
qed

lemma NewChainState_boot:
  assumes W: "db_laws W" and size: "sha256_size C" and new: "db PrefixMetaHeight = Inl ErrNotFound"
    and boot: "cm_Mode (cfg_Common cfg) = ''boot'' \<or> cm_BlockProducer (cfg_Common cfg)"
    and ok: "NewChainState C W now db cfg = Inr p"
  obtains blk where
    "SetGenesisBlock C now \<lparr>bc_LatestHeight = 0, bc_LatestBlockHash = [], bc_db = db, bc_cfg = cfg, bc_Mempool = NewMempool\<rparr> = Inr blk"
    "AddBlock W \<lparr>bc_LatestHeight = 0, bc_LatestBlockHash = [], bc_db = db, bc_cfg = cfg, bc_Mempool = NewMempool\<rparr> blk = (p, Inr True)"
    "wf_Hash (blk_Hash blk)"
proof -
  let ?q = "\<lparr>bc_LatestHeight = 0, bc_LatestBlockHash = [], bc_db = db, bc_cfg = cfg, bc_Mempool = NewMempool\<rparr>"
  have load: "LoadChainDB ?q = Inr ?q" by (simp add: LoadChainDB_def new)
  from ok obtain blk where blk: "SetGenesisBlock C now ?q = Inr blk"
    using boot by (auto simp: NewChainState_def load bindE_Inr)
  from ok have "AddBlock W ?q blk = (p, Inr True)"
    using boot by (auto simp: NewChainState_def load blk split: prod.splits sum.splits if_splits)
  moreover have "wf_Hash (blk_Hash blk)"
    using SetGenesisBlock_valid(1) [OF blk, of now None False] SetGenesisBlock_valid(2) [OF blk] size
    by (simp add: ValidateBlock_def validateGenesisBlock_ok Hash_BlockHeader_def Hash_json_def sha256_size_def wf_Hash_def)
  ultimately show thesis using blk that by blast
qed

section \<open>What an import and a start leave alone\<close>

text \<open>The import of a block leaves the records of the stakers and validators as they are.\<close>

lemma AddBlock_keeps:
  assumes W: "db_laws W" and wf: "wf_Hash (blk_Hash blk)" and ok: "AddBlock W p blk = (p', Inr r)"
    and k: "hd k \<notin> {CHR ''u'', CHR ''t'', CHR ''b'', CHR ''m''}"
  shows "bc_db p' k = bc_db p k"
proof -
  obtain u where u: "utxo_batch u" "bc_db p' = apply_batch (bc_db p) (block_batch blk u @ (if moves_tip p blk then tip_batch blk else []))"
    by (rule AddBlock_ok [OF W wf ok])
  have "k \<noteq> GetBlockHashKey (blk_Hash blk)" "k \<noteq> GetBlockHeightKey (blk_Height blk)" using k by (auto simp: key_kinds)
  then show ?thesis unfolding u(2) apply_batch_append using k by (simp add: tip_batch_other block_batch_frame [OF u(1)])
qed

text \<open>A chain object starts with an empty pool.\<close>

lemma AddBlock_pool:
  assumes "bc_Mempool p = []"
  shows "bc_Mempool (fst (AddBlock W p blk)) = []"
proof -
  have d: "foldl (\<lambda>m tx. DelTx m (tx_ID tx)) [] txs = []" for txs by (induction txs) (simp_all add: DelTx_def)
  show ?thesis using assms
    by (auto simp: AddBlock_def UpdateChainState_def d Let_def split: sum.split option.split prod.split if_splits)
qed

lemma LoadChainDB_pool:
  assumes "LoadChainDB p = Inr q"
  shows "bc_Mempool q = bc_Mempool p"
proof -
  consider "bc_db p PrefixMetaBlockHash = Inl ErrNotFound" | "bc_db p PrefixMetaBlockHash = Inl ErrIO" |
    v where "bc_db p PrefixMetaBlockHash = Inr v" by (metis get_error.exhaust sum.exhaust)
  then show ?thesis using assms by cases (auto simp: LoadChainDB_def bindE_Inr split: sum.splits option.splits get_error.splits)
qed

lemma NewChainState_pool:
  assumes "NewChainState C W now db cfg = Inr bc"
  shows "bc_Mempool bc = []"
proof -
  let ?q = "\<lparr>bc_LatestHeight = 0, bc_LatestBlockHash = [], bc_db = db, bc_cfg = cfg, bc_Mempool = NewMempool\<rparr>"
  from assms obtain q where q: "LoadChainDB ?q = Inr q" by (auto simp: NewChainState_def bindE_Inr)
  then have pool: "bc_Mempool q = []" by (auto simp: NewMempool_def dest: LoadChainDB_pool)
  from assms q consider "bc = q" | g where "bc = fst (AddBlock W q g)"
    unfolding NewChainState_def by (cases "SetGenesisBlock C now q") (auto simp: Let_def split: if_splits prod.splits sum.splits, (metis fst_conv)+)
  then show ?thesis using pool AddBlock_pool [of q W] by cases simp_all
qed

end
