(* ===== verification/Supply.thy ===== *)
theory Supply
  imports Chain
begin

text \<open>
  Value on the ledger: what the unspent outputs are worth in total, how a block changes it, and
  that a block built by \<open>SetBlock\<close> from transfers raises it by exactly the block reward.  The locale
  \<open>utxo_ledger\<close> is the contract of a ledger under block import; it is interpreted on \<open>AddBlock\<close>.
\<close>

section \<open>Total value\<close>

definition value_at :: "ledger \<Rightarrow> outpoint \<Rightarrow> nat" where
  "value_at L op = (case L op of None \<Rightarrow> 0 | Some u \<Rightarrow> if utxo_Spent u then 0 else unat (amount_of u))"

definition coin_supply :: "ledger \<Rightarrow> nat" where
  "coin_supply L = (\<Sum>op\<in>dom L. value_at L op)"

text \<open>No output record exists yet under the IDs of the block.\<close>

definition fresh_ids :: "ledger \<Rightarrow> Block \<Rightarrow> bool" where
  "fresh_ids L blk \<longleftrightarrow> (\<forall>tx\<in>set (blk_Transactions blk). \<forall>i. L (tx_ID tx, i) = None)"

lemma dom_ledger_spend: "dom (ledger_spend h S L) = dom L"
  by (auto simp: ledger_spend_def split: if_splits)

lemma finite_ledger_step: "finite (dom L) \<Longrightarrow> finite (dom (ledger_step blk L))"
  by (simp add: ledger_step_def dom_ledger_spend finite_dom_map_of)

lemma tx_new_utxos_fst: "map fst (tx_new_utxos h tx) = map (\<lambda>i. (tx_ID tx, go_uint64 i)) [0..<length (outs tx)]"
  unfolding tx_new_utxos_def by (rule nth_equalityI) (auto simp: nth_enumerate_eq)

lemma tx_new_utxos_snd: "map (amount_of \<circ> snd) (tx_new_utxos h tx) = output_amounts tx"
  unfolding tx_new_utxos_def output_amounts_def
  by (rule nth_equalityI) (auto simp: nth_enumerate_eq new_utxo_def)

lemma tx_new_utxos_distinct: "length (outs tx) < 2 ^ 63 \<Longrightarrow> distinct (map fst (tx_new_utxos h tx))"
  unfolding tx_new_utxos_fst distinct_map by (auto intro!: inj_onI simp: go_uint64_inj)

lemma block_new_utxos_distinct:
  assumes "small_block blk" "distinct (map tx_ID (blk_Transactions blk))"
  shows "distinct (map fst (block_new_utxos blk))"
proof -
  have "distinct (map fst (concat (map (tx_new_utxos h) txs)))"
    if "distinct (map tx_ID txs)" "\<forall>tx\<in>set txs. length (outs tx) < 2 ^ 63" for txs h
    using that
  proof (induction txs)
    case Nil
    then show ?case by simp
  next
    case (Cons tx txs)
    have id: "fst (fst x) = tx_ID t" if "x \<in> set (tx_new_utxos h t)" for x t
      using that by (auto simp: tx_new_utxos_def)
    have "fst ` set (tx_new_utxos h tx) \<inter> fst ` set (concat (map (tx_new_utxos h) txs)) = {}"
      using Cons.prems(1) id by fastforce
    with Cons tx_new_utxos_distinct [of tx h] show ?case by simp
  qed
  with assms show ?thesis by (simp add: block_new_utxos_def small_block_def)
qed

lemma fresh_new: "fresh_ids L blk \<Longrightarrow> op \<in> fst ` set (block_new_utxos blk) \<Longrightarrow> L op = None"
  by (auto simp: fresh_ids_def block_new_utxos_def tx_new_utxos_def)

lemma fresh_same_owners:
  assumes "fresh_ids (utxo_at db) blk" "small_block blk" "distinct (map tx_ID (blk_Transactions blk))"
  shows "same_owners db blk"
proof -
  have "utxo_at db op = None" if "(op, u) \<in> set (block_new_utxos blk)" for op u
    by (rule fresh_new [OF assms(1)]) (use that in force)
  moreover have "u = u'" if "(op, u) \<in> set (block_new_utxos blk)" "(op, u') \<in> set (block_new_utxos blk)" for op u u'
    using block_new_utxos_distinct [OF assms(2,3)] that by (rule eq_key_imp_eq_value)
  ultimately show ?thesis unfolding same_owners_def by fastforce
qed

text \<open>The values of the ledger after a block, at old and at new outpoints.\<close>

lemma ledger_step_fresh:
  assumes "fresh_ids L blk" "distinct (map fst (block_new_utxos blk))"
  shows "L op \<noteq> None \<Longrightarrow> value_at (ledger_step blk L) op = (if op \<in> consumed blk then 0 else value_at L op)"
    and "(op, u) \<in> set (block_new_utxos blk) \<Longrightarrow> value_at (ledger_step blk L) op = unat (amount_of u)"
    and "dom (ledger_step blk L) = dom L \<union> fst ` set (block_new_utxos blk)"
proof -
  have new: "map_of (rev (block_new_utxos blk)) op = None" if "L op \<noteq> None" for op
    using fresh_new [OF assms(1), of op] that by (auto simp: map_of_eq_None_iff)
  show "L op \<noteq> None \<Longrightarrow> value_at (ledger_step blk L) op = (if op \<in> consumed blk then 0 else value_at L op)"
    using new [of op] by (auto simp: value_at_def ledger_step_def consumed_def [symmetric] ledger_spend_def map_add_def)
  show "value_at (ledger_step blk L) op = unat (amount_of u)" if "(op, u) \<in> set (block_new_utxos blk)"
  proof -
    have "distinct (map fst (rev (block_new_utxos blk)))" using assms(2) by (simp add: rev_map [symmetric])
    then have "map_of (rev (block_new_utxos blk)) op = Some u" using that by (simp add: map_of_is_SomeI)
    then show ?thesis using new_utxo_self [OF that] by (simp add: value_at_def ledger_step_def map_add_def)
  qed
  show "dom (ledger_step blk L) = dom L \<union> fst ` set (block_new_utxos blk)"
    by (simp add: ledger_step_def dom_ledger_spend dom_map_of_conv_image_fst Un_commute)
qed

lemma supply_step:
  assumes fin: "finite (dom L)" and fresh: "fresh_ids L blk" and dist: "distinct (map fst (block_new_utxos blk))"
    and cons: "consumed blk \<subseteq> dom L"
  shows "coin_supply (ledger_step blk L) + (\<Sum>op\<in>consumed blk. value_at L op) =
     coin_supply L + (\<Sum>(op, u)\<leftarrow>block_new_utxos blk. unat (amount_of u))"
proof -
  let ?L' = "ledger_step blk L" and ?N = "fst ` set (block_new_utxos blk)"
  note st = ledger_step_fresh [OF fresh dist]
  have disj: "dom L \<inter> ?N = {}" by (rule equals0I) (metis IntE domIff fresh fresh_new)
  have "(\<Sum>op\<in>dom L. value_at ?L' op) = (\<Sum>op\<in>dom L. if op \<in> consumed blk then 0 else value_at L op)"
    by (rule sum.cong) (auto simp: st(1))
  also have "\<dots> = (\<Sum>op\<in>dom L - consumed blk. value_at L op)"
    using fin by (simp add: sum.If_cases Diff_eq)
  finally have old: "(\<Sum>op\<in>dom L. value_at ?L' op) + (\<Sum>op\<in>consumed blk. value_at L op) = coin_supply L"
    using sum.subset_diff [OF cons fin, of "value_at L"] by (simp add: coin_supply_def)
  have "(\<Sum>op\<in>?N. value_at ?L' op) = sum_list (map (value_at ?L' \<circ> fst) (block_new_utxos blk))"
    using sum_list_distinct_conv_sum_set [OF dist, of "value_at ?L'"] by simp
  also have "\<dots> = (\<Sum>(op, u)\<leftarrow>block_new_utxos blk. unat (amount_of u))"
    by (rule arg_cong [where f = sum_list], rule map_cong) (auto simp: st(2))
  finally have new: "(\<Sum>op\<in>?N. value_at ?L' op) = (\<Sum>(op, u)\<leftarrow>block_new_utxos blk. unat (amount_of u))" .
  have "coin_supply ?L' = (\<Sum>op\<in>dom L. value_at ?L' op) + (\<Sum>op\<in>?N. value_at ?L' op)"
    unfolding coin_supply_def st(3) using fin disj by (intro sum.union_disjoint) auto
  with old new show ?thesis by simp
qed

section \<open>Inputs and outputs of a block\<close>

definition tx_in_value :: "leveldb \<Rightarrow> Transaction \<Rightarrow> nat" where
  "tx_in_value db tx = sum_list (map unat (input_amounts db tx))"

definition tx_out_value :: "Transaction \<Rightarrow> nat" where
  "tx_out_value tx = sum_list (map unat (output_amounts tx))"

lemma new_value: "(\<Sum>(op, u)\<leftarrow>block_new_utxos blk. unat (amount_of u)) = (\<Sum>tx\<leftarrow>blk_Transactions blk. tx_out_value tx)"
proof -
  have "(\<Sum>(op, u)\<leftarrow>concat (map (tx_new_utxos h) txs). unat (amount_of u)) = (\<Sum>tx\<leftarrow>txs. tx_out_value tx)" for h txs
  proof (induction txs)
    case Nil
    then show ?case by simp
  next
    case (Cons tx txs)
    have "(\<Sum>(op, u)\<leftarrow>tx_new_utxos h tx. unat (amount_of u)) = sum_list (map unat (map (amount_of \<circ> snd) (tx_new_utxos h tx)))"
      by (simp add: comp_def case_prod_unfold)
    also have "\<dots> = tx_out_value tx" by (simp only: tx_new_utxos_snd tx_out_value_def)
    finally show ?case using Cons by simp
  qed
  then show ?thesis by (simp add: block_new_utxos_def)
qed

lemma consumed_value:
  assumes "\<forall>op\<in>set (txs_inputs txs). spendable db op" "distinct (txs_inputs txs)"
  shows "(\<Sum>op\<in>set (txs_inputs txs). value_at (utxo_at db) op) = (\<Sum>tx\<leftarrow>txs. tx_in_value db tx)"
proof -
  have "sum_list (map (value_at (utxo_at db)) (txs_inputs txs)) = (\<Sum>tx\<leftarrow>txs. tx_in_value db tx)"
    using assms(1)
  proof (induction txs)
    case Nil
    then show ?case by (simp add: txs_inputs_def)
  next
    case (Cons tx txs)
    have "value_at (utxo_at db) (in_op i) = unat (case utxo_at db (in_op i) of None \<Rightarrow> 0 | Some u \<Rightarrow> amount_of u)"
      if "i \<in> set (ins tx)" for i
    proof -
      from that Cons.prems have "spendable db (in_op i)" by (auto simp: txs_inputs_def)
      then show ?thesis by (auto simp: spendable_def value_at_def)
    qed
    then have "map (value_at (utxo_at db)) (map in_op (ins tx)) = map unat (input_amounts db tx)"
      by (simp add: input_amounts_def)
    with Cons show ?case by (simp add: txs_inputs_def tx_in_value_def)
  qed
  with sum_list_distinct_conv_sum_set [OF assms(2), of "value_at (utxo_at db)"] show ?thesis by simp
qed

lemma AddBlock_supply:
  assumes W: "db_laws W" and hash: "wf_Hash (blk_Hash blk)" and small: "small_block blk" and wf: "index_wf (bc_db p)"
    and ids: "distinct (map tx_ID (blk_Transactions blk))" and ins: "distinct (block_inputs blk)"
    and h: "blk_Height blk \<noteq> 0"
    and fin: "finite (dom (utxo_at (bc_db p)))" and fresh: "fresh_ids (utxo_at (bc_db p)) blk"
    and ok: "AddBlock W p blk = (p', Inr r)"
  shows "coin_supply (utxo_at (bc_db p')) + (\<Sum>tx\<leftarrow>blk_Transactions blk. tx_in_value (bc_db p) tx) =
     coin_supply (utxo_at (bc_db p)) + (\<Sum>tx\<leftarrow>blk_Transactions blk. tx_out_value tx)"
proof -
  note led = AddBlock_ledger [OF W hash small wf ok]
  have c: "consumed blk = set (txs_inputs (blk_Transactions blk))"
    using h by (simp add: consumed_def block_inputs_txs word_gt_0)
  have "consumed blk \<subseteq> dom (utxo_at (bc_db p))" using led(2) by (auto simp: spendable_def)
  note step = supply_step [OF fin fresh block_new_utxos_distinct [OF small ids] this]
  have "(\<Sum>op\<in>consumed blk. value_at (utxo_at (bc_db p)) op) = (\<Sum>tx\<leftarrow>blk_Transactions blk. tx_in_value (bc_db p) tx)"
    unfolding c by (rule consumed_value) (use led(2) c ins in \<open>simp_all add: block_inputs_txs\<close>)
  with step show ?thesis by (simp add: led(1) new_value)
qed


section \<open>The supply grows by the block reward\<close>

lemma valid_transfer_value:
  assumes "ValidateTransaction C p tx = Inr u" "ins tx \<noteq> []" "no_overflow (bc_db p) tx"
  shows "tx_in_value (bc_db p) tx = tx_out_value tx + unat (tx_fee (bc_db p) tx)"
proof -
  let ?i = "sum_list (input_amounts (bc_db p) tx)" and ?o = "sum_list (output_amounts tx)"
  have le: "?o \<le> ?i" using assms(1) ValidateTransaction_transfer [OF assms(2), of C p u] by simp
  then have "unat (?i - ?o) = unat ?i - unat ?o" "unat ?o \<le> unat ?i" by (simp_all add: unat_sub word_le_nat_alt)
  moreover have "unat ?i = tx_in_value (bc_db p) tx" "unat ?o = tx_out_value tx"
    using assms(3) by (simp_all add: no_overflow_def unat_sum_list_no_wrap tx_in_value_def tx_out_value_def)
  ultimately show ?thesis using assms(2) by (simp add: tx_fee_def)
qed

lemma transfers_value:
  assumes "\<forall>tx\<in>set txs. ValidateTransaction C p tx = Inr () \<and> ins tx \<noteq> [] \<and> no_overflow (bc_db p) tx"
  shows "(\<Sum>tx\<leftarrow>txs. tx_in_value (bc_db p) tx) =
     (\<Sum>tx\<leftarrow>txs. tx_out_value tx) + sum_list (map unat (map (tx_fee (bc_db p)) txs))"
proof -
  have "tx_in_value (bc_db p) tx = tx_out_value tx + unat (tx_fee (bc_db p) tx)" if "tx \<in> set txs" for tx
    using assms that valid_transfer_value by blast
  then have "map (tx_in_value (bc_db p)) txs = map (\<lambda>tx. tx_out_value tx + unat (tx_fee (bc_db p) tx)) txs" by simp
  then show ?thesis by (simp only: sum_list_addf map_map comp_def)
qed

text \<open>Every pooled transaction is a transfer, and no sum of the block exceeds 64 bits.\<close>

definition plain_pool :: "crypto \<Rightarrow> (string \<times> TxWithFee) list \<Rightarrow> BlockChain \<Rightarrow> bool" where
  "plain_pool C order p \<longleftrightarrow>
     (\<forall>tx\<in>set (GetTxs order). ins tx \<noteq> [] \<and> no_overflow (bc_db p) tx) \<and>
     unat (GetBlockReward p) + sum_list (map unat (map (tx_fee (bc_db p)) (bt_validTxs (block_template C p (GetTxs order))))) < 2 ^ 64"

lemma SetBlock_supply:
  assumes W: "db_laws W" and build: "can_build C order p height proposer ts" and pool: "plain_pool C order p"
    and b: "SetBlock C order p prevHash height proposer ts = (p', blk)"
    and ok: "AddBlock W p' (SignBlock blk sig) = (p'', Inr r)"
    and side: "wf_Hash (blk_Hash blk)" "small_block blk" "index_wf (bc_db p)" "height \<noteq> 0"
      "finite (dom (utxo_at (bc_db p)))" "fresh_ids (utxo_at (bc_db p)) blk"
  shows "coin_supply (utxo_at (bc_db p'')) = coin_supply (utxo_at (bc_db p)) + unat (GetBlockReward p)"
proof -
  let ?t = "block_template C p (GetTxs order)" and ?db = "bc_db p" and ?sb = "SignBlock blk sig"
  let ?cb = "createCoinbaseTx C p proposer height (bt_totalFees ?t) ts" and ?v = "bt_validTxs ?t"
  have txs: "blk_Transactions blk = ?cb # ?v"
    using b build by (auto simp: SetBlock_def template_txs_def can_build_def Let_def)
  note inv = block_template_inv [of C p "GetTxs order", unfolded template_inv_def]
  have body: "body_ok C p (blk_Transactions blk)" by (rule SetBlock_body [OF build b])
  have db: "bc_db p' = ?db" "blk_Height blk = height" using SetBlock_fields [OF b] by simp_all
  have total: "coin_supply (utxo_at (bc_db p'')) + (\<Sum>tx\<leftarrow>blk_Transactions ?sb. tx_in_value (bc_db p') tx) =
     coin_supply (utxo_at (bc_db p')) + (\<Sum>tx\<leftarrow>blk_Transactions ?sb. tx_out_value tx)"
    by (rule AddBlock_supply [OF W _ _ _ _ _ _ _ _ ok])
      (use side db body in \<open>simp_all add: SignBlock_def small_block_def body_ok_def block_inputs_txs fresh_ids_def\<close>)
  have fees: "(\<Sum>tx\<leftarrow>?v. tx_in_value ?db tx) = (\<Sum>tx\<leftarrow>?v. tx_out_value tx) + sum_list (map unat (map (tx_fee ?db) ?v))"
    by (rule transfers_value [of _ C]) (use inv pool in \<open>auto simp: plain_pool_def\<close>)
  have "unat (bt_totalFees ?t) = sum_list (map unat (map (tx_fee ?db) ?v))"
    using pool inv unat_sum_list_no_wrap [of "map (tx_fee ?db) ?v"] by (simp add: plain_pool_def)
  then have "tx_out_value ?cb = unat (GetBlockReward p) + sum_list (map unat (map (tx_fee ?db) ?v))"
    using pool by (simp add: tx_out_value_def output_amounts_def plain_pool_def unat_add_no_wrap)
  moreover have "tx_in_value ?db ?cb = 0" by (simp add: tx_in_value_def input_amounts_def)
  ultimately show ?thesis using total fees by (simp add: SignBlock_def txs db)
qed

section \<open>The contract of the ledger\<close>

inductive imported :: "('s \<Rightarrow> Block \<Rightarrow> 's option) \<Rightarrow> ('s \<Rightarrow> Block \<Rightarrow> bool) \<Rightarrow> 's \<Rightarrow> Block list \<Rightarrow> 's \<Rightarrow> bool"
  for import adm where
  imported_Nil: "imported import adm s [] s"
| imported_Cons: "adm s b \<Longrightarrow> import s b = Some s' \<Longrightarrow> imported import adm s' bs s'' \<Longrightarrow> imported import adm s (b # bs) s''"

inductive_cases imported_NilE: "imported import adm s [] s'"
inductive_cases imported_ConsE: "imported import adm s (b # bs) s'"

locale utxo_ledger =
  fixes import :: "'s \<Rightarrow> Block \<Rightarrow> 's option"
    and led :: "'s \<Rightarrow> ledger"
    and invar :: "'s \<Rightarrow> bool"
    and adm :: "'s \<Rightarrow> Block \<Rightarrow> bool"
  assumes import_invar: "invar s \<Longrightarrow> adm s b \<Longrightarrow> import s b = Some s' \<Longrightarrow> invar s'"
    and import_step: "invar s \<Longrightarrow> adm s b \<Longrightarrow> import s b = Some s' \<Longrightarrow> led s' = ledger_step b (led s)"
    and import_consumes: "invar s \<Longrightarrow> adm s b \<Longrightarrow> import s b = Some s' \<Longrightarrow> op \<in> consumed b \<Longrightarrow>
          \<exists>u. led s op = Some u \<and> \<not> utxo_Spent u"
    and adm_fresh: "adm s b \<Longrightarrow> fresh_ids (led s) b"
begin

lemma imported_invar: "imported import adm s bs s' \<Longrightarrow> invar s \<Longrightarrow> invar s'"
  by (induction rule: imported.induct) (auto intro: import_invar)

lemma imported_fold: "imported import adm s bs s' \<Longrightarrow> invar s \<Longrightarrow> led s' = fold ledger_step bs (led s)"
  by (induction rule: imported.induct) (auto simp: import_step intro: import_invar)

lemma spent_step:
  assumes "adm s b" "led s op = Some u" "utxo_Spent u"
  shows "\<exists>u'. ledger_step b (led s) op = Some u' \<and> utxo_Spent u'"
proof -
  have "op \<notin> fst ` set (block_new_utxos b)" using fresh_new [OF adm_fresh [OF assms(1)], of op] assms(2) by auto
  then have "map_of (rev (block_new_utxos b)) op = None" by (simp add: map_of_eq_None_iff)
  with assms(2,3) show ?thesis by (auto simp: ledger_step_def ledger_spend_def map_add_def)
qed

lemma spent_stays:
  "imported import adm s bs s' \<Longrightarrow> invar s \<Longrightarrow> led s op = Some u \<Longrightarrow> utxo_Spent u \<Longrightarrow>
   \<exists>u'. led s' op = Some u' \<and> utxo_Spent u'"
proof (induction arbitrary: u rule: imported.induct)
  case (imported_Nil s)
  then show ?case by blast
next
  case (imported_Cons s b s1 bs s')
  from spent_step [OF imported_Cons.hyps(1) imported_Cons.prems(2,3)] obtain u1
    where "led s1 op = Some u1" "utxo_Spent u1"
    using import_step [OF imported_Cons.prems(1) imported_Cons.hyps(1,2)] by auto
  with imported_Cons.IH import_invar [OF imported_Cons.prems(1) imported_Cons.hyps(1,2)] show ?case by blast
qed

lemma import_marks:
  assumes "invar s" "adm s b" "import s b = Some s'" "op \<in> consumed b"
  shows "\<exists>u. led s' op = Some u \<and> utxo_Spent u"
proof -
  from import_consumes [OF assms] obtain u where u: "led s op = Some u" by blast
  have "op \<notin> fst ` set (block_new_utxos b)" using fresh_new [OF adm_fresh [OF assms(2)], of op] u by auto
  then have "map_of (rev (block_new_utxos b)) op = None" by (simp add: map_of_eq_None_iff)
  with u assms(4) show ?thesis
    unfolding import_step [OF assms(1-3)]
    by (simp add: ledger_step_def consumed_def [symmetric] ledger_spend_def map_add_def)
qed

text \<open>No output is consumed by two blocks of a chain.\<close>

lemma no_double_spend:
  assumes s: "invar s" and b: "adm s b" "import s b = Some s1"
    and bs: "imported import adm s1 bs s2" and b': "adm s2 b'" "import s2 b' = Some s3"
  shows "consumed b \<inter> consumed b' = {}"
proof (rule equals0I, elim IntE)
  fix op
  assume op: "op \<in> consumed b" "op \<in> consumed b'"
  have s1: "invar s1" by (rule import_invar [OF s b])
  from import_marks [OF s b op(1)] spent_stays [OF bs s1]
  obtain u where u: "led s2 op = Some u" "utxo_Spent u" by blast
  from import_consumes [OF imported_invar [OF bs s1] b' op(2)] u show False by auto
qed

end

text \<open>The provider: \<open>AddBlock\<close> on a chain object over a database.\<close>

definition import_block :: "db_ops \<times> BlockChain \<Rightarrow> Block \<Rightarrow> (db_ops \<times> BlockChain) option" where
  "import_block s b = (case AddBlock (fst s) (snd s) b of (p', Inr r) \<Rightarrow> Some (fst s, p') | (p', Inl e) \<Rightarrow> None)"

definition chain_ledger :: "db_ops \<times> BlockChain \<Rightarrow> ledger" where
  "chain_ledger s = utxo_at (bc_db (snd s))"

definition chain_invar :: "db_ops \<times> BlockChain \<Rightarrow> bool" where
  "chain_invar s \<longleftrightarrow> db_laws (fst s) \<and> utxo_db_ok (bc_db (snd s)) \<and> finite (dom (chain_ledger s))"

definition admissible :: "db_ops \<times> BlockChain \<Rightarrow> Block \<Rightarrow> bool" where
  "admissible s b \<longleftrightarrow>
     wf_Hash (blk_Hash b) \<and> small_block b \<and> distinct (map tx_ID (blk_Transactions b)) \<and> fresh_ids (chain_ledger s) b"

lemma import_block_Some:
  "import_block s b = Some s' \<longleftrightarrow> (\<exists>p' r. AddBlock (fst s) (snd s) b = (p', Inr r) \<and> s' = (fst s, p'))"
  by (auto simp: import_block_def split: prod.splits sum.splits)

interpretation cl: utxo_ledger import_block chain_ledger chain_invar admissible
proof unfold_locales
  fix s s' b op
  assume s: "chain_invar s" and adm: "admissible s b" and imp: "import_block s b = Some s'"
  then obtain p' r where p': "AddBlock (fst s) (snd s) b = (p', Inr r)" "s' = (fst s, p')"
    by (auto simp: import_block_Some)
  have wf: "index_wf (bc_db (snd s))" using s by (simp add: chain_invar_def utxo_db_ok_def)
  note led = AddBlock_ledger [OF _ _ _ wf p'(1)]
  show step: "chain_ledger s' = ledger_step b (chain_ledger s)"
    using led(1) s adm p'(2) by (simp add: chain_ledger_def chain_invar_def admissible_def)
  show "chain_invar s'"
    using s adm p' AddBlock_db_ok [OF _ _ _ _ _ p'(1)] finite_ledger_step [of "chain_ledger s" b] step
      fresh_same_owners [of "bc_db (snd s)" b]
    by (simp add: chain_invar_def admissible_def chain_ledger_def)
  show "\<exists>u. chain_ledger s op = Some u \<and> \<not> utxo_Spent u" if "op \<in> consumed b"
    using led(2) s adm that by (simp add: chain_invar_def admissible_def chain_ledger_def spendable_def)
next
  show "fresh_ids (chain_ledger s) b" if "admissible s b" for s b
    using that by (simp add: admissible_def)
qed

end
