(* ===== verification/Sample_Chain.thy ===== *)
theory Sample_Chain
  imports Sample Supply
begin

text \<open>
  The sample network after its first start: the genesis block and the chain that holds it, with the
  facts the witnesses use.
\<close>

definition toy_start :: BlockChain where
  "toy_start = \<lparr>bc_LatestHeight = 0, bc_LatestBlockHash = [], bc_db = empty_db, bc_cfg = toy_cfg, bc_Mempool = NewMempool\<rparr>"

definition toy_genesis_tx :: Transaction where
  "toy_genesis_tx =
     (let tx = \<lparr>tx_Version = ''1'', tx_NetworkID = [], tx_ID = zero_Hash, tx_Timestamp = 5, tx_Inputs = Some [],
          tx_Outputs = Some [\<lparr>out_Address = toy_address 1, out_Amount = 100, out_TxType = TxTypeGeneral\<rparr>,
                             \<lparr>out_Address = toy_address 2, out_Amount = 50, out_TxType = TxTypeGeneral\<rparr>],
          tx_Memo = ''ABCFE Chain Genesis Block'', tx_Data = None\<rparr>
      in tx\<lparr>tx_ID := Hash_Transaction toy tx\<rparr>)"

definition toy_genesis :: Block where
  "toy_genesis =
     \<lparr>blk_Header = seal toy \<lparr>hdr_Hash = zero_Hash, hdr_PrevHash = zero_Hash, hdr_Version = ''1'', hdr_Height = 0,
        hdr_MerkleRoot = calculateMerkleRoot toy [toy_genesis_tx], hdr_Timestamp = 5\<rparr>,
      blk_Transactions = [toy_genesis_tx], blk_Proposer = zero_Address, blk_Signature = zero_Signature, blk_CommitSignatures = []\<rparr>"

definition toy_chain :: BlockChain where
  "toy_chain = fst (AddBlock mem_ops toy_start toy_genesis)"

lemma toy_start_fields [simp]:
  "utxo_at (bc_db toy_start) = Map.empty" "utxo_db_ok (bc_db toy_start)" "lists_readable (bc_db toy_start)" "bc_LatestHeight toy_start = 0"
proof -
  show "utxo_at (bc_db toy_start) = Map.empty" by (rule ext) (simp add: toy_start_def utxo_at_def empty_db_def)
  show "lists_readable (bc_db toy_start)" by (simp add: toy_start_def lists_readable_def empty_db_def)
qed (simp_all add: toy_start_def)

lemma toy_address_wf [simp]: "wf_Address (toy_address n)"
  by (simp add: toy_address_def wf_Address_def)

lemma toy_SetGenesisBlock: "SetGenesisBlock toy now toy_start = Inr toy_genesis"
  by (simp add: SetGenesisBlock_def setGenesisTxs_def toy_start_def toy_cfg_def toy_genesis_def toy_genesis_tx_def
      genesis_output_def Let_def)

lemma toy_AddBlock: "AddBlock mem_ops toy_start toy_genesis = (toy_chain, Inr True)"
proof -
  have "\<exists>p'. AddBlock mem_ops toy_start toy_genesis = (p', Inr True)"
    by (rule AddBlock_succeeds)
      (use empty_db_ok in \<open>auto simp: toy_start_def lists_readable_def empty_db_def utxo_db_ok_def consumed_def toy_genesis_def seal_def\<close>)
  then show ?thesis by (auto simp: toy_chain_def)
qed

lemma toy_boot: "NewChainState toy mem_ops now empty_db toy_cfg = Inr toy_chain"
  using toy_SetGenesisBlock [of now] toy_AddBlock
  by (simp add: NewChainState_def toy_start_def LoadChainDB_def empty_db_def toy_cfg_def)

lemma toy_hash_size [simp]: "wf_Hash (sha256 toy bs)"
  by (simp add: wf_Hash_def toy_def toy_hash_def)

lemma toy_genesis_fields [simp]:
  "blk_Height toy_genesis = 0" "blk_Transactions toy_genesis = [toy_genesis_tx]" "hdr_Timestamp (blk_Header toy_genesis) = 5"
  "wf_Hash (blk_Hash toy_genesis)" "ins toy_genesis_tx = []" "consumed toy_genesis = {}"
  by (simp_all add: toy_genesis_def seal_def toy_genesis_tx_def Let_def Hash_BlockHeader_def Hash_json_def consumed_def)

lemma toy_genesis_small [simp]: "small_block toy_genesis"
  by (simp add: small_block_def toy_genesis_tx_def Let_def)

lemma toy_chain_fields [simp]:
  "bc_LatestHeight toy_chain = 0" "bc_cfg toy_chain = toy_cfg" "bc_Mempool toy_chain = []"
  "bc_LatestBlockHash toy_chain = HashToString (blk_Hash toy_genesis)" "tip_stored toy_chain"
proof -
  have tip: "moves_tip toy_start toy_genesis" by (simp add: moves_tip_def)
  obtain u where "bc_Mempool toy_chain = foldl DelTx (bc_Mempool toy_start) (map tx_ID (blk_Transactions toy_genesis))"
    "bc_cfg toy_chain = bc_cfg toy_start"
    "bc_LatestHeight toy_chain = blk_Height toy_genesis \<and> bc_LatestBlockHash toy_chain = HashToString (blk_Hash toy_genesis) \<and> tip_stored toy_chain"
    by (rule AddBlock_ok [OF mem_ops_laws(1) toy_genesis_fields(4) toy_AddBlock]) (use tip in blast)
  then show "bc_LatestHeight toy_chain = 0" "bc_cfg toy_chain = toy_cfg" "bc_Mempool toy_chain = []"
    "bc_LatestBlockHash toy_chain = HashToString (blk_Hash toy_genesis)" "tip_stored toy_chain"
    by (simp_all add: toy_start_def NewMempool_def DelTx_def)
qed

lemma toy_utxos: "utxo_at (bc_db toy_chain) = ledger_step toy_genesis Map.empty"
proof -
  have "index_wf (bc_db toy_start)" using toy_start_fields(2) by (simp add: utxo_db_ok_def)
  from AddBlock_ledger(1) [OF mem_ops_laws(1) toy_genesis_fields(4) toy_genesis_small this toy_AddBlock] show ?thesis by simp
qed

lemma toy_db_ok [simp]: "utxo_db_ok (bc_db toy_chain)" "lists_readable (bc_db toy_chain)" "finite (dom (utxo_at (bc_db toy_chain)))"
proof -
  have "fresh_ids (utxo_at (bc_db toy_start)) toy_genesis" by (simp add: fresh_ids_def)
  then have "same_owners (bc_db toy_start) toy_genesis" by (rule fresh_same_owners) simp_all
  then show "utxo_db_ok (bc_db toy_chain)"
    by (rule AddBlock_db_ok [OF mem_ops_laws(1) toy_genesis_fields(4) toy_genesis_small toy_start_fields(2) _ toy_AddBlock])
  show "lists_readable (bc_db toy_chain)"
    by (rule AddBlock_lists_readable [OF mem_ops_laws(1) toy_genesis_fields(4) toy_AddBlock toy_start_fields(3)])
  show "finite (dom (utxo_at (bc_db toy_chain)))" unfolding toy_utxos by (rule finite_ledger_step) simp
qed

section \<open>The block after the genesis block\<close>

definition toy_block :: Block where
  "toy_block = snd (SetBlock toy [] toy_chain (blk_Hash toy_genesis) 1 (toy_address 1) 6)"

definition toy_coinbase :: Transaction where
  "toy_coinbase = createCoinbaseTx toy toy_chain (toy_address 1) 1 0 6"

lemma toy_SetBlock: "SetBlock toy [] toy_chain (blk_Hash toy_genesis) 1 (toy_address 1) 6 = (toy_chain, toy_block)"
  by (simp add: toy_block_def SetBlock_def Let_def GetTxs_def block_template_def)

lemma toy_block_txs [simp]: "blk_Transactions toy_block = [toy_coinbase]"
  by (simp add: toy_block_def SetBlock_def Let_def GetTxs_def block_template_def template_txs_def toy_coinbase_def)

lemma toy_coinbase_start: "toy_coinbase = createCoinbaseTx toy toy_start (toy_address 1) 1 0 6"
  by (simp add: toy_coinbase_def createCoinbaseTx_def GetBlockReward_def toy_start_def)

lemma toy_ids: "tx_ID toy_coinbase \<noteq> tx_ID toy_genesis_tx"
  unfolding toy_coinbase_start by code_simp

lemma toy_block_fields [simp]:
  "blk_Height toy_block = 1" "blk_Proposer toy_block = toy_address 1" "wf_Hash (blk_Hash toy_block)" "small_block toy_block"
  "ins toy_coinbase = []" "consumed toy_block = {}" "hdr_Timestamp (blk_Header toy_block) = 6"
  using SetBlock_fields [OF toy_SetBlock]
  by (simp_all add: Hash_BlockHeader_def Hash_json_def small_block_def toy_coinbase_def createCoinbaseTx_def Let_def consumed_def block_inputs_def)

lemma toy_fresh [simp]: "fresh_ids (utxo_at (bc_db toy_chain)) toy_block"
  using toy_ids
  by (auto simp: fresh_ids_def toy_utxos ledger_step_def block_new_utxos_def tx_new_utxos_def ledger_spend_def map_add_def map_of_eq_None_iff
      split: option.split dest!: map_of_SomeD)

lemma toy_can_build [simp]: "can_build toy [] toy_chain 1 (toy_address 1) 6"
  by (simp add: can_build_def Let_def GetTxs_def block_template_def wf_Mempool_def MaxTxsPerBlock_def GetBlockReward_def GetMaxMemoSize_def
      toy_cfg_def iterates_def)

lemma toy_genesis_read [simp]: "getBlockByHeightNoLock toy_chain 0 = Inr (gob_block toy_genesis)"
  using AddBlock_reads(1) [OF mem_ops_laws(1) toy_genesis_fields(4) toy_AddBlock] by (simp add: GetBlockByHeight_def)

definition toy_next :: BlockChain where
  "toy_next = fst (AddBlock mem_ops toy_chain toy_block)"

lemma toy_AddBlock_next: "AddBlock mem_ops toy_chain toy_block = (toy_next, Inr True)"
proof -
  have "index_complete (bc_db toy_chain)" using toy_db_ok(1) by (simp add: utxo_db_ok_def)
  then have "\<exists>p'. AddBlock mem_ops toy_chain toy_block = (p', Inr True)" by (intro AddBlock_succeeds) simp_all
  then show ?thesis by (auto simp: toy_next_def)
qed

section \<open>The spendable output of the first address\<close>

definition toy_output :: UTXO where
  "toy_output = new_utxo 0 (tx_ID toy_genesis_tx) 0 \<lparr>out_Address = toy_address 1, out_Amount = 100, out_TxType = TxTypeGeneral\<rparr>"

lemma toy_unspent: "unspent_of (bc_db toy_chain) (toy_address 1) = {toy_output}"
proof -
  have "utxo_at (bc_db toy_chain) op = Some u \<longleftrightarrow>
     op = (tx_ID toy_genesis_tx, 0) \<and> u = toy_output \<or>
     op = (tx_ID toy_genesis_tx, 1) \<and>
       u = new_utxo 0 (tx_ID toy_genesis_tx) 1 \<lparr>out_Address = toy_address 2, out_Amount = 50, out_TxType = TxTypeGeneral\<rparr>" for op u
    unfolding toy_utxos
    by (auto simp: ledger_step_def block_new_utxos_def tx_new_utxos_def ledger_spend_def toy_output_def toy_genesis_tx_def Let_def go_uint64_def
        numeral_2_eq_2 split: if_splits)
  then show ?thesis by (auto simp: unspent_of_def toy_output_def new_utxo_def)
qed

lemma toy_list [simp]: "GetUtxoList (\<lambda>m. m) toy_chain (toy_address 1) mc = Inr [toy_output]"
proof -
  have "toy_output \<in> unspent_of (bc_db toy_chain) (toy_address 1)" by (simp add: toy_unspent)
  then obtain s where "addr_set (bc_db toy_chain) (toy_address 1) = Some s" using unspent_of_unlisted [OF toy_db_ok(1)] by fastforce
  from GetUtxoList_exact [OF toy_db_ok(1) range_ok_id this, of mc] obtain us where
    us: "GetUtxoList (\<lambda>m. m) toy_chain (toy_address 1) mc = Inr us" "distinct us"
      "set us = {u \<in> unspent_of (bc_db toy_chain) (toy_address 1). \<not> hidden toy_chain mc u}" by blast
  then have "set us = {toy_output}" by (simp add: toy_unspent hidden_def isOnMempool_def)
  with us(2) have "us = [toy_output]" by (metis distinct_card card_1_singleton_iff length_Suc_conv length_0_conv One_nat_def list.set_intros(1) singletonD card.insert card.empty finite.emptyI empty_iff)
  with us(1) show ?thesis by simp
qed

section \<open>A transfer\<close>

definition toy_transfer :: "core_error + Transaction" where
  "toy_transfer = CreateSignedTx toy (\<lambda>m. m) (\<lambda>n. n) toy_chain 7 (toy_address 1) (toy_address 2) 30 5 [] None TxTypeGeneral [1] (Some [1])"

lemma toy_keys [simp]:
  "BytesToPrivateKey toy [b] = Inr (Some (toy_key (unat b)))" "BytesToPublicKey toy [b] = Inr (sk_PublicKey (toy_key (unat b)))"
  "PublicKeyToAddress toy (sk_PublicKey (toy_key (unat b))) = toy_address b" "ecdsa_SignASN1 toy n k h \<noteq> None"
proof -
  have "drop 12 (replicate 31 0) = (replicate 19 0 :: byte list)" by simp
  then show "PublicKeyToAddress toy (sk_PublicKey (toy_key (unat b))) = toy_address b"
    by (simp add: PublicKeyToAddress_def toy_def toy_hash_def toy_key_def toy_address_def copy_into_def Let_def)
qed (simp_all add: BytesToPrivateKey_def BytesToPublicKey_def toy_def)

lemma toy_output_fields [simp]: "amount_of toy_output = 100" "\<not> utxo_Spent toy_output"
  by (simp_all add: toy_output_def new_utxo_def)

lemma toy_request: "good_request toy toy_chain (toy_address 1) 30 5 [] None [1] (Some [1])"
  using toy_keys(3) [of 1]
  by (simp add: good_request_def GetMinFee_def GetMaxMemoSize_def GetMaxDataSize_def toy_cfg_def elems_def)

end
