(* ===== verification/Accounts.thy ===== *)
theory Accounts
  imports Chain
begin

text \<open>
  \<open>core/account.go\<close>: account records, their transaction lists and balances.  An operation that
  writes returns the new chain object together with its result, because a write made before a
  later step fails stays.  The locale \<open>tx_log\<close> is the contract of the three per-address
  transaction lists; it is interpreted on each of them.
\<close>

section \<open>Operations\<close>

definition AccountStatusNormal :: string where "AccountStatusNormal = ''NORMAL''"
definition AccountStatusStaking :: string where "AccountStatusStaking = ''STAKING''"
definition AccountStatusValidating :: string where "AccountStatusValidating = ''VALIDATING''"
definition AccountStatusProposing :: string where "AccountStatusProposing = ''PROPOSING''"
definition AccountStatusJailed :: string where "AccountStatusJailed = ''JAILED''"

definition account_key :: "Address \<Rightarrow> string" where
  "account_key address = PrefixAddress @ AddressToString address"

definition put_value :: "db_ops \<Rightarrow> BlockChain \<Rightarrow> string \<Rightarrow> dbval \<Rightarrow> string \<Rightarrow> BlockChain \<times> (core_error + unit)" where
  "put_value W p key v msg =
     (case db_Put W (bc_db p) key v of
        None \<Rightarrow> (p, Inl (Wrap msg DbWriteFailed))
      | Some db' \<Rightarrow> (p\<lparr>bc_db := db'\<rparr>, Inr ()))"

definition GetAccount :: "BlockChain \<Rightarrow> Address \<Rightarrow> core_error + Account option" where
  "GetAccount p address =
     (case bc_db p (account_key address) of
        Inl ErrNotFound \<Rightarrow> Inr None
      | Inl ErrIO \<Rightarrow> Inl (Wrap ''failed to get account'' (DbGet ErrIO))
      | Inr v \<Rightarrow> bindE (wrapE (Wrap ''failed to deserialize account'') (as_account v)) (\<lambda>a. Inr (Some a)))"

definition saveAccount :: "db_ops \<Rightarrow> BlockChain \<Rightarrow> Account \<Rightarrow> BlockChain \<times> (core_error + unit)" where
  "saveAccount W p account =
     put_value W p (account_key (acc_Address account)) (GobAccount account) ''failed to save account''"

definition CreateAccount :: "db_ops \<Rightarrow> int \<Rightarrow> BlockChain \<Rightarrow> Address \<Rightarrow> BlockChain \<times> (core_error + Account)" where
  "CreateAccount W now p address =
     (let account = \<lparr>acc_Address = address, acc_Status = AccountStatusNormal, acc_Balance = 0,
                     acc_CreatedAt = now, acc_UpdatedAt = now\<rparr>
      in case saveAccount W p account of
           (p', Inl e) \<Rightarrow> (p', Inl e)
         | (p', Inr _) \<Rightarrow> (p', Inr account))"

definition GetOrCreateAccount :: "db_ops \<Rightarrow> int \<Rightarrow> BlockChain \<Rightarrow> Address \<Rightarrow> BlockChain \<times> (core_error + Account)" where
  "GetOrCreateAccount W now p address =
     (case GetAccount p address of
        Inl e \<Rightarrow> (p, Inl e)
      | Inr None \<Rightarrow> CreateAccount W now p address
      | Inr (Some account) \<Rightarrow> (p, Inr account))"

text \<open>The three lists differ in their key prefix; adding and reading are the same code.\<close>

definition list_key :: "string \<Rightarrow> Address \<Rightarrow> string" where
  "list_key pre address = pre @ AddressToString address"

definition add_to_list :: "db_ops \<Rightarrow> string \<Rightarrow> BlockChain \<Rightarrow> Address \<Rightarrow> Hash \<Rightarrow> BlockChain \<times> (core_error + unit)" where
  "add_to_list W pre p address txHash =
     (let key = list_key pre address in
      case (case bc_db p key of
              Inl ErrNotFound \<Rightarrow> Inr []
            | Inl ErrIO \<Rightarrow> Inl (Wrap ''failed to get tx list'' (DbGet ErrIO))
            | Inr v \<Rightarrow> wrapE (Wrap ''failed to deserialize tx list'') (as_tx_list v)) of
        Inl e \<Rightarrow> (p, Inl e)
      | Inr txHashes \<Rightarrow> put_value W p key (GobTxList (txHashes @ [txHash])) ''failed to save tx list'')"

definition read_list :: "string \<Rightarrow> BlockChain \<Rightarrow> Address \<Rightarrow> core_error + Hash list" where
  "read_list pre p address =
     (case bc_db p (list_key pre address) of
        Inl ErrNotFound \<Rightarrow> Inr []
      | Inl ErrIO \<Rightarrow> Inl (Wrap ''failed to get tx list'' (DbGet ErrIO))
      | Inr v \<Rightarrow> wrapE (Wrap ''failed to deserialize tx list'') (as_tx_list v))"

definition AddAccountTx :: "db_ops \<Rightarrow> BlockChain \<Rightarrow> Address \<Rightarrow> Hash \<Rightarrow> BlockChain \<times> (core_error + unit)" where
  "AddAccountTx W = add_to_list W PrefixAddressTxs"

definition AddAccountTxReceived :: "db_ops \<Rightarrow> BlockChain \<Rightarrow> Address \<Rightarrow> Hash \<Rightarrow> BlockChain \<times> (core_error + unit)" where
  "AddAccountTxReceived W = add_to_list W PrefixAddressReceived"

definition AddAccountTxSent :: "db_ops \<Rightarrow> BlockChain \<Rightarrow> Address \<Rightarrow> Hash \<Rightarrow> BlockChain \<times> (core_error + unit)" where
  "AddAccountTxSent W = add_to_list W PrefixAddressSent"

definition GetAccountTxList :: "BlockChain \<Rightarrow> Address \<Rightarrow> core_error + Hash list" where
  "GetAccountTxList = read_list PrefixAddressTxs"

definition GetAccountReceivedTxList :: "BlockChain \<Rightarrow> Address \<Rightarrow> core_error + Hash list" where
  "GetAccountReceivedTxList = read_list PrefixAddressReceived"

definition GetAccountSentTxList :: "BlockChain \<Rightarrow> Address \<Rightarrow> core_error + Hash list" where
  "GetAccountSentTxList = read_list PrefixAddressSent"

text \<open>The clock is read once when the account is created and once for the update.\<close>

definition UpdateAccountBalance ::
    "db_ops \<Rightarrow> (string, bool) ranging \<Rightarrow> int \<Rightarrow> int \<Rightarrow> BlockChain \<Rightarrow> Address \<Rightarrow> BlockChain \<times> (core_error + unit)" where
  "UpdateAccountBalance W \<rho> now1 now2 p address =
     (case GetOrCreateAccount W now1 p address of
        (p1, Inl e) \<Rightarrow> (p1, Inl (Wrap ''failed to get account'' e))
      | (p1, Inr account) \<Rightarrow>
          (case GetUtxoList \<rho> p1 address False of
             Inl e \<Rightarrow> (p1, Inl (Wrap ''failed to get utxo list'' e))
           | Inr utxoList \<Rightarrow>
               saveAccount W p1 (account\<lparr>acc_Balance := CalBalanceUtxo utxoList, acc_UpdatedAt := now2\<rparr>)))"

definition UpdateAccountStatus ::
    "db_ops \<Rightarrow> int \<Rightarrow> int \<Rightarrow> BlockChain \<Rightarrow> Address \<Rightarrow> string \<Rightarrow> BlockChain \<times> (core_error + unit)" where
  "UpdateAccountStatus W now1 now2 p address status =
     (case GetOrCreateAccount W now1 p address of
        (p1, Inl e) \<Rightarrow> (p1, Inl (Wrap ''failed to get account'' e))
      | (p1, Inr account) \<Rightarrow> saveAccount W p1 (account\<lparr>acc_Status := status, acc_UpdatedAt := now2\<rparr>))"

definition GetBalance :: "(string, bool) ranging \<Rightarrow> BlockChain \<Rightarrow> Address \<Rightarrow> core_error + uint64" where
  "GetBalance \<rho> p address =
     bindE (wrapE (Wrap ''failed to get balance'') (GetUtxoList \<rho> p address False)) (\<lambda>utxoList.
     Inr (CalBalanceUtxo utxoList))"

section \<open>Keys\<close>

lemma account_key_inj [simp]: "account_key a = account_key b \<longleftrightarrow> a = b"
  by (simp add: account_key_def AddressToString_def)

lemma list_key_inj [simp]: "list_key pre a = list_key pre b \<longleftrightarrow> a = b"
  by (simp add: list_key_def AddressToString_def)

lemma account_key_kind: "hd (account_key a) = CHR ''a''"
  by (simp add: account_key_def PrefixAddress_def)

lemma list_keys_separate [simp]:
  "list_key PrefixAddressTxs a \<noteq> list_key PrefixAddressReceived b" "list_key PrefixAddressReceived b \<noteq> list_key PrefixAddressTxs a"
  "list_key PrefixAddressTxs a \<noteq> list_key PrefixAddressSent b" "list_key PrefixAddressSent b \<noteq> list_key PrefixAddressTxs a"
  "list_key PrefixAddressReceived a \<noteq> list_key PrefixAddressSent b" "list_key PrefixAddressSent b \<noteq> list_key PrefixAddressReceived a"
  by (simp_all add: list_key_def prefix_defs)

lemma account_key_not_list_key:
  "pre \<in> {PrefixAddressTxs, PrefixAddressReceived, PrefixAddressSent} \<Longrightarrow> account_key a \<noteq> list_key pre b"
  using hex_not_prefixed [of "CHR ''t''" "''txs:''" a] hex_not_prefixed [of "CHR ''r''" "''recv:''" a]
    hex_not_prefixed [of "CHR ''s''" "''sent:''" a]
  by (auto simp: account_key_def list_key_def key_defs hex_value_def)

section \<open>Transaction lists\<close>

lemma put_value_ok:
  assumes "db_laws W" "put_value W p k v msg = (p', Inr u)"
  shows "p' = p\<lparr>bc_db := (bc_db p)(k := Inr v)\<rparr>"
  using assms by (auto simp: put_value_def dest: db_PutD split: option.splits)

lemma put_value_fail: "put_value W p k v msg = (p', Inl e) \<Longrightarrow> p' = p"
  by (auto simp: put_value_def split: option.splits)

lemma add_to_list_ok:
  assumes "db_laws W" "add_to_list W pre p a h = (p', Inr u)"
  shows "\<exists>hs. read_list pre p a = Inr hs \<and> p' = p\<lparr>bc_db := (bc_db p)(list_key pre a := Inr (GobTxList (hs @ [h])))\<rparr>"
  using assms(2) put_value_ok [OF assms(1)]
  by (auto simp: add_to_list_def read_list_def Let_def split: sum.splits get_error.splits)

locale tx_log =
  fixes add :: "db_ops \<Rightarrow> BlockChain \<Rightarrow> Address \<Rightarrow> Hash \<Rightarrow> BlockChain \<times> (core_error + unit)"
    and entries :: "BlockChain \<Rightarrow> Address \<Rightarrow> core_error + Hash list"
  assumes add_entries: "db_laws W \<Longrightarrow> add W p a h = (p', Inr u) \<Longrightarrow>
      \<exists>hs. entries p a = Inr hs \<and> entries p' a = Inr (hs @ [h])"
    and add_other: "db_laws W \<Longrightarrow> add W p a h = (p', Inr u) \<Longrightarrow> b \<noteq> a \<Longrightarrow> entries p' b = entries p b"
    and add_fails: "add W p a h = (p', Inl e) \<Longrightarrow> p' = p"
begin

text \<open>A log of successful additions is read back in order.\<close>

inductive logged :: "db_ops \<Rightarrow> Address \<Rightarrow> BlockChain \<Rightarrow> Hash list \<Rightarrow> BlockChain \<Rightarrow> bool" where
  "logged W a p [] p"
| "add W p a h = (p1, Inr u) \<Longrightarrow> logged W a p1 hs p2 \<Longrightarrow> logged W a p (h # hs) p2"

lemma logged_entries:
  "logged W a p hs p' \<Longrightarrow> db_laws W \<Longrightarrow> entries p a = Inr old \<Longrightarrow> entries p' a = Inr (old @ hs)"
proof (induction arbitrary: old rule: logged.induct)
  case (1 W a p)
  then show ?case by simp
next
  case (2 W p a h p1 u hs p2)
  from add_entries [OF 2(4,1)] 2(5) have "entries p1 a = Inr (old @ [h])" by auto
  from 2(3) [OF 2(4) this] show ?case by simp
qed

lemma add_atomic: "db_laws W \<Longrightarrow> add W p a h = (p', r) \<Longrightarrow>
    entries p' b = entries p b \<or> (b = a \<and> (\<exists>hs. entries p a = Inr hs \<and> entries p' a = Inr (hs @ [h])))"
  using add_entries [of W p a h p'] add_other [of W p a h p'] add_fails [of W p a h p'] by (cases r) blast+

end

lemma list_contract: "tx_log (\<lambda>W. add_to_list W pre) (read_list pre)"
proof unfold_locales
  fix W p a h p' u b
  assume W: "db_laws W" and ok: "add_to_list W pre p a h = (p', Inr u)"
  from add_to_list_ok [OF W ok] obtain hs where hs: "read_list pre p a = Inr hs"
    "p' = p\<lparr>bc_db := (bc_db p)(list_key pre a := Inr (GobTxList (hs @ [h])))\<rparr>" by blast
  then show "\<exists>hs. read_list pre p a = Inr hs \<and> read_list pre p' a = Inr (hs @ [h])"
    by (simp add: read_list_def)
  show "read_list pre p' b = read_list pre p b" if "b \<noteq> a"
    using that hs(2) by (simp add: read_list_def)
next
  fix W p a h p' e
  assume "add_to_list W pre p a h = (p', Inl e)"
  then show "p' = p"
    by (auto simp: add_to_list_def Let_def dest: put_value_fail split: sum.splits get_error.splits)
qed

interpretation all_log: tx_log AddAccountTx GetAccountTxList
  unfolding AddAccountTx_def GetAccountTxList_def by (rule list_contract)

interpretation received_log: tx_log AddAccountTxReceived GetAccountReceivedTxList
  unfolding AddAccountTxReceived_def GetAccountReceivedTxList_def by (rule list_contract)

interpretation sent_log: tx_log AddAccountTxSent GetAccountSentTxList
  unfolding AddAccountTxSent_def GetAccountSentTxList_def by (rule list_contract)

section \<open>Accounts and balances\<close>

text \<open>Account records are no ledger records: writing one leaves the ledger and its index alone.\<close>

lemma account_write_views:
  "utxo_at (d(account_key a := v)) = utxo_at d" "addr_set (d(account_key a := v)) = addr_set d"
proof -
  have "GetUtxoKey h i \<noteq> account_key a" "GetUtxoListKey b \<noteq> account_key a" for h i b
    using key_kinds(1) [of h i] key_kinds(2) [of b] account_key_kind [of a] by force+
  then show "utxo_at (d(account_key a := v)) = utxo_at d" "addr_set (d(account_key a := v)) = addr_set d"
    by (auto simp: utxo_at_def addr_set_def fun_eq_iff)
qed

lemma saveAccount_ok:
  assumes "db_laws W" "saveAccount W p acc = (p', Inr u)"
  shows "GetAccount p' (acc_Address acc) = Inr (Some acc)" "utxo_at (bc_db p') = utxo_at (bc_db p)"
    "addr_set (bc_db p') = addr_set (bc_db p)" "b \<noteq> acc_Address acc \<Longrightarrow> GetAccount p' b = GetAccount p b"
  using put_value_ok [OF assms(1) assms(2) [unfolded saveAccount_def]]
  by (simp_all add: GetAccount_def account_write_views)

definition new_account :: "int \<Rightarrow> Address \<Rightarrow> Account" where
  "new_account now address = \<lparr>acc_Address = address, acc_Status = AccountStatusNormal, acc_Balance = 0,
     acc_CreatedAt = now, acc_UpdatedAt = now\<rparr>"

lemma GetOrCreateAccount_cases:
  assumes "GetOrCreateAccount W now p a = (p', Inr acc)"
  obtains (found) "p' = p" "GetAccount p a = Inr (Some acc)"
  | (created) "GetAccount p a = Inr None" "acc = new_account now a" "saveAccount W p (new_account now a) = (p', Inr ())"
  using assms
  by (auto simp: GetOrCreateAccount_def CreateAccount_def new_account_def Let_def
      split: sum.splits option.splits prod.splits)

text \<open>An account record stands under its own address.\<close>

definition accounts_ok :: "BlockChain \<Rightarrow> bool" where
  "accounts_ok p \<longleftrightarrow> (\<forall>a acc. GetAccount p a = Inr (Some acc) \<longrightarrow> acc_Address acc = a)"

lemma saveAccount_accounts_ok:
  assumes "db_laws W" "saveAccount W p acc = (p', Inr u)" "accounts_ok p"
  shows "accounts_ok p'"
  unfolding accounts_ok_def
proof (intro allI impI)
  fix a acc'
  assume "GetAccount p' a = Inr (Some acc')"
  then show "acc_Address acc' = a"
    using saveAccount_ok(1,4) [OF assms(1,2)] assms(3)
    by (cases "a = acc_Address acc") (auto simp: accounts_ok_def)
qed

lemma GetOrCreateAccount_ok:
  assumes W: "db_laws W" and p: "accounts_ok p" and ok: "GetOrCreateAccount W now p a = (p', Inr acc)"
  shows "GetAccount p' a = Inr (Some acc) \<and> acc_Address acc = a \<and> accounts_ok p' \<and>
     utxo_at (bc_db p') = utxo_at (bc_db p) \<and> addr_set (bc_db p') = addr_set (bc_db p)"
  using ok
proof (cases rule: GetOrCreateAccount_cases)
  case found
  with p show ?thesis by (simp add: accounts_ok_def)
next
  case created
  from saveAccount_ok [OF W created(3)] saveAccount_accounts_ok [OF W created(3) p] created(2)
  show ?thesis by (simp add: new_account_def)
qed

text \<open>The balance is the sum, modulo \<open>2^64\<close>, of the unspent outputs the address owns.\<close>

lemma CalBalanceUtxo_exact:
  assumes "utxo_db_ok (bc_db p)" "range_ok \<rho>" "GetUtxoList \<rho> p a False = Inr us"
  shows "CalBalanceUtxo us = (\<Sum>u\<in>unspent_of (bc_db p) a. amount_of u)"
proof -
  from GetUtxoList_set [OF assms] have us: "distinct us" "set us = unspent_of (bc_db p) a"
    by (auto simp: hidden_def)
  then have "\<forall>u\<in>set us. \<not> utxo_Spent u" by (auto simp: unspent_of_def)
  from CalBalanceUtxo_sum [OF us(1) this] us(2) show ?thesis by simp
qed

lemma GetUtxoList_None:
  "addr_set (bc_db p) a = None \<Longrightarrow> \<exists>e. GetUtxoList \<rho> p a mc = Inl e"
  by (cases "get_list (bc_db p) a") (auto simp: GetUtxoList_def get_list_Inr)


lemma unspent_of_cong: "utxo_at d = utxo_at d' \<Longrightarrow> unspent_of d a = unspent_of d' a"
  by (simp add: unspent_of_def)

lemma UpdateAccountBalance_ok:
  assumes W: "db_laws W" and p: "accounts_ok p" "utxo_db_ok (bc_db p)" and \<rho>: "range_ok \<rho>"
    and ok: "UpdateAccountBalance W \<rho> now1 now2 p a = (p', Inr u)"
  obtains acc where "GetAccount p' a = Inr (Some acc)" "acc_Balance acc = (\<Sum>u\<in>unspent_of (bc_db p) a. amount_of u)"
    "acc_UpdatedAt acc = now2" "utxo_at (bc_db p') = utxo_at (bc_db p)" "accounts_ok p'"
proof -
  from ok obtain p1 acc us where c: "GetOrCreateAccount W now1 p a = (p1, Inr acc)" "GetUtxoList \<rho> p1 a False = Inr us"
    "saveAccount W p1 (acc\<lparr>acc_Balance := CalBalanceUtxo us, acc_UpdatedAt := now2\<rparr>) = (p', Inr u)"
    by (auto simp: UpdateAccountBalance_def split: prod.splits sum.splits)
  note g = GetOrCreateAccount_ok [OF W p(1) c(1)]
  have "utxo_db_ok (bc_db p1)" using g p(2) utxo_db_ok_cong by blast
  from CalBalanceUtxo_exact [OF this \<rho> c(2)] have bal: "CalBalanceUtxo us = (\<Sum>u\<in>unspent_of (bc_db p) a. amount_of u)"
    using g unspent_of_cong [of "bc_db p1" "bc_db p"] by simp
  show thesis
    by (rule that [of "acc\<lparr>acc_Balance := CalBalanceUtxo us, acc_UpdatedAt := now2\<rparr>"])
      (use saveAccount_ok(1-3) [OF W c(3)] saveAccount_accounts_ok [OF W c(3)] g bal in simp_all)
qed

lemma saveAccount_succeeds: "db_reliable W \<Longrightarrow> \<exists>p'. saveAccount W p acc = (p', Inr ())"
proof -
  assume "db_reliable W"
  then obtain d where "db_Put W (bc_db p) (account_key (acc_Address acc)) (GobAccount acc) = Some d" unfolding db_reliable_def by blast
  then show ?thesis by (simp add: saveAccount_def put_value_def)
qed

lemma UpdateAccountBalance_succeeds:
  assumes W: "db_laws W" "db_reliable W" and p: "accounts_ok p" "utxo_db_ok (bc_db p)" and \<rho>: "range_ok \<rho>"
    and acc: "GetAccount p a = Inr x" and s: "addr_set (bc_db p) a = Some s"
  shows "\<exists>p'. UpdateAccountBalance W \<rho> now1 now2 p a = (p', Inr ())"
proof -
  obtain p0 where "saveAccount W p (new_account now1 a) = (p0, Inr ())" using saveAccount_succeeds [OF W(2)] by blast
  then have "\<exists>p1 ac. GetOrCreateAccount W now1 p a = (p1, Inr ac)"
    using acc by (cases x) (simp_all add: GetOrCreateAccount_def CreateAccount_def new_account_def)
  then obtain p1 ac where c: "GetOrCreateAccount W now1 p a = (p1, Inr ac)" by blast
  note g = GetOrCreateAccount_ok [OF W(1) p(1) c]
  have ok: "utxo_db_ok (bc_db p1)" using g p(2) utxo_db_ok_cong by blast
  have "addr_set (bc_db p1) a = Some s" using g s by simp
  from GetUtxoList_exact [OF ok \<rho> this, of False] obtain us where "GetUtxoList \<rho> p1 a False = Inr us" by blast
  then show ?thesis using c saveAccount_succeeds [OF W(2)] by (simp add: UpdateAccountBalance_def)
qed

text \<open>Importing a block touches no account record: recorded balances are refreshed by \<open>UpdateAccountBalance\<close> only.\<close>

lemma AddBlock_accounts:
  assumes W: "db_laws W" and wf: "wf_Hash (blk_Hash blk)" and ok: "AddBlock W p blk = (p', Inr r)"
  shows "GetAccount p' a = GetAccount p a"
proof -
  obtain u where u: "utxo_batch u"
    "bc_db p' = apply_batch (bc_db p) (block_batch blk u @ (if moves_tip p blk then tip_batch blk else []))"
    by (rule AddBlock_ok [OF W wf ok])
  have "account_key a \<notin> fst ` set (tip_batch blk)"
    using account_key_kind [of a] key_kinds(9-11) by (auto simp: tip_batch_def)
  moreover have "account_key a \<noteq> GetBlockHashKey (blk_Hash blk)" "account_key a \<noteq> GetBlockHeightKey (blk_Height blk)"
    using account_key_kind [of a] key_kinds(3,4) by force+
  ultimately have "bc_db p' (account_key a) = bc_db p (account_key a)"
    unfolding u(2) using block_batch_frame [OF u(1), of "account_key a" blk] account_key_kind [of a]
    by (simp add: apply_batch_append apply_batch_other)
  then show ?thesis by (simp add: GetAccount_def)
qed

end
