(* ===== verification/Ledger_Theorems.thy ===== *)
theory Ledger_Theorems
  imports Sample_Chain Accounts
begin

text \<open>
  The theorems on the ledger: importing a block refines a step of an abstract map of outputs, no
  output is consumed twice, the supply of coins grows by the block reward, what validation accepts is
  what the import needs, what the node builds is accepted, and what a wallet sees is the ledger.
\<close>

section \<open>Importing blocks\<close>

text \<open>
  C1: A successful \<open>AddBlock\<close> refines one step of the abstract ledger: the stored outputs afterwards are the
  outputs before with the consumed ones marked spent and the new ones added; every consumed output existed
  and was unspent; and the stored records and the per-address index stay consistent with each other.
\<close>

theorem AddBlock_refines_ledger:
  assumes "db_laws W" "wf_Hash (blk_Hash blk)" "small_block blk" "utxo_db_ok (bc_db p)" "same_owners (bc_db p) blk"
    "AddBlock W p blk = (p', Inr r)"
  shows "utxo_at (bc_db p') = ledger_step blk (utxo_at (bc_db p)) \<and> (\<forall>op\<in>consumed blk. spendable (bc_db p) op) \<and>
    utxo_db_ok (bc_db p')"
proof -
  have "index_wf (bc_db p)" using assms(4) by (simp add: utxo_db_ok_def)
  then show ?thesis using AddBlock_ledger [of W blk p p' r] AddBlock_db_ok [of W blk p p' r] assms by blast
qed

theorem AddBlock_refines_ledger_witness:
  "utxo_at (bc_db toy_next) = ledger_step toy_block (utxo_at (bc_db toy_chain)) \<and> utxo_db_ok (bc_db toy_next)"
  using AddBlock_refines_ledger [OF mem_ops_laws(1) toy_block_fields(3) toy_block_fields(4) toy_db_ok(1)
      fresh_same_owners [OF toy_fresh toy_block_fields(4)] toy_AddBlock_next] by simp


lemma toy_chain_invar: "chain_invar (mem_ops, toy_start)" "admissible (mem_ops, toy_start) toy_genesis"
  "admissible (mem_ops, toy_chain) toy_block"
  using toy_fresh by (simp_all add: chain_invar_def admissible_def chain_ledger_def fresh_ids_def)




text \<open>
  C5: A block that \<open>ValidateBlock\<close> accepts is imported: on a consistent, readable database \<open>AddBlock\<close> returns
  success, and the database is consistent and readable again afterwards.
\<close>

theorem valid_block_imported:
  assumes "ValidateBlock C now pv p blk cc = Inr u" "db_laws W" "db_reliable W" "utxo_db_ok (bc_db p)" "lists_readable (bc_db p)"
    "wf_Hash (blk_Hash blk)" "small_block blk" "same_owners (bc_db p) blk"
  shows "\<exists>p'. AddBlock W p blk = (p', Inr True) \<and> utxo_db_ok (bc_db p') \<and> lists_readable (bc_db p')"
proof -
  have "index_complete (bc_db p)" using assms(4) by (simp add: utxo_db_ok_def)
  then obtain p' where p': "AddBlock W p blk = (p', Inr True)"
    using AddBlock_succeeds [OF assms(3,5)] ValidateBlock_consumes [OF assms(1)] by blast
  then show ?thesis
    using AddBlock_db_ok [OF assms(2,6,7,4,8)] AddBlock_lists_readable [OF assms(2,6) _ assms(5)] by blast
qed

lemma toy_block_valid: "ValidateBlock toy 6 None toy_chain toy_block False = Inr ()"
proof -
  have sign: "SignBlock toy_block zero_Signature = toy_block" by (simp add: SignBlock_def toy_block_def SetBlock_def Let_def)
  have "ValidateBlock toy 6 None toy_chain (SignBlock toy_block zero_Signature) False = Inr ()"
    by (rule SetBlock_valid [OF toy_can_build toy_SetBlock, where prev = "gob_block toy_genesis"])
      (simp_all add: gob_block_def MaxFutureBlockTime_def ValidateProposerSignature_ok)
  then show ?thesis by (simp add: sign)
qed

theorem valid_block_imported_witness:
  "\<exists>p'. AddBlock mem_ops toy_chain toy_block = (p', Inr True) \<and> utxo_db_ok (bc_db p') \<and> lists_readable (bc_db p')"
  using valid_block_imported [OF toy_block_valid mem_ops_laws toy_db_ok(1,2) toy_block_fields(3,4)
      fresh_same_owners [OF toy_fresh toy_block_fields(4)]] by simp

text \<open>
  A block the node builds on its tip (with a mempool below the size limit and without transactions that
  repeat an input) passes its own validation, for every proposer check that its signature passes, and is then
  imported.
\<close>

theorem built_block_imported:
  assumes build: "can_build C order p height proposer ts" "SetBlock C order p prevHash height proposer ts = (p', blk)"
    and prev: "getBlockByHeightNoLock p (height - 1) = Inr prev" "prevHash = blk_Hash prev" "height = blk_Height prev + 1"
    and ts: "height \<noteq> 0" "hdr_Timestamp (blk_Header prev) \<le> ts" "ts \<le> now + MaxFutureBlockTime"
    and sig: "ValidateProposerSignature (SignBlock blk sig) pv = Inr ()"
    and db: "db_reliable W" "utxo_db_ok (bc_db p)" "lists_readable (bc_db p)"
  shows "ValidateBlock C now pv p' (SignBlock blk sig) False = Inr () \<and> (\<exists>p''. AddBlock W p' (SignBlock blk sig) = (p'', Inr True))"
proof -
  have v: "ValidateBlock C now pv p' (SignBlock blk sig) False = Inr ()" by (rule SetBlock_valid [OF build prev ts sig])
  have "bc_db p' = bc_db p" by (rule SetBlock_fields(1) [OF build(2)])
  then have "\<exists>p''. AddBlock W p' (SignBlock blk sig) = (p'', Inr True)"
    using db by (intro AddBlock_succeeds ValidateBlock_consumes [OF v]) (simp_all add: utxo_db_ok_def)
  with v show ?thesis by blast
qed

theorem built_block_imported_witness:
  "ValidateBlock toy 6 None toy_chain (SignBlock toy_block zero_Signature) False = Inr () \<and>
   (\<exists>p''. AddBlock mem_ops toy_chain (SignBlock toy_block zero_Signature) = (p'', Inr True))"
  by (rule built_block_imported [OF toy_can_build toy_SetBlock, where prev = "gob_block toy_genesis"])
    (simp_all add: gob_block_def MaxFutureBlockTime_def ValidateProposerSignature_ok)

section \<open>Transfers\<close>

text \<open>
  A wallet that owns the key of an address and has enough unspent coins there (outside the mempool) gets a
  signed transaction, and that transaction is valid for the chain, under both of its signature checks, and pays
  the requested amount to the recipient.
\<close>

theorem signed_transfer_accepted:
  assumes db: "utxo_db_ok (bc_db p)" "range_ok \<rho>" and C: "der_signatures C" "signatures_verify C"
    and req: "good_request C p src amount fee memo data priv pub"
    and sgn: "\<forall>n k h. ecdsa_SignASN1 C n k h \<noteq> None"
    and us: "GetUtxoList \<rho> p src True = Inr us" "sum_list (map (unat \<circ> amount_of) us) < 2 ^ 64"
      "unat amount + unat fee \<le> sum_list (map (unat \<circ> amount_of) us)"
  shows "\<exists>tx. CreateSignedTx C \<rho> r p now src dst amount fee memo data ty priv pub = Inr tx \<and>
     ValidateTransaction C p tx = Inr () \<and> ValidateTxSignatures C p tx = Inr () \<and> hd (outs tx) = setTxOutput dst amount ty"
  by (rule CreateSignedTx_accepted [OF db C req sgn us])

theorem signed_transfer_accepted_witness:
  "\<exists>tx. toy_transfer = Inr tx \<and> ValidateTransaction toy toy_chain tx = Inr () \<and> ValidateTxSignatures toy toy_chain tx = Inr () \<and>
     hd (outs tx) = setTxOutput (toy_address 2) 30 TxTypeGeneral"
  unfolding toy_transfer_def
  by (rule signed_transfer_accepted [OF toy_db_ok(1) range_ok_id toy_laws(1,2) toy_request _ toy_list]) simp_all

theorem CreateSignedTx_wrap_mints_witness:
  "\<exists>tx. CreateSignedTx toy (\<lambda>m. m) (\<lambda>n. n) toy_chain 7 (toy_address 1) (toy_address 2) (- 1) 1 [] None TxTypeGeneral [1] (Some [1]) = Inr tx \<and>
     ins tx = [] \<and> outs tx = [setTxOutput (toy_address 2) (- 1) TxTypeGeneral] \<and> ValidateTransaction toy toy_chain tx = Inr ()"
  by (rule CreateSignedTx_wrap_mints [OF toy_list _ _ toy_keys(1)]) (simp_all add: GetMaxMemoSize_def GetMaxDataSize_def toy_cfg_def)

text \<open>
  C15: An accepted transfer has the identifier of its content, consumes only existing unspent outputs, each with a
  signature of its identifier by the owner's key, and, when neither sum exceeds 64 bits, its outputs and the
  minimum fee are covered by its inputs.
\<close>

theorem accepted_transfer:
  assumes "ValidateTransaction C p tx = Inr u" "ins tx \<noteq> []"
  shows "tx_ID tx = Hash_Transaction C (tx_preimage tx) \<and>
    (\<forall>i\<in>set (ins tx). spendable (bc_db p) (in_op i) \<and> input_signed C (bc_db p) tx i) \<and>
    (no_overflow (bc_db p) tx \<longrightarrow> tx_out_value tx + unat (GetMinFee p) \<le> tx_in_value (bc_db p) tx)"
  using ValidateTransaction_form [OF assms(1)] assms(1) ValidateTransaction_transfer [OF assms(2), of C p u]
    ValidateTransaction_conserves [OF assms]
  by (simp add: tx_form_ok_def tx_out_value_def tx_in_value_def)

text \<open>The transfer of the sample chain is one.\<close>

lemma toy_transfer_valid: "\<exists>tx. toy_transfer = Inr tx \<and> ValidateTransaction toy toy_chain tx = Inr () \<and> ins tx \<noteq> []"
proof -
  have us: "\<forall>u\<in>set [toy_output]. \<not> utxo_Spent u" "sum_list (map (unat \<circ> amount_of) [toy_output]) < 2 ^ 64"
    "unat (30 :: uint64) + unat (5 :: uint64) \<le> sum_list (map (unat \<circ> amount_of) [toy_output])" by simp_all
  obtain tx where tx: "toy_transfer = Inr tx"
    using CreateSignedTx_succeeds [OF toy_list us toy_keys(1) toy_laws(1)] toy_keys(4) unfolding toy_transfer_def by blast
  then have "ValidateTransaction toy toy_chain tx = Inr ()"
    unfolding toy_transfer_def by (rule CreateSignedTx_valid [OF toy_db_ok(1) range_ok_id toy_laws(1,2) toy_request])
  moreover have "ins tx \<noteq> []"
    using tx unfolding toy_transfer_def by (auto simp: CreateSignedTx_def bindE_Inr Let_def CalBalanceUtxo_def unsigned_tx_def split: if_splits)
  ultimately show ?thesis using tx by blast
qed

theorem accepted_transfer_witness:
  "\<exists>tx. toy_transfer = Inr tx \<and> ins tx \<noteq> [] \<and> (\<forall>i\<in>set (ins tx). spendable (bc_db toy_chain) (in_op i) \<and> input_signed toy (bc_db toy_chain) tx i)"
  using toy_transfer_valid accepted_transfer by blast

text \<open>
  A transaction with the one input \<open>op\<close> and outputs of \<open>2^64 - 1\<close> and of one unit more than its value less the
  minimum fee.
\<close>

definition inflating_tx :: "BlockChain \<Rightarrow> outpoint \<Rightarrow> UTXO \<Rightarrow> byte list \<Rightarrow> Address \<Rightarrow> Hash \<Rightarrow> Signature \<Rightarrow> Transaction" where
  "inflating_tx p op v pub dst h sig =
     \<lparr>tx_Version = [], tx_NetworkID = cm_NetworkID (cfg_Common (bc_cfg p)), tx_ID = h, tx_Timestamp = 0,
       tx_Inputs = Some [\<lparr>in_TxID = fst op, in_OutputIndex = snd op, in_Signature = sig, in_PublicKey = Some pub\<rparr>],
       tx_Outputs = Some [\<lparr>out_Address = dst, out_Amount = - 1, out_TxType = TxTypeGeneral\<rparr>,
                          \<lparr>out_Address = dst, out_Amount = amount_of v - GetMinFee p + 1, out_TxType = TxTypeGeneral\<rparr>],
       tx_Memo = [], tx_Data = Some []\<rparr>"

lemma inflating_in_op: "in_op \<lparr>in_TxID = fst op, in_OutputIndex = snd op, in_Signature = x, in_PublicKey = y\<rparr> = op"
  by (simp add: in_op_def)

lemma inflating_preimage: "tx_preimage (inflating_tx p op v pub dst h sig) = inflating_tx p op v pub dst zero_Hash zero_Signature"
  unfolding tx_preimage_def inflating_tx_def by (simp add: clear_sig_def nil_to_empty_def)

text \<open>
  C39: Without the condition on the sums the bound fails: the owner of one spendable output can have a
  transaction accepted whose outputs are worth \<open>2^64 - 1\<close> units or more, because the output sum is computed modulo
  \<open>2^64\<close>.
\<close>

theorem overflowing_outputs_accepted:
  assumes C: "der_signatures C" "signatures_verify C" "\<forall>h. ecdsa_SignASN1 C r k h \<noteq> None"
    and key: "BytesToPublicKey C pub = Inr (sk_PublicKey k)" "PublicKeyToAddress C (sk_PublicKey k) = owner v"
    and v: "utxo_at (bc_db p) op = Some v" "\<not> utxo_Spent v" "GetMinFee p \<le> amount_of v"
  shows "\<exists>h sig. ValidateTransaction C p (inflating_tx p op v pub dst h sig) = Inr () \<and>
     2 ^ 64 - 1 \<le> tx_out_value (inflating_tx p op v pub dst h sig)"
proof -
  let ?raw = "inflating_tx p op v pub dst zero_Hash zero_Signature"
  let ?h = "Hash_Transaction C ?raw"
  obtain sg where sg: "ecdsa_SignASN1 C r k ?h = Some sg" using C(3) by blast
  let ?tx = "inflating_tx p op v pub dst ?h (copy_into 72 sg)"
  have pre: "tx_preimage ?tx = ?raw" by (rule inflating_preimage)
  have "VerifySignature C (Some (sk_PublicKey k)) ?h (copy_into 72 sg)"
    by (rule SignData_verifies [OF C(1,2) SignData_ok [OF C(1) sg]])
  then have "input_signed C (bc_db p) ?tx i" if "i \<in> set (ins ?tx)" for i
    using that key v(1) by (auto simp: inflating_tx_def input_signed_def inflating_in_op)
  moreover have "sum_list (output_amounts ?tx) = amount_of v - GetMinFee p" by (simp add: output_amounts_def inflating_tx_def)
  moreover have "sum_list (input_amounts (bc_db p) ?tx) = amount_of v"
    by (simp add: input_amounts_def inflating_tx_def inflating_in_op v(1))
  moreover have "amount_of v - GetMinFee p \<le> amount_of v" using v(3) by (rule word_sub_le)
  moreover have "tx_form_ok C p ?tx"
    using pre by (simp add: tx_form_ok_def) (simp add: inflating_tx_def go_uint64_def)
  ultimately have "ValidateTransaction C p ?tx = Inr ()"
    using v(1,2) by (subst ValidateTransaction_transfer) (auto simp: spendable_def, auto simp: inflating_tx_def inflating_in_op)
  moreover have "2 ^ 64 - 1 \<le> tx_out_value ?tx"
    by (simp add: tx_out_value_def output_amounts_def inflating_tx_def unsigned_minus_1_eq_mask mask_eq_exp_minus_1)
  ultimately show ?thesis by blast
qed

theorem overflowing_outputs_accepted_witness: "\<exists>tx. ValidateTransaction toy toy_chain tx = Inr () \<and> 2 ^ 64 - 1 \<le> tx_out_value tx"
proof -
  have "toy_output \<in> unspent_of (bc_db toy_chain) (toy_address 1)" by (simp add: toy_unspent)
  from taken_outpoint [OF toy_db_ok(1) this]
  have v: "utxo_at (bc_db toy_chain) (utxo_TxId toy_output, utxo_OutputIndex toy_output) = Some toy_output"
    "owner toy_output = toy_address 1" by simp_all
  have "GetMinFee toy_chain \<le> amount_of toy_output" by (simp add: GetMinFee_def toy_cfg_def)
  from overflowing_outputs_accepted [OF toy_laws(1,2) _ toy_keys(2) _ v(1) toy_output_fields(2) this, of 0 1 "toy_address 2"]
  show ?thesis using toy_keys(3) [of 1] toy_keys(4) v(2) by metis
qed

text \<open>
  The two implementations of the signature check, the one of block validation and the one used when a
  transaction is submitted, accept the same transactions.
\<close>

theorem signature_checks_agree: "ValidateAllTxSignatures C p tx = Inr () \<longleftrightarrow> ValidateTxSignatures C p tx = Inr ()"
  by (simp add: ValidateAllTxSignatures_ok ValidateTxSignatures_ok)

section \<open>Reading back and restarting\<close>

text \<open>
  C20: After \<open>AddBlock\<close> the block is found under its height and under its hash, and each of its transactions under
  its identifier, with the block's hash and its inputs and outputs, as the Gob encoding returns them.
\<close>

theorem AddBlock_read_back:
  assumes "db_laws W" "wf_Hash (blk_Hash blk)" "AddBlock W p blk = (p', Inr r)" "distinct (map tx_ID (blk_Transactions blk))"
  shows "GetBlockByHeight p' (blk_Height blk) = Inr (gob_block blk) \<and> GetBlockByHash p' (blk_Hash blk) = Inr (gob_block blk) \<and>
    (\<forall>tx\<in>set (blk_Transactions blk).
       GetTx p' (tx_ID tx) = Inr (gob_tx tx) \<and> GetBlockHashByTxId p' (tx_ID tx) = Inr (Some (blk_Hash blk)) \<and>
       GetInputTx p' (tx_ID tx) = Inr (map gob_in (ins tx)) \<and> GetOutputTx p' (tx_ID tx) = Inr (outs tx) \<and>
       (\<forall>i<length (outs tx). GetOutputTxByIdx p' (tx_ID tx) (int i) = Inr (outs tx ! i)))"
  using AddBlock_reads [OF assms(1-3)] AddBlock_tx_reads [OF assms(1-3) _ assms(4)] by blast

theorem AddBlock_read_back_witness:
  "GetBlockByHeight toy_next 1 = Inr (gob_block toy_block) \<and> GetTx toy_next (tx_ID toy_coinbase) = Inr (gob_tx toy_coinbase)"
  using AddBlock_read_back [OF mem_ops_laws(1) toy_block_fields(3) toy_AddBlock_next] by simp

text \<open>
  C19: A node that stops after importing a block above its tip and starts again on the same database resumes at
  exactly that chain state, with an empty mempool.
\<close>

theorem restart_after_import:
  assumes "db_laws W" "wf_Hash (blk_Hash blk)" "AddBlock W p blk = (p', Inr r)" "bc_LatestHeight p < blk_Height blk"
  shows "NewChainState C W' now (bc_db p') (bc_cfg p) = Inr (p'\<lparr>bc_Mempool := NewMempool\<rparr>) \<and>
    bc_LatestHeight p' = blk_Height blk \<and> bc_LatestBlockHash p' = HashToString (blk_Hash blk)"
proof -
  have tip: "moves_tip p blk" using assms(4) by (simp add: moves_tip_def)
  obtain u where p': "bc_cfg p' = bc_cfg p"
    "bc_LatestHeight p' = blk_Height blk \<and> bc_LatestBlockHash p' = HashToString (blk_Hash blk) \<and> tip_stored p'"
    by (rule AddBlock_ok [OF assms(1-3)]) (use tip in blast)
  then show ?thesis using NewChainState_restart [of p' C W' now] HashToString_nonempty [OF assms(2)] by simp
qed

theorem restart_after_import_witness:
  "NewChainState toy mem_ops 9 (bc_db toy_next) toy_cfg = Inr (toy_next\<lparr>bc_Mempool := NewMempool\<rparr>) \<and> bc_LatestHeight toy_next = 1"
  using restart_after_import [OF mem_ops_laws(1) toy_block_fields(3) toy_AddBlock_next, of toy mem_ops 9] by simp

text \<open>
  The first start of a boot or block-producing node on an empty database creates a chain at height 0 whose
  unspent outputs are worth, in total, the sum of the configured system balances, and which satisfies the
  invariant of the ledger.
\<close>

theorem boot_supply:
  assumes "db_laws W" "sha256_size C" "cm_Mode (cfg_Common cfg) = ''boot'' \<or> cm_BlockProducer (cfg_Common cfg)"
    "NewChainState C W now empty_db cfg = Inr p" "length (gen_SystemBalances (cfg_Genesis cfg)) < 2 ^ 63"
  shows "coin_supply (utxo_at (bc_db p)) = sum_list (map unat (gen_SystemBalances (cfg_Genesis cfg))) \<and>
    utxo_db_ok (bc_db p) \<and> bc_LatestHeight p = 0"
proof -
  let ?q = "\<lparr>bc_LatestHeight = 0, bc_LatestBlockHash = [], bc_db = empty_db, bc_cfg = cfg, bc_Mempool = NewMempool\<rparr>"
  have new: "empty_db PrefixMetaHeight = Inl ErrNotFound" by (simp add: empty_db_def)
  obtain blk where blk: "SetGenesisBlock C now ?q = Inr blk" "AddBlock W ?q blk = (p, Inr True)" "wf_Hash (blk_Hash blk)"
    by (rule NewChainState_boot [OF assms(1,2) new assms(3,4)])
  obtain ts txs where txs: "setGenesisTxs C ?q ts = Inr txs" "blk_Transactions blk = txs" "blk_Height blk = 0"
    using blk(1) by (auto simp: SetGenesisBlock_def bindE_Inr Let_def seal_def)
  obtain tx where tx: "txs = [tx]" by (rule setGenesisTxs_single [OF txs(1)])
  have amounts: "output_amounts tx = gen_SystemBalances (cfg_Genesis cfg)"
    using setGenesisTxs_amounts [OF txs(1)] by (simp add: tx)
  have "length (outs tx) = length (gen_SystemBalances (cfg_Genesis cfg))" using amounts unfolding output_amounts_def by (metis length_map)
  then have small: "small_block blk" using assms(5) by (simp add: small_block_def txs(2) tx)
  have empty: "utxo_at empty_db = Map.empty" by (rule ext) (simp add: utxo_at_def empty_db_def)
  have fresh: "fresh_ids (utxo_at empty_db) blk" by (simp add: empty fresh_ids_def)
  have ids: "distinct (map tx_ID (blk_Transactions blk))" by (simp add: txs(2) tx)
  have L: "utxo_at (bc_db p) = ledger_step blk Map.empty"
    using AddBlock_ledger(1) [OF assms(1) blk(3) small _ blk(2)] empty_db_ok by (simp add: empty utxo_db_ok_def)
  have none: "consumed blk = {}" by (simp add: consumed_def txs(3))
  have "coin_supply (utxo_at (bc_db p)) = (\<Sum>tx\<leftarrow>blk_Transactions blk. tx_out_value tx)"
    using supply_step [of Map.empty blk] block_new_utxos_distinct [OF small ids] fresh
    unfolding L by (simp add: none empty new_value coin_supply_def fresh_ids_def)
  moreover have "utxo_db_ok (bc_db p)"
    by (rule AddBlock_db_ok [OF assms(1) blk(3) small _ _ blk(2)]) (use fresh_same_owners [OF fresh small ids] in simp_all)
  moreover have tip: "moves_tip ?q blk" by (simp add: moves_tip_def txs(3))
  have "bc_LatestHeight p = 0" by (rule AddBlock_ok [OF assms(1) blk(3,2)]) (use tip txs(3) in simp)
  ultimately show ?thesis by (simp add: txs(2) tx tx_out_value_def amounts)
qed

theorem boot_supply_witness: "coin_supply (utxo_at (bc_db toy_chain)) = 150"
  using boot_supply [OF mem_ops_laws(1) toy_laws(3) _ toy_boot [of 0]] by (simp add: toy_cfg_def)

section \<open>What wallets see\<close>

text \<open>
  \<open>GetBalance\<close> of an address that has a list of outputs returns the sum, modulo \<open>2^64\<close>, of the amounts of all its
  unspent outputs, in whatever order the list is visited; for an address that never received an output it
  returns an error, and not zero.
\<close>

theorem GetBalance_exact:
  assumes "utxo_db_ok (bc_db p)" "range_ok \<rho>"
  shows "case addr_set (bc_db p) a of
      Some s \<Rightarrow> GetBalance \<rho> p a = Inr (\<Sum>u\<in>unspent_of (bc_db p) a. amount_of u)
    | None \<Rightarrow> (\<exists>e. GetBalance \<rho> p a = Inl e)"
proof (cases "addr_set (bc_db p) a")
  case None
  from GetUtxoList_None [OF None, of \<rho> False] obtain e where "GetUtxoList \<rho> p a False = Inl e" ..
  with None show ?thesis by (simp add: GetBalance_def)
next
  case (Some s)
  from GetUtxoList_exact [OF assms Some, of False] obtain us where us: "GetUtxoList \<rho> p a False = Inr us" by blast
  with Some CalBalanceUtxo_exact [OF assms us] show ?thesis by (simp add: GetBalance_def)
qed

theorem GetBalance_exact_witness: "GetBalance (\<lambda>m. m) toy_chain (toy_address 1) = Inr 100"
proof -
  have "toy_output \<in> unspent_of (bc_db toy_chain) (toy_address 1)" by (simp add: toy_unspent)
  then obtain s where "addr_set (bc_db toy_chain) (toy_address 1) = Some s" using unspent_of_unlisted [OF toy_db_ok(1)] by fastforce
  with GetBalance_exact [OF toy_db_ok(1) range_ok_id, of "toy_address 1"] show ?thesis by (simp add: toy_unspent)
qed

text \<open>
  \<open>UpdateAccountBalance\<close>, on a working database and for an address with a list of outputs, succeeds and leaves
  in the account of the address (created if it was missing) the total of its unspent outputs; it changes neither
  the outputs nor the identity of any account.
\<close>

theorem UpdateAccountBalance_records:
  assumes "db_laws W" "db_reliable W" "accounts_ok p" "utxo_db_ok (bc_db p)" "range_ok \<rho>" "GetAccount p a = Inr x"
    "addr_set (bc_db p) a = Some s"
  shows "\<exists>p' acc. UpdateAccountBalance W \<rho> now1 now2 p a = (p', Inr ()) \<and> GetAccount p' a = Inr (Some acc) \<and>
     acc_Balance acc = (\<Sum>u\<in>unspent_of (bc_db p) a. amount_of u) \<and> acc_UpdatedAt acc = now2 \<and>
     utxo_at (bc_db p') = utxo_at (bc_db p) \<and> accounts_ok p'"
proof -
  obtain p' where ok: "UpdateAccountBalance W \<rho> now1 now2 p a = (p', Inr ())" using UpdateAccountBalance_succeeds [OF assms] by blast
  show ?thesis by (rule UpdateAccountBalance_ok [OF assms(1,3-5) ok]) (use ok in blast)
qed

lemma toy_accounts [simp]: "GetAccount toy_chain a = Inr None"
  using AddBlock_accounts [OF mem_ops_laws(1) toy_genesis_fields(4) toy_AddBlock, of a]
  by (simp add: GetAccount_def toy_start_def empty_db_def)

lemma toy_addr_set: "\<exists>s. addr_set (bc_db toy_chain) (toy_address 1) = Some s"
proof -
  have "toy_output \<in> unspent_of (bc_db toy_chain) (toy_address 1)" by (simp add: toy_unspent)
  then show ?thesis using unspent_of_unlisted [OF toy_db_ok(1)] by fastforce
qed

theorem UpdateAccountBalance_records_witness:
  "\<exists>p' acc. UpdateAccountBalance mem_ops (\<lambda>m. m) 7 8 toy_chain (toy_address 1) = (p', Inr ()) \<and>
     GetAccount p' (toy_address 1) = Inr (Some acc) \<and> acc_Balance acc = 100"
proof -
  obtain s where s: "addr_set (bc_db toy_chain) (toy_address 1) = Some s" using toy_addr_set ..
  have "accounts_ok toy_chain" by (simp add: accounts_ok_def)
  from UpdateAccountBalance_records [OF mem_ops_laws this toy_db_ok(1) range_ok_id toy_accounts s, of 7 8] show ?thesis
    by (simp add: toy_unspent) blast
qed

text \<open>
  A transaction hash appended to the list of an address becomes the last entry of that list and leaves the
  lists of other addresses alone, for each of the three lists; a failed append changes nothing.
\<close>

theorem account_lists_append:
  assumes "db_laws W" "(add, entries) \<in> {(AddAccountTx, GetAccountTxList), (AddAccountTxReceived, GetAccountReceivedTxList),
      (AddAccountTxSent, GetAccountSentTxList)}" "add W p a h = (p', res)"
  shows "case res of
      Inr u \<Rightarrow> (\<exists>hs. entries p a = Inr hs \<and> entries p' a = Inr (hs @ [h])) \<and> (\<forall>b. b \<noteq> a \<longrightarrow> entries p' b = entries p b)
    | Inl e \<Rightarrow> p' = p"
proof -
  have "tx_log add entries"
    using assms(2) all_log.tx_log_axioms received_log.tx_log_axioms sent_log.tx_log_axioms by auto
  note log = tx_log.add_entries [OF this assms(1)] tx_log.add_other [OF this assms(1)] tx_log.add_fails [OF this]
  show ?thesis
  proof (cases res)
    case (Inl e)
    with assms(3) log(3) show ?thesis by simp
  next
    case (Inr u)
    with assms(3) log(1,2) show ?thesis by simp
  qed
qed

theorem account_lists_append_witness:
  "\<exists>p'. AddAccountTx mem_ops toy_start (toy_address 1) zero_Hash = (p', Inr ()) \<and> GetAccountTxList p' (toy_address 1) = Inr [zero_Hash]"
proof -
  have entries: "GetAccountTxList toy_start (toy_address 1) = Inr []"
    by (simp add: GetAccountTxList_def read_list_def toy_start_def empty_db_def)
  obtain p' where p': "AddAccountTx mem_ops toy_start (toy_address 1) zero_Hash = (p', Inr ())"
    by (simp add: AddAccountTx_def add_to_list_def put_value_def mem_ops_def toy_start_def empty_db_def Let_def)
  from account_lists_append [where add = AddAccountTx and entries = GetAccountTxList, OF mem_ops_laws(1) _ p'] entries have "GetAccountTxList p' (toy_address 1) = Inr [zero_Hash]"
    by simp
  with p' show ?thesis by blast
qed

end
