(* ===== verification/Staking.thy ===== *)
theory Staking
  imports Blockchain
begin

text \<open>
  \<open>consensus/staking.go\<close>: the set of stakers.  The total is a running 64-bit counter; the lemmas
  show that every operation keeps it equal to the sum of the stakes, that unstaking never
  underflows, and that the set survives being saved and loaded.
\<close>

datatype consensus_error =
    StakerNotFound
  | InsufficientStake uint64 uint64
  | ConsDb get_error
  | ConsDbWrite
  | ConsDeserialize
  | BadValidatorAddress
  | BadValidatorKey
  | ConsKey crypto_error
  | ValidatorNotSet
  | EngineRunning
  | ConsWrap string consensus_error

section \<open>Operations\<close>

definition NewStakerSet :: StakerSet where
  "NewStakerSet = \<lparr>ss_Stakers = [], ss_TotalStaked = 0\<rparr>"

definition AddStaker :: "int \<Rightarrow> StakerSet \<Rightarrow> Address \<Rightarrow> uint64 \<Rightarrow> byte list \<Rightarrow> StakerSet" where
  "AddStaker now s address amount publicKey =
     (let addrStr = AddressToString address in
      case map_of (ss_Stakers s) addrStr of
        Some existing \<Rightarrow>
          let existing1 = existing\<lparr>st_Amount := st_Amount existing + amount\<rparr>;
              existing2 = (if length (st_PublicKey existing1) = 0 \<and> 0 < length publicKey
                           then existing1\<lparr>st_PublicKey := publicKey\<rparr> else existing1)
          in s\<lparr>ss_Stakers := mput addrStr existing2 (ss_Stakers s),
               ss_TotalStaked := ss_TotalStaked s + amount\<rparr>
      | None \<Rightarrow>
          s\<lparr>ss_Stakers := mput addrStr
              \<lparr>st_Address = address, st_PublicKey = publicKey, st_Amount = amount, st_StartTime = now,
               st_EndTime = 0, st_IsActive = True\<rparr> (ss_Stakers s),
            ss_TotalStaked := ss_TotalStaked s + amount\<rparr>)"

definition RemoveStaker :: "StakerSet \<Rightarrow> Address \<Rightarrow> uint64 \<Rightarrow> consensus_error + StakerSet" where
  "RemoveStaker s address amount =
     (let addrStr = AddressToString address in
      case map_of (ss_Stakers s) addrStr of
        None \<Rightarrow> Inl StakerNotFound
      | Some staker \<Rightarrow>
          if st_Amount staker < amount then Inl (InsufficientStake (st_Amount staker) amount)
          else let staker1 = staker\<lparr>st_Amount := st_Amount staker - amount\<rparr>;
                   staker2 = (if st_Amount staker1 = 0 then staker1\<lparr>st_IsActive := False\<rparr> else staker1)
               in Inr (s\<lparr>ss_Stakers := mput addrStr staker2 (ss_Stakers s),
                         ss_TotalStaked := ss_TotalStaked s - amount\<rparr>))"

definition GetStaker :: "StakerSet \<Rightarrow> Address \<Rightarrow> Staker option" where
  "GetStaker s address = map_of (ss_Stakers s) (AddressToString address)"

definition GetActiveStakers :: "(string, Staker) ranging \<Rightarrow> StakerSet \<Rightarrow> Staker list" where
  "GetActiveStakers \<rho> s = filter (\<lambda>staker. st_IsActive staker \<and> 0 < st_Amount staker) (map snd (\<rho> (ss_Stakers s)))"

definition as_staker_set :: "dbval \<Rightarrow> consensus_error + StakerSet" where
  "as_staker_set v = (case v of GobStakerSet s \<Rightarrow> Inr s | _ \<Rightarrow> Inl ConsDeserialize)"

definition SaveStakerSet :: "db_ops \<Rightarrow> leveldb \<Rightarrow> StakerSet \<Rightarrow> consensus_error + leveldb" where
  "SaveStakerSet W db stakerSet =
     (case db_Put W db PrefixStakerInfo (GobStakerSet stakerSet) of
        None \<Rightarrow> Inl (ConsWrap ''failed to save staker set'' ConsDbWrite)
      | Some db' \<Rightarrow> Inr db')"

definition LoadStakerSet :: "leveldb \<Rightarrow> consensus_error + StakerSet" where
  "LoadStakerSet db =
     (case db PrefixStakerInfo of
        Inl ErrNotFound \<Rightarrow> Inr NewStakerSet
      | Inl ErrIO \<Rightarrow> Inl (ConsWrap ''failed to load staker set'' (ConsDb ErrIO))
      | Inr v \<Rightarrow> wrapE (ConsWrap ''failed to deserialize staker set'') (as_staker_set v))"

definition GetStakers :: "(string, Staker) ranging \<Rightarrow> leveldb \<Rightarrow> consensus_error + string list" where
  "GetStakers \<rho> db = bindE (LoadStakerSet db) (\<lambda>stakerSet. Inr (map fst (\<rho> (ss_Stakers stakerSet))))"

section \<open>Invariant\<close>

text \<open>
  Every staker stands under the text of its address, and the counter is the sum of the stakes.
\<close>

definition wf_StakerSet :: "StakerSet \<Rightarrow> bool" where
  "wf_StakerSet s \<longleftrightarrow>
     wf_map (ss_Stakers s) \<and> (\<forall>(k, st)\<in>set (ss_Stakers s). k = AddressToString (st_Address st)) \<and>
     ss_TotalStaked s = msum st_Amount (ss_Stakers s)"

lemma AddressToString_inj [simp]: "AddressToString a = AddressToString b \<longleftrightarrow> a = b"
  by (simp add: AddressToString_def)

lemma wf_NewStakerSet [simp]: "wf_StakerSet NewStakerSet"
  by (simp add: wf_StakerSet_def NewStakerSet_def)

lemma wf_StakerSet_entry:
  "wf_StakerSet s \<Longrightarrow> map_of (ss_Stakers s) k = Some st \<Longrightarrow> k = AddressToString (st_Address st)"
  by (auto simp: wf_StakerSet_def dest!: map_of_SomeD)

text \<open>Replacing or adding an entry whose address is right, and correcting the counter.\<close>

lemma wf_StakerSet_put:
  assumes wf: "wf_StakerSet s" and k: "k = AddressToString (st_Address st)"
    and tot: "t + (case map_of (ss_Stakers s) k of None \<Rightarrow> 0 | Some old \<Rightarrow> st_Amount old) = ss_TotalStaked s + st_Amount st"
  shows "wf_StakerSet (s\<lparr>ss_Stakers := mput k st (ss_Stakers s), ss_TotalStaked := t\<rparr>)"
proof -
  have m: "wf_map (ss_Stakers s)" "ss_TotalStaked s = msum st_Amount (ss_Stakers s)"
    using wf by (simp_all add: wf_StakerSet_def)
  have "t = msum st_Amount (mput k st (ss_Stakers s))"
  proof (cases "map_of (ss_Stakers s) k")
    case None
    then have "k \<notin> fst ` set (ss_Stakers s)" by (simp add: map_of_eq_None_iff)
    from msum_mput_new [OF this, of st_Amount st] tot None m(2) show ?thesis by simp
  next
    case (Some old)
    then have "st_Amount old + t = st_Amount old + msum st_Amount (mput k st (ss_Stakers s))"
      using msum_mput_old [OF m(1) Some, of st_Amount st] tot m(2) by (simp add: add.commute)
    then show ?thesis by simp
  qed
  with wf k show ?thesis by (auto simp: wf_StakerSet_def set_mput)
qed

lemma wf_AddStaker: "wf_StakerSet s \<Longrightarrow> wf_StakerSet (AddStaker now s a amt pk)"
proof -
  assume wf: "wf_StakerSet s"
  show ?thesis
  proof (cases "map_of (ss_Stakers s) (AddressToString a)")
    case None
    with wf show ?thesis by (simp add: AddStaker_def Let_def wf_StakerSet_put)
  next
    case (Some old)
    from wf_StakerSet_entry [OF wf Some] have "st_Address old = a" by simp
    with Some wf show ?thesis by (simp add: AddStaker_def Let_def wf_StakerSet_put)
  qed
qed

lemma wf_RemoveStaker: "wf_StakerSet s \<Longrightarrow> RemoveStaker s a amt = Inr s' \<Longrightarrow> wf_StakerSet s'"
proof -
  assume wf: "wf_StakerSet s" and ok: "RemoveStaker s a amt = Inr s'"
  from ok obtain st where st: "map_of (ss_Stakers s) (AddressToString a) = Some st"
    by (auto simp: RemoveStaker_def Let_def split: option.splits)
  from wf_StakerSet_entry [OF wf st] have "st_Address st = a" by simp
  with ok st wf show ?thesis
    by (auto simp: RemoveStaker_def Let_def intro!: wf_StakerSet_put split: if_splits)
qed

text \<open>What an operation leaves for an address.\<close>

lemma GetStaker_AddStaker:
  "GetStaker (AddStaker now s a amt pk) b =
     (if b = a
      then Some (case GetStaker s a of
             None \<Rightarrow> \<lparr>st_Address = a, st_PublicKey = pk, st_Amount = amt, st_StartTime = now, st_EndTime = 0, st_IsActive = True\<rparr>
           | Some st \<Rightarrow> st\<lparr>st_Amount := st_Amount st + amt,
               st_PublicKey := (if st_PublicKey st = [] \<and> pk \<noteq> [] then pk else st_PublicKey st)\<rparr>)
      else GetStaker s b)"
  by (auto simp: GetStaker_def AddStaker_def Let_def map_of_mput split: option.splits)

lemma RemoveStaker_spec:
  "RemoveStaker s a amt = Inr s' \<longleftrightarrow>
     (\<exists>st. GetStaker s a = Some st \<and> amt \<le> st_Amount st \<and>
        s' = s\<lparr>ss_Stakers := mput (AddressToString a)
               (st\<lparr>st_Amount := st_Amount st - amt, st_IsActive := st_IsActive st \<and> st_Amount st \<noteq> amt\<rparr>) (ss_Stakers s),
             ss_TotalStaked := ss_TotalStaked s - amt\<rparr>)"
  by (auto simp: GetStaker_def RemoveStaker_def Let_def not_less split: option.splits if_splits)

text \<open>What is saved is loaded again, and saving touches one key only.\<close>

lemma SaveStakerSet_load:
  "db_laws W \<Longrightarrow> SaveStakerSet W db s = Inr db' \<Longrightarrow> LoadStakerSet db' = Inr s"
  by (auto simp: SaveStakerSet_def LoadStakerSet_def as_staker_set_def dest: db_PutD split: option.splits)

lemma SaveStakerSet_frame:
  "db_laws W \<Longrightarrow> SaveStakerSet W db s = Inr db' \<Longrightarrow> k \<noteq> PrefixStakerInfo \<Longrightarrow> db' k = db k"
  by (auto simp: SaveStakerSet_def dest: db_PutD split: option.splits)

text \<open>An unstake request within the stake takes the same from the counter, without underflow.\<close>

lemma msum_member_le:
  fixes w :: "'v \<Rightarrow> nat"
  shows "(k, v) \<in> set m \<Longrightarrow> w v \<le> msum w m"
  by (induction m) auto

lemma unat_msum:
  assumes "msum (unat \<circ> w) m < 2 ^ 64"
  shows "unat (msum w m :: uint64) = msum (unat \<circ> w) m"
  using assms unat_sum_list_no_wrap [of "map (w \<circ> snd) m"] by (simp add: msum_def comp_assoc)

lemma RemoveStaker_no_underflow:
  assumes wf: "wf_StakerSet s" and small: "msum (unat \<circ> st_Amount) (ss_Stakers s) < 2 ^ 64"
    and ok: "RemoveStaker s a amt = Inr s'"
  shows "unat (ss_TotalStaked s') + unat amt = unat (ss_TotalStaked s)"
proof -
  from ok obtain st where st: "GetStaker s a = Some st" "amt \<le> st_Amount st" and s': "ss_TotalStaked s' = ss_TotalStaked s - amt"
    by (auto simp: RemoveStaker_spec)
  have "(AddressToString a, st) \<in> set (ss_Stakers s)" using st(1) by (auto simp: GetStaker_def dest: map_of_SomeD)
  from msum_member_le [OF this, of "unat \<circ> st_Amount"] have "unat (st_Amount st) \<le> unat (ss_TotalStaked s)"
    using wf small by (simp add: wf_StakerSet_def unat_msum)
  with st(2) have "amt \<le> ss_TotalStaked s" by (simp add: word_le_nat_alt)
  with s' show ?thesis by (simp add: unat_sub word_le_nat_alt)
qed

end
