(* ===== verification/Validators.thy ===== *)
theory Validators
  imports Staking
begin

text \<open>
  \<open>consensus/validator.go\<close>: the validator set and its voting power.  The lemmas show when the power
  counter is the sum of the powers, what \<open>UpdateFromStakerSet\<close> selects, that its outcome does not
  depend on the order in which Go visits the stakers, and that saving and loading round-trip.
\<close>

section \<open>Operations\<close>

definition NewValidatorSet :: ValidatorSet where
  "NewValidatorSet = \<lparr>vs_Validators = [], vs_TotalVotingPower = 0\<rparr>"

definition GetAddress :: "Validator \<Rightarrow> Address" where "GetAddress v = val_Address v"
definition GetPubKey :: "Validator \<Rightarrow> byte list" where "GetPubKey v = val_PublicKey v"
definition GetVotingPower :: "Validator \<Rightarrow> uint64" where "GetVotingPower v = val_VotingPower v"
definition GetActiveStat :: "Validator \<Rightarrow> bool" where "GetActiveStat v = val_IsActive v"

definition Validator_SignBlock :: "crypto \<Rightarrow> nat \<Rightarrow> Hash \<Rightarrow> byte list \<Rightarrow> consensus_error + Signature" where
  "Validator_SignBlock C r blockHash privateKeyBytes =
     bindE (wrapE (ConsWrap ''failed to parse private key'' \<circ> ConsKey) (BytesToPrivateKey C privateKeyBytes)) (\<lambda>privateKey.
     wrapE (ConsWrap ''failed to sign block'' \<circ> ConsKey) (SignData C r privateKey (HashToBytes blockHash)))"

definition ValidateBlockSignature :: "crypto \<Rightarrow> Validator \<Rightarrow> Hash \<Rightarrow> Signature \<Rightarrow> bool" where
  "ValidateBlockSignature C v blockHash sig =
     (case BytesToPublicKey C (val_PublicKey v) of
        Inl e \<Rightarrow> False
      | Inr publicKey \<Rightarrow> VerifySignature C (Some publicKey) (HashToBytes blockHash) sig)"

definition AddValidator :: "ValidatorSet \<Rightarrow> Validator \<Rightarrow> ValidatorSet" where
  "AddValidator vs validator =
     vs\<lparr>vs_Validators := mput (AddressToString (val_Address validator)) validator (vs_Validators vs),
        vs_TotalVotingPower := vs_TotalVotingPower vs + val_VotingPower validator\<rparr>"

definition RemoveValidator :: "ValidatorSet \<Rightarrow> Address \<Rightarrow> ValidatorSet" where
  "RemoveValidator vs address =
     (case map_of (vs_Validators vs) (AddressToString address) of
        None \<Rightarrow> vs
      | Some v \<Rightarrow> vs\<lparr>vs_TotalVotingPower := vs_TotalVotingPower vs - val_VotingPower v,
                     vs_Validators := mdel (AddressToString address) (vs_Validators vs)\<rparr>)"

definition GetValidator :: "ValidatorSet \<Rightarrow> Address \<Rightarrow> Validator option" where
  "GetValidator vs address = map_of (vs_Validators vs) (AddressToString address)"

definition GetActiveValidators :: "(string, Validator) ranging \<Rightarrow> ValidatorSet \<Rightarrow> Validator list" where
  "GetActiveValidators \<rho> vs = filter val_IsActive (map snd (\<rho> (vs_Validators vs)))"

text \<open>The body of the loop of \<open>UpdateFromStakerSet\<close>.\<close>

definition admit_staker :: "uint64 \<Rightarrow> ValidatorSet \<Rightarrow> string \<times> Staker \<Rightarrow> ValidatorSet" where
  "admit_staker minStake vs kv =
     (let (addrStr, staker) = kv in
      if st_IsActive staker \<and> minStake \<le> st_Amount staker
      then vs\<lparr>vs_Validators := mput addrStr
                \<lparr>val_Address = st_Address staker, val_PublicKey = st_PublicKey staker,
                 val_VotingPower = st_Amount staker, val_IsActive = True\<rparr> (vs_Validators vs),
              vs_TotalVotingPower := vs_TotalVotingPower vs + st_Amount staker\<rparr>
      else vs)"

definition UpdateFromStakerSet :: "(string, Staker) ranging \<Rightarrow> StakerSet \<Rightarrow> uint64 \<Rightarrow> ValidatorSet" where
  "UpdateFromStakerSet \<rho> stakerSet minStake =
     foldl (admit_staker minStake) \<lparr>vs_Validators = [], vs_TotalVotingPower = 0\<rparr> (\<rho> (ss_Stakers stakerSet))"

definition as_validator_set :: "dbval \<Rightarrow> consensus_error + ValidatorSet" where
  "as_validator_set v = (case v of GobValidatorSet s \<Rightarrow> Inr s | _ \<Rightarrow> Inl ConsDeserialize)"

definition SaveValidatorSet :: "db_ops \<Rightarrow> leveldb \<Rightarrow> ValidatorSet \<Rightarrow> consensus_error + leveldb" where
  "SaveValidatorSet W db validatorSet =
     (case db_Put W db ValidatorSetKey (GobValidatorSet validatorSet) of
        None \<Rightarrow> Inl (ConsWrap ''failed to save validator set'' ConsDbWrite)
      | Some db' \<Rightarrow> Inr db')"

definition LoadValidatorSet :: "leveldb \<Rightarrow> consensus_error + ValidatorSet" where
  "LoadValidatorSet db =
     (case db ValidatorSetKey of
        Inl ErrNotFound \<Rightarrow> Inr NewValidatorSet
      | Inl ErrIO \<Rightarrow> Inl (ConsWrap ''failed to load validator set'' (ConsDb ErrIO))
      | Inr v \<Rightarrow> wrapE (ConsWrap ''failed to deserialize validator set'') (as_validator_set v))"

section \<open>Invariant\<close>

definition wf_ValidatorSet :: "ValidatorSet \<Rightarrow> bool" where
  "wf_ValidatorSet vs \<longleftrightarrow>
     wf_map (vs_Validators vs) \<and> (\<forall>(k, v)\<in>set (vs_Validators vs). k = AddressToString (val_Address v)) \<and>
     vs_TotalVotingPower vs = msum val_VotingPower (vs_Validators vs)"

lemma wf_NewValidatorSet [simp]: "wf_ValidatorSet NewValidatorSet"
  by (simp add: wf_ValidatorSet_def NewValidatorSet_def)

lemma wf_ValidatorSet_entry:
  "wf_ValidatorSet vs \<Longrightarrow> map_of (vs_Validators vs) k = Some v \<Longrightarrow> k = AddressToString (val_Address v)"
  by (auto simp: wf_ValidatorSet_def dest!: map_of_SomeD)

text \<open>
  \<open>AddValidator\<close> keeps the counter right only for a new address: for a known one it adds the power
  without taking the old one off.
\<close>

lemma AddValidator_power:
  assumes "wf_ValidatorSet vs"
  shows "vs_TotalVotingPower (AddValidator vs v) =
     msum val_VotingPower (vs_Validators (AddValidator vs v)) +
     (case GetValidator vs (val_Address v) of None \<Rightarrow> 0 | Some old \<Rightarrow> val_VotingPower old)"
proof (cases "GetValidator vs (val_Address v)")
  case None
  then have "AddressToString (val_Address v) \<notin> fst ` set (vs_Validators vs)"
    by (simp add: GetValidator_def map_of_eq_None_iff)
  with None assms show ?thesis by (simp add: AddValidator_def wf_ValidatorSet_def msum_mput_new)
next
  case (Some old)
  then have "map_of (vs_Validators vs) (AddressToString (val_Address v)) = Some old" by (simp add: GetValidator_def)
  from msum_mput_old [OF _ this, of val_VotingPower v] Some assms show ?thesis
    by (simp add: AddValidator_def wf_ValidatorSet_def add.commute)
qed

lemma wf_AddValidator:
  "wf_ValidatorSet vs \<Longrightarrow> GetValidator vs (val_Address v) = None \<Longrightarrow> wf_ValidatorSet (AddValidator vs v)"
  using AddValidator_power [of vs v] by (auto simp: wf_ValidatorSet_def AddValidator_def set_mput)

lemma wf_RemoveValidator: "wf_ValidatorSet vs \<Longrightarrow> wf_ValidatorSet (RemoveValidator vs a)"
  using msum_mdel [of "vs_Validators vs" "AddressToString a" _ val_VotingPower]
  by (auto simp: wf_ValidatorSet_def RemoveValidator_def set_mdel split: option.splits)

lemma GetValidator_RemoveValidator:
  "GetValidator (RemoveValidator vs a) b = (if b = a then None else GetValidator vs b)"
  by (auto simp: GetValidator_def RemoveValidator_def map_of_mdel split: option.splits)

lemma GetValidator_AddValidator:
  "GetValidator (AddValidator vs v) b = (if b = val_Address v then Some v else GetValidator vs b)"
  by (simp add: GetValidator_def AddValidator_def map_of_mput)

section \<open>Validators from stakers\<close>

definition validator_of :: "Staker \<Rightarrow> Validator" where
  "validator_of st = \<lparr>val_Address = st_Address st, val_PublicKey = st_PublicKey st,
     val_VotingPower = st_Amount st, val_IsActive = True\<rparr>"

definition eligible :: "uint64 \<Rightarrow> Staker \<Rightarrow> bool" where
  "eligible minStake st \<longleftrightarrow> st_IsActive st \<and> minStake \<le> st_Amount st"

lemma admit_staker_eq:
  "admit_staker m vs (k, st) =
     (if eligible m st
      then vs\<lparr>vs_Validators := mput k (validator_of st) (vs_Validators vs), vs_TotalVotingPower := vs_TotalVotingPower vs + st_Amount st\<rparr>
      else vs)"
  by (simp add: admit_staker_def eligible_def validator_of_def)

lemma mput_new: "k \<notin> fst ` set m \<Longrightarrow> mput k v m = m @ [(k, v)]"
  by (induction m) auto

lemma admit_all:
  assumes "wf_map kvs" "fst ` set kvs \<inter> fst ` set (vs_Validators vs) = {}"
  shows "foldl (admit_staker m) vs kvs =
     vs\<lparr>vs_Validators := vs_Validators vs @ map (\<lambda>(k, st). (k, validator_of st)) (filter (\<lambda>(k, st). eligible m st) kvs),
        vs_TotalVotingPower := vs_TotalVotingPower vs + sum_list (map (st_Amount \<circ> snd) (filter (\<lambda>(k, st). eligible m st) kvs))\<rparr>"
  using assms
proof (induction kvs arbitrary: vs)
  case Nil
  then show ?case by simp
next
  case (Cons kv kvs)
  obtain k st where kv: "kv = (k, st)" by (cases kv)
  have new: "k \<notin> fst ` set (vs_Validators vs)" "k \<notin> fst ` set kvs" "wf_map kvs"
    using Cons.prems by (auto simp: kv wf_map_def)
  have put: "mput k v (vs_Validators vs) = vs_Validators vs @ [(k, v)]" for v
    by (rule mput_new [OF new(1)])
  show ?case
  proof (cases "eligible m st")
    case True
    let ?vs = "vs\<lparr>vs_Validators := vs_Validators vs @ [(k, validator_of st)], vs_TotalVotingPower := vs_TotalVotingPower vs + st_Amount st\<rparr>"
    have "fst ` set kvs \<inter> fst ` set (vs_Validators ?vs) = {}" using Cons.prems(2) new by (auto simp: kv)
    from Cons.IH [OF new(3) this] True show ?thesis by (simp add: kv admit_staker_eq put add.assoc)
  next
    case False
    with Cons.IH [OF new(3), of vs] Cons.prems(2) show ?thesis by (simp add: kv admit_staker_eq)
  qed
qed


lemma UpdateFromStakerSet_eq:
  assumes "wf_StakerSet ss" "range_ok \<rho>"
  shows "vs_Validators (UpdateFromStakerSet \<rho> ss m) =
       map (\<lambda>(k, st). (k, validator_of st)) (filter (\<lambda>(k, st). eligible m st) (\<rho> (ss_Stakers ss)))"
    "vs_TotalVotingPower (UpdateFromStakerSet \<rho> ss m) =
       sum_list (map (st_Amount \<circ> snd) (filter (\<lambda>(k, st). eligible m st) (\<rho> (ss_Stakers ss))))"
proof -
  have "wf_map (\<rho> (ss_Stakers ss))"
    using iterates_wf [OF range_okD [OF assms(2)]] assms(1) by (simp add: wf_StakerSet_def)
  from admit_all [OF this, of "\<lparr>vs_Validators = [], vs_TotalVotingPower = 0\<rparr>" m]
  show "vs_Validators (UpdateFromStakerSet \<rho> ss m) =
       map (\<lambda>(k, st). (k, validator_of st)) (filter (\<lambda>(k, st). eligible m st) (\<rho> (ss_Stakers ss)))"
    "vs_TotalVotingPower (UpdateFromStakerSet \<rho> ss m) =
       sum_list (map (st_Amount \<circ> snd) (filter (\<lambda>(k, st). eligible m st) (\<rho> (ss_Stakers ss))))"
    by (simp_all add: UpdateFromStakerSet_def)
qed

lemma wf_UpdateFromStakerSet:
  assumes "wf_StakerSet ss" "range_ok \<rho>"
  shows "wf_ValidatorSet (UpdateFromStakerSet \<rho> ss m)"
proof -
  let ?kvs = "\<rho> (ss_Stakers ss)"
  let ?f = "\<lambda>(k, st). (k, validator_of st)" and ?p = "\<lambda>(k, st). eligible m st"
  have it: "iterates ?kvs (ss_Stakers ss)" by (rule range_okD [OF assms(2)])
  have wf: "wf_map ?kvs" using iterates_wf [OF it] assms(1) by (simp add: wf_StakerSet_def)
  have "map fst (map ?f (filter ?p ?kvs)) = map fst (filter ?p ?kvs)" by (simp add: comp_def case_prod_unfold)
  then have "wf_map (map ?f (filter ?p ?kvs))" using wf by (metis distinct_map_filter wf_map_def)
  moreover have "\<forall>(k, v)\<in>set (map ?f (filter ?p ?kvs)). k = AddressToString (val_Address v)"
    using iterates_set [OF it] assms(1) by (auto simp: wf_StakerSet_def validator_of_def)
  moreover have "msum val_VotingPower (map ?f (filter ?p ?kvs)) = sum_list (map (st_Amount \<circ> snd) (filter ?p ?kvs))"
    by (simp add: msum_def comp_def case_prod_unfold validator_of_def)
  ultimately show ?thesis
    by (simp only: wf_ValidatorSet_def UpdateFromStakerSet_eq [OF assms])
qed

text \<open>The validator of an address is its staker, if eligible; the order of the visit plays no part.\<close>

lemma GetValidator_UpdateFromStakerSet:
  assumes "wf_StakerSet ss" "range_ok \<rho>"
  shows "GetValidator (UpdateFromStakerSet \<rho> ss m) a =
     (case GetStaker ss a of None \<Rightarrow> None | Some st \<Rightarrow> if eligible m st then Some (validator_of st) else None)"
proof -
  let ?f = "\<lambda>(k, st). (k, validator_of st)" and ?p = "\<lambda>(k, st). eligible m st"
  have it: "iterates (\<rho> (ss_Stakers ss)) (ss_Stakers ss)" by (rule range_okD [OF assms(2)])
  have wf: "wf_map (ss_Stakers ss)" using assms(1) by (simp add: wf_StakerSet_def)
  have "wf_map (vs_Validators (UpdateFromStakerSet \<rho> ss m))"
    using wf_UpdateFromStakerSet [OF assms] by (simp add: wf_ValidatorSet_def)
  then have "GetValidator (UpdateFromStakerSet \<rho> ss m) a = Some v \<longleftrightarrow>
      (\<exists>st. (AddressToString a, st) \<in> set (ss_Stakers ss) \<and> eligible m st \<and> v = validator_of st)" for v
    unfolding GetValidator_def
    by (subst map_of_iff_in_set) (auto simp: UpdateFromStakerSet_eq [OF assms] iterates_set [OF it])
  then have "GetValidator (UpdateFromStakerSet \<rho> ss m) a = Some v \<longleftrightarrow>
      (\<exists>st. GetStaker ss a = Some st \<and> eligible m st \<and> v = validator_of st)" for v
    by (simp add: GetStaker_def map_of_iff_in_set [OF wf])
  then have "GetValidator (UpdateFromStakerSet \<rho> ss m) a = Some v \<longleftrightarrow>
      (case GetStaker ss a of None \<Rightarrow> None | Some st \<Rightarrow> if eligible m st then Some (validator_of st) else None) = Some v" for v
    by (auto split: option.split)
  then show ?thesis by (rule option_eqI)
qed

lemma UpdateFromStakerSet_power:
  assumes "wf_StakerSet ss" "range_ok \<rho>" "range_ok \<rho>'"
  shows "vs_TotalVotingPower (UpdateFromStakerSet \<rho> ss m) = vs_TotalVotingPower (UpdateFromStakerSet \<rho>' ss m)"
proof -
  have "mset (\<rho> (ss_Stakers ss)) = mset (\<rho>' (ss_Stakers ss))"
    using range_okD [OF assms(2)] range_okD [OF assms(3)] by (simp add: iterates_def)
  then have "mset (map (st_Amount \<circ> snd) (filter (\<lambda>(k, st). eligible m st) (\<rho> (ss_Stakers ss)))) =
      mset (map (st_Amount \<circ> snd) (filter (\<lambda>(k, st). eligible m st) (\<rho>' (ss_Stakers ss))))"
    by simp
  then show ?thesis unfolding UpdateFromStakerSet_eq [OF assms(1,2)] UpdateFromStakerSet_eq [OF assms(1,3)]
    by (metis sum_mset_sum_list)
qed

section \<open>Storage and signatures\<close>

lemma SaveValidatorSet_load:
  "db_laws W \<Longrightarrow> SaveValidatorSet W db s = Inr db' \<Longrightarrow> LoadValidatorSet db' = Inr s"
  by (auto simp: SaveValidatorSet_def LoadValidatorSet_def as_validator_set_def dest: db_PutD split: option.splits)

lemma SaveValidatorSet_frame:
  "db_laws W \<Longrightarrow> SaveValidatorSet W db s = Inr db' \<Longrightarrow> k \<noteq> ValidatorSetKey \<Longrightarrow> db' k = db k"
  by (auto simp: SaveValidatorSet_def dest: db_PutD split: option.splits)

lemma Validator_SignBlock_verifies:
  assumes "der_signatures C" "signatures_verify C" "BytesToPrivateKey C priv = Inr (Some sk)"
    "BytesToPublicKey C (val_PublicKey v) = Inr (sk_PublicKey sk)" "Validator_SignBlock C r h priv = Inr sig"
  shows "ValidateBlockSignature C v h sig"
  using assms SignData_verifies [OF assms(1,2), of r sk h sig]
  by (auto simp: Validator_SignBlock_def ValidateBlockSignature_def HashToBytes_def bindE_Inr wrapE_Inr)

end
