(* ===== verification/Selection.thy ===== *)
theory Selection
  imports Validators "HOL-Library.List_Lexorder" "HOL-Library.Char_ord"
begin

text \<open>
  \<open>consensus/selection.go\<close>: who may propose a block.  The active validators are sorted by the text
  of their address, so that every node sees the same sequence however Go orders its map.  The
  lemmas show that a proposer is found exactly when a validator is active, that it is active, that
  the choice does not depend on the map order (except for \<open>SelectProposerWeighted\<close>), that
  consecutive rounds visit every active validator once, and that the weighted walk always stops
  inside the list when the power counter is right.
\<close>

section \<open>Operations\<close>

definition addr_text :: "Validator \<Rightarrow> string" where
  "addr_text v = AddressToString (val_Address v)"

definition SelectProposer :: "(string, Validator) ranging \<Rightarrow> ValidatorSet \<Rightarrow> uint64 \<Rightarrow> uint32 \<Rightarrow> Validator option" where
  "SelectProposer \<rho> vs height round =
     (let validators = GetActiveValidators \<rho> vs in
      if length validators = 0 then None
      else let validators = sort_key addr_text validators;
               index = (height + ucast round) mod go_uint64 (length validators)
           in Some (validators ! unat index))"

text \<open>The walk along the cumulated voting power.\<close>

fun pick_weighted :: "uint64 \<Rightarrow> uint64 \<Rightarrow> Validator list \<Rightarrow> Validator option" where
  "pick_weighted target cumulative [] = None"
| "pick_weighted target cumulative (v # validators) =
     (let cumulative = cumulative + val_VotingPower v in
      if target < cumulative then Some v else pick_weighted target cumulative validators)"

definition pick_or_first :: "uint64 \<Rightarrow> Validator list \<Rightarrow> Validator" where
  "pick_or_first target validators =
     (case pick_weighted target 0 validators of Some v \<Rightarrow> v | None \<Rightarrow> validators ! 0)"

definition be_uint64 :: "byte list \<Rightarrow> uint64" where
  "be_uint64 bs = word_of_nat (be_value bs)"

definition PutUint32 :: "uint32 \<Rightarrow> byte list" where
  "PutUint32 v = be_bytes 4 (unat v)"

text \<open>
  The remainder by a total of 0 is a run-time panic: \<open>Inl\<close>.  The list is not sorted.
\<close>

definition SelectProposerWeighted ::
    "crypto \<Rightarrow> (string, Validator) ranging \<Rightarrow> ValidatorSet \<Rightarrow> uint64 \<Rightarrow> Hash \<Rightarrow> unit + Validator option" where
  "SelectProposerWeighted C \<rho> vs height prevBlockHash =
     (let validators = GetActiveValidators \<rho> vs in
      if length validators = 0 then Inr None
      else let hash = sha256 C (Uint64ToBytes height @ copy_into 32 prevBlockHash);
               hashNum = be_uint64 (take 8 hash)
           in if vs_TotalVotingPower vs = 0 then Inl ()
              else Inr (Some (pick_or_first (hashNum mod vs_TotalVotingPower vs) validators)))"

definition IsProposer :: "(string, Validator) ranging \<Rightarrow> ValidatorSet \<Rightarrow> Address \<Rightarrow> uint64 \<Rightarrow> uint32 \<Rightarrow> bool" where
  "IsProposer \<rho> vs address height round =
     (case SelectProposer \<rho> vs height round of None \<Rightarrow> False | Some proposer \<Rightarrow> val_Address proposer = address)"

definition GetNextProposers ::
    "(nat \<Rightarrow> (string, Validator) ranging) \<Rightarrow> ValidatorSet \<Rightarrow> uint64 \<Rightarrow> nat \<Rightarrow> Validator option list" where
  "GetNextProposers \<rho> vs startHeight n =
     map (\<lambda>i. SelectProposer (\<rho> i) vs (startHeight + go_uint64 i) 0) [0..<n]"

definition SelectProposerVRF ::
    "crypto \<Rightarrow> (string, Validator) ranging \<Rightarrow> ValidatorSet \<Rightarrow> uint64 \<Rightarrow> uint32 \<Rightarrow> Hash \<Rightarrow> Validator option" where
  "SelectProposerVRF C \<rho> vs height round prevBlockHash =
     (let validators = GetActiveValidators \<rho> vs in
      if length validators = 0 then None
      else let validators = sort_key addr_text validators;
               hash = sha256 C (copy_into 32 prevBlockHash @ Uint64ToBytes height @ PutUint32 round);
               totalPower = vs_TotalVotingPower vs;
               hashNum = be_uint64 (take 8 hash)
           in if totalPower = 0 then Some (validators ! unat (hashNum mod go_uint64 (length validators)))
              else Some (pick_or_first (hashNum mod totalPower) validators))"

definition SelectProposerHybrid ::
    "crypto \<Rightarrow> (string, Validator) ranging \<Rightarrow> (string, Validator) ranging \<Rightarrow> ValidatorSet \<Rightarrow> uint64 \<Rightarrow> uint32 \<Rightarrow> Hash \<Rightarrow> Validator option" where
  "SelectProposerHybrid C \<rho> \<rho>' vs height round prevBlockHash =
     (let validators = GetActiveValidators \<rho> vs in
      if length validators = 0 then None
      else let validators = sort_key addr_text validators in
           if round = 0 then SelectProposerVRF C \<rho>' vs height round prevBlockHash
           else let hash = sha256 C (copy_into 32 prevBlockHash @ Uint64ToBytes height);
                    baseIndex = be_uint64 (take 8 hash) mod go_uint64 (length validators);
                    finalIndex = (baseIndex + ucast round) mod go_uint64 (length validators)
                in Some (validators ! unat finalIndex))"

section \<open>The canonical sequence\<close>

definition active_set :: "ValidatorSet \<Rightarrow> Validator set" where
  "active_set vs = {v. v \<in> snd ` set (vs_Validators vs) \<and> val_IsActive v}"

definition canonical :: "ValidatorSet \<Rightarrow> Validator list" where
  "canonical vs = sort_key addr_text (filter val_IsActive (map snd (vs_Validators vs)))"

lemma active_mset: "range_ok \<rho> \<Longrightarrow> mset (GetActiveValidators \<rho> vs) = mset (filter val_IsActive (map snd (vs_Validators vs)))"
  by (simp add: GetActiveValidators_def iterates_def range_ok_def)

lemma canonical_distinct:
  assumes "wf_ValidatorSet vs"
  shows "distinct (map addr_text (filter val_IsActive (map snd (vs_Validators vs))))"
proof -
  have "map addr_text (map snd (vs_Validators vs)) = map fst (vs_Validators vs)"
    using assms by (auto simp: wf_ValidatorSet_def addr_text_def)
  then have "distinct (map addr_text (map snd (vs_Validators vs)))"
    using assms by (metis wf_ValidatorSet_def wf_map_def)
  then show ?thesis by (rule distinct_map_filter)
qed

text \<open>Distinct sort keys make the sorted list unique.\<close>

lemma sort_key_unique:
  assumes "mset xs = mset ys" "distinct (map f ys)"
  shows "sort_key f xs = sort_key f ys"
proof (rule properties_for_sort_key)
  show "mset (sort_key f ys) = mset xs" using assms(1) by simp
  show "sorted (map f (sort_key f ys))" by simp
  fix k
  assume "k \<in> set (sort_key f ys)"
  have inj: "inj_on f (set ys)" using assms(2) by (simp add: distinct_map)
  have "filter (\<lambda>x. f k = f x) zs = replicate (count (mset zs) k) k" if "set zs \<subseteq> set ys" "k \<in> set ys" for zs
    using that
  proof (induction zs)
    case Nil
    then show ?case by simp
  next
    case (Cons z zs)
    then have "f k = f z \<longleftrightarrow> k = z" using inj by (auto dest: inj_onD)
    with Cons show ?case by auto
  qed
  with \<open>k \<in> set (sort_key f ys)\<close> assms(1) show "filter (\<lambda>x. f k = f x) (sort_key f ys) = filter (\<lambda>x. f k = f x) xs"
    by (metis mset_sort set_mset_mset set_sort subset_refl)
qed

lemma sorted_active:
  assumes "wf_ValidatorSet vs" "range_ok \<rho>"
  shows "sort_key addr_text (GetActiveValidators \<rho> vs) = canonical vs"
  unfolding canonical_def by (rule sort_key_unique [OF active_mset [OF assms(2)] canonical_distinct [OF assms(1)]])

lemma set_canonical: "set (canonical vs) = active_set vs"
  by (auto simp: canonical_def active_set_def)

lemma distinct_canonical: "wf_ValidatorSet vs \<Longrightarrow> distinct (canonical vs)"
  using canonical_distinct [of vs] by (simp add: canonical_def distinct_map)

lemma length_active: "range_ok \<rho> \<Longrightarrow> length (GetActiveValidators \<rho> vs) = length (canonical vs)"
  using active_mset [of \<rho> vs] by (metis canonical_def length_sort size_mset)

lemma active_Nil: "range_ok \<rho> \<Longrightarrow> GetActiveValidators \<rho> vs = [] \<longleftrightarrow> canonical vs = []"
  using length_active [of \<rho> vs] by (metis length_0_conv)

section \<open>Round robin\<close>

definition few_validators :: "ValidatorSet \<Rightarrow> bool" where
  "few_validators vs \<longleftrightarrow> length (vs_Validators vs) < 2 ^ 63"

lemma few_canonical: "few_validators vs \<Longrightarrow> length (canonical vs) < 2 ^ 63"
  unfolding few_validators_def canonical_def by (simp add: le_less_trans [OF length_filter_le])

lemma unat_go_uint64: "n < 2 ^ 64 \<Longrightarrow> unat (go_uint64 n) = n"
  by (simp add: go_uint64_def unat_of_nat)

lemma unat_mod_go: "n < 2 ^ 63 \<Longrightarrow> unat (x mod go_uint64 n) = unat x mod n"
  by (simp add: unat_mod_distrib unat_go_uint64)

lemma SelectProposer_eq:
  assumes "wf_ValidatorSet vs" "range_ok \<rho>" "few_validators vs"
  shows "SelectProposer \<rho> vs h r =
     (if canonical vs = [] then None else Some (canonical vs ! (unat (h + ucast r) mod length (canonical vs))))"
  using assms few_canonical [OF assms(3)]
  by (simp add: SelectProposer_def Let_def length_active active_Nil sorted_active unat_mod_go)

lemma SelectProposerVRF_eq:
  assumes "wf_ValidatorSet vs" "range_ok \<rho>" "few_validators vs"
  shows "SelectProposerVRF C \<rho> vs h r prev =
     (let n = be_uint64 (take 8 (sha256 C (copy_into 32 prev @ Uint64ToBytes h @ PutUint32 r))) in
      if canonical vs = [] then None
      else if vs_TotalVotingPower vs = 0 then Some (canonical vs ! (unat n mod length (canonical vs)))
      else Some (pick_or_first (n mod vs_TotalVotingPower vs) (canonical vs)))"
  using assms few_canonical [OF assms(3)]
  by (simp add: SelectProposerVRF_def Let_def length_active active_Nil sorted_active unat_mod_go)

lemma SelectProposerHybrid_eq:
  assumes "wf_ValidatorSet vs" "range_ok \<rho>" "range_ok \<rho>'" "few_validators vs"
  shows "SelectProposerHybrid C \<rho> \<rho>' vs h r prev =
     (let n = be_uint64 (take 8 (sha256 C (copy_into 32 prev @ Uint64ToBytes h))); m = length (canonical vs) in
      if canonical vs = [] then None
      else if r = 0 then SelectProposerVRF C \<rho>' vs h 0 prev
      else Some (canonical vs ! (unat (n mod go_uint64 m + ucast r) mod m)))"
  using assms few_canonical [OF assms(4)]
  by (simp add: SelectProposerHybrid_def Let_def length_active active_Nil sorted_active unat_mod_go)

lemma pick_weighted_mem: "pick_weighted t c vs = Some v \<Longrightarrow> v \<in> set vs"
  by (induction t c vs rule: pick_weighted.induct) (auto simp: Let_def split: if_splits)

lemma pick_or_first_mem: "vs \<noteq> [] \<Longrightarrow> pick_or_first t vs \<in> set vs"
  by (auto simp: pick_or_first_def split: option.split dest: pick_weighted_mem)

text \<open>
  The weighted walk: if the powers sum up to the total without wrapping, a target below the total
  falls into the interval of a validator, so the fallback to the first one is not reached, and a
  validator without power is never picked.
\<close>

lemma pick_weighted_hits:
  assumes "unat c + sum_list (map (unat \<circ> val_VotingPower) vs) < 2 ^ 64" "c \<le> t"
    "unat t < unat c + sum_list (map (unat \<circ> val_VotingPower) vs)"
  shows "\<exists>v. pick_weighted t c vs = Some v \<and> 0 < val_VotingPower v"
  using assms
proof (induction vs arbitrary: c)
  case Nil
  then show ?case by (simp add: word_le_nat_alt)
next
  case (Cons v vs)
  have nw: "unat (c + val_VotingPower v) = unat c + unat (val_VotingPower v)"
    using Cons.prems(1) by (intro unat_add_no_wrap) simp
  show ?case
  proof (cases "t < c + val_VotingPower v")
    case True
    with Cons.prems(2) have "val_VotingPower v \<noteq> 0" by auto
    with True show ?thesis by (simp add: word_gt_0)
  next
    case False
    then have "c + val_VotingPower v \<le> t" by simp
    with Cons.IH [of "c + val_VotingPower v"] Cons.prems nw False show ?thesis by simp
  qed
qed


section \<open>Fairness\<close>

lemma residues_once: "0 < n \<Longrightarrow> bij_betw (\<lambda>i. (a + i) mod n) {..<n} {..<(n :: nat)}"
proof -
  assume n: "0 < n"
  have le: "i = j" if "i \<le> j" "j < n" "(a + i) mod n = (a + j) mod n" for i j
  proof -
    have "n dvd (a + j) - (a + i)" using that(1,3) mod_eq_dvd_iff_nat [of "a + i" "a + j" n] by simp
    then have "n dvd j - i" by simp
    with that(1,2) show ?thesis by (metis diff_diff_cancel diff_zero dvd_imp_le less_imp_diff_less linorder_not_less zero_less_iff_neq_zero)
  qed
  have "inj_on (\<lambda>i. (a + i) mod n) {..<n}"
    by (rule inj_onI) (metis le lessThan_iff nat_le_linear)
  moreover have "(\<lambda>i. (a + i) mod n) ` {..<n} \<subseteq> {..<n}" using n by auto
  ultimately show ?thesis unfolding bij_betw_def using endo_inj_surj [of "{..<n}" "\<lambda>i. (a + i) mod n"] by simp
qed

lemma mset_residues:
  assumes "xs \<noteq> []"
  shows "mset (map (\<lambda>i. xs ! ((a + i) mod length xs)) [0..<length xs]) = mset xs"
proof -
  let ?n = "length xs" and ?f = "\<lambda>i. (a + i) mod length xs"
  have bij: "bij_betw ?f {..<?n} {..<?n}" using assms by (simp add: residues_once)
  have "distinct (map ?f [0..<?n])" "set (map ?f [0..<?n]) = set [0..<?n]"
    using bij by (simp_all add: bij_betw_def distinct_map atLeast0LessThan)
  then have "mset (map ?f [0..<?n]) = mset [0..<?n]"
    by (metis distinct_upt set_eq_iff_mset_eq_distinct)
  then have "image_mset (\<lambda>i. xs ! i) (mset (map ?f [0..<?n])) = image_mset (\<lambda>i. xs ! i) (mset [0..<?n])" by simp
  then have "mset (map (\<lambda>i. xs ! i) (map ?f [0..<?n])) = mset (map (\<lambda>i. xs ! i) [0..<?n])" by (simp only: mset_map)
  then show ?thesis by (simp only: map_map comp_def map_nth)
qed

lemma unat_height_round:
  fixes h :: uint64
  assumes "unat h + n < 2 ^ 64" "n < 2 ^ 32"
  shows "unat (h + ucast (word_of_nat n :: uint32)) = unat h + n"
proof -
  have "unat (ucast (word_of_nat n :: uint32) :: uint64) = n"
    using assms(2) by (simp add: unsigned_ucast_eq take_bit_nat_eq_self unat_of_nat)
  then show ?thesis using assms(1) unat_add_no_wrap [of h "ucast (word_of_nat n :: uint32)"] by simp
qed

text \<open>Every proposer is an active validator.\<close>

lemma SelectProposer_active:
  assumes "wf_ValidatorSet vs" "range_ok \<rho>" "few_validators vs" "active_set vs \<noteq> {}"
  shows "\<exists>v\<in>active_set vs. SelectProposer \<rho> vs h r = Some v"
  using assms(4) by (auto simp: SelectProposer_eq [OF assms(1-3)] simp flip: set_canonical)

lemma SelectProposerVRF_active:
  assumes "wf_ValidatorSet vs" "range_ok \<rho>" "few_validators vs" "active_set vs \<noteq> {}"
  shows "\<exists>v\<in>active_set vs. SelectProposerVRF C \<rho> vs h r prev = Some v"
  using assms(4) by (auto simp: SelectProposerVRF_eq [OF assms(1-3)] Let_def pick_or_first_mem simp flip: set_canonical)

lemma SelectProposerHybrid_active:
  assumes "wf_ValidatorSet vs" "range_ok \<rho>" "range_ok \<rho>'" "few_validators vs" "active_set vs \<noteq> {}"
  shows "\<exists>v\<in>active_set vs. SelectProposerHybrid C \<rho> \<rho>' vs h r prev = Some v"
  using assms(5) SelectProposerVRF_active [OF assms(1,3,4,5)]
  by (auto simp: SelectProposerHybrid_eq [OF assms(1-4)] Let_def simp flip: set_canonical)

text \<open>In \<open>n\<close> consecutive turns every one of the \<open>n\<close> active validators is selected once.\<close>

lemma SelectProposer_turns:
  assumes "wf_ValidatorSet vs" "few_validators vs" "canonical vs \<noteq> []" "\<And>i. range_ok (\<rho> i)"
    "\<And>i. i < length (canonical vs) \<Longrightarrow> unat (h i + ucast (r i)) = a + i"
  shows "mset (map (\<lambda>i. SelectProposer (\<rho> i) vs (h i) (r i)) [0..<length (canonical vs)]) = image_mset Some (mset (canonical vs))"
proof -
  have "map (\<lambda>i. SelectProposer (\<rho> i) vs (h i) (r i)) [0..<length (canonical vs)] =
      map Some (map (\<lambda>i. canonical vs ! ((a + i) mod length (canonical vs))) [0..<length (canonical vs)])"
    using assms(3,5) by (simp add: SelectProposer_eq [OF assms(1,4,2)])
  then show ?thesis using mset_residues [OF assms(3), of a] by (simp del: map_map)
qed

end
