(* ===== verification/Votes.thy ===== *)
theory Votes
  imports Selection
begin

text \<open>
  \<open>consensus/type.go\<close> (votes and vote sets) and \<open>consensus/proposer.go\<close> (proposals and their
  signatures).  The locale \<open>weighted_quorum\<close> states what more than two thirds of the voting power
  guarantee; it is interpreted on the validator set.
\<close>

section \<open>Votes\<close>

definition VoteTypePrevote :: uint8 where "VoteTypePrevote = 0"
definition VoteTypePrecommit :: uint8 where "VoteTypePrecommit = 1"

record Vote =
  vote_Height :: uint64
  vote_Round :: uint32
  vote_Type :: uint8
  vote_BlockHash :: Hash
  vote_VoterID :: Address
  vote_Signature :: Signature
  vote_Timestamp :: int

record VoteSet =
  vt_Height :: uint64
  vt_Round :: uint32
  vt_Type :: uint8
  vt_Votes :: "(Address, Vote) gomap"
  vt_VotedPower :: uint64

definition NewVoteSet :: "uint64 \<Rightarrow> uint32 \<Rightarrow> uint8 \<Rightarrow> VoteSet" where
  "NewVoteSet height round voteType =
     \<lparr>vt_Height = height, vt_Round = round, vt_Type = voteType, vt_Votes = [], vt_VotedPower = 0\<rparr>"

definition AddVote :: "VoteSet \<Rightarrow> Vote \<Rightarrow> uint64 \<Rightarrow> VoteSet \<times> bool" where
  "AddVote vs vote votingPower =
     (if vote_Height vote \<noteq> vt_Height vs \<or> vote_Round vote \<noteq> vt_Round vs \<or> vote_Type vote \<noteq> vt_Type vs then (vs, False)
      else if map_of (vt_Votes vs) (vote_VoterID vote) \<noteq> None then (vs, False)
      else (vs\<lparr>vt_Votes := mput (vote_VoterID vote) vote (vt_Votes vs),
               vt_VotedPower := vt_VotedPower vs + votingPower\<rparr>, True))"

text \<open>Both products are taken modulo \<open>2^64\<close>.\<close>

definition HasTwoThirdsMajority :: "VoteSet \<Rightarrow> uint64 \<Rightarrow> bool" where
  "HasTwoThirdsMajority vs totalPower \<longleftrightarrow> totalPower * 2 < vt_VotedPower vs * 3"

section \<open>Proposals\<close>

record BlockProposal =
  bp_Height :: uint64
  bp_Round :: uint32
  bp_BlockHash :: Hash
  bp_ProposerID :: Address
  bp_Signature :: Signature
  bp_Timestamp :: int

record Proposer =
  pr_Validator :: "Validator option"
  pr_PrivateKey :: "byte list"
  pr_CurrentRound :: uint32

definition NewProposer :: "Validator option \<Rightarrow> byte list \<Rightarrow> Proposer" where
  "NewProposer validator privateKey = \<lparr>pr_Validator = validator, pr_PrivateKey = privateKey, pr_CurrentRound = 0\<rparr>"

definition signBlockHash :: "crypto \<Rightarrow> nat \<Rightarrow> Proposer \<Rightarrow> Hash \<Rightarrow> consensus_error + Signature" where
  "signBlockHash C r p blockHash =
     bindE (wrapE (ConsWrap ''failed to parse private key'' \<circ> ConsKey) (BytesToPrivateKey C (pr_PrivateKey p))) (\<lambda>privateKey.
     wrapE ConsKey (SignData C r privateKey (HashToBytes blockHash)))"

definition ProposeBlock :: "crypto \<Rightarrow> nat \<Rightarrow> Proposer \<Rightarrow> uint64 \<Rightarrow> Hash \<Rightarrow> int \<Rightarrow> consensus_error + BlockProposal" where
  "ProposeBlock C r p height blockHash timestamp =
     (case pr_Validator p of
        None \<Rightarrow> Inl ValidatorNotSet
      | Some v \<Rightarrow>
          bindE (wrapE (ConsWrap ''failed to sign block'') (signBlockHash C r p blockHash)) (\<lambda>sig.
          Inr \<lparr>bp_Height = height, bp_Round = pr_CurrentRound p, bp_BlockHash = blockHash,
               bp_ProposerID = val_Address v, bp_Signature = sig, bp_Timestamp = timestamp\<rparr>))"

definition VerifyProposal :: "crypto \<Rightarrow> BlockProposal option \<Rightarrow> Validator option \<Rightarrow> bool" where
  "VerifyProposal C proposal validator =
     (case (proposal, validator) of
        (Some prop, Some v) \<Rightarrow>
          if bp_ProposerID prop \<noteq> val_Address v then False
          else ValidateBlockSignature C v (bp_BlockHash prop) (bp_Signature prop)
      | _ \<Rightarrow> False)"

definition IncrementRound_proposer :: "Proposer \<Rightarrow> Proposer" where
  "IncrementRound_proposer p = p\<lparr>pr_CurrentRound := pr_CurrentRound p + 1\<rparr>"

definition ResetRound :: "Proposer \<Rightarrow> Proposer" where
  "ResetRound p = p\<lparr>pr_CurrentRound := 0\<rparr>"

text \<open>A proposal made with the key of a validator verifies against that validator.\<close>

lemma signBlockHash_ok:
  "signBlockHash C r p h = Inr sig \<longleftrightarrow>
     (\<exists>sk. BytesToPrivateKey C (pr_PrivateKey p) = Inr sk \<and> SignData C r sk h = Inr sig)"
  by (auto simp: signBlockHash_def bindE_Inr wrapE_Inr HashToBytes_def)

definition key_matches :: "crypto \<Rightarrow> Proposer \<Rightarrow> Validator \<Rightarrow> bool" where
  "key_matches C p v \<longleftrightarrow> (\<exists>sk. BytesToPrivateKey C (pr_PrivateKey p) = Inr (Some sk) \<and>
     BytesToPublicKey C (val_PublicKey v) = Inr (sk_PublicKey sk))"

lemma signBlockHash_verifies:
  assumes "der_signatures C" "signatures_verify C" "key_matches C p v" "signBlockHash C r p h = Inr sig"
  shows "ValidateBlockSignature C v h sig"
proof -
  from assms(3,4) obtain sk where sk: "BytesToPublicKey C (val_PublicKey v) = Inr (sk_PublicKey sk)"
    "SignData C r (Some sk) h = Inr sig" by (auto simp: key_matches_def signBlockHash_ok)
  from SignData_verifies [OF assms(1,2) sk(2)] sk(1) show ?thesis
    by (simp add: ValidateBlockSignature_def HashToBytes_def)
qed

section \<open>Vote sets\<close>

text \<open>
  Each entry is the vote of its key, for the height, round and type of the set, and the counter is
  the sum of the powers \<open>pow\<close> of the voters.
\<close>

definition wf_VoteSet :: "(Address \<Rightarrow> uint64) \<Rightarrow> VoteSet \<Rightarrow> bool" where
  "wf_VoteSet pow vs \<longleftrightarrow>
     wf_map (vt_Votes vs) \<and>
     (\<forall>(a, v)\<in>set (vt_Votes vs). vote_VoterID v = a \<and> vote_Height v = vt_Height vs \<and>
        vote_Round v = vt_Round vs \<and> vote_Type v = vt_Type vs) \<and>
     vt_VotedPower vs = sum_list (map (pow \<circ> fst) (vt_Votes vs))"

definition voters :: "VoteSet \<Rightarrow> Address set" where
  "voters vs = fst ` set (vt_Votes vs)"

lemma wf_NewVoteSet [simp]: "wf_VoteSet pow (NewVoteSet h r t)"
  by (simp add: wf_VoteSet_def NewVoteSet_def)

lemma AddVote_cases:
  obtains (ignored) "AddVote vs v w = (vs, False)"
    "vote_VoterID v \<in> voters vs \<or> (vote_Height v, vote_Round v, vote_Type v) \<noteq> (vt_Height vs, vt_Round vs, vt_Type vs)"
  | (counted) "AddVote vs v w = (vs\<lparr>vt_Votes := vt_Votes vs @ [(vote_VoterID v, v)], vt_VotedPower := vt_VotedPower vs + w\<rparr>, True)"
    "vote_VoterID v \<notin> voters vs" "vote_Height v = vt_Height vs" "vote_Round v = vt_Round vs" "vote_Type v = vt_Type vs"
proof (cases "snd (AddVote vs v w)")
  case True
  then have new: "vote_VoterID v \<notin> fst ` set (vt_Votes vs)"
    by (auto simp: AddVote_def map_of_eq_None_iff split: if_splits)
  with True counted show ?thesis by (auto simp: AddVote_def voters_def mput_new map_of_eq_None_iff split: if_splits)
next
  case False
  with ignored show ?thesis by (auto simp: AddVote_def voters_def map_of_eq_None_iff split: if_splits)
qed

lemma wf_AddVote: "wf_VoteSet pow vs \<Longrightarrow> AddVote vs v (pow (vote_VoterID v)) = (vs', b) \<Longrightarrow> wf_VoteSet pow vs'"
  by (cases rule: AddVote_cases [of vs v "pow (vote_VoterID v)"])
    (auto simp: wf_VoteSet_def voters_def wf_map_def)

lemma AddVote_voters:
  "AddVote vs v w = (vs', b) \<Longrightarrow> voters vs' = (if b then insert (vote_VoterID v) (voters vs) else voters vs)"
  by (cases rule: AddVote_cases [of vs v w]) (auto simp: voters_def)

text \<open>A second vote of the same voter is never counted.\<close>

lemma AddVote_once: "AddVote vs v w = (vs', b) \<Longrightarrow> vote_VoterID v' = vote_VoterID v \<Longrightarrow> b \<Longrightarrow> AddVote vs' v' w' = (vs', False)"
  by (auto simp: AddVote_def map_of_mput split: if_splits)

text \<open>Counting a sequence of votes: who is in the set afterwards.\<close>

lemma AddVote_step:
  "vt_Height (fst (AddVote s v w)) = vt_Height s" "vt_Round (fst (AddVote s v w)) = vt_Round s" "vt_Type (fst (AddVote s v w)) = vt_Type s"
  "voters (fst (AddVote s v w)) =
     (if vote_Height v = vt_Height s \<and> vote_Round v = vt_Round s \<and> vote_Type v = vt_Type s then insert (vote_VoterID v) (voters s) else voters s)"
  by (cases rule: AddVote_cases [of s v w]; auto simp: voters_def)+

lemma AddVote_foldl:
  assumes "wf_VoteSet pow s"
  shows "wf_VoteSet pow (foldl (\<lambda>s v. fst (AddVote s v (pow (vote_VoterID v)))) s votes) \<and>
    voters (foldl (\<lambda>s v. fst (AddVote s v (pow (vote_VoterID v)))) s votes) =
      voters s \<union> vote_VoterID ` {v \<in> set votes. vote_Height v = vt_Height s \<and> vote_Round v = vt_Round s \<and> vote_Type v = vt_Type s}"
  using assms
proof (induction votes arbitrary: s)
  case (Cons v votes)
  define s' where "s' = fst (AddVote s v (pow (vote_VoterID v)))"
  have "wf_VoteSet pow s'" using wf_AddVote [OF Cons.prems, of v] unfolding s'_def by (metis prod.collapse)
  from Cons.IH [OF this] show ?case unfolding foldl.simps s'_def [symmetric] by (auto simp: s'_def AddVote_step)
qed simp

lemma AddVote_run:
  "wf_VoteSet pow (foldl (\<lambda>s v. fst (AddVote s v (pow (vote_VoterID v)))) (NewVoteSet h r t) votes)"
  "voters (foldl (\<lambda>s v. fst (AddVote s v (pow (vote_VoterID v)))) (NewVoteSet h r t) votes) =
     vote_VoterID ` {v \<in> set votes. vote_Height v = h \<and> vote_Round v = r \<and> vote_Type v = t}"
proof -
  have "voters (NewVoteSet h r t) = {}" "vt_Height (NewVoteSet h r t) = h" "vt_Round (NewVoteSet h r t) = r" "vt_Type (NewVoteSet h r t) = t"
    by (simp_all add: NewVoteSet_def voters_def)
  with AddVote_foldl [OF wf_NewVoteSet, of pow h r t votes]
  show "wf_VoteSet pow (foldl (\<lambda>s v. fst (AddVote s v (pow (vote_VoterID v)))) (NewVoteSet h r t) votes)"
    "voters (foldl (\<lambda>s v. fst (AddVote s v (pow (vote_VoterID v)))) (NewVoteSet h r t) votes) =
     vote_VoterID ` {v \<in> set votes. vote_Height v = h \<and> vote_Round v = r \<and> vote_Type v = t}" by simp_all
qed

section \<open>Quorums\<close>

locale weighted_quorum =
  fixes members :: "'v set" and weight :: "'v \<Rightarrow> nat"
  assumes finite_members: "finite members"
begin

lemma quorum_overlap:
  assumes "A \<subseteq> members" "B \<subseteq> members" "2 * sum weight members < 3 * sum weight A" "2 * sum weight members < 3 * sum weight B"
  shows "sum weight members < 3 * sum weight (A \<inter> B)"
proof -
  have fin: "finite A" "finite B" using assms(1,2) finite_members by (auto intro: finite_subset)
  have "sum weight A + sum weight B = sum weight (A \<union> B) + sum weight (A \<inter> B)"
    using fin by (rule sum.union_inter [symmetric])
  moreover have "sum weight (A \<union> B) \<le> sum weight members"
    using assms(1,2) finite_members by (intro sum_mono2) auto
  ultimately show ?thesis using assms(3,4) by linarith
qed

text \<open>If at most a third of the weight is faulty, two quorums share a member that is not.\<close>

lemma quorum_honest:
  assumes "A \<subseteq> members" "B \<subseteq> members" "2 * sum weight members < 3 * sum weight A" "2 * sum weight members < 3 * sum weight B"
    and "finite F" "3 * sum weight F \<le> sum weight members"
  shows "\<exists>v \<in> A \<inter> B. v \<notin> F"
proof (rule ccontr)
  assume "\<not> ?thesis"
  then have "A \<inter> B \<subseteq> F" by blast
  then have "sum weight (A \<inter> B) \<le> sum weight F" using assms(5) by (intro sum_mono2) auto
  with quorum_overlap [OF assms(1-4)] assms(6) show False by linarith
qed

end

definition validator_addrs :: "ValidatorSet \<Rightarrow> Address set" where
  "validator_addrs vs = val_Address ` snd ` set (vs_Validators vs)"

definition power_of :: "ValidatorSet \<Rightarrow> Address \<Rightarrow> uint64" where
  "power_of vs a = (case GetValidator vs a of None \<Rightarrow> 0 | Some v \<Rightarrow> val_VotingPower v)"

interpretation vq: weighted_quorum "validator_addrs vs" "unat \<circ> power_of vs" for vs
  by unfold_locales (simp add: validator_addrs_def)

text \<open>The power counter against the sum over the members, when nothing wraps.\<close>

definition total_power :: "ValidatorSet \<Rightarrow> nat" where
  "total_power vs = (\<Sum>a\<in>validator_addrs vs. unat (power_of vs a))"

definition power_fits :: "ValidatorSet \<Rightarrow> bool" where
  "power_fits vs \<longleftrightarrow> 3 * total_power vs < 2 ^ 64"

lemma validator_addr_entry:
  "wf_ValidatorSet vs \<Longrightarrow> (k, v) \<in> set (vs_Validators vs) \<Longrightarrow> GetValidator vs (val_Address v) = Some v"
  by (auto simp: GetValidator_def wf_ValidatorSet_def map_of_iff_in_set)

lemma total_power_msum:
  assumes "wf_ValidatorSet vs"
  shows "total_power vs = msum (unat \<circ> val_VotingPower) (vs_Validators vs)"
proof -
  let ?addrs = "map (val_Address \<circ> snd) (vs_Validators vs)"
  have "map AddressToString ?addrs = map fst (vs_Validators vs)" using assms by (auto simp: wf_ValidatorSet_def)
  then have "distinct ?addrs" using assms by (metis distinct_map wf_ValidatorSet_def wf_map_def)
  from sum_list_distinct_conv_sum_set [OF this, of "unat \<circ> power_of vs"]
  have "total_power vs = sum_list (map (unat \<circ> power_of vs) ?addrs)"
    by (simp add: total_power_def validator_addrs_def image_comp)
  also have "map (unat \<circ> power_of vs) ?addrs = map (unat \<circ> val_VotingPower \<circ> snd) (vs_Validators vs)"
    using validator_addr_entry [OF assms] by (auto simp: power_of_def)
  finally show ?thesis by (simp add: msum_def comp_assoc)
qed

lemma total_power_counter:
  assumes "wf_ValidatorSet vs" "power_fits vs"
  shows "unat (vs_TotalVotingPower vs) = total_power vs"
  using assms total_power_msum [OF assms(1)] unat_msum [of val_VotingPower "vs_Validators vs"]
  by (simp add: wf_ValidatorSet_def power_fits_def)

text \<open>The comparison of the code is the intended one when the powers are small enough.\<close>

lemma two_thirds_exact:
  fixes v t :: uint64
  assumes "3 * unat v < 2 ^ 64" "3 * unat t < 2 ^ 64"
  shows "t * 2 < v * 3 \<longleftrightarrow> 2 * unat t < 3 * unat v"
proof -
  have "unat (v * 3) = unat v * 3" "unat (t * 2) = unat t * 2"
    using assms by (simp_all add: unat_word_ariths)
  then show ?thesis by (simp add: word_less_nat_alt mult.commute)
qed

lemma voted_power_sum:
  assumes "wf_VoteSet pow vs" "(\<Sum>a\<in>voters vs. unat (pow a)) < 2 ^ 64"
  shows "unat (vt_VotedPower vs) = (\<Sum>a\<in>voters vs. unat (pow a))"
proof -
  have d: "distinct (map fst (vt_Votes vs))" using assms(1) by (simp add: wf_VoteSet_def wf_map_def)
  from sum_list_distinct_conv_sum_set [OF d, of "unat \<circ> pow"]
  have s: "sum_list (map unat (map (pow \<circ> fst) (vt_Votes vs))) = (\<Sum>a\<in>voters vs. unat (pow a))"
    by (simp add: voters_def comp_assoc)
  with assms unat_sum_list_no_wrap [of "map (pow \<circ> fst) (vt_Votes vs)"] show ?thesis by (simp add: wf_VoteSet_def)
qed

lemma majority_is_quorum:
  assumes vs: "wf_ValidatorSet vs" "power_fits vs" and set: "wf_VoteSet (power_of vs) votes" "voters votes \<subseteq> validator_addrs vs"
  shows "HasTwoThirdsMajority votes (vs_TotalVotingPower vs) \<longleftrightarrow>
     2 * total_power vs < 3 * (\<Sum>a\<in>voters votes. unat (power_of vs a))"
proof -
  have le: "(\<Sum>a\<in>voters votes. unat (power_of vs a)) \<le> total_power vs"
    unfolding total_power_def using set(2) by (intro sum_mono2) (auto simp: validator_addrs_def)
  then have v: "unat (vt_VotedPower votes) = (\<Sum>a\<in>voters votes. unat (power_of vs a))"
    using vs(2) by (intro voted_power_sum [OF set(1)]) (simp add: power_fits_def)
  show ?thesis
    unfolding HasTwoThirdsMajority_def
    using two_thirds_exact [of "vt_VotedPower votes" "vs_TotalVotingPower vs"] le v
      total_power_counter [OF vs] vs(2) by (simp add: power_fits_def)
qed

end
