(* ===== verification/Consensus_State.thy ===== *)
theory Consensus_State
  imports Votes Validate
begin

text \<open>
  \<open>consensus/consensus.go\<close>: the consensus object (stakers, validators, height and round) and its
  implementation of the callback interface that block validation uses.  The lemmas show that
  staking keeps both sets consistent and validators above the minimum stake, and that accepted
  commit signatures are a certificate: more than two thirds of the voting power signed the hash.
  The object's database is the node's; only the two consensus keys are written here.
\<close>

definition MinStakeAmount :: uint64 where "MinStakeAmount = 1000"

datatype ConsensusState = StateIdle | StateProposing | StatePrevoting | StatePrecommitting | StateCommitting

record Consensus =
  co_Conf :: Config
  co_DB :: leveldb
  co_State :: ConsensusState
  co_CurrentHeight :: uint64
  co_CurrentRound :: uint32
  co_StakerSet :: StakerSet
  co_ValidatorSet :: ValidatorSet
  co_LocalValidator :: "Validator option"
  co_LocalProposer :: "Proposer option"
  co_ProposerSelectionMode :: string

section \<open>Construction\<close>

definition load_validator :: "ValidatorSet \<Rightarrow> ValidatorConfig \<Rightarrow> consensus_error + ValidatorSet" where
  "load_validator vs v =
     (case StringToAddress (vc_Address v) of
        Inl e \<Rightarrow> Inl BadValidatorAddress
      | Inr addr \<Rightarrow>
          bindE (if vc_PublicKey v \<noteq> []
                 then case hex_DecodeString (vc_PublicKey v) of None \<Rightarrow> Inl BadValidatorKey | Some pubKey \<Rightarrow> Inr pubKey
                 else Inr []) (\<lambda>pubKey.
          Inr (vs\<lparr>vs_Validators := mput (AddressToString addr)
                    \<lparr>val_Address = addr, val_PublicKey = pubKey, val_VotingPower = vc_VotingPower v, val_IsActive = True\<rparr>
                    (vs_Validators vs),
                  vs_TotalVotingPower := vs_TotalVotingPower vs + vc_VotingPower v\<rparr>)))"

definition loadGenesisValidators :: "ValidatorConfig list \<Rightarrow> consensus_error + ValidatorSet" where
  "loadGenesisValidators validators = foldE load_validator \<lparr>vs_Validators = [], vs_TotalVotingPower = 0\<rparr> validators"

definition NewConsensus :: "(string, Staker) ranging \<Rightarrow> Config \<Rightarrow> leveldb \<Rightarrow> consensus_error + Consensus" where
  "NewConsensus \<rho> cfg db =
     bindE (wrapE (ConsWrap ''failed to load staker set'') (LoadStakerSet db)) (\<lambda>stakerSet.
     bindE (wrapE (ConsWrap ''failed to load validator set'') (LoadValidatorSet db)) (\<lambda>validatorSet0.
     bindE (if 0 < length (cfg_Validators cfg)
            then wrapE (ConsWrap ''failed to load genesis validators'') (loadGenesisValidators (cfg_Validators cfg))
            else Inr (UpdateFromStakerSet \<rho> stakerSet MinStakeAmount)) (\<lambda>validatorSet.
     let proposerMode = (if cfg_ProposerSelection cfg = [] then ''roundrobin'' else cfg_ProposerSelection cfg)
     in Inr \<lparr>co_Conf = cfg, co_DB = db, co_State = StateIdle, co_CurrentHeight = 0, co_CurrentRound = 0,
             co_StakerSet = stakerSet, co_ValidatorSet = validatorSet, co_LocalValidator = None,
             co_LocalProposer = None, co_ProposerSelectionMode = proposerMode\<rparr>)))"

section \<open>Operations\<close>

definition RegisterValidator :: "Consensus \<Rightarrow> Address \<Rightarrow> byte list \<Rightarrow> byte list \<Rightarrow> Consensus" where
  "RegisterValidator c address publicKey privateKey =
     (let votingPower = (case map_of (vs_Validators (co_ValidatorSet c)) (AddressToString address) of
                           Some existingValidator \<Rightarrow> val_VotingPower existingValidator
                         | None \<Rightarrow> 0);
          validator = \<lparr>val_Address = address, val_PublicKey = publicKey, val_VotingPower = votingPower, val_IsActive = True\<rparr>
      in c\<lparr>co_LocalValidator := Some validator, co_LocalProposer := Some (NewProposer (Some validator) privateKey)\<rparr>)"

text \<open>
  The sets in memory change before they are saved and keep the change when a save fails; the
  result is the new object and the error, if any.
\<close>

definition save_sets :: "db_ops \<Rightarrow> Consensus \<Rightarrow> Consensus \<times> consensus_error option" where
  "save_sets W c =
     (case SaveStakerSet W (co_DB c) (co_StakerSet c) of
        Inl e \<Rightarrow> (c, Some (ConsWrap ''failed to save staker set'' e))
      | Inr db1 \<Rightarrow>
          (case SaveValidatorSet W db1 (co_ValidatorSet c) of
             Inl e \<Rightarrow> (c\<lparr>co_DB := db1\<rparr>, Some (ConsWrap ''failed to save validator set'' e))
           | Inr db2 \<Rightarrow> (c\<lparr>co_DB := db2\<rparr>, None)))"

definition Stake ::
    "db_ops \<Rightarrow> (string, Staker) ranging \<Rightarrow> int \<Rightarrow> Consensus \<Rightarrow> Address \<Rightarrow> uint64 \<Rightarrow> byte list \<Rightarrow> Consensus \<times> consensus_error option" where
  "Stake W \<rho> now c address amount publicKey =
     (let ss = AddStaker now (co_StakerSet c) address amount publicKey
      in save_sets W (c\<lparr>co_StakerSet := ss, co_ValidatorSet := UpdateFromStakerSet \<rho> ss MinStakeAmount\<rparr>))"

definition Unstake ::
    "db_ops \<Rightarrow> (string, Staker) ranging \<Rightarrow> Consensus \<Rightarrow> Address \<Rightarrow> uint64 \<Rightarrow> Consensus \<times> consensus_error option" where
  "Unstake W \<rho> c address amount =
     (case RemoveStaker (co_StakerSet c) address amount of
        Inl e \<Rightarrow> (c, Some e)
      | Inr ss \<Rightarrow> save_sets W (c\<lparr>co_StakerSet := ss, co_ValidatorSet := UpdateFromStakerSet \<rho> ss MinStakeAmount\<rparr>))"

definition GetCurrentProposer :: "(string, Validator) ranging \<Rightarrow> Consensus \<Rightarrow> Validator option" where
  "GetCurrentProposer \<rho> c = SelectProposer \<rho> (co_ValidatorSet c) (co_CurrentHeight c) (co_CurrentRound c)"

definition SelectProposerByMode ::
    "crypto \<Rightarrow> (string, Validator) ranging \<Rightarrow> (string, Validator) ranging \<Rightarrow> Consensus \<Rightarrow> uint64 \<Rightarrow> uint32 \<Rightarrow> Hash \<Rightarrow> Validator option" where
  "SelectProposerByMode C \<rho> \<rho>' c height round prevBlockHash =
     (if co_ProposerSelectionMode c = ''vrf'' then SelectProposerVRF C \<rho> (co_ValidatorSet c) height round prevBlockHash
      else if co_ProposerSelectionMode c = ''hybrid'' then SelectProposerHybrid C \<rho> \<rho>' (co_ValidatorSet c) height round prevBlockHash
      else SelectProposer \<rho> (co_ValidatorSet c) height round)"

definition IsLocalProposer :: "(string, Validator) ranging \<Rightarrow> Consensus \<Rightarrow> bool" where
  "IsLocalProposer \<rho> c =
     (case co_LocalValidator c of
        None \<Rightarrow> False
      | Some v \<Rightarrow> (case GetCurrentProposer \<rho> c of None \<Rightarrow> False | Some proposer \<Rightarrow> val_Address proposer = val_Address v))"

definition UpdateHeight :: "Consensus \<Rightarrow> uint64 \<Rightarrow> Consensus" where
  "UpdateHeight c height = c\<lparr>co_CurrentHeight := height, co_CurrentRound := 0, co_State := StateIdle\<rparr>"

definition IncrementRound :: "Consensus \<Rightarrow> Consensus" where
  "IncrementRound c = c\<lparr>co_CurrentRound := co_CurrentRound c + 1\<rparr>"

definition GetValidatorCount :: "(string, Validator) ranging \<Rightarrow> Consensus \<Rightarrow> nat" where
  "GetValidatorCount \<rho> c = length (GetActiveValidators \<rho> (co_ValidatorSet c))"

definition GetTotalStaked :: "Consensus \<Rightarrow> uint64" where
  "GetTotalStaked c = ss_TotalStaked (co_StakerSet c)"

section \<open>The callback interface\<close>

definition Consensus_ValidateProposerSignature :: "crypto \<Rightarrow> Consensus \<Rightarrow> Address \<Rightarrow> Hash \<Rightarrow> Signature \<Rightarrow> bool" where
  "Consensus_ValidateProposerSignature C c proposer blockHash sig =
     (case map_of (vs_Validators (co_ValidatorSet c)) (AddressToString proposer) of
        None \<Rightarrow> False
      | Some validator \<Rightarrow> if \<not> val_IsActive validator then False else ValidateBlockSignature C validator blockHash sig)"

definition IsValidProposer :: "Consensus \<Rightarrow> Address \<Rightarrow> uint64 \<Rightarrow> bool" where
  "IsValidProposer c proposer height =
     (case map_of (vs_Validators (co_ValidatorSet c)) (AddressToString proposer) of
        None \<Rightarrow> False
      | Some validator \<Rightarrow> if \<not> val_IsActive validator then False else True)"

text \<open>The body of the loop over the commit signatures: power so far and addresses seen.\<close>

definition count_commit ::
    "crypto \<Rightarrow> Consensus \<Rightarrow> Hash \<Rightarrow> uint64 \<times> string list \<Rightarrow> CommitSignature \<Rightarrow> core_error + (uint64 \<times> string list)" where
  "count_commit C c blockHash st sig =
     (let (votedPower, seenValidators) = st; addrStr = AddressToString (cs_ValidatorAddress sig) in
      if List.member seenValidators addrStr then Inr st
      else case map_of (vs_Validators (co_ValidatorSet c)) addrStr of
             None \<Rightarrow> Inr st
           | Some validator \<Rightarrow>
               if \<not> val_IsActive validator then Inr st
               else if \<not> ValidateBlockSignature C validator blockHash (cs_Signature sig)
               then Inl (BadCommitSignature (cs_ValidatorAddress sig))
               else Inr (votedPower + val_VotingPower validator, addrStr # seenValidators))"

definition ValidateCommitSignatures :: "crypto \<Rightarrow> Consensus \<Rightarrow> Hash \<Rightarrow> CommitSignature list \<Rightarrow> core_error + unit" where
  "ValidateCommitSignatures C c blockHash commitSigs =
     (if length (vs_Validators (co_ValidatorSet c)) = 0 then Inr ()
      else let totalPower = vs_TotalVotingPower (co_ValidatorSet c) in
           bindE (foldE (count_commit C c blockHash) (0, []) commitSigs) (\<lambda>(votedPower, seenValidators).
           if votedPower * 3 \<le> totalPower * 2 then Inl (InsufficientCommit votedPower totalPower) else Inr ()))"

definition proposer_validator :: "crypto \<Rightarrow> Consensus \<Rightarrow> ProposerValidator" where
  "proposer_validator C c =
     \<lparr>pv_ValidateProposerSignature = Consensus_ValidateProposerSignature C c,
      pv_IsValidProposer = IsValidProposer c,
      pv_ValidateCommitSignatures = ValidateCommitSignatures C c\<rparr>"

section \<open>Staking keeps the sets consistent\<close>

definition wf_Consensus :: "Consensus \<Rightarrow> bool" where
  "wf_Consensus c \<longleftrightarrow> wf_StakerSet (co_StakerSet c) \<and> wf_ValidatorSet (co_ValidatorSet c)"

lemma save_sets_sets:
  "save_sets W c = (c', e) \<Longrightarrow> co_StakerSet c' = co_StakerSet c \<and> co_ValidatorSet c' = co_ValidatorSet c"
  by (auto simp: save_sets_def split: sum.splits)

lemma save_sets_stored:
  assumes "db_laws W" "save_sets W c = (c', None)"
  shows "LoadStakerSet (co_DB c') = Inr (co_StakerSet c)" "LoadValidatorSet (co_DB c') = Inr (co_ValidatorSet c)"
proof -
  from assms(2) obtain db1 db2 where d: "SaveStakerSet W (co_DB c) (co_StakerSet c) = Inr db1"
    "SaveValidatorSet W db1 (co_ValidatorSet c) = Inr db2" "co_DB c' = db2"
    by (auto simp: save_sets_def split: sum.splits)
  show "LoadValidatorSet (co_DB c') = Inr (co_ValidatorSet c)" using SaveValidatorSet_load [OF assms(1) d(2)] d(3) by simp
  have "PrefixStakerInfo \<noteq> ValidatorSetKey" by (simp add: prefix_defs)
  from SaveValidatorSet_frame [OF assms(1) d(2) this] SaveStakerSet_load [OF assms(1) d(1)] d(3)
  show "LoadStakerSet (co_DB c') = Inr (co_StakerSet c)" by (simp add: LoadStakerSet_def)
qed

lemma wf_Stake: "wf_Consensus c \<Longrightarrow> range_ok \<rho> \<Longrightarrow> Stake W \<rho> now c a amt pk = (c', e) \<Longrightarrow> wf_Consensus c'"
  by (auto simp: wf_Consensus_def Stake_def Let_def wf_AddStaker wf_UpdateFromStakerSet dest!: save_sets_sets)

lemma wf_Unstake: "wf_Consensus c \<Longrightarrow> range_ok \<rho> \<Longrightarrow> Unstake W \<rho> c a amt = (c', e) \<Longrightarrow> wf_Consensus c'"
  by (auto simp: wf_Consensus_def Unstake_def wf_UpdateFromStakerSet dest: wf_RemoveStaker dest!: save_sets_sets split: sum.splits)

text \<open>Genesis validators: the counter is right when the configured addresses differ.\<close>

lemma load_validator_Inr:
  "load_validator vs v = Inr vs' \<Longrightarrow> \<exists>addr pk. StringToAddress (vc_Address v) = Inr addr \<and>
     vs' = AddValidator vs \<lparr>val_Address = addr, val_PublicKey = pk, val_VotingPower = vc_VotingPower v, val_IsActive = True\<rparr>"
  by (auto simp: load_validator_def AddValidator_def bindE_Inr split: sum.splits)

lemma load_validators_wf:
  assumes "foldE load_validator vs xs = Inr vs'" "wf_ValidatorSet vs"
    "distinct (map (StringToAddress \<circ> vc_Address) xs)"
    "\<forall>v\<in>set xs. \<forall>a. StringToAddress (vc_Address v) = Inr a \<longrightarrow> GetValidator vs a = None"
  shows "wf_ValidatorSet vs'"
  using assms
proof (induction xs arbitrary: vs)
  case Nil
  then show ?case by simp
next
  case (Cons v xs)
  from Cons.prems(1) obtain vs1 where vs1: "load_validator vs v = Inr vs1" "foldE load_validator vs1 xs = Inr vs'"
    by (auto simp: bindE_Inr)
  from load_validator_Inr [OF vs1(1)] obtain addr pk where a: "StringToAddress (vc_Address v) = Inr addr"
    "vs1 = AddValidator vs \<lparr>val_Address = addr, val_PublicKey = pk, val_VotingPower = vc_VotingPower v, val_IsActive = True\<rparr>" by blast
  have "wf_ValidatorSet vs1" using Cons.prems a by (simp add: wf_AddValidator)
  moreover have "\<forall>w\<in>set xs. \<forall>b. StringToAddress (vc_Address w) = Inr b \<longrightarrow> GetValidator vs1 b = None"
  proof (intro ballI allI impI)
    fix w b
    assume w: "w \<in> set xs" "StringToAddress (vc_Address w) = Inr b"
    have "StringToAddress (vc_Address w) \<noteq> StringToAddress (vc_Address v)" using Cons.prems(3) w(1) by (simp add: image_iff) metis
    then have "b \<noteq> addr" using a(1) w(2) by auto
    with Cons.prems(4) w a(2) show "GetValidator vs1 b = None" by (simp add: GetValidator_AddValidator)
  qed
  ultimately show ?case using Cons.IH [OF vs1(2)] Cons.prems(3) by simp
qed


text \<open>Nodes with the same validator set and mode agree on the proposer, whatever their map orders.\<close>

lemma SelectProposerByMode_agrees:
  assumes "wf_ValidatorSet (co_ValidatorSet c)" "few_validators (co_ValidatorSet c)"
    "range_ok \<rho>" "range_ok \<rho>'" "range_ok \<rho>1" "range_ok \<rho>1'"
    "co_ValidatorSet c' = co_ValidatorSet c" "co_ProposerSelectionMode c' = co_ProposerSelectionMode c"
  shows "SelectProposerByMode C \<rho>1 \<rho>1' c' h r prev = SelectProposerByMode C \<rho> \<rho>' c h r prev"
  using assms by (simp add: SelectProposerByMode_def SelectProposer_eq SelectProposerVRF_eq SelectProposerHybrid_eq Let_def)

lemma SelectProposerByMode_active:
  assumes "wf_ValidatorSet (co_ValidatorSet c)" "few_validators (co_ValidatorSet c)" "range_ok \<rho>" "range_ok \<rho>'"
    "active_set (co_ValidatorSet c) \<noteq> {}"
  shows "\<exists>v\<in>active_set (co_ValidatorSet c). SelectProposerByMode C \<rho> \<rho>' c h r prev = Some v"
  using SelectProposer_active [OF assms(1,3,2,5)] SelectProposerVRF_active [OF assms(1,3,2,5)]
    SelectProposerHybrid_active [OF assms(1,3,4,2,5)]
  by (simp add: SelectProposerByMode_def)

section \<open>Commit certificates\<close>

text \<open>An address whose active validator's key verifies one of the signatures.\<close>

definition commit_signed :: "crypto \<Rightarrow> Consensus \<Rightarrow> Hash \<Rightarrow> Address \<Rightarrow> Signature \<Rightarrow> bool" where
  "commit_signed C c h a sig \<longleftrightarrow>
     (\<exists>v. GetValidator (co_ValidatorSet c) a = Some v \<and> val_IsActive v \<and> ValidateBlockSignature C v h sig)"

text \<open>
  The loop after the signatures \<open>sigs\<close>: the addresses seen are distinct, each verified a
  signature of the list, and the power is theirs.
\<close>

definition commit_inv :: "crypto \<Rightarrow> Consensus \<Rightarrow> Hash \<Rightarrow> CommitSignature list \<Rightarrow> uint64 \<times> string list \<Rightarrow> bool" where
  "commit_inv C c h sigs st \<longleftrightarrow>
     (\<exists>as. snd st = map AddressToString as \<and> distinct as \<and> fst st = sum_list (map (power_of (co_ValidatorSet c)) as) \<and>
        (\<forall>a\<in>set as. \<exists>s\<in>set sigs. cs_ValidatorAddress s = a \<and> commit_signed C c h a (cs_Signature s)))"

lemma count_commit_step:
  assumes "commit_inv C c h sigs st" "count_commit C c h st s = Inr st'"
  shows "commit_inv C c h (sigs @ [s]) st'"
proof -
  let ?a = "cs_ValidatorAddress s"
  from assms(1) obtain as where as: "snd st = map AddressToString as" "distinct as"
    "fst st = sum_list (map (power_of (co_ValidatorSet c)) as)"
    "\<forall>a\<in>set as. \<exists>s\<in>set sigs. cs_ValidatorAddress s = a \<and> commit_signed C c h a (cs_Signature s)"
    by (auto simp: commit_inv_def)
  from assms(2) consider "st' = st"
    | v where "?a \<notin> set as" "GetValidator (co_ValidatorSet c) ?a = Some v" "val_IsActive v"
        "ValidateBlockSignature C v h (cs_Signature s)" "st' = (fst st + val_VotingPower v, AddressToString ?a # snd st)"
    using as(1) by (cases st) (auto simp: count_commit_def Let_def GetValidator_def split: if_splits option.splits)
  then show ?thesis
  proof cases
    case 1
    with as show ?thesis by (auto simp: commit_inv_def)
  next
    case 2
    with as have "snd st' = map AddressToString (?a # as) \<and> distinct (?a # as) \<and>
       fst st' = sum_list (map (power_of (co_ValidatorSet c)) (?a # as)) \<and>
       (\<forall>a\<in>set (?a # as). \<exists>x\<in>set (sigs @ [s]). cs_ValidatorAddress x = a \<and> commit_signed C c h a (cs_Signature x))"
      by (auto simp: power_of_def commit_signed_def add.commute)
    then show ?thesis unfolding commit_inv_def by blast
  qed
qed

lemma count_commit_fold: "foldE (count_commit C c h) (0, []) sigs = Inr st \<Longrightarrow> commit_inv C c h sigs st"
proof (induction sigs arbitrary: st rule: rev_induct)
  case Nil
  then show ?case by (auto simp: commit_inv_def)
next
  case (snoc s sigs)
  then obtain st1 where "foldE (count_commit C c h) (0, []) sigs = Inr st1" "count_commit C c h st1 s = Inr st"
    by (auto simp: foldE_append bindE_Inr)
  with snoc.IH count_commit_step show ?case by blast
qed

text \<open>The setting in which the arithmetic of the check is exact.\<close>

definition cert_ready :: "Consensus \<Rightarrow> bool" where
  "cert_ready c \<longleftrightarrow> wf_ValidatorSet (co_ValidatorSet c) \<and> power_fits (co_ValidatorSet c) \<and> vs_Validators (co_ValidatorSet c) \<noteq> []"

lemma GetValidator_addr: "GetValidator vs a = Some v \<Longrightarrow> wf_ValidatorSet vs \<Longrightarrow> a \<in> validator_addrs vs"
  by (force simp: GetValidator_def validator_addrs_def wf_ValidatorSet_def dest!: map_of_SomeD)

lemma ValidateCommitSignatures_sound:
  assumes c: "cert_ready c" and ok: "ValidateCommitSignatures C c h sigs = Inr u"
  obtains S where "S \<subseteq> validator_addrs (co_ValidatorSet c)"
    "\<forall>a\<in>S. \<exists>s\<in>set sigs. cs_ValidatorAddress s = a \<and> commit_signed C c h a (cs_Signature s)"
    "2 * total_power (co_ValidatorSet c) < 3 * (\<Sum>a\<in>S. unat (power_of (co_ValidatorSet c) a))"
proof -
  let ?vs = "co_ValidatorSet c"
  from ok c obtain st where st: "foldE (count_commit C c h) (0, []) sigs = Inr st" "\<not> fst st * 3 \<le> vs_TotalVotingPower ?vs * 2"
    by (auto simp: ValidateCommitSignatures_def cert_ready_def bindE_Inr Let_def split: if_splits)
  from count_commit_fold [OF st(1)] obtain as where as: "distinct as" "fst st = sum_list (map (power_of ?vs) as)"
    "\<forall>a\<in>set as. \<exists>s\<in>set sigs. cs_ValidatorAddress s = a \<and> commit_signed C c h a (cs_Signature s)"
    by (auto simp: commit_inv_def)
  have sub: "set as \<subseteq> validator_addrs ?vs"
    using as(3) c GetValidator_addr by (fastforce simp: commit_signed_def cert_ready_def)
  have sum: "sum_list (map unat (map (power_of ?vs) as)) = (\<Sum>a\<in>set as. unat (power_of ?vs a))"
    using sum_list_distinct_conv_sum_set [OF as(1), of "unat \<circ> power_of ?vs"] by simp
  also have "\<dots> \<le> total_power ?vs"
    unfolding total_power_def using sub by (intro sum_mono2) (auto simp: validator_addrs_def)
  finally have le: "sum_list (map unat (map (power_of ?vs) as)) \<le> total_power ?vs" .
  have fits: "3 * total_power ?vs < 2 ^ 64" and cnt: "unat (vs_TotalVotingPower ?vs) = total_power ?vs"
    using c total_power_counter by (auto simp: cert_ready_def power_fits_def)
  have "unat (fst st) = (\<Sum>a\<in>set as. unat (power_of ?vs a))"
    using unat_sum_list_no_wrap [of "map (power_of ?vs) as"] le fits sum as(2) by simp
  with two_thirds_exact [of "fst st" "vs_TotalVotingPower ?vs"] st(2) le fits cnt sum
  have "2 * total_power ?vs < 3 * (\<Sum>a\<in>set as. unat (power_of ?vs a))" by (simp add: not_le)
  with that sub as(3) show thesis by blast
qed

text \<open>Valid signatures of distinct active validators are all counted.\<close>

lemma count_commit_run:
  assumes "distinct (map cs_ValidatorAddress sigs)"
    "\<forall>s\<in>set sigs. commit_signed C c h (cs_ValidatorAddress s) (cs_Signature s)"
    "\<forall>s\<in>set sigs. AddressToString (cs_ValidatorAddress s) \<notin> set seen"
  shows "\<exists>seen'. foldE (count_commit C c h) (w, seen) sigs =
     Inr (w + sum_list (map (power_of (co_ValidatorSet c) \<circ> cs_ValidatorAddress) sigs), seen')"
  using assms
proof (induction sigs arbitrary: w seen)
  case Nil
  then show ?case by simp
next
  case (Cons x sigs)
  let ?a = "cs_ValidatorAddress x"
  from Cons.prems(2) obtain v where v: "GetValidator (co_ValidatorSet c) ?a = Some v" "val_IsActive v"
    "ValidateBlockSignature C v h (cs_Signature x)" by (auto simp: commit_signed_def)
  then have x: "count_commit C c h (w, seen) x = Inr (w + power_of (co_ValidatorSet c) ?a, AddressToString ?a # seen)"
    using Cons.prems(3) by (simp add: count_commit_def power_of_def GetValidator_def)
  have "\<forall>s\<in>set sigs. AddressToString (cs_ValidatorAddress s) \<notin> set (AddressToString ?a # seen)"
    using Cons.prems(1,3) by (auto simp: image_iff)
  with Cons.IH [of "AddressToString ?a # seen" "w + power_of (co_ValidatorSet c) ?a"] Cons.prems(1,2) show ?case
    by (auto simp: x add.assoc)
qed

lemma ValidateCommitSignatures_complete:
  assumes c: "cert_ready c" and d: "distinct (map cs_ValidatorAddress sigs)"
    and sig: "\<forall>s\<in>set sigs. commit_signed C c h (cs_ValidatorAddress s) (cs_Signature s)"
    and maj: "2 * total_power (co_ValidatorSet c) < 3 * (\<Sum>a\<in>cs_ValidatorAddress ` set sigs. unat (power_of (co_ValidatorSet c) a))"
  shows "ValidateCommitSignatures C c h sigs = Inr ()"
proof -
  let ?vs = "co_ValidatorSet c" and ?as = "map cs_ValidatorAddress sigs"
  have fits: "power_fits ?vs" and wf: "wf_ValidatorSet ?vs" and ne: "vs_Validators ?vs \<noteq> []" using c by (simp_all add: cert_ready_def)
  have sub: "set ?as \<subseteq> validator_addrs ?vs" using sig wf by (auto simp: commit_signed_def dest: GetValidator_addr)
  have sum: "sum_list (map unat (map (power_of ?vs) ?as)) = (\<Sum>a\<in>set ?as. unat (power_of ?vs a))"
    using sum_list_distinct_conv_sum_set [OF d, of "unat \<circ> power_of ?vs"] by (simp add: comp_assoc)
  have "(\<Sum>a\<in>set ?as. unat (power_of ?vs a)) \<le> total_power ?vs"
    unfolding total_power_def using sub by (intro sum_mono2) (auto simp: validator_addrs_def)
  then have le: "sum_list (map unat (map (power_of ?vs) ?as)) \<le> total_power ?vs" using sum by simp
  let ?w = "sum_list (map (power_of ?vs) ?as)"
  have w: "unat ?w = (\<Sum>a\<in>set ?as. unat (power_of ?vs a))"
    using unat_sum_list_no_wrap [of "map (power_of ?vs) ?as"] le fits sum by (simp add: power_fits_def)
  have "vs_TotalVotingPower ?vs * 2 < ?w * 3"
    using two_thirds_exact [of ?w "vs_TotalVotingPower ?vs"] w le sum fits total_power_counter [OF wf fits] maj
    by (simp add: power_fits_def)
  moreover obtain seen where "foldE (count_commit C c h) (0, []) sigs = Inr (?w, seen)"
    using count_commit_run [OF d sig, of "[]" 0] by auto
  ultimately show ?thesis using ne by (simp add: ValidateCommitSignatures_def Let_def not_le)
qed

text \<open>One invalid signature of an active validator makes the whole list unacceptable.\<close>

lemma count_commit_bad:
  assumes "s \<in> set sigs" "GetValidator (co_ValidatorSet c) (cs_ValidatorAddress s) = Some v" "val_IsActive v"
    "\<forall>s'\<in>set sigs. cs_ValidatorAddress s' = cs_ValidatorAddress s \<longrightarrow> \<not> ValidateBlockSignature C v h (cs_Signature s')"
    "AddressToString (cs_ValidatorAddress s) \<notin> set (snd st)"
  shows "\<exists>e. foldE (count_commit C c h) st sigs = Inl e"
  using assms
proof (induction sigs arbitrary: st)
  case Nil
  then show ?case by simp
next
  case (Cons x sigs)
  show ?case
  proof (cases "cs_ValidatorAddress x = cs_ValidatorAddress s")
    case True
    with Cons.prems show ?thesis by (cases st) (simp add: count_commit_def GetValidator_def)
  next
    case False
    with Cons.prems(1) have s: "s \<in> set sigs" by auto
    show ?thesis
    proof (cases "count_commit C c h st x")
      case (Inl e)
      then show ?thesis by simp
    next
      case (Inr st')
      then have "AddressToString (cs_ValidatorAddress s) \<notin> set (snd st')"
        using False Cons.prems(5) by (cases st) (auto simp: count_commit_def Let_def split: if_splits option.splits)
      with Cons.IH [OF s Cons.prems(2,3)] Cons.prems(4) Inr show ?thesis by auto
    qed
  qed
qed

section \<open>The contract of certificates\<close>

locale commit_certificates = weighted_quorum members weight
  for members :: "'a set" and weight :: "'a \<Rightarrow> nat" +
  fixes accepted :: "'h \<Rightarrow> 'c \<Rightarrow> bool" and signed_by :: "'h \<Rightarrow> 'c \<Rightarrow> 'a \<Rightarrow> bool"
  assumes sound: "accepted h cs \<Longrightarrow> \<exists>S \<subseteq> members. (\<forall>a\<in>S. signed_by h cs a) \<and> 2 * sum weight members < 3 * sum weight S"
begin

text \<open>Two accepted certificates have common signers with more than a third of the weight.\<close>

lemma common_signers:
  assumes "accepted h cs" "accepted h' cs'"
  shows "\<exists>S \<subseteq> members. (\<forall>a\<in>S. signed_by h cs a \<and> signed_by h' cs' a) \<and> sum weight members < 3 * sum weight S"
proof -
  from sound [OF assms(1)] obtain A where A: "A \<subseteq> members" "\<forall>a\<in>A. signed_by h cs a" "2 * sum weight members < 3 * sum weight A"
    by blast
  from sound [OF assms(2)] obtain B where B: "B \<subseteq> members" "\<forall>a\<in>B. signed_by h' cs' a" "2 * sum weight members < 3 * sum weight B"
    by blast
  have "sum weight members < 3 * sum weight (A \<inter> B)" by (rule quorum_overlap [OF A(1) B(1) A(3) B(3)])
  with A B show ?thesis by (intro exI [of _ "A \<inter> B"]) auto
qed

text \<open>Agreement: if members outside a third of the weight sign one hash only, certificates agree.\<close>

lemma agreement:
  assumes "accepted h cs" "accepted h' cs'" "finite F" "3 * sum weight F \<le> sum weight members"
    and once: "\<And>a. a \<notin> F \<Longrightarrow> signed_by h cs a \<Longrightarrow> signed_by h' cs' a \<Longrightarrow> h = h'"
  shows "h = h'"
proof -
  from sound [OF assms(1)] obtain A where A: "A \<subseteq> members" "\<forall>a\<in>A. signed_by h cs a" "2 * sum weight members < 3 * sum weight A"
    by blast
  from sound [OF assms(2)] obtain B where B: "B \<subseteq> members" "\<forall>a\<in>B. signed_by h' cs' a" "2 * sum weight members < 3 * sum weight B"
    by blast
  from quorum_honest [OF A(1) B(1) A(3) B(3) assms(3,4)] obtain v where "v \<in> A" "v \<in> B" "v \<notin> F" by blast
  with once A(2) B(2) show ?thesis by blast
qed

end

text \<open>The provider: \<open>ValidateCommitSignatures\<close> of a consensus object.\<close>

definition certified :: "crypto \<Rightarrow> Consensus \<Rightarrow> Hash \<Rightarrow> CommitSignature list \<Rightarrow> bool" where
  "certified C c h sigs \<longleftrightarrow> cert_ready c \<and> ValidateCommitSignatures C c h sigs = Inr ()"

definition signed_commit :: "crypto \<Rightarrow> Consensus \<Rightarrow> Hash \<Rightarrow> CommitSignature list \<Rightarrow> Address \<Rightarrow> bool" where
  "signed_commit C c h sigs a \<longleftrightarrow> (\<exists>s\<in>set sigs. cs_ValidatorAddress s = a \<and> commit_signed C c h a (cs_Signature s))"

interpretation cert: commit_certificates "validator_addrs (co_ValidatorSet c)" "unat \<circ> power_of (co_ValidatorSet c)"
  "certified C c" "signed_commit C c" for C c
proof unfold_locales
  fix h sigs
  assume "certified C c h sigs"
  then have c: "cert_ready c" "ValidateCommitSignatures C c h sigs = Inr ()" by (simp_all add: certified_def)
  obtain S where S: "S \<subseteq> validator_addrs (co_ValidatorSet c)"
    "\<forall>a\<in>S. \<exists>s\<in>set sigs. cs_ValidatorAddress s = a \<and> commit_signed C c h a (cs_Signature s)"
    "2 * total_power (co_ValidatorSet c) < 3 * (\<Sum>a\<in>S. unat (power_of (co_ValidatorSet c) a))"
    by (rule ValidateCommitSignatures_sound [OF c])
  then show "\<exists>S\<subseteq>validator_addrs (co_ValidatorSet c). (\<forall>a\<in>S. signed_commit C c h sigs a) \<and>
      2 * sum (unat \<circ> power_of (co_ValidatorSet c)) (validator_addrs (co_ValidatorSet c)) < 3 * sum (unat \<circ> power_of (co_ValidatorSet c)) S"
    by (intro exI [of _ S]) (simp add: signed_commit_def total_power_def)
qed

end
