(* ===== verification/Engine.thy ===== *)
theory Engine
  imports Consensus_State Chain
begin

text \<open>
  \<open>consensus/engine.go\<close>: the engine that turns ticks, proposals, votes, delayed votes and timeouts
  into blocks.  Each handler runs under the engine's lock and is a function on the engine record.
  What the surroundings contribute to one run of a handler is the record \<open>ambient\<close>: clock readings,
  map orders, randomness, whether a send succeeds, and what other goroutines did to the chain and to
  the consensus object while the handler slept (both have locks of their own).  A \<open>go\<close> statement that casts a vote appends to
  \<open>en_pending\<close>, and running it is a separate step; what the engine sends is appended to \<open>en_out\<close>.
\<close>

section \<open>State\<close>

datatype engine_output =
    BroadcastProposal uint64 uint32 Hash Block string Signature
  | BroadcastVote uint64 uint32 Hash uint8 string Signature
  | BroadcastConsensusState ConsensusState uint64 uint32 string
  | OnBlockCommit Block
  | SyncBlocks

text \<open>
  A vote that waits for its random delay: \<open>Cast\<close> has the values that \<open>castVote\<close> captured (height,
  round, voter, its power, the total), \<open>CastInternal\<close> the arguments of \<open>castVoteInternal\<close>.
\<close>

datatype pending =
    Cast uint8 Hash uint64 uint32 Address uint64 uint64
  | CastInternal uint8 Hash uint64 uint32

record ConsensusEngine =
  en_consensus :: Consensus
  en_blockchain :: BlockChain
  en_p2p :: bool
  en_syncer :: bool
  en_prevotes :: "VoteSet option"
  en_precommits :: "VoteSet option"
  en_proposedBlock :: "Block option"
  en_onBlockCommit :: bool
  en_running :: bool
  en_roundTimer :: "(uint64 \<times> uint32) option"
  en_consecutiveTimeouts :: int
  en_lastBlockTime :: int
  en_stateBroadcaster :: bool
  en_pending :: "pending list"
  en_out :: "engine_output list"

record ambient =
  am_now_ms :: int
  am_block_time :: int
  am_check_time :: int
  am_commit_ms :: int
  am_vote_time :: int
  am_pool :: "(string, TxWithFee) ranging"
  am_vals :: "(string, Validator) ranging"
  am_vals2 :: "(string, Validator) ranging"
  am_votes :: "(Address, Vote) ranging"
  am_coin :: nat
  am_sent :: bool
  am_peers :: nat
  am_asleep :: "BlockChain \<Rightarrow> BlockChain"
  am_others :: "Consensus \<Rightarrow> Consensus"
  am_synced :: "BlockChain \<Rightarrow> BlockChain"

definition BlockIntervalMs :: int where "BlockIntervalMs = 1000"

definition NewConsensusEngine :: "Consensus \<Rightarrow> BlockChain \<Rightarrow> ConsensusEngine" where
  "NewConsensusEngine cons blockchain =
     \<lparr>en_consensus = cons, en_blockchain = blockchain, en_p2p = False, en_syncer = False, en_prevotes = None,
      en_precommits = None, en_proposedBlock = None, en_onBlockCommit = False, en_running = False, en_roundTimer = None,
      en_consecutiveTimeouts = 0, en_lastBlockTime = 0, en_stateBroadcaster = False, en_pending = [], en_out = []\<rparr>"

definition SetBlockCommitCallback :: "ConsensusEngine \<Rightarrow> ConsensusEngine" where
  "SetBlockCommitCallback e = e\<lparr>en_onBlockCommit := True\<rparr>"

definition SetP2PBroadcaster :: "ConsensusEngine \<Rightarrow> ConsensusEngine" where
  "SetP2PBroadcaster e = e\<lparr>en_p2p := True\<rparr>"

definition SetBlockSyncer :: "ConsensusEngine \<Rightarrow> ConsensusEngine" where
  "SetBlockSyncer e = e\<lparr>en_syncer := True\<rparr>"

definition SetStateBroadcaster :: "ConsensusEngine \<Rightarrow> ConsensusEngine" where
  "SetStateBroadcaster e = e\<lparr>en_stateBroadcaster := True\<rparr>"

definition emit :: "engine_output \<Rightarrow> ConsensusEngine \<Rightarrow> ConsensusEngine" where
  "emit x e = e\<lparr>en_out := en_out e @ [x]\<rparr>"

definition upd_cons :: "(Consensus \<Rightarrow> Consensus) \<Rightarrow> ConsensusEngine \<Rightarrow> ConsensusEngine" where
  "upd_cons f e = e\<lparr>en_consensus := f (en_consensus e)\<rparr>"

definition set_state :: "ConsensusState \<Rightarrow> ConsensusEngine \<Rightarrow> ConsensusEngine" where
  "set_state s = upd_cons (\<lambda>c. c\<lparr>co_State := s\<rparr>)"

definition set_height_round :: "uint64 \<Rightarrow> uint32 \<Rightarrow> ConsensusEngine \<Rightarrow> ConsensusEngine" where
  "set_height_round h r = upd_cons (\<lambda>c. c\<lparr>co_CurrentHeight := h, co_CurrentRound := r\<rparr>)"

definition broadcastState :: "string \<Rightarrow> ConsensusEngine \<Rightarrow> ConsensusEngine" where
  "broadcastState proposerAddr e =
     (if \<not> en_stateBroadcaster e then e
      else emit (BroadcastConsensusState (co_State (en_consensus e)) (co_CurrentHeight (en_consensus e))
                   (co_CurrentRound (en_consensus e)) proposerAddr) e)"

definition startRoundTimer :: "ConsensusEngine \<Rightarrow> ConsensusEngine" where
  "startRoundTimer e =
     e\<lparr>en_roundTimer := Some (co_CurrentHeight (en_consensus e), co_CurrentRound (en_consensus e))\<rparr>"

definition stopRoundTimer :: "ConsensusEngine \<Rightarrow> ConsensusEngine" where
  "stopRoundTimer e = e\<lparr>en_roundTimer := None\<rparr>"

definition latest :: "ConsensusEngine \<Rightarrow> uint64" where
  "latest e = GetLatestHeight (en_blockchain e)"

text \<open>The hash of the block at a height, or the zero hash when it cannot be read.\<close>

definition hash_at :: "BlockChain \<Rightarrow> uint64 \<Rightarrow> Hash" where
  "hash_at bc h = (case GetBlockByHeight bc h of Inl e \<Rightarrow> zero_Hash | Inr b \<Rightarrow> blk_Hash b)"

definition prev_hash_for_vrf :: "BlockChain \<Rightarrow> uint64 \<Rightarrow> Hash" where
  "prev_hash_for_vrf bc currentHeight = (if 0 < currentHeight then hash_at bc currentHeight else zero_Hash)"

definition sleep :: "ambient \<Rightarrow> ConsensusEngine \<Rightarrow> ConsensusEngine" where
  "sleep am e = e\<lparr>en_blockchain := am_asleep am (en_blockchain e), en_consensus := am_others am (en_consensus e)\<rparr>"

section \<open>Proposing\<close>

definition sign_new :: "crypto \<Rightarrow> ambient \<Rightarrow> ConsensusEngine \<Rightarrow> Block \<Rightarrow> Block" where
  "sign_new C am e newBlock =
     (case co_LocalProposer (en_consensus e) of
        None \<Rightarrow> newBlock
      | Some p \<Rightarrow> (case signBlockHash C (am_coin am) p (blk_Hash newBlock) of Inl err \<Rightarrow> newBlock | Inr sig \<Rightarrow> SignBlock newBlock sig))"

definition local_addr :: "ConsensusEngine \<Rightarrow> Address" where
  "local_addr e = (case co_LocalValidator (en_consensus e) of None \<Rightarrow> zero_Address | Some v \<Rightarrow> val_Address v)"

definition local_text :: "ConsensusEngine \<Rightarrow> string" where
  "local_text e = (case co_LocalValidator (en_consensus e) of None \<Rightarrow> [] | Some v \<Rightarrow> AddressToString (val_Address v))"

text \<open>Building the next block on the current tip; \<open>SetBlock\<close> also cleans the mempool.\<close>

definition build_next :: "crypto \<Rightarrow> ambient \<Rightarrow> ConsensusEngine \<Rightarrow> ConsensusEngine \<times> Block" where
  "build_next C am e =
     (let currentHeight = latest e;
          prevHash = hash_at (en_blockchain e) currentHeight;
          (bc', newBlock) = SetBlock C (am_pool am (bc_Mempool (en_blockchain e))) (en_blockchain e)
                              prevHash (currentHeight + 1) (local_addr e) (am_block_time am)
      in (e\<lparr>en_blockchain := bc'\<rparr>, sign_new C am e newBlock))"

definition produceBlockSolo :: "crypto \<Rightarrow> db_ops \<Rightarrow> ambient \<Rightarrow> ConsensusEngine \<Rightarrow> ConsensusEngine" where
  "produceBlockSolo C W am e =
     (let (e1, newBlock) = build_next C am e in
      case AddBlock W (en_blockchain e1) newBlock of
        (bc', Inl err) \<Rightarrow> e1\<lparr>en_blockchain := bc'\<rparr>
      | (bc', Inr success) \<Rightarrow>
          if \<not> success then e1\<lparr>en_blockchain := bc'\<rparr>
          else let e2 = e1\<lparr>en_blockchain := bc', en_lastBlockTime := am_commit_ms am\<rparr>;
                   e3 = (if en_onBlockCommit e2 then emit (OnBlockCommit newBlock) e2 else e2)
               in upd_cons (\<lambda>c. UpdateHeight c (blk_Height newBlock + 1)) e3)"

definition proposeBlock :: "crypto \<Rightarrow> ambient \<Rightarrow> ConsensusEngine \<Rightarrow> ConsensusEngine" where
  "proposeBlock C am e =
     (let e1 = broadcastState (local_text e) (set_state StateProposing e);
          (e2, newBlock) = build_next C am (sleep am e1)
      in e2\<lparr>en_proposedBlock := Some newBlock\<rparr>)"

text \<open>\<open>castVote\<close>: captures the current values and spawns the delayed vote.\<close>

definition castVote :: "uint8 \<Rightarrow> Hash \<Rightarrow> ConsensusEngine \<Rightarrow> ConsensusEngine" where
  "castVote voteType blockHash e =
     (let c = en_consensus e in
      case (co_LocalValidator c, co_LocalProposer c) of
        (Some v, Some p) \<Rightarrow>
          e\<lparr>en_pending := en_pending e @
              [Cast voteType blockHash (co_CurrentHeight c) (co_CurrentRound c) (val_Address v) (val_VotingPower v)
                 (vs_TotalVotingPower (co_ValidatorSet c))]\<rparr>
      | _ \<Rightarrow> e)"

definition reset_votes :: "uint64 \<Rightarrow> uint32 \<Rightarrow> ConsensusEngine \<Rightarrow> ConsensusEngine" where
  "reset_votes h r e =
     e\<lparr>en_prevotes := Some (NewVoteSet h r VoteTypePrevote), en_precommits := Some (NewVoteSet h r VoteTypePrecommit)\<rparr>"

definition broadcastProposal :: "ambient \<Rightarrow> ConsensusEngine \<Rightarrow> ConsensusEngine" where
  "broadcastProposal am e =
     (case (en_proposedBlock e, co_LocalValidator (en_consensus e)) of
        (Some block, Some v) \<Rightarrow>
          if \<not> en_p2p e then e
          else let height = co_CurrentHeight (en_consensus e); round = co_CurrentRound (en_consensus e);
                   proposerID = AddressToString (val_Address v);
                   e1 = reset_votes height round e
               in if \<not> am_sent am then e1
                  else let e2 = emit (BroadcastProposal height round (blk_Hash block) block proposerID (blk_Signature block)) e1;
                           e3 = broadcastState proposerID (set_state StatePrevoting e2)
                       in castVote VoteTypePrevote (blk_Hash block) (startRoundTimer e3)
      | _ \<Rightarrow> e)"

text \<open>The variant used after a timeout: no state change and no timer of its own.\<close>

definition broadcastProposalInternal :: "ambient \<Rightarrow> ConsensusEngine \<Rightarrow> ConsensusEngine" where
  "broadcastProposalInternal am e =
     (case (en_proposedBlock e, co_LocalValidator (en_consensus e)) of
        (Some block, Some v) \<Rightarrow>
          if \<not> en_p2p e then e
          else let height = co_CurrentHeight (en_consensus e); round = co_CurrentRound (en_consensus e);
                   proposerID = AddressToString (val_Address v);
                   e1 = reset_votes height round e
               in if \<not> am_sent am then e1
                  else castVote VoteTypePrevote (blk_Hash block)
                         (emit (BroadcastProposal height round (blk_Hash block) block proposerID (blk_Signature block)) e1)
      | _ \<Rightarrow> e)"

definition select_proposer :: "crypto \<Rightarrow> ambient \<Rightarrow> ConsensusEngine \<Rightarrow> uint64 \<Rightarrow> uint32 \<Rightarrow> Hash \<Rightarrow> Validator option" where
  "select_proposer C am e = SelectProposerByMode C (am_vals am) (am_vals2 am) (en_consensus e)"

section \<open>Committing\<close>

definition commitBlock :: "db_ops \<Rightarrow> ambient \<Rightarrow> Block \<Rightarrow> ConsensusEngine \<Rightarrow> ConsensusEngine" where
  "commitBlock W am block e =
     (let e1 = set_state StateCommitting (stopRoundTimer e) in
      case AddBlock W (en_blockchain e1) block of
        (bc', Inl err) \<Rightarrow> upd_cons IncrementRound (e1\<lparr>en_blockchain := bc'\<rparr>)
      | (bc', Inr success) \<Rightarrow>
          if \<not> success then upd_cons IncrementRound (e1\<lparr>en_blockchain := bc'\<rparr>)
          else let e2 = e1\<lparr>en_blockchain := bc', en_lastBlockTime := am_commit_ms am\<rparr>;
                   e3 = (if en_onBlockCommit e2 then emit (OnBlockCommit block) e2 else e2);
                   e4 = upd_cons (\<lambda>c. UpdateHeight c (blk_Height block + 1)) e3
               in e4\<lparr>en_proposedBlock := None, en_prevotes := None, en_precommits := None\<rparr>)"

definition commit_sigs :: "ambient \<Rightarrow> VoteSet \<Rightarrow> CommitSignature list" where
  "commit_sigs am votes =
     map (\<lambda>(k, vote). \<lparr>cs_ValidatorAddress = vote_VoterID vote, cs_Signature = vote_Signature vote,
                       cs_Timestamp = vote_Timestamp vote\<rparr>) (am_votes am (vt_Votes votes))"

text \<open>
  The block object is shared with \<open>proposedBlock\<close>, so the commit signatures stay on it when the
  final validation fails.
\<close>

definition commitBlockWithSignatures :: "crypto \<Rightarrow> db_ops \<Rightarrow> ambient \<Rightarrow> Block \<Rightarrow> ConsensusEngine \<Rightarrow> ConsensusEngine" where
  "commitBlockWithSignatures C W am block e =
     (let e1 = (stopRoundTimer e)\<lparr>en_consecutiveTimeouts := 0\<rparr>;
          e2 = sleep am (broadcastState (AddressToString (blk_Proposer block)) (set_state StateCommitting e1));
          block' = (case en_precommits e2 of
                      None \<Rightarrow> block
                    | Some votes \<Rightarrow> block\<lparr>blk_CommitSignatures := commit_sigs am votes\<rparr>);
          e3 = e2\<lparr>en_proposedBlock := Some block'\<rparr>
      in case ValidateBlock C (am_check_time am) (Some (proposer_validator C (en_consensus e3))) (en_blockchain e3) block' True of
           Inl err \<Rightarrow> upd_cons IncrementRound e3
         | Inr _ \<Rightarrow>
             (case AddBlock W (en_blockchain e3) block' of
                (bc', Inl err) \<Rightarrow> upd_cons IncrementRound (e3\<lparr>en_blockchain := bc'\<rparr>)
              | (bc', Inr success) \<Rightarrow>
                  if \<not> success then upd_cons IncrementRound (e3\<lparr>en_blockchain := bc'\<rparr>)
                  else let e4 = e3\<lparr>en_blockchain := bc', en_lastBlockTime := am_commit_ms am\<rparr>;
                           e5 = (if en_onBlockCommit e4 then emit (OnBlockCommit block') e4 else e4);
                           e6 = upd_cons (\<lambda>c. UpdateHeight c (blk_Height block' + 1)) e5
                       in broadcastState [] (e6\<lparr>en_proposedBlock := None, en_prevotes := None, en_precommits := None\<rparr>)))"

section \<open>Handlers\<close>

definition runRound :: "crypto \<Rightarrow> db_ops \<Rightarrow> ambient \<Rightarrow> ConsensusEngine \<Rightarrow> ConsensusEngine" where
  "runRound C W am e =
     (if 0 < en_lastBlockTime e \<and> am_now_ms am - en_lastBlockTime e < BlockIntervalMs then e
      else if length (GetActiveValidators (am_vals am) (co_ValidatorSet (en_consensus e))) = 0 then produceBlockSolo C W am e
      else let currentHeight = latest e;
               nextBlockHeight = currentHeight + 1;
               prevBlockHash = prev_hash_for_vrf (en_blockchain e) currentHeight;
               e1 = (if co_CurrentHeight (en_consensus e) \<noteq> nextBlockHeight then set_height_round nextBlockHeight 0 e else e)
           in case select_proposer C am e1 nextBlockHeight (co_CurrentRound (en_consensus e1)) prevBlockHash of
                None \<Rightarrow> e1
              | Some proposer \<Rightarrow>
                  if (case co_LocalValidator (en_consensus e1) of None \<Rightarrow> False | Some v \<Rightarrow> val_Address proposer = val_Address v)
                  then if (case en_proposedBlock e1 of None \<Rightarrow> False | Some b \<Rightarrow> blk_Height b = nextBlockHeight) then e1
                       else let e2 = proposeBlock C am e1
                            in if en_proposedBlock e2 \<noteq> None then broadcastProposal am e2 else e2
                  else if (case en_prevotes e1 of None \<Rightarrow> True | Some vs \<Rightarrow> vt_Height vs \<noteq> nextBlockHeight)
                       then startRoundTimer (reset_votes nextBlockHeight 0 e1)
                       else e1)"

definition HandleProposal ::
    "crypto \<Rightarrow> ambient \<Rightarrow> uint64 \<Rightarrow> uint32 \<Rightarrow> Hash \<Rightarrow> Block \<Rightarrow> ConsensusEngine \<Rightarrow> ConsensusEngine" where
  "HandleProposal C am height round blockHash block e =
     (let currentHeight = latest e in
      if height \<le> currentHeight then e
      else if height \<noteq> currentHeight + 1 then e
      else let prevBlockHash = prev_hash_for_vrf (en_blockchain e) currentHeight in
           case select_proposer C am e height round prevBlockHash of
             None \<Rightarrow> e
           | Some expectedProposer \<Rightarrow>
               if blk_Proposer block \<noteq> val_Address expectedProposer then e
               else let e1 = (if co_CurrentHeight (en_consensus e) \<noteq> height \<or> co_CurrentRound (en_consensus e) \<noteq> round
                              then set_height_round height round e else e)
                    in case ValidateBlock C (am_check_time am) (Some (proposer_validator C (en_consensus e1))) (en_blockchain e1) block False of
                         Inl err \<Rightarrow> e1
                       | Inr _ \<Rightarrow>
                           let proposerAddr = AddressToString (blk_Proposer block);
                               e2 = reset_votes height round (e1\<lparr>en_proposedBlock := Some block\<rparr>);
                               e3 = sleep am (broadcastState proposerAddr (set_state StateProposing e2));
                               e4 = startRoundTimer (broadcastState proposerAddr (set_state StatePrevoting e3))
                           in if co_LocalValidator (en_consensus e4) \<noteq> None then castVote VoteTypePrevote blockHash e4 else e4)"

text \<open>The transition to PRECOMMITTING when the prevotes have a majority.\<close>

definition to_precommitting :: "ConsensusEngine \<Rightarrow> ConsensusEngine" where
  "to_precommitting e =
     (if co_State (en_consensus e) = StatePrevoting then broadcastState [] (set_state StatePrecommitting e) else e)"

text \<open>The precommit case: count the vote, and commit the proposed block on a majority.\<close>

definition count_precommit :: "crypto \<Rightarrow> db_ops \<Rightarrow> ambient \<Rightarrow> Vote \<Rightarrow> uint64 \<Rightarrow> uint64 \<Rightarrow> ConsensusEngine \<Rightarrow> ConsensusEngine" where
  "count_precommit C W am vote votingPower totalPower e =
     (case en_precommits e of
        None \<Rightarrow> e
      | Some votes \<Rightarrow>
          let votes' = fst (AddVote votes vote votingPower);
              e1 = e\<lparr>en_precommits := Some votes'\<rparr>
          in case en_proposedBlock e1 of
               None \<Rightarrow> e1
             | Some block \<Rightarrow> if HasTwoThirdsMajority votes' totalPower then commitBlockWithSignatures C W am block e1 else e1)"

definition HandleVote :: "crypto \<Rightarrow> db_ops \<Rightarrow> ambient \<Rightarrow> Vote \<Rightarrow> ConsensusEngine \<Rightarrow> ConsensusEngine" where
  "HandleVote C W am vote e =
     (let currentHeight = latest e in
      if vote_Height vote \<le> currentHeight then e
      else if vote_Height vote \<noteq> currentHeight + 1 then e
      else if vote_Round vote \<noteq> co_CurrentRound (en_consensus e) then e
      else case GetValidator (co_ValidatorSet (en_consensus e)) (vote_VoterID vote) of
             None \<Rightarrow> e
           | Some validator \<Rightarrow>
               if \<not> ValidateBlockSignature C validator (vote_BlockHash vote) (vote_Signature vote) then e
               else let totalPower = vs_TotalVotingPower (co_ValidatorSet (en_consensus e)) in
                    if vote_Type vote = VoteTypePrevote
                    then (case en_prevotes e of
                            None \<Rightarrow> e
                          | Some votes \<Rightarrow>
                              let votes' = fst (AddVote votes vote (val_VotingPower validator));
                                  e1 = e\<lparr>en_prevotes := Some votes'\<rparr>
                              in if HasTwoThirdsMajority votes' totalPower
                                 then castVote VoteTypePrecommit (vote_BlockHash vote) (to_precommitting e1)
                                 else e1)
                    else if vote_Type vote = VoteTypePrecommit
                    then count_precommit C W am vote (val_VotingPower validator) totalPower e
                    else e)"

definition make_vote :: "ambient \<Rightarrow> uint64 \<Rightarrow> uint32 \<Rightarrow> uint8 \<Rightarrow> Hash \<Rightarrow> Address \<Rightarrow> Signature \<Rightarrow> Vote" where
  "make_vote am height round voteType blockHash voterID sig =
     \<lparr>vote_Height = height, vote_Round = round, vote_Type = voteType, vote_BlockHash = blockHash,
      vote_VoterID = voterID, vote_Signature = sig, vote_Timestamp = am_vote_time am\<rparr>"

definition send_vote :: "ambient \<Rightarrow> Vote \<Rightarrow> ConsensusEngine \<Rightarrow> ConsensusEngine" where
  "send_vote am vote e =
     (if en_p2p e \<and> am_sent am
      then emit (BroadcastVote (vote_Height vote) (vote_Round vote) (vote_BlockHash vote) (vote_Type vote)
                   (AddressToString (vote_VoterID vote)) (vote_Signature vote)) e
      else e)"

text \<open>The body of the goroutine of \<open>castVote\<close>, after its delay.\<close>

definition run_cast ::
    "crypto \<Rightarrow> db_ops \<Rightarrow> ambient \<Rightarrow> uint8 \<Rightarrow> Hash \<Rightarrow> uint64 \<Rightarrow> uint32 \<Rightarrow> Address \<Rightarrow> uint64 \<Rightarrow> uint64 \<Rightarrow> ConsensusEngine \<Rightarrow> ConsensusEngine" where
  "run_cast C W am voteType blockHash height round voterID votingPower totalPower e =
     (if co_CurrentHeight (en_consensus e) \<noteq> height \<or> co_CurrentRound (en_consensus e) \<noteq> round then e
      else case co_LocalProposer (en_consensus e) of
             None \<Rightarrow> e
           | Some p \<Rightarrow>
               (case signBlockHash C (am_coin am) p blockHash of
                  Inl err \<Rightarrow> e
                | Inr sig \<Rightarrow>
                    let vote = make_vote am height round voteType blockHash voterID sig; e1 = send_vote am vote e in
                    if voteType = VoteTypePrevote
                    then (case en_prevotes e1 of
                            None \<Rightarrow> e1
                          | Some votes \<Rightarrow>
                              let votes' = fst (AddVote votes vote votingPower);
                                  e2 = e1\<lparr>en_prevotes := Some votes'\<rparr>
                              in if HasTwoThirdsMajority votes' totalPower
                                 then let e3 = to_precommitting e2
                                      in e3\<lparr>en_pending := en_pending e3 @ [CastInternal VoteTypePrecommit blockHash height round]\<rparr>
                                 else e2)
                    else if voteType = VoteTypePrecommit then count_precommit C W am vote votingPower totalPower e1
                    else e1))"

text \<open>\<open>castVoteInternal\<close>, after its delay; its nil checks are made when it runs.\<close>

definition castVoteInternal ::
    "crypto \<Rightarrow> db_ops \<Rightarrow> ambient \<Rightarrow> uint8 \<Rightarrow> Hash \<Rightarrow> uint64 \<Rightarrow> uint32 \<Rightarrow> ConsensusEngine \<Rightarrow> ConsensusEngine" where
  "castVoteInternal C W am voteType blockHash expectedHeight expectedRound e =
     (case (co_LocalValidator (en_consensus e), co_LocalProposer (en_consensus e)) of
        (Some v, Some p) \<Rightarrow>
          if co_CurrentHeight (en_consensus e) \<noteq> expectedHeight \<or> co_CurrentRound (en_consensus e) \<noteq> expectedRound then e
          else (case signBlockHash C (am_coin am) p blockHash of
                  Inl err \<Rightarrow> e
                | Inr sig \<Rightarrow>
                    let vote = make_vote am expectedHeight expectedRound voteType blockHash (val_Address v) sig
                    in count_precommit C W am vote (val_VotingPower v) (vs_TotalVotingPower (co_ValidatorSet (en_consensus e)))
                         (send_vote am vote e))
      | _ \<Rightarrow> e)"

definition run_pending :: "crypto \<Rightarrow> db_ops \<Rightarrow> ambient \<Rightarrow> pending \<Rightarrow> ConsensusEngine \<Rightarrow> ConsensusEngine" where
  "run_pending C W am p e =
     (case p of
        Cast t h height round voter votingPower totalPower \<Rightarrow> run_cast C W am t h height round voter votingPower totalPower e
      | CastInternal t h height round \<Rightarrow> castVoteInternal C W am t h height round e)"

text \<open>
  \<open>am_synced\<close> is what happened to the chain between the two height readings of the timeout handler.
\<close>

definition handleRoundTimeout :: "crypto \<Rightarrow> ambient \<Rightarrow> uint64 \<Rightarrow> uint32 \<Rightarrow> ConsensusEngine \<Rightarrow> ConsensusEngine" where
  "handleRoundTimeout C am height round e =
     (if co_CurrentHeight (en_consensus e) \<noteq> height \<or> co_CurrentRound (en_consensus e) \<noteq> round
      then e\<lparr>en_consecutiveTimeouts := 0\<rparr>
      else let e1 = e\<lparr>en_consecutiveTimeouts := en_consecutiveTimeouts e + 1\<rparr>;
               sync = (3 \<le> en_consecutiveTimeouts e1);
               e2 = (if sync
                     then let e' = e1\<lparr>en_consecutiveTimeouts := 0\<rparr>;
                              e'' = (if en_syncer e' \<and> 0 < am_peers am then emit SyncBlocks e' else e')
                          in e''\<lparr>en_blockchain := am_synced am (en_blockchain e'')\<rparr>
                     else e1)
           in if sync \<and> latest e1 < latest e2
              then (set_height_round (latest e2 + 1) 0 e2)\<lparr>en_proposedBlock := None, en_prevotes := None, en_precommits := None\<rparr>
              else let e3 = (upd_cons IncrementRound e2)\<lparr>en_proposedBlock := None, en_prevotes := None, en_precommits := None\<rparr>;
                       prevBlockHash = prev_hash_for_vrf (en_blockchain e3) (latest e3);
                       nextRound = co_CurrentRound (en_consensus e3);
                       e4 = (case (select_proposer C am e3 height nextRound prevBlockHash, co_LocalValidator (en_consensus e3)) of
                               (Some proposer, Some v) \<Rightarrow>
                                 if val_Address proposer = val_Address v
                                 then let e' = proposeBlock C am e3
                                      in if en_proposedBlock e' \<noteq> None then broadcastProposalInternal am e' else e'
                                 else e3
                             | _ \<Rightarrow> e3)
                   in startRoundTimer e4)"

definition Start :: "ConsensusEngine \<Rightarrow> consensus_error + ConsensusEngine" where
  "Start e =
     (if en_running e then Inl EngineRunning
      else Inr (upd_cons (\<lambda>c. UpdateHeight c (latest e + 1)) (e\<lparr>en_running := True\<rparr>)))"

definition Stop :: "ConsensusEngine \<Rightarrow> ConsensusEngine" where
  "Stop e = (if \<not> en_running e then e else e\<lparr>en_running := False\<rparr>)"

definition IsRunning :: "ConsensusEngine \<Rightarrow> bool" where
  "IsRunning e = en_running e"

record EngineStatus =
  es_running :: bool
  es_state :: ConsensusState
  es_currentHeight :: uint64
  es_currentRound :: uint32
  es_validators :: nat
  es_totalStaked :: uint64
  es_proposerAddr :: string

definition GetStatus :: "(string, Validator) ranging \<Rightarrow> ConsensusEngine \<Rightarrow> EngineStatus" where
  "GetStatus \<rho> e =
     \<lparr>es_running = en_running e, es_state = co_State (en_consensus e), es_currentHeight = co_CurrentHeight (en_consensus e),
      es_currentRound = co_CurrentRound (en_consensus e), es_validators = GetValidatorCount \<rho> (en_consensus e),
      es_totalStaked = GetTotalStaked (en_consensus e),
      es_proposerAddr = (case en_proposedBlock e of None \<Rightarrow> [] | Some b \<Rightarrow> AddressToString (blk_Proposer b))\<rparr>"


section \<open>Runs of the engine\<close>

text \<open>
  What may happen to an engine whose validator set is \<open>VS\<close>.  A timeout may carry any height and
  round: a timer that has fired waits for the lock with the values it was started with.
  \<open>step_others\<close> is a change of the chain or of height, round and state from outside the engine
  (block import, synchronisation).
\<close>

definition ambient_ok :: "ambient \<Rightarrow> bool" where
  "ambient_ok am \<longleftrightarrow> range_ok (am_pool am) \<and> range_ok (am_vals am) \<and> range_ok (am_vals2 am) \<and> range_ok (am_votes am) \<and>
     (\<forall>c. co_ValidatorSet (am_others am c) = co_ValidatorSet c \<and> co_LocalValidator (am_others am c) = co_LocalValidator c)"

inductive engine_step :: "crypto \<Rightarrow> db_ops \<Rightarrow> ConsensusEngine \<Rightarrow> ConsensusEngine \<Rightarrow> bool"
  for C W where
  step_tick: "ambient_ok am \<Longrightarrow> engine_step C W e (runRound C W am e)"
| step_proposal: "ambient_ok am \<Longrightarrow> engine_step C W e (HandleProposal C am h r bh b e)"
| step_vote: "ambient_ok am \<Longrightarrow> engine_step C W e (HandleVote C W am v e)"
| step_pending: "ambient_ok am \<Longrightarrow> p \<in> set (en_pending e) \<Longrightarrow>
    engine_step C W e (run_pending C W am p (e\<lparr>en_pending := remove1 p (en_pending e)\<rparr>))"
| step_timeout: "ambient_ok am \<Longrightarrow> engine_step C W e (handleRoundTimeout C am h r e)"
| step_others: "ambient_ok am \<Longrightarrow> engine_step C W e (sleep am e)"

inductive engine_reach :: "crypto \<Rightarrow> db_ops \<Rightarrow> ConsensusEngine \<Rightarrow> ConsensusEngine \<Rightarrow> bool"
  for C W e where
  reach_refl: "engine_reach C W e e"
| reach_step: "engine_reach C W e e1 \<Longrightarrow> engine_step C W e1 e2 \<Longrightarrow> engine_reach C W e e2"

section \<open>Invariant of a run\<close>

text \<open>The commit check depends on the validator set only.\<close>

definition commit_ok :: "crypto \<Rightarrow> ValidatorSet \<Rightarrow> Block \<Rightarrow> bool" where
  "commit_ok C VS b \<longleftrightarrow>
     (\<forall>c. co_ValidatorSet c = VS \<longrightarrow> ValidateCommitSignatures C c (blk_Hash b) (blk_CommitSignatures b) = Inr ())"

lemma count_commit_cong: "co_ValidatorSet c = co_ValidatorSet c' \<Longrightarrow> count_commit C c h = count_commit C c' h"
  by (intro ext) (simp add: count_commit_def Let_def split: prod.split)

lemma ValidateCommitSignatures_cong:
  "co_ValidatorSet c = co_ValidatorSet c' \<Longrightarrow> ValidateCommitSignatures C c h s = ValidateCommitSignatures C c' h s"
  by (simp add: ValidateCommitSignatures_def count_commit_cong [of c c'])

definition votes_ok :: "ValidatorSet \<Rightarrow> VoteSet option \<Rightarrow> bool" where
  "votes_ok VS v \<longleftrightarrow> (\<forall>votes. v = Some votes \<longrightarrow> wf_VoteSet (power_of VS) votes)"

definition pending_ok :: "ValidatorSet \<Rightarrow> pending \<Rightarrow> bool" where
  "pending_ok VS p \<longleftrightarrow>
     (case p of Cast t h height round voter w tot \<Rightarrow> power_of VS voter = w | CastInternal t h height round \<Rightarrow> True)"

definition engine_inv :: "crypto \<Rightarrow> ValidatorSet \<Rightarrow> ConsensusEngine \<Rightarrow> bool" where
  "engine_inv C VS e \<longleftrightarrow>
     co_ValidatorSet (en_consensus e) = VS \<and>
     (\<forall>v. co_LocalValidator (en_consensus e) = Some v \<longrightarrow> power_of VS (val_Address v) = val_VotingPower v) \<and>
     votes_ok VS (en_prevotes e) \<and> votes_ok VS (en_precommits e) \<and>
     (\<forall>p\<in>set (en_pending e). pending_ok VS p) \<and>
     (\<forall>b. OnBlockCommit b \<in> set (en_out e) \<longrightarrow> blk_Height b \<noteq> 0 \<longrightarrow> commit_ok C VS b)"

lemmas engine_defs =
  emit_def upd_cons_def set_state_def set_height_round_def startRoundTimer_def stopRoundTimer_def reset_votes_def sleep_def
  UpdateHeight_def IncrementRound_def

lemma votes_ok_simps [simp]: "votes_ok VS None" "votes_ok VS (Some votes) \<longleftrightarrow> wf_VoteSet (power_of VS) votes"
  by (simp_all add: votes_ok_def)

lemma inv_broadcastState: "engine_inv C VS e \<Longrightarrow> engine_inv C VS (broadcastState a e)"
  by (auto simp: engine_inv_def broadcastState_def emit_def)

lemma inv_set_state: "engine_inv C VS e \<Longrightarrow> engine_inv C VS (set_state s e)"
  by (simp add: engine_inv_def engine_defs)

lemma inv_set_height_round: "engine_inv C VS e \<Longrightarrow> engine_inv C VS (set_height_round h r e)"
  by (simp add: engine_inv_def engine_defs)

lemma inv_reset_votes: "engine_inv C VS e \<Longrightarrow> engine_inv C VS (reset_votes h r e)"
  by (simp add: engine_inv_def engine_defs)

lemma inv_timer: "engine_inv C VS e \<Longrightarrow> engine_inv C VS (startRoundTimer e) \<and> engine_inv C VS (stopRoundTimer e)"
  by (simp add: engine_inv_def engine_defs)

lemma inv_sleep: "ambient_ok am \<Longrightarrow> engine_inv C VS e \<Longrightarrow> engine_inv C VS (sleep am e)"
  by (simp add: engine_inv_def sleep_def ambient_ok_def)

lemma inv_frame:
  assumes "engine_inv C VS e" "en_consensus e' = en_consensus e" "en_prevotes e' = en_prevotes e"
    "en_precommits e' = en_precommits e" "en_pending e' = en_pending e" "en_out e' = en_out e"
  shows "engine_inv C VS e'"
  using assms by (simp add: engine_inv_def)

lemma inv_IncrementRound: "engine_inv C VS e \<Longrightarrow> engine_inv C VS (upd_cons IncrementRound e)"
  by (simp add: engine_inv_def engine_defs)

lemma inv_UpdateHeight: "engine_inv C VS e \<Longrightarrow> engine_inv C VS (upd_cons (\<lambda>c. UpdateHeight c h) e)"
  by (simp add: engine_inv_def engine_defs)

lemma inv_castVote: "engine_inv C VS e \<Longrightarrow> engine_inv C VS (castVote t h e)"
  by (auto simp: engine_inv_def castVote_def Let_def pending_ok_def split: option.split)

lemma inv_clear: "engine_inv C VS e \<Longrightarrow> engine_inv C VS (e\<lparr>en_proposedBlock := None, en_prevotes := None, en_precommits := None\<rparr>)"
  by (simp add: engine_inv_def)

lemma inv_to_precommitting: "engine_inv C VS e \<Longrightarrow> engine_inv C VS (to_precommitting e)"
  by (simp add: to_precommitting_def inv_broadcastState inv_set_state)

lemma inv_emit: "engine_inv C VS e \<Longrightarrow> (\<And>b. x = OnBlockCommit b \<Longrightarrow> blk_Height b \<noteq> 0 \<Longrightarrow> commit_ok C VS b) \<Longrightarrow> engine_inv C VS (emit x e)"
  by (auto simp: engine_inv_def emit_def)

lemma inv_send_vote: "engine_inv C VS e \<Longrightarrow> engine_inv C VS (send_vote am v e)"
  by (auto simp: send_vote_def intro!: inv_emit)

lemmas inv_intros = inv_broadcastState inv_set_state inv_set_height_round inv_reset_votes inv_sleep inv_IncrementRound
  inv_UpdateHeight inv_castVote inv_clear inv_to_precommitting inv_send_vote

lemma build_next_frame:
  "build_next C am e = (e', b) \<Longrightarrow> \<exists>bc. e' = e\<lparr>en_blockchain := bc\<rparr>"
  by (auto simp: build_next_def Let_def split: prod.splits)

lemma inv_build_next: "engine_inv C VS e \<Longrightarrow> build_next C am e = (e', b) \<Longrightarrow> engine_inv C VS e'"
  by (auto dest!: build_next_frame intro: inv_frame)

lemma inv_set_proposed: "engine_inv C VS e \<Longrightarrow> engine_inv C VS (e\<lparr>en_proposedBlock := x\<rparr>)"
  by (simp add: engine_inv_def)

lemma inv_proposeBlock: "ambient_ok am \<Longrightarrow> engine_inv C VS e \<Longrightarrow> engine_inv C VS (proposeBlock C am e)"
proof -
  assume am: "ambient_ok am" and e: "engine_inv C VS e"
  obtain e' b where b: "build_next C am (sleep am (broadcastState (local_text e) (set_state StateProposing e))) = (e', b)"
    by (rule prod.exhaust)
  have "engine_inv C VS e'" by (rule inv_build_next [OF _ b]) (intro inv_intros am e)
  then show ?thesis using b by (simp add: proposeBlock_def inv_set_proposed)
qed

lemma inv_broadcastProposal:
  assumes "engine_inv C VS e"
  shows "engine_inv C VS (broadcastProposal am e)" "engine_inv C VS (broadcastProposalInternal am e)"
  using assms unfolding broadcastProposal_def broadcastProposalInternal_def Let_def
  by (auto intro!: inv_intros inv_emit conjunct1 [OF inv_timer] split: option.split)

text \<open>A block that is committed with signatures, above the genesis height, passed the commit check.\<close>

lemma ValidateBlock_commit_ok:
  assumes "ValidateBlock C now (Some (proposer_validator C c)) p b True = Inr u" "blk_Height b \<noteq> 0" "co_ValidatorSet c = VS"
  shows "commit_ok C VS b"
proof -
  have "check_commit (Some (proposer_validator C c)) b True = Inr ()" using assms(1,2) by (simp add: ValidateBlock_ok)
  then have "ValidateCommitSignatures C c (blk_Hash b) (blk_CommitSignatures b) = Inr ()"
    by (simp add: check_commit_ok proposer_validator_def)
  with assms(3) show ?thesis unfolding commit_ok_def by (metis ValidateCommitSignatures_cong)
qed

lemma inv_commitBlockWithSignatures:
  assumes am: "ambient_ok am" and e: "engine_inv C VS e"
  shows "engine_inv C VS (commitBlockWithSignatures C W am b e)"
proof -
  define e2 where "e2 = sleep am (broadcastState (AddressToString (blk_Proposer b)) (set_state StateCommitting ((stopRoundTimer e)\<lparr>en_consecutiveTimeouts := 0\<rparr>)))"
  define b' where "b' = (case en_precommits e2 of None \<Rightarrow> b | Some votes \<Rightarrow> b\<lparr>blk_CommitSignatures := commit_sigs am votes\<rparr>)"
  define e3 where "e3 = e2\<lparr>en_proposedBlock := Some b'\<rparr>"
  have "engine_inv C VS ((stopRoundTimer e)\<lparr>en_consecutiveTimeouts := 0\<rparr>)"
    by (rule inv_frame [OF e]) (simp_all add: stopRoundTimer_def)
  then have "engine_inv C VS e2" unfolding e2_def by (intro inv_intros am)
  then have e3: "engine_inv C VS e3" by (rule inv_frame) (simp_all add: e3_def)
  have with_chain: "engine_inv C VS (e3\<lparr>en_blockchain := bc\<rparr>)" "engine_inv C VS (e3\<lparr>en_blockchain := bc, en_lastBlockTime := t\<rparr>)" for bc t
    by (rule inv_frame [OF e3], simp_all)+
  show ?thesis
  proof (cases "ValidateBlock C (am_check_time am) (Some (proposer_validator C (en_consensus e3))) (en_blockchain e3) b' True")
    case (Inl err)
    then show ?thesis using inv_IncrementRound [OF e3]
      unfolding commitBlockWithSignatures_def Let_def e2_def [symmetric] b'_def [symmetric] e3_def [symmetric] by simp
  next
    case (Inr u)
    have ok: "commit_ok C VS b'" if "blk_Height b' \<noteq> 0"
      by (rule ValidateBlock_commit_ok [OF Inr that]) (use e3 in \<open>simp add: engine_inv_def\<close>)
    obtain bc r where add: "AddBlock W (en_blockchain e3) b' = (bc, r)" by (cases "AddBlock W (en_blockchain e3) b'")
    show ?thesis
      unfolding commitBlockWithSignatures_def Let_def e2_def [symmetric] b'_def [symmetric] e3_def [symmetric]
      using Inr add with_chain ok by (auto intro!: inv_intros inv_emit split: sum.split)
  qed
qed

lemma AddVote_ok: "wf_VoteSet pow votes \<Longrightarrow> pow (vote_VoterID v) = w \<Longrightarrow> wf_VoteSet pow (fst (AddVote votes v w))"
  using wf_AddVote [of pow votes v] by (cases "AddVote votes v w") auto

lemma inv_set_precommits:
  "engine_inv C VS e \<Longrightarrow> votes_ok VS v \<Longrightarrow> engine_inv C VS (e\<lparr>en_precommits := v\<rparr>) \<and> engine_inv C VS (e\<lparr>en_prevotes := v\<rparr>)"
  by (simp add: engine_inv_def)

lemma inv_votes: "engine_inv C VS e \<Longrightarrow> en_prevotes e = Some votes \<Longrightarrow> wf_VoteSet (power_of VS) votes"
  "engine_inv C VS e \<Longrightarrow> en_precommits e = Some votes \<Longrightarrow> wf_VoteSet (power_of VS) votes"
  by (simp_all add: engine_inv_def)

lemma inv_count_precommit:
  assumes "ambient_ok am" "engine_inv C VS e" "power_of VS (vote_VoterID v) = w"
  shows "engine_inv C VS (count_precommit C W am v w tot e)"
proof (cases "en_precommits e")
  case None
  then show ?thesis using assms(2) by (simp add: count_precommit_def)
next
  case (Some votes)
  have "engine_inv C VS (e\<lparr>en_precommits := Some (fst (AddVote votes v w))\<rparr>)"
    using inv_set_precommits [OF assms(2)] AddVote_ok [OF inv_votes(2) [OF assms(2) Some] assms(3)] by simp
  with Some assms(1) show ?thesis
    by (auto simp: count_precommit_def Let_def split: option.split intro!: inv_commitBlockWithSignatures)
qed

lemma inv_HandleVote:
  assumes am: "ambient_ok am" and e: "engine_inv C VS e"
  shows "engine_inv C VS (HandleVote C W am v e)"
proof -
  have pow: "power_of VS (vote_VoterID v) = val_VotingPower x" if "GetValidator (co_ValidatorSet (en_consensus e)) (vote_VoterID v) = Some x" for x
    using e that by (simp add: engine_inv_def power_of_def)
  have pre: "engine_inv C VS (e\<lparr>en_prevotes := Some (fst (AddVote votes v w))\<rparr>)"
    if "en_prevotes e = Some votes" "power_of VS (vote_VoterID v) = w" for votes w
    using inv_set_precommits [OF e] AddVote_ok [OF inv_votes(1) [OF e that(1)] that(2)] by simp
  show ?thesis
    unfolding HandleVote_def Let_def
    using e pow pre am by (auto split: option.split intro!: inv_castVote inv_to_precommitting inv_count_precommit)
qed

lemma inv_queue: "engine_inv C VS e \<Longrightarrow> pending_ok VS p \<Longrightarrow> engine_inv C VS (e\<lparr>en_pending := en_pending e @ [p]\<rparr>)"
  by (auto simp: engine_inv_def)

lemma send_vote_votes [simp]:
  "en_prevotes (send_vote am v e) = en_prevotes e" "en_precommits (send_vote am v e) = en_precommits e"
  by (simp_all add: send_vote_def emit_def)

lemma inv_run_cast:
  assumes am: "ambient_ok am" and e: "engine_inv C VS e" and w: "power_of VS voter = w"
  shows "engine_inv C VS (run_cast C W am t h height round voter w tot e)"
proof -
  have pre: "engine_inv C VS ((send_vote am v e)\<lparr>en_prevotes := Some (fst (AddVote votes v w))\<rparr>)"
    if "en_prevotes e = Some votes" "power_of VS (vote_VoterID v) = w" for votes v
    using inv_set_precommits [OF inv_send_vote [OF e]] AddVote_ok [OF inv_votes(1) [OF e that(1)] that(2)] by simp
  have voter: "vote_VoterID (make_vote am height round t h voter sig) = voter" for sig by (simp add: make_vote_def)
  show ?thesis
    unfolding run_cast_def Let_def
    using am e w pre voter
    by (auto split: option.split sum.split intro!: inv_queue inv_to_precommitting inv_count_precommit inv_send_vote simp: pending_ok_def)
qed

lemma inv_castVoteInternal:
  assumes "ambient_ok am" "engine_inv C VS e"
  shows "engine_inv C VS (castVoteInternal C W am t h height round e)"
  unfolding castVoteInternal_def Let_def
  using assms by (auto split: option.split sum.split intro!: inv_count_precommit inv_send_vote simp: make_vote_def) (simp add: engine_inv_def)

lemma inv_run_pending:
  assumes "ambient_ok am" "engine_inv C VS e" "pending_ok VS p"
  shows "engine_inv C VS (run_pending C W am p e)"
  using assms by (auto simp: run_pending_def pending_ok_def split: pending.splits intro: inv_run_cast inv_castVoteInternal)

lemma inv_accept:
  assumes "ambient_ok am" "engine_inv C VS e"
  shows "engine_inv C VS (startRoundTimer (broadcastState a (set_state s' (sleep am (broadcastState a (set_state s
     (reset_votes h r (e\<lparr>en_proposedBlock := x\<rparr>))))))))"
  by (intro conjunct1 [OF inv_timer] inv_intros inv_set_proposed assms)

lemma inv_HandleProposal:
  assumes am: "ambient_ok am" and e: "engine_inv C VS e"
  shows "engine_inv C VS (HandleProposal C am h r bh b e)"
proof -
  define e1 where "e1 = (if co_CurrentHeight (en_consensus e) \<noteq> h \<or> co_CurrentRound (en_consensus e) \<noteq> r then set_height_round h r e else e)"
  have e1: "engine_inv C VS e1" using e inv_set_height_round [OF e] by (simp add: e1_def)
  note acc = inv_accept [OF am e1]
  show ?thesis
    unfolding HandleProposal_def Let_def e1_def [symmetric]
    using e e1 acc by (simp add: inv_castVote split: option.split sum.split)
qed

definition next_round_proposal :: "crypto \<Rightarrow> ambient \<Rightarrow> uint64 \<Rightarrow> ConsensusEngine \<Rightarrow> ConsensusEngine" where
  "next_round_proposal C am height e3 =
     (case (select_proposer C am e3 height (co_CurrentRound (en_consensus e3)) (prev_hash_for_vrf (en_blockchain e3) (latest e3)),
            co_LocalValidator (en_consensus e3)) of
        (Some proposer, Some v) \<Rightarrow>
          if val_Address proposer = val_Address v
          then let e' = proposeBlock C am e3
               in if en_proposedBlock e' \<noteq> None then broadcastProposalInternal am e' else e'
          else e3
      | _ \<Rightarrow> e3)"

lemma inv_next_round_proposal:
  assumes "ambient_ok am" "engine_inv C VS e"
  shows "engine_inv C VS (next_round_proposal C am h e)"
  using assms inv_proposeBlock [OF assms] inv_broadcastProposal(2) [OF inv_proposeBlock [OF assms]]
  by (auto simp: next_round_proposal_def Let_def split: option.split)

definition after_sync :: "ambient \<Rightarrow> ConsensusEngine \<Rightarrow> ConsensusEngine" where
  "after_sync am e1 =
     (if 3 \<le> en_consecutiveTimeouts e1
      then let e' = e1\<lparr>en_consecutiveTimeouts := 0\<rparr>;
               e'' = (if en_syncer e' \<and> 0 < am_peers am then emit SyncBlocks e' else e')
           in e''\<lparr>en_blockchain := am_synced am (en_blockchain e'')\<rparr>
      else e1)"

lemma handleRoundTimeout_eq:
  "handleRoundTimeout C am h r e =
     (if co_CurrentHeight (en_consensus e) \<noteq> h \<or> co_CurrentRound (en_consensus e) \<noteq> r
      then e\<lparr>en_consecutiveTimeouts := 0\<rparr>
      else let e1 = e\<lparr>en_consecutiveTimeouts := en_consecutiveTimeouts e + 1\<rparr>; e2 = after_sync am e1 in
           if 3 \<le> en_consecutiveTimeouts e1 \<and> latest e1 < latest e2
           then (set_height_round (latest e2 + 1) 0 e2)\<lparr>en_proposedBlock := None, en_prevotes := None, en_precommits := None\<rparr>
           else startRoundTimer (next_round_proposal C am h
                  ((upd_cons IncrementRound e2)\<lparr>en_proposedBlock := None, en_prevotes := None, en_precommits := None\<rparr>)))"
  unfolding handleRoundTimeout_def after_sync_def next_round_proposal_def Let_def by (rule refl)

lemma inv_after_sync: "engine_inv C VS e \<Longrightarrow> engine_inv C VS (after_sync am e)"
  unfolding after_sync_def Let_def by (auto simp: engine_inv_def emit_def)

lemma inv_handleRoundTimeout:
  assumes am: "ambient_ok am" and e: "engine_inv C VS e"
  shows "engine_inv C VS (handleRoundTimeout C am h r e)"
proof -
  have keep: "engine_inv C VS (e\<lparr>en_consecutiveTimeouts := n\<rparr>)" for n by (rule inv_frame [OF e]) simp_all
  note e2 = inv_after_sync [OF keep]
  show ?thesis
    unfolding handleRoundTimeout_eq Let_def
    using keep inv_clear [OF inv_set_height_round [OF e2]]
      conjunct1 [OF inv_timer [OF inv_next_round_proposal [OF am inv_clear [OF inv_IncrementRound [OF e2]]]]]
    by simp
qed

definition some_active :: "ValidatorSet \<Rightarrow> bool" where
  "some_active VS \<longleftrightarrow> (\<exists>(k, v)\<in>set (vs_Validators VS). val_IsActive v)"

lemma active_nonempty: "range_ok \<rho> \<Longrightarrow> some_active VS \<Longrightarrow> GetActiveValidators \<rho> VS \<noteq> []"
  using active_mset [of \<rho> VS] by (force simp: some_active_def filter_empty_conv simp del: mset_filter)

lemma inv_runRound:
  assumes am: "ambient_ok am" and e: "engine_inv C VS e" and active: "some_active VS"
  shows "engine_inv C VS (runRound C W am e)"
proof -
  define e1 where "e1 = (if co_CurrentHeight (en_consensus e) \<noteq> latest e + 1 then set_height_round (latest e + 1) 0 e else e)"
  have e1: "engine_inv C VS e1" using e inv_set_height_round [OF e] by (simp add: e1_def)
  have "GetActiveValidators (am_vals am) (co_ValidatorSet (en_consensus e)) \<noteq> []"
    using am e active by (intro active_nonempty) (auto simp: ambient_ok_def engine_inv_def)
  then show ?thesis
    unfolding runRound_def Let_def e1_def [symmetric]
    using e e1 inv_proposeBlock [OF am e1] inv_broadcastProposal(1) [OF inv_proposeBlock [OF am e1]]
      conjunct1 [OF inv_timer [OF inv_reset_votes [OF e1]]]
    by (simp split: option.split)
qed

lemma inv_take:
  assumes "ambient_ok am" "engine_inv C VS e" "p \<in> set (en_pending e)"
  shows "engine_inv C VS (run_pending C W am p (e\<lparr>en_pending := remove1 p (en_pending e)\<rparr>))"
proof (rule inv_run_pending [OF assms(1)])
  show "engine_inv C VS (e\<lparr>en_pending := remove1 p (en_pending e)\<rparr>)"
    using assms(2) set_remove1_subset [of p "en_pending e"] by (auto simp: engine_inv_def)
  show "pending_ok VS p" using assms(2,3) by (simp add: engine_inv_def)
qed

lemma inv_step:
  assumes "engine_step C W e e'" "engine_inv C VS e" "some_active VS"
  shows "engine_inv C VS e'"
  using assms
  by (cases rule: engine_step.cases) (simp_all add: inv_runRound inv_HandleProposal inv_HandleVote inv_handleRoundTimeout inv_sleep inv_take)

lemma inv_reach: "engine_reach C W e e' \<Longrightarrow> engine_inv C VS e \<Longrightarrow> some_active VS \<Longrightarrow> engine_inv C VS e'"
  by (induction rule: engine_reach.induct) (simp_all add: inv_step)

section \<open>A quorum of precommits commits the block\<close>

text \<open>
  The precommits counted so far are valid signatures of the block's hash by active validators that
  have more than two thirds of the power, and the block is valid on the chain at the time of the
  commit.
\<close>

definition commit_votes :: "crypto \<Rightarrow> Consensus \<Rightarrow> Hash \<Rightarrow> VoteSet \<Rightarrow> bool" where
  "commit_votes C c h votes \<longleftrightarrow>
     wf_VoteSet (power_of (co_ValidatorSet c)) votes \<and>
     (\<forall>(a, v)\<in>set (vt_Votes votes). commit_signed C c h a (vote_Signature v)) \<and>
     HasTwoThirdsMajority votes (vs_TotalVotingPower (co_ValidatorSet c))"

lemma commit_sigs_accepted:
  assumes c: "cert_ready c" and am: "range_ok (am_votes am)" and votes: "commit_votes C c h votes"
  shows "ValidateCommitSignatures C c h (commit_sigs am votes) = Inr ()"
proof (rule ValidateCommitSignatures_complete [OF c])
  let ?vs = "co_ValidatorSet c"
  have wf: "wf_VoteSet (power_of ?vs) votes" and valid: "\<forall>(a, v)\<in>set (vt_Votes votes). commit_signed C c h a (vote_Signature v)"
    and maj: "HasTwoThirdsMajority votes (vs_TotalVotingPower ?vs)" using votes by (auto simp: commit_votes_def)
  have it: "iterates (am_votes am (vt_Votes votes)) (vt_Votes votes)" using am by (rule range_okD)
  have id: "vote_VoterID v = a" if "(a, v) \<in> set (vt_Votes votes)" for a v using wf that by (auto simp: wf_VoteSet_def)
  have addrs: "map cs_ValidatorAddress (commit_sigs am votes) = map fst (am_votes am (vt_Votes votes))"
    using iterates_set [OF it] id by (auto simp: commit_sigs_def)
  show "distinct (map cs_ValidatorAddress (commit_sigs am votes))"
    using iterates_wf [OF it] wf unfolding addrs by (simp add: wf_VoteSet_def wf_map_def)
  show "\<forall>s\<in>set (commit_sigs am votes). commit_signed C c h (cs_ValidatorAddress s) (cs_Signature s)"
    using valid iterates_set [OF it] id by (auto simp: commit_sigs_def)
  have "cs_ValidatorAddress ` set (commit_sigs am votes) = set (map cs_ValidatorAddress (commit_sigs am votes))" by simp
  also have "\<dots> = voters votes" unfolding addrs by (simp add: iterates_set [OF it] voters_def)
  finally have as: "cs_ValidatorAddress ` set (commit_sigs am votes) = voters votes" .
  have "voters votes \<subseteq> validator_addrs ?vs"
    using valid c by (fastforce simp: voters_def commit_signed_def cert_ready_def intro: GetValidator_addr)
  with majority_is_quorum [OF _ _ wf] maj c
  show "2 * total_power ?vs < 3 * (\<Sum>a\<in>cs_ValidatorAddress ` set (commit_sigs am votes). unat (power_of ?vs a))"
    unfolding as by (simp add: cert_ready_def)
qed

lemma proposer_validator_cong:
  assumes "co_ValidatorSet c = co_ValidatorSet c'"
  shows "proposer_validator C c = proposer_validator C c'"
proof -
  have "Consensus_ValidateProposerSignature C c = Consensus_ValidateProposerSignature C c'" "IsValidProposer c = IsValidProposer c'"
    using assms by (intro ext, simp add: Consensus_ValidateProposerSignature_def IsValidProposer_def)+
  moreover have "ValidateCommitSignatures C c = ValidateCommitSignatures C c'"
    using ValidateCommitSignatures_cong [OF assms] by (intro ext)
  ultimately show ?thesis by (simp add: proposer_validator_def)
qed

text \<open>Attaching an accepted certificate to a valid block keeps it valid, with the commit check on.\<close>

lemma ValidateBlock_certified:
  assumes "ValidateBlock C now (Some (proposer_validator C c)) p b False = Inr ()" "blk_Height b \<noteq> 0"
    "ValidateCommitSignatures C c (blk_Hash b) sigs = Inr ()"
  shows "ValidateBlock C now (Some (proposer_validator C c)) p (b\<lparr>blk_CommitSignatures := sigs\<rparr>) True = Inr ()"
proof -
  let ?b = "b\<lparr>blk_CommitSignatures := sigs\<rparr>" and ?pv = "Some (proposer_validator C c)"
  have "header_ok C now prev ?b = header_ok C now prev b" for prev by (simp add: header_ok_def)
  moreover have "ValidateProposerSignature ?b ?pv = ValidateProposerSignature b ?pv" by (simp add: ValidateProposerSignature_def)
  moreover have "check_commit ?pv ?b True = Inr ()" using assms(3) by (simp add: check_commit_ok proposer_validator_def)
  ultimately show ?thesis using assms(1,2) by (simp add: ValidateBlock_ok)
qed

definition committed_by :: "db_ops \<Rightarrow> BlockChain \<Rightarrow> Block \<Rightarrow> ConsensusEngine \<Rightarrow> ConsensusEngine \<Rightarrow> bool" where
  "committed_by W p b e0 e \<longleftrightarrow>
     AddBlock W p b = (en_blockchain e, Inr True) \<and>
     co_CurrentHeight (en_consensus e) = blk_Height b + 1 \<and> co_CurrentRound (en_consensus e) = 0 \<and>
     co_State (en_consensus e) = StateIdle \<and>
     en_proposedBlock e = None \<and> en_prevotes e = None \<and> en_precommits e = None \<and>
     (en_onBlockCommit e0 \<longrightarrow> OnBlockCommit b \<in> set (en_out e))"

lemma commitBlockWithSignatures_commits:
  assumes am: "ambient_ok am" and c: "cert_ready (en_consensus e)" and votes: "en_precommits e = Some votes"
    and maj: "commit_votes C (en_consensus e) (blk_Hash b) votes" and h: "blk_Height b \<noteq> 0"
    and p: "p = am_asleep am (en_blockchain e)"
    and valid: "ValidateBlock C (am_check_time am) (Some (proposer_validator C (en_consensus e))) p b False = Inr ()"
    and db: "db_reliable W" "lists_readable (bc_db p)" "index_complete (bc_db p)"
  shows "committed_by W p (b\<lparr>blk_CommitSignatures := commit_sigs am votes\<rparr>) e (commitBlockWithSignatures C W am b e)"
proof -
  let ?b = "b\<lparr>blk_CommitSignatures := commit_sigs am votes\<rparr>"
  define e2 where "e2 = sleep am (broadcastState (AddressToString (blk_Proposer b)) (set_state StateCommitting ((stopRoundTimer e)\<lparr>en_consecutiveTimeouts := 0\<rparr>)))"
  define e3 where "e3 = e2\<lparr>en_proposedBlock := Some ?b\<rparr>"
  have e2: "en_precommits e2 = Some votes" "en_blockchain e2 = p" "co_ValidatorSet (en_consensus e2) = co_ValidatorSet (en_consensus e)"
    using votes p am by (simp_all add: e2_def engine_defs broadcastState_def ambient_ok_def)
  have "ValidateCommitSignatures C (en_consensus e) (blk_Hash b) (commit_sigs am votes) = Inr ()"
    using am by (intro commit_sigs_accepted [OF c _ maj]) (simp add: ambient_ok_def)
  from ValidateBlock_certified [OF valid h this]
  have v: "ValidateBlock C (am_check_time am) (Some (proposer_validator C (en_consensus e3))) (en_blockchain e3) ?b True = Inr ()"
    using proposer_validator_cong [OF e2(3), of C] e2 by (simp add: e3_def)
  have "\<forall>op\<in>consumed ?b. spendable (bc_db p) op" using ValidateBlock_consumes [OF v] e2(2) by (simp add: e3_def)
  then obtain p' where add: "AddBlock W p ?b = (p', Inr True)" using AddBlock_succeeds [OF db] by blast
  have "commitBlockWithSignatures C W am b e =
     (let e4 = e3\<lparr>en_blockchain := p', en_lastBlockTime := am_commit_ms am\<rparr>;
          e5 = (if en_onBlockCommit e4 then emit (OnBlockCommit ?b) e4 else e4);
          e6 = upd_cons (\<lambda>c. UpdateHeight c (blk_Height ?b + 1)) e5
      in broadcastState [] (e6\<lparr>en_proposedBlock := None, en_prevotes := None, en_precommits := None\<rparr>))"
    unfolding commitBlockWithSignatures_def Let_def e2_def [symmetric] e2(1) option.case e3_def [symmetric] v sum.case
    using add e2(2) by (simp add: e3_def)
  moreover have "en_onBlockCommit e3 = en_onBlockCommit e" by (simp add: e3_def e2_def engine_defs broadcastState_def)
  ultimately show ?thesis using add by (simp add: committed_by_def Let_def broadcastState_def engine_defs)
qed

text \<open>The vote that completes the majority triggers the commit.\<close>

lemma HandleVote_precommit:
  assumes "vote_Height v = latest e + 1" "latest e < vote_Height v" "vote_Round v = co_CurrentRound (en_consensus e)"
    "vote_Type v = VoteTypePrecommit" "GetValidator (co_ValidatorSet (en_consensus e)) (vote_VoterID v) = Some x"
    "ValidateBlockSignature C x (vote_BlockHash v) (vote_Signature v)"
    "en_precommits e = Some votes" "en_proposedBlock e = Some b" "votes' = fst (AddVote votes v (val_VotingPower x))"
    "HasTwoThirdsMajority votes' (vs_TotalVotingPower (co_ValidatorSet (en_consensus e)))"
  shows "HandleVote C W am v e = commitBlockWithSignatures C W am b (e\<lparr>en_precommits := Some votes'\<rparr>)"
  using assms by (simp add: HandleVote_def count_precommit_def Let_def VoteTypePrevote_def VoteTypePrecommit_def)

lemma HandleVote_commits:
  assumes "ambient_ok am" "cert_ready (en_consensus e)"
    "vote_Height v = latest e + 1" "latest e < vote_Height v" "vote_Round v = co_CurrentRound (en_consensus e)"
    "vote_Type v = VoteTypePrecommit" "GetValidator (co_ValidatorSet (en_consensus e)) (vote_VoterID v) = Some x"
    "ValidateBlockSignature C x (vote_BlockHash v) (vote_Signature v)"
    "en_precommits e = Some votes" "en_proposedBlock e = Some b" "votes' = fst (AddVote votes v (val_VotingPower x))"
    "commit_votes C (en_consensus e) (blk_Hash b) votes'" "blk_Height b \<noteq> 0" "p = am_asleep am (en_blockchain e)"
    "ValidateBlock C (am_check_time am) (Some (proposer_validator C (en_consensus e))) p b False = Inr ()"
    "db_reliable W" "lists_readable (bc_db p)" "index_complete (bc_db p)"
  shows "committed_by W p (b\<lparr>blk_CommitSignatures := commit_sigs am votes'\<rparr>) e (HandleVote C W am v e)"
proof -
  have "HandleVote C W am v e = commitBlockWithSignatures C W am b (e\<lparr>en_precommits := Some votes'\<rparr>)"
    using assms(3-12) by (intro HandleVote_precommit) (auto simp: commit_votes_def)
  moreover have "committed_by W p (b\<lparr>blk_CommitSignatures := commit_sigs am votes'\<rparr>) (e\<lparr>en_precommits := Some votes'\<rparr>)
      (commitBlockWithSignatures C W am b (e\<lparr>en_precommits := Some votes'\<rparr>))"
    using assms by (intro commitBlockWithSignatures_commits) simp_all
  ultimately show ?thesis by (simp add: committed_by_def)
qed

section \<open>Proposals\<close>

text \<open>The conditions under which a proposal is taken up.\<close>

definition acceptable :: "crypto \<Rightarrow> ambient \<Rightarrow> uint64 \<Rightarrow> uint32 \<Rightarrow> Block \<Rightarrow> ConsensusEngine \<Rightarrow> bool" where
  "acceptable C am h r b e \<longleftrightarrow>
     latest e < h \<and> h = latest e + 1 \<and>
     (\<exists>v. select_proposer C am e h r (prev_hash_for_vrf (en_blockchain e) (latest e)) = Some v \<and> blk_Proposer b = val_Address v) \<and>
     ValidateBlock C (am_check_time am) (Some (proposer_validator C (en_consensus e))) (en_blockchain e) b False = Inr ()"

lemma set_height_round_frame [simp]:
  "en_blockchain (set_height_round h r e) = en_blockchain e"
  "co_ValidatorSet (en_consensus (set_height_round h r e)) = co_ValidatorSet (en_consensus e)"
  by (simp_all add: engine_defs)

definition reposition :: "uint64 \<Rightarrow> uint32 \<Rightarrow> ConsensusEngine \<Rightarrow> ConsensusEngine" where
  "reposition h r e =
     (if co_CurrentHeight (en_consensus e) \<noteq> h \<or> co_CurrentRound (en_consensus e) \<noteq> r then set_height_round h r e else e)"

definition take_up :: "ambient \<Rightarrow> uint64 \<Rightarrow> uint32 \<Rightarrow> Hash \<Rightarrow> Block \<Rightarrow> ConsensusEngine \<Rightarrow> ConsensusEngine" where
  "take_up am h r bh b e1 =
     (let a = AddressToString (blk_Proposer b);
          e4 = startRoundTimer (broadcastState a (set_state StatePrevoting (sleep am (broadcastState a (set_state StateProposing
                 (reset_votes h r (e1\<lparr>en_proposedBlock := Some b\<rparr>)))))))
      in if co_LocalValidator (en_consensus e4) \<noteq> None then castVote VoteTypePrevote bh e4 else e4)"

lemma reposition_frame:
  "en_consensus (reposition h r e) = (en_consensus e)\<lparr>co_CurrentHeight := h, co_CurrentRound := r\<rparr>"
  "en_blockchain (reposition h r e) = en_blockchain e" "en_pending (reposition h r e) = en_pending e"
  "en_proposedBlock (reposition h r e) = en_proposedBlock e"
  by (auto simp: reposition_def engine_defs)

lemma HandleProposal_steps:
  "HandleProposal C am h r bh b e =
     (if h \<le> latest e then e else if h \<noteq> latest e + 1 then e
      else case select_proposer C am e h r (prev_hash_for_vrf (en_blockchain e) (latest e)) of
             None \<Rightarrow> e
           | Some v \<Rightarrow>
               if blk_Proposer b \<noteq> val_Address v then e
               else case ValidateBlock C (am_check_time am) (Some (proposer_validator C (en_consensus (reposition h r e))))
                           (en_blockchain (reposition h r e)) b False of
                      Inl err \<Rightarrow> reposition h r e
                    | Inr _ \<Rightarrow> take_up am h r bh b (reposition h r e))"
  unfolding HandleProposal_def take_up_def reposition_def Let_def by (rule refl)

lemma HandleProposal_eq:
  "HandleProposal C am h r bh b e =
     (if acceptable C am h r b e then take_up am h r bh b (reposition h r e)
      else if latest e < h \<and> h = latest e + 1 \<and>
        (\<exists>v. select_proposer C am e h r (prev_hash_for_vrf (en_blockchain e) (latest e)) = Some v \<and> blk_Proposer b = val_Address v)
      then reposition h r e else e)"
proof -
  define S where "S = select_proposer C am e h r (prev_hash_for_vrf (en_blockchain e) (latest e))"
  define V where "V = ValidateBlock C (am_check_time am) (Some (proposer_validator C (en_consensus e))) (en_blockchain e) b False"
  define T where "T = take_up am h r bh b (reposition h r e)"
  define n where "n = latest e"
  have "proposer_validator C (en_consensus (reposition h r e)) = proposer_validator C (en_consensus e)"
    by (rule proposer_validator_cong) (simp add: reposition_frame)
  then have steps: "HandleProposal C am h r bh b e =
     (if h \<le> n then e else if h \<noteq> n + 1 then e
      else case S of None \<Rightarrow> e
           | Some v \<Rightarrow> if blk_Proposer b \<noteq> val_Address v then e else case V of Inl err \<Rightarrow> reposition h r e | Inr _ \<Rightarrow> T)"
    unfolding HandleProposal_steps reposition_frame(2) S_def V_def T_def n_def by (simp only:)
  have acc: "acceptable C am h r b e \<longleftrightarrow> n < h \<and> h = n + 1 \<and> (\<exists>v. S = Some v \<and> blk_Proposer b = val_Address v) \<and> V = Inr ()"
    by (simp only: acceptable_def S_def V_def n_def)
  have pos: "(latest e < h \<and> h = latest e + 1 \<and>
      (\<exists>v. select_proposer C am e h r (prev_hash_for_vrf (en_blockchain e) (latest e)) = Some v \<and> blk_Proposer b = val_Address v)) \<longleftrightarrow>
     \<not> h \<le> n \<and> h = n + 1 \<and> (\<exists>v. S = Some v \<and> blk_Proposer b = val_Address v)"
    by (simp only: S_def n_def not_le)
  show ?thesis
    unfolding steps acc pos T_def [symmetric] by (cases "h \<le> n"; cases "h = n + 1"; cases S; cases V) (simp_all add: leD)
qed

text \<open>The surroundings leave the local keys and the position of the run alone while the handler sleeps.\<close>

definition undisturbed :: "ambient \<Rightarrow> bool" where
  "undisturbed am \<longleftrightarrow> ambient_ok am \<and>
     (\<forall>c. co_LocalProposer (am_others am c) = co_LocalProposer c \<and> co_CurrentHeight (am_others am c) = co_CurrentHeight c \<and>
        co_CurrentRound (am_others am c) = co_CurrentRound c)"

lemma broadcastState_frame [simp]:
  "en_consensus (broadcastState a e) = en_consensus e" "en_blockchain (broadcastState a e) = en_blockchain e"
  "en_pending (broadcastState a e) = en_pending e" "en_proposedBlock (broadcastState a e) = en_proposedBlock e"
  "en_precommits (broadcastState a e) = en_precommits e" "en_prevotes (broadcastState a e) = en_prevotes e"
  "en_onBlockCommit (broadcastState a e) = en_onBlockCommit e" "set (en_out e) \<subseteq> set (en_out (broadcastState a e))"
  by (auto simp: broadcastState_def emit_def)

lemma take_up_prevotes:
  assumes "undisturbed am" "co_LocalValidator (en_consensus e) = Some v" "co_LocalProposer (en_consensus e) = Some p"
    "co_CurrentHeight (en_consensus e) = h" "co_CurrentRound (en_consensus e) = r"
  shows "en_proposedBlock (take_up am h r bh b e) = Some b \<and>
    en_pending (take_up am h r bh b e) =
       en_pending e @ [Cast VoteTypePrevote bh h r (val_Address v) (val_VotingPower v) (vs_TotalVotingPower (co_ValidatorSet (en_consensus e)))]"
  using assms by (simp add: take_up_def castVote_def engine_defs Let_def undisturbed_def ambient_ok_def)

lemma HandleProposal_accepts:
  assumes "acceptable C am h r b e" "undisturbed am" "co_LocalValidator (en_consensus e) = Some v" "co_LocalProposer (en_consensus e) = Some p"
  shows "en_proposedBlock (HandleProposal C am h r bh b e) = Some b \<and>
    en_pending (HandleProposal C am h r bh b e) =
       en_pending e @ [Cast VoteTypePrevote bh h r (val_Address v) (val_VotingPower v) (vs_TotalVotingPower (co_ValidatorSet (en_consensus e)))]"
  using assms(1) take_up_prevotes [OF assms(2), of "reposition h r e" v p h r bh b] assms(3,4)
  unfolding HandleProposal_eq by (simp add: reposition_frame)

lemma HandleProposal_takes:
  assumes "acceptable C am h r b e"
  shows "en_proposedBlock (HandleProposal C am h r bh b e) = Some b"
proof -
  have "en_proposedBlock (castVote t x e1) = en_proposedBlock e1" for t x e1
    by (simp add: castVote_def Let_def split: option.split)
  with assms show ?thesis unfolding HandleProposal_eq by (simp add: take_up_def Let_def engine_defs)
qed

lemma HandleProposal_rejects:
  assumes "\<not> acceptable C am h r b e"
  shows "en_proposedBlock (HandleProposal C am h r bh b e) = en_proposedBlock e \<and> en_pending (HandleProposal C am h r bh b e) = en_pending e \<and>
    en_blockchain (HandleProposal C am h r bh b e) = en_blockchain e"
  using assms unfolding HandleProposal_eq by (simp add: reposition_frame)

lemma ValidateBlock_cong:
  assumes "bc_db p = bc_db q" "bc_cfg p = bc_cfg q"
  shows "ValidateBlock C now pv p b cc = ValidateBlock C now pv q b cc"
proof -
  have "getBlockByHeightNoLock p = getBlockByHeightNoLock q" using assms by (intro ext) (simp add: getBlockByHeightNoLock_def)
  moreover have "ValidateTransaction C p = ValidateTransaction C q" using ValidateTransaction_cong [OF assms] by (intro ext)
  ultimately show ?thesis by (simp add: ValidateBlock_def)
qed

text \<open>
  A peer with the same stored chain, configuration and validator set accepts what an honest proposer
  builds on its tip, signs and proposes.
\<close>

definition same_view :: "ConsensusEngine \<Rightarrow> ConsensusEngine \<Rightarrow> bool" where
  "same_view e e' \<longleftrightarrow>
     bc_db (en_blockchain e') = bc_db (en_blockchain e) \<and> bc_cfg (en_blockchain e') = bc_cfg (en_blockchain e) \<and>
     latest e' = latest e \<and> co_ValidatorSet (en_consensus e') = co_ValidatorSet (en_consensus e) \<and>
     co_ProposerSelectionMode (en_consensus e') = co_ProposerSelectionMode (en_consensus e)"

definition proposer_ready :: "crypto \<Rightarrow> ambient \<Rightarrow> ConsensusEngine \<Rightarrow> Proposer \<Rightarrow> Validator \<Rightarrow> Validator \<Rightarrow> bool" where
  "proposer_ready C am e p v reg \<longleftrightarrow>
     wf_ValidatorSet (co_ValidatorSet (en_consensus e)) \<and> few_validators (co_ValidatorSet (en_consensus e)) \<and>
     co_LocalValidator (en_consensus e) = Some v \<and> co_LocalProposer (en_consensus e) = Some p \<and>
     GetValidator (co_ValidatorSet (en_consensus e)) (val_Address v) = Some reg \<and> val_IsActive reg \<and> key_matches C p reg \<and>
     can_build C (am_pool am (bc_Mempool (en_blockchain e))) (en_blockchain e) (latest e + 1) (val_Address v) (am_block_time am)"

lemma honest_proposal_acceptable:
  assumes crypto: "der_signatures C" "signatures_verify C" and ready: "proposer_ready C am e p v reg"
    and am: "ambient_ok am" "ambient_ok am'"
    and sel: "select_proposer C am e (latest e + 1) r (prev_hash_for_vrf (en_blockchain e) (latest e)) = Some w" "val_Address w = val_Address v"
    and build: "build_next C am e = (e1, b)" and sig: "signBlockHash C (am_coin am) p (blk_Hash b) = Inr s"
    and tip: "getBlockByHeightNoLock (en_blockchain e) (latest e) = Inr prev" "blk_Height prev = latest e" "latest e < latest e + 1"
    and ts: "hdr_Timestamp (blk_Header prev) \<le> am_block_time am" "am_block_time am \<le> am_check_time am' + MaxFutureBlockTime"
    and peer: "same_view e e'"
  shows "acceptable C am' (latest e + 1) r b e'"
proof -
  let ?bc = "en_blockchain e" and ?h = "latest e + 1"
  note r = ready [unfolded proposer_ready_def]
  have nz: "?h \<noteq> 0" using tip(3) by auto
  obtain bc' blk where set: "SetBlock C (am_pool am (bc_Mempool ?bc)) ?bc (hash_at ?bc (latest e)) ?h (local_addr e) (am_block_time am) = (bc', blk)"
    by (rule prod.exhaust)
  have addr: "local_addr e = val_Address v" using r by (simp add: local_addr_def)
  note f = SetBlock_fields [OF set]
  have b: "b = SignBlock blk s"
    using build set sig r by (auto simp: build_next_def Let_def sign_new_def SignBlock_def split: sum.splits)
  have hash: "blk_Hash b = blk_Hash blk" by (simp add: b SignBlock_def)
  have "ValidateBlockSignature C reg (blk_Hash blk) s"
    using signBlockHash_verifies [OF crypto _ sig] r by (simp add: hash)
  then have "ValidateProposerSignature (SignBlock blk s) (Some (proposer_validator C (en_consensus e))) = Inr ()"
    using r f(4) addr
    by (simp add: ValidateProposerSignature_ok proposer_validator_def IsValidProposer_def Consensus_ValidateProposerSignature_def
        GetValidator_def SignBlock_def)
  then have "ValidateBlock C (am_check_time am') (Some (proposer_validator C (en_consensus e))) bc' b False = Inr ()"
    unfolding b using r tip ts nz addr
    by (intro SetBlock_valid [OF _ set]) (simp_all add: hash_at_def GetBlockByHeight_def)
  moreover have "ValidateBlock C now pv (en_blockchain e') b cc = ValidateBlock C now pv bc' b cc" for now pv cc
    using peer f(1,2) by (intro ValidateBlock_cong) (simp_all add: same_view_def)
  moreover have "proposer_validator C (en_consensus e') = proposer_validator C (en_consensus e)"
    using peer by (intro proposer_validator_cong) (simp add: same_view_def)
  moreover have "prev_hash_for_vrf (en_blockchain e') (latest e) = prev_hash_for_vrf ?bc (latest e)"
    using peer by (simp add: prev_hash_for_vrf_def hash_at_def GetBlockByHeight_def getBlockByHeightNoLock_def same_view_def)
  moreover have "select_proposer C am' e' ?h r x = select_proposer C am e ?h r x" for x
    unfolding select_proposer_def using r am peer
    by (intro SelectProposerByMode_agrees) (simp_all add: ambient_ok_def same_view_def)
  moreover have "blk_Proposer b = val_Address v" by (simp add: b SignBlock_def f(4) addr)
  ultimately show ?thesis using sel tip(3) peer by (simp add: acceptable_def same_view_def)
qed

end
