(* ===== verification/Sample_Consensus.thy ===== *)
theory Sample_Consensus
  imports Sample_Chain Engine
begin

text \<open>
  The sample network with one validator, at the first address: its consensus object, an engine that
  runs on the sample chain, and the block it proposes.
\<close>

definition toy_validator :: "byte \<Rightarrow> Validator" where
  "toy_validator b = \<lparr>val_Address = toy_address b, val_PublicKey = [b], val_VotingPower = 10, val_IsActive = True\<rparr>"

lemma toy_validator_fields [simp]:
  "val_Address (toy_validator b) = toy_address b" "val_PublicKey (toy_validator b) = [b]" "val_VotingPower (toy_validator b) = 10"
  "val_IsActive (toy_validator b)"
  by (simp_all add: toy_validator_def)

definition toy_set :: ValidatorSet where
  "toy_set = AddValidator NewValidatorSet (toy_validator 1)"

lemma toy_set_entries: "vs_Validators toy_set = [(AddressToString (toy_address 1), toy_validator 1)]" "vs_TotalVotingPower toy_set = 10"
  by (simp_all add: toy_set_def AddValidator_def NewValidatorSet_def)

lemma toy_set_wf [simp]: "wf_ValidatorSet toy_set" "few_validators toy_set" "some_active toy_set" "GetValidator toy_set (toy_address 1) = Some (toy_validator 1)"
proof -
  show "wf_ValidatorSet toy_set" unfolding toy_set_def
    by (rule wf_AddValidator [OF wf_NewValidatorSet]) (simp add: GetValidator_def NewValidatorSet_def)
qed (simp_all add: few_validators_def some_active_def GetValidator_def toy_set_entries)

lemma toy_power [simp]: "power_of toy_set (toy_address 1) = 10" "power_fits toy_set" "total_power toy_set = 10"
proof -
  show p: "power_of toy_set (toy_address 1) = 10" by (simp add: power_of_def)
  have "validator_addrs toy_set = {toy_address 1}" by (simp add: validator_addrs_def toy_set_entries)
  with p show "total_power toy_set = 10" by (simp add: total_power_def)
  then show "power_fits toy_set" by (simp add: power_fits_def)
qed

definition toy_consensus :: Consensus where
  "toy_consensus = RegisterValidator
     \<lparr>co_Conf = toy_cfg, co_DB = empty_db, co_State = StateIdle, co_CurrentHeight = 1, co_CurrentRound = 0, co_StakerSet = NewStakerSet,
      co_ValidatorSet = toy_set, co_LocalValidator = None, co_LocalProposer = None, co_ProposerSelectionMode = ''roundrobin''\<rparr>
     (toy_address 1) [1] [1]"

lemma toy_consensus_fields [simp]:
  "co_ValidatorSet toy_consensus = toy_set" "co_LocalValidator toy_consensus = Some (toy_validator 1)"
  "co_LocalProposer toy_consensus = Some (NewProposer (Some (toy_validator 1)) [1])" "co_CurrentHeight toy_consensus = 1"
  "co_CurrentRound toy_consensus = 0" "co_ProposerSelectionMode toy_consensus = ''roundrobin''" "cert_ready toy_consensus"
  by (simp_all add: toy_consensus_def RegisterValidator_def Let_def toy_set_entries cert_ready_def) (simp_all add: toy_validator_def)

definition toy_ambient :: ambient where
  "toy_ambient = \<lparr>am_now_ms = 6000, am_block_time = 6, am_check_time = 6, am_commit_ms = 6000, am_vote_time = 6, am_pool = \<lambda>m. m,
     am_vals = \<lambda>m. m, am_vals2 = \<lambda>m. m, am_votes = \<lambda>m. m, am_coin = 0, am_sent = True, am_peers = 0,
     am_asleep = \<lambda>p. p, am_others = \<lambda>c. c, am_synced = \<lambda>p. p\<rparr>"

lemma toy_ambient_ok [simp]: "ambient_ok toy_ambient" "undisturbed toy_ambient"
  by (simp_all add: ambient_ok_def undisturbed_def toy_ambient_def)

definition toy_sig :: Signature where
  "toy_sig = copy_into 72 [0x30, 1, 1]"

lemma toy_signs [simp]: "signBlockHash toy r (NewProposer v [1]) h = Inr toy_sig" "ValidateBlockSignature toy (toy_validator 1) h toy_sig"
proof -
  show sign: "signBlockHash toy r (NewProposer v [1]) h = Inr toy_sig" for r v
    by (simp add: signBlockHash_def NewProposer_def SignData_def toy_def toy_key_def toy_sig_def BytesToPrivateKey_def)
  have "key_matches toy (NewProposer None [1]) (toy_validator 1)"
    by (simp add: key_matches_def NewProposer_def)
  from signBlockHash_verifies [OF toy_laws(1,2) this sign] show "ValidateBlockSignature toy (toy_validator 1) h toy_sig" .
qed

definition toy_proposal :: Block where
  "toy_proposal = SignBlock toy_block toy_sig"

lemma toy_proposal_fields [simp]:
  "blk_Height toy_proposal = 1" "blk_Hash toy_proposal = blk_Hash toy_block" "blk_Proposer toy_proposal = toy_address 1"
  by (simp_all add: toy_proposal_def SignBlock_def)

lemma toy_proposal_valid: "ValidateBlock toy 6 (Some (proposer_validator toy toy_consensus)) toy_chain toy_proposal False = Inr ()"
  unfolding toy_proposal_def
  by (rule SetBlock_valid [OF toy_can_build toy_SetBlock, where prev = "gob_block toy_genesis"])
    (simp_all add: gob_block_def MaxFutureBlockTime_def ValidateProposerSignature_ok proposer_validator_def IsValidProposer_def
      Consensus_ValidateProposerSignature_def toy_set_entries SignBlock_def)

definition toy_engine :: ConsensusEngine where
  "toy_engine = (NewConsensusEngine toy_consensus toy_chain)\<lparr>en_onBlockCommit := True\<rparr>"

lemma toy_engine_inv [simp]: "engine_inv toy toy_set toy_engine"
  by (simp add: engine_inv_def toy_engine_def NewConsensusEngine_def)

text \<open>The engine after the prevotes: the vote of its only validator completes the majority.\<close>

definition toy_voting :: ConsensusEngine where
  "toy_voting = toy_engine\<lparr>en_proposedBlock := Some toy_proposal, en_precommits := Some (NewVoteSet 1 0 VoteTypePrecommit)\<rparr>"

definition toy_vote :: Vote where
  "toy_vote = make_vote toy_ambient 1 0 VoteTypePrecommit (blk_Hash toy_proposal) (toy_address 1) toy_sig"

definition toy_votes :: VoteSet where
  "toy_votes = fst (AddVote (NewVoteSet 1 0 VoteTypePrecommit) toy_vote 10)"

definition toy_final :: Block where
  "toy_final = toy_proposal\<lparr>blk_CommitSignatures := commit_sigs toy_ambient toy_votes\<rparr>"

lemma toy_vote_fields [simp]:
  "vote_Height toy_vote = 1" "vote_Round toy_vote = 0" "vote_Type toy_vote = VoteTypePrecommit"
  "vote_BlockHash toy_vote = blk_Hash toy_block" "vote_VoterID toy_vote = toy_address 1" "vote_Signature toy_vote = toy_sig"
  by (simp_all add: toy_vote_def make_vote_def)

lemma toy_voting_fields [simp]:
  "en_consensus toy_voting = toy_consensus" "en_blockchain toy_voting = toy_chain" "en_proposedBlock toy_voting = Some toy_proposal"
  "en_precommits toy_voting = Some (NewVoteSet 1 0 VoteTypePrecommit)" "en_onBlockCommit toy_voting"
  "en_consensus toy_engine = toy_consensus" "en_blockchain toy_engine = toy_chain" "en_pending toy_engine = []"
  by (simp_all add: toy_voting_def toy_engine_def NewConsensusEngine_def)

lemma toy_latest [simp]: "latest toy_voting = 0" "latest toy_engine = 0"
  by (simp_all add: latest_def GetLatestHeight_def)

lemma toy_voting_inv [simp]: "engine_inv toy toy_set toy_voting"
  using toy_engine_inv by (simp add: engine_inv_def toy_voting_def)

lemma toy_commit_votes: "commit_votes toy toy_consensus h toy_votes"
proof -
  have votes: "toy_votes = (NewVoteSet 1 0 VoteTypePrecommit)\<lparr>vt_Votes := [(toy_address 1, toy_vote)], vt_VotedPower := 10\<rparr>"
    by (simp add: toy_votes_def AddVote_def NewVoteSet_def)
  have "wf_VoteSet (power_of toy_set) toy_votes"
    unfolding toy_votes_def by (rule AddVote_ok) simp_all
  then show ?thesis
    by (simp add: commit_votes_def commit_signed_def HasTwoThirdsMajority_def toy_set_entries) (simp add: votes NewVoteSet_def)
qed

lemma toy_index [simp]: "index_complete (bc_db toy_chain)"
  using toy_db_ok(1) by (simp add: utxo_db_ok_def)

lemma toy_ambient_fields [simp]:
  "am_asleep toy_ambient p = p" "am_others toy_ambient c = c" "am_check_time toy_ambient = 6" "am_block_time toy_ambient = 6"
  "am_pool toy_ambient m = m" "am_coin toy_ambient = 0"
  by (simp_all add: toy_ambient_def)

lemma toy_committed: "committed_by mem_ops toy_chain toy_final toy_voting (HandleVote toy mem_ops toy_ambient toy_vote toy_voting)"
  unfolding toy_final_def
  by (rule HandleVote_commits [where x = "toy_validator 1" and votes = "NewVoteSet 1 0 VoteTypePrecommit"])
    (simp_all add: toy_commit_votes toy_proposal_valid flip: toy_votes_def)

lemma toy_selected [simp]: "select_proposer toy toy_ambient toy_engine 1 0 h = Some (toy_validator 1)"
  by (simp add: select_proposer_def SelectProposerByMode_def SelectProposer_def GetActiveValidators_def toy_set_entries toy_ambient_def go_uint64_def)

end
