(* ===== verification/Rounds.thy ===== *)
theory Rounds
  imports Sample_Consensus
begin

text \<open>
  A whole round of the engine: from the proposal through any sequence of votes, prevotes and precommits mixed, repeated and
  in any order, to the decision.
\<close>

section \<open>Hearing votes\<close>

text \<open>Votes delivered one after another, each with its own surroundings.\<close>

definition hear :: "crypto \<Rightarrow> db_ops \<Rightarrow> (ambient \<times> Vote) list \<Rightarrow> ConsensusEngine \<Rightarrow> ConsensusEngine" where
  "hear C W avs e = foldl (\<lambda>e av. HandleVote C W (fst av) (snd av) e) e avs"

lemma hear_simps [simp]: "hear C W [] e = e" "hear C W (avs @ [av]) e = HandleVote C W (fst av) (snd av) (hear C W avs e)"
  by (simp_all add: hear_def)

text \<open>The count of the votes of one type, and the power behind it.\<close>

definition tally :: "ValidatorSet \<Rightarrow> uint64 \<Rightarrow> uint32 \<Rightarrow> uint8 \<Rightarrow> Vote list \<Rightarrow> VoteSet" where
  "tally VS h r t votes = foldl (\<lambda>s v. fst (AddVote s v (power_of VS (vote_VoterID v)))) (NewVoteSet h r t) votes"

definition quorum :: "ValidatorSet \<Rightarrow> uint8 \<Rightarrow> Vote list \<Rightarrow> bool" where
  "quorum VS t votes \<longleftrightarrow>
     2 * total_power VS < 3 * (\<Sum>a\<in>vote_VoterID ` {v \<in> set votes. vote_Type v = t}. unat (power_of VS a))"

text \<open>A vote for a block in a round: of an active validator, correctly signed.\<close>

definition vote_for :: "crypto \<Rightarrow> Consensus \<Rightarrow> uint64 \<Rightarrow> uint32 \<Rightarrow> Hash \<Rightarrow> Vote \<Rightarrow> bool" where
  "vote_for C c h r bh v \<longleftrightarrow> vote_Height v = h \<and> vote_Round v = r \<and> vote_BlockHash v = bh \<and>
     vote_Type v \<in> {VoteTypePrevote, VoteTypePrecommit} \<and> commit_signed C c bh (vote_VoterID v) (vote_Signature v)"

lemma tally_simps [simp]:
  "tally VS h r t [] = NewVoteSet h r t"
  "tally VS h r t (votes @ [v]) = fst (AddVote (tally VS h r t votes) v (power_of VS (vote_VoterID v)))"
  by (simp_all add: tally_def)

lemma tally_kind: "vt_Height (tally VS h r t votes) = h" "vt_Round (tally VS h r t votes) = r" "vt_Type (tally VS h r t votes) = t"
  by (induction votes rule: rev_induct) (simp_all add: AddVote_step, simp_all add: NewVoteSet_def)

lemma tally_other: "vote_Type v \<noteq> t \<Longrightarrow> tally VS h r t (votes @ [v]) = tally VS h r t votes"
  by (simp add: AddVote_def tally_kind)

lemma tally_votes: "set (vt_Votes (tally VS h r t votes)) \<subseteq> (\<lambda>v. (vote_VoterID v, v)) ` set votes"
proof (induction votes rule: rev_induct)
  case (snoc v votes)
  then show ?case by (cases rule: AddVote_cases [of "tally VS h r t votes" v "power_of VS (vote_VoterID v)"]) auto
qed (simp add: NewVoteSet_def)

lemma commit_signed_voter: "cert_ready c \<Longrightarrow> commit_signed C c bh a s \<Longrightarrow> a \<in> validator_addrs (co_ValidatorSet c)"
  by (auto simp: commit_signed_def cert_ready_def dest: GetValidator_addr)

lemma tally_majority:
  assumes "cert_ready c" "\<forall>v\<in>set votes. vote_for C c h r bh v"
  shows "HasTwoThirdsMajority (tally (co_ValidatorSet c) h r t votes) (vs_TotalVotingPower (co_ValidatorSet c)) \<longleftrightarrow>
    quorum (co_ValidatorSet c) t votes"
proof -
  let ?VS = "co_ValidatorSet c"
  note run = AddVote_run [where pow = "power_of ?VS" and h = h and r = r and t = t and votes = votes, folded tally_def]
  have eq: "{v \<in> set votes. vote_Height v = h \<and> vote_Round v = r \<and> vote_Type v = t} = {v \<in> set votes. vote_Type v = t}"
    using assms(2) by (auto simp: vote_for_def)
  have "voters (tally ?VS h r t votes) \<subseteq> validator_addrs ?VS"
    unfolding run(2) using assms(2) commit_signed_voter [OF assms(1)] by (auto simp: vote_for_def)
  from majority_is_quorum [OF _ _ run(1) this] assms(1) show ?thesis by (simp add: run(2) eq quorum_def cert_ready_def)
qed

lemma tally_commit_votes:
  assumes "cert_ready c" "\<forall>v\<in>set votes. vote_for C c h r bh v" "quorum (co_ValidatorSet c) t votes"
  shows "commit_votes C c bh (tally (co_ValidatorSet c) h r t votes)"
proof -
  have "wf_VoteSet (power_of (co_ValidatorSet c)) (tally (co_ValidatorSet c) h r t votes)" unfolding tally_def by (rule AddVote_run(1))
  moreover have "commit_signed C c bh a (vote_Signature v)" if "(a, v) \<in> set (vt_Votes (tally (co_ValidatorSet c) h r t votes))" for a v
    using that tally_votes assms(2) by (fastforce simp: vote_for_def)
  ultimately show ?thesis using tally_majority [OF assms(1,2), of t] assms(3) by (auto simp: commit_votes_def)
qed

section \<open>The state of a round\<close>

text \<open>\<open>keeps e e'\<close>: what no vote changes before the decision.\<close>

definition keeps :: "ConsensusEngine \<Rightarrow> ConsensusEngine \<Rightarrow> bool" where
  "keeps e e' \<longleftrightarrow> en_blockchain e' = en_blockchain e \<and>
     (\<exists>s. en_consensus e' = (en_consensus e)\<lparr>co_State := s\<rparr>) \<and>
     en_proposedBlock e' = en_proposedBlock e \<and> en_onBlockCommit e' = en_onBlockCommit e \<and>
     set (en_pending e) \<subseteq> set (en_pending e')"

definition collecting :: "ConsensusEngine \<Rightarrow> Vote list \<Rightarrow> ConsensusEngine \<Rightarrow> bool" where
  "collecting e votes e' \<longleftrightarrow> keeps e e' \<and>
     (let c = en_consensus e; T = \<lambda>t. tally (co_ValidatorSet c) (co_CurrentHeight c) (co_CurrentRound c) t votes in
      en_prevotes e' = Some (T VoteTypePrevote) \<and> en_precommits e' = Some (T VoteTypePrecommit))"

lemma keeps_refl [simp]: "keeps e e"
  by (auto simp: keeps_def intro: exI [of _ "co_State (en_consensus e)"])

lemma keeps_trans: "keeps e e1 \<Longrightarrow> keeps e1 e2 \<Longrightarrow> keeps e e2"
  by (auto simp: keeps_def)

lemma keeps_cast:
  "keeps e (castVote t bh (to_precommitting (e\<lparr>en_prevotes := x\<rparr>)))" "keeps e (e\<lparr>en_prevotes := x\<rparr>)" "keeps e (e\<lparr>en_precommits := x\<rparr>)"
  "en_prevotes (castVote t bh (to_precommitting e)) = en_prevotes e" "en_precommits (castVote t bh (to_precommitting e)) = en_precommits e"
  by (auto simp: keeps_def castVote_def to_precommitting_def Let_def engine_defs intro: exI [of _ "co_State (en_consensus e)"] split: option.split)

text \<open>The precommit that the engine casts when it has seen a quorum of prevotes.\<close>

definition own_precommit :: "ConsensusEngine \<Rightarrow> Hash \<Rightarrow> Validator \<Rightarrow> pending" where
  "own_precommit e bh v =
     Cast VoteTypePrecommit bh (co_CurrentHeight (en_consensus e)) (co_CurrentRound (en_consensus e)) (val_Address v) (val_VotingPower v)
       (vs_TotalVotingPower (co_ValidatorSet (en_consensus e)))"

lemma cast_precommit:
  assumes "keeps e e'" "co_LocalValidator (en_consensus e) = Some v" "co_LocalProposer (en_consensus e) = Some p"
  shows "own_precommit e bh v \<in> set (en_pending (castVote VoteTypePrecommit bh (to_precommitting e')))"
  using assms by (auto simp: keeps_def castVote_def to_precommitting_def own_precommit_def Let_def engine_defs)

text \<open>One vote, as long as there is no quorum of precommits.\<close>

definition in_round :: "crypto \<Rightarrow> uint64 \<Rightarrow> uint32 \<Rightarrow> Block \<Rightarrow> ConsensusEngine \<Rightarrow> bool" where
  "in_round C h r b e \<longleftrightarrow> cert_ready (en_consensus e) \<and> co_CurrentHeight (en_consensus e) = h \<and> co_CurrentRound (en_consensus e) = r \<and>
     latest e < h \<and> h = latest e + 1 \<and> en_proposedBlock e = Some b"

lemma collecting_cases:
  assumes "collecting e votes e'" "in_round C h r b e"
  obtains s where "keeps e e'" "en_consensus e' = (en_consensus e)\<lparr>co_State := s\<rparr>" "en_blockchain e' = en_blockchain e"
    "en_proposedBlock e' = Some b" "en_onBlockCommit e' = en_onBlockCommit e"
    "en_prevotes e' = Some (tally (co_ValidatorSet (en_consensus e)) h r VoteTypePrevote votes)"
    "en_precommits e' = Some (tally (co_ValidatorSet (en_consensus e)) h r VoteTypePrecommit votes)"
proof -
  have k: "keeps e e'" using assms(1) by (simp add: collecting_def)
  then obtain s where s: "en_consensus e' = (en_consensus e)\<lparr>co_State := s\<rparr>" unfolding keeps_def by blast
  have "en_blockchain e' = en_blockchain e" "en_proposedBlock e' = Some b" "en_onBlockCommit e' = en_onBlockCommit e"
    using k assms(2) by (simp_all add: keeps_def in_round_def)
  moreover have "co_CurrentHeight (en_consensus e) = h" "co_CurrentRound (en_consensus e) = r" using assms(2) by (simp_all add: in_round_def)
  then have "en_prevotes e' = Some (tally (co_ValidatorSet (en_consensus e)) h r VoteTypePrevote votes)"
    "en_precommits e' = Some (tally (co_ValidatorSet (en_consensus e)) h r VoteTypePrecommit votes)"
    using assms(1) unfolding collecting_def Let_def by metis+
  ultimately show ?thesis using that [OF k s] by blast
qed

lemma HandleVote_counts:
  assumes r: "in_round C h r b e" and k: "keeps e e'" and v: "vote_for C (en_consensus e) h r bh v"
  shows "HandleVote C W am v e' =
    (let VS = co_ValidatorSet (en_consensus e); w = power_of VS (vote_VoterID v) in
     if vote_Type v = VoteTypePrevote
     then (case en_prevotes e' of
             None \<Rightarrow> e'
           | Some votes \<Rightarrow>
               let votes' = fst (AddVote votes v w); e1 = e'\<lparr>en_prevotes := Some votes'\<rparr>
               in if HasTwoThirdsMajority votes' (vs_TotalVotingPower VS) then castVote VoteTypePrecommit bh (to_precommitting e1) else e1)
     else count_precommit C W am v w (vs_TotalVotingPower VS) e')"
proof -
  obtain y where y: "GetValidator (co_ValidatorSet (en_consensus e)) (vote_VoterID v) = Some y" "ValidateBlockSignature C y bh (vote_Signature v)"
    "val_VotingPower y = power_of (co_ValidatorSet (en_consensus e)) (vote_VoterID v)"
    using v by (auto simp: vote_for_def commit_signed_def power_of_def)
  have same: "co_ValidatorSet (en_consensus e') = co_ValidatorSet (en_consensus e)" "latest e' = latest e" "co_CurrentRound (en_consensus e') = r"
    using k r by (auto simp: keeps_def latest_def in_round_def)
  have pos: "(vote_Height v \<le> latest e) = False" "(vote_Height v = latest e + 1) = True" "vote_Round v = r" "vote_BlockHash v = bh"
    "vote_Type v = VoteTypePrevote \<or> vote_Type v = VoteTypePrecommit"
    using r v by (auto simp: in_round_def vote_for_def)
  show ?thesis
    using pos(5) by (simp only: HandleVote_def Let_def same pos(1-4) y option.case simp_thms if_True if_False) (auto simp: y(3))
qed

lemma hear_prevote:
  assumes r: "in_round C h r b e" and c: "collecting e votes e'" and v: "vote_for C (en_consensus e) h r bh v" "vote_Type v = VoteTypePrevote"
    and votes: "\<forall>v\<in>set votes. vote_for C (en_consensus e) h r bh v"
  shows "collecting e (votes @ [v]) (HandleVote C W am v e') \<and>
    (quorum (co_ValidatorSet (en_consensus e)) VoteTypePrevote (votes @ [v]) \<and> co_LocalValidator (en_consensus e) = Some x \<and>
       co_LocalProposer (en_consensus e) = Some p \<longrightarrow> own_precommit e bh x \<in> set (en_pending (HandleVote C W am v e')))"
proof -
  let ?VS = "co_ValidatorSet (en_consensus e)" and ?T = "\<lambda>t. tally (co_ValidatorSet (en_consensus e)) h r t"
  obtain s where e': "keeps e e'" "en_consensus e' = (en_consensus e)\<lparr>co_State := s\<rparr>" "en_blockchain e' = en_blockchain e"
    "en_proposedBlock e' = Some b" "en_onBlockCommit e' = en_onBlockCommit e"
    "en_prevotes e' = Some (?T VoteTypePrevote votes)" "en_precommits e' = Some (?T VoteTypePrecommit votes)"
    by (rule collecting_cases [OF c r])
  let ?p = "?T VoteTypePrevote (votes @ [v])"
  let ?e1 = "e'\<lparr>en_prevotes := Some ?p\<rparr>"
  have maj: "HasTwoThirdsMajority ?p (vs_TotalVotingPower ?VS) \<longleftrightarrow> quorum ?VS VoteTypePrevote (votes @ [v])"
    using tally_majority [of "en_consensus e" "votes @ [v]" C h r bh VoteTypePrevote] r v(1) votes by (simp add: in_round_def)
  have step: "HandleVote C W am v e' =
      (if quorum ?VS VoteTypePrevote (votes @ [v]) then castVote VoteTypePrecommit bh (to_precommitting ?e1) else ?e1)"
    using HandleVote_counts [OF r e'(1) v(1), of W am] v(2) e'(6) maj by (simp add: Let_def)
  have "tally ?VS h r VoteTypePrecommit (votes @ [v]) = ?T VoteTypePrecommit votes"
    using v(2) by (intro tally_other) (simp add: VoteTypePrevote_def VoteTypePrecommit_def)
  moreover have "keeps e (castVote VoteTypePrecommit bh (to_precommitting ?e1))" "keeps e ?e1"
    using keeps_trans [OF e'(1) keeps_cast(1)] keeps_trans [OF e'(1) keeps_cast(2)] by blast+
  ultimately have "collecting e (votes @ [v]) (HandleVote C W am v e')"
    unfolding step using r e'(7) by (simp add: collecting_def Let_def keeps_cast(4,5) in_round_def del: tally_simps)
  moreover have "own_precommit e bh x \<in> set (en_pending (castVote VoteTypePrecommit bh (to_precommitting ?e1)))"
    if "co_LocalValidator (en_consensus e) = Some x" "co_LocalProposer (en_consensus e) = Some p"
    using that by (intro cast_precommit [OF \<open>keeps e ?e1\<close>])
  ultimately show ?thesis unfolding step by simp
qed

text \<open>A precommit either adds to the count or, when it completes the quorum, commits the block.\<close>

definition decided :: "db_ops \<Rightarrow> Block \<Rightarrow> ConsensusEngine \<Rightarrow> ConsensusEngine \<Rightarrow> bool" where
  "decided W b e e' \<longleftrightarrow> (\<exists>sigs. AddBlock W (en_blockchain e) (b\<lparr>blk_CommitSignatures := sigs\<rparr>) = (en_blockchain e', Inr True) \<and>
     co_CurrentHeight (en_consensus e') = blk_Height b + 1 \<and> co_CurrentRound (en_consensus e') = 0 \<and> en_proposedBlock e' = None \<and>
     (en_onBlockCommit e \<longrightarrow> OnBlockCommit (b\<lparr>blk_CommitSignatures := sigs\<rparr>) \<in> set (en_out e')))"

text \<open>The surroundings of a vote leave the chain alone, and the block is still valid on it.\<close>

definition calm :: "crypto \<Rightarrow> Block \<Rightarrow> ConsensusEngine \<Rightarrow> ambient \<Rightarrow> bool" where
  "calm C b e am \<longleftrightarrow> ambient_ok am \<and> am_asleep am (en_blockchain e) = en_blockchain e \<and>
     ValidateBlock C (am_check_time am) (Some (proposer_validator C (en_consensus e))) (en_blockchain e) b False = Inr ()"

definition store_ready :: "db_ops \<Rightarrow> leveldb \<Rightarrow> bool" where
  "store_ready W db \<longleftrightarrow> db_laws W \<and> db_reliable W \<and> lists_readable db \<and> index_complete db"

lemma hear_precommit:
  assumes r: "in_round C h r b e" "blk_Height b = h" and c: "collecting e votes e'"
    and v: "vote_for C (en_consensus e) h r (blk_Hash b) v" "vote_Type v = VoteTypePrecommit"
    and votes: "\<forall>v\<in>set votes. vote_for C (en_consensus e) h r (blk_Hash b) v"
    and am: "calm C b e am" and W: "store_ready W (bc_db (en_blockchain e))"
  shows "if quorum (co_ValidatorSet (en_consensus e)) VoteTypePrecommit (votes @ [v]) then decided W b e (HandleVote C W am v e')
    else collecting e (votes @ [v]) (HandleVote C W am v e') \<and> en_pending (HandleVote C W am v e') = en_pending e'"
proof -
  let ?VS = "co_ValidatorSet (en_consensus e)" and ?T = "\<lambda>t. tally (co_ValidatorSet (en_consensus e)) h r t"
  obtain s where e': "keeps e e'" "en_consensus e' = (en_consensus e)\<lparr>co_State := s\<rparr>" "en_blockchain e' = en_blockchain e"
    "en_proposedBlock e' = Some b" "en_onBlockCommit e' = en_onBlockCommit e"
    "en_prevotes e' = Some (?T VoteTypePrevote votes)" "en_precommits e' = Some (?T VoteTypePrecommit votes)"
    by (rule collecting_cases [OF c r(1)])
  let ?p = "?T VoteTypePrecommit (votes @ [v])"
  let ?e1 = "e'\<lparr>en_precommits := Some ?p\<rparr>"
  have maj: "HasTwoThirdsMajority ?p (vs_TotalVotingPower ?VS) \<longleftrightarrow> quorum ?VS VoteTypePrecommit (votes @ [v])"
    using tally_majority [of "en_consensus e" "votes @ [v]" C h r "blk_Hash b" VoteTypePrecommit] r v(1) votes by (simp add: in_round_def)
  have step: "HandleVote C W am v e' =
      (if quorum ?VS VoteTypePrecommit (votes @ [v]) then commitBlockWithSignatures C W am b ?e1 else ?e1)"
    using HandleVote_counts [OF r(1) e'(1) v(1), of W am] v(2) e'(4,7) maj
    by (simp add: Let_def count_precommit_def VoteTypePrevote_def VoteTypePrecommit_def)
  show ?thesis
  proof (cases "quorum ?VS VoteTypePrecommit (votes @ [v])")
    case True
    have same: "proposer_validator C (en_consensus e') = proposer_validator C (en_consensus e)" "cert_ready (en_consensus e')"
      "commit_votes C (en_consensus e') (blk_Hash b) ?p = commit_votes C (en_consensus e) (blk_Hash b) ?p"
      using e'(2) r by (auto simp: in_round_def cert_ready_def commit_votes_def commit_signed_def intro!: proposer_validator_cong)
    have "commit_votes C (en_consensus e) (blk_Hash b) ?p"
      using tally_commit_votes [of "en_consensus e" "votes @ [v]" C h r "blk_Hash b" VoteTypePrecommit] r v(1) votes True by (simp add: in_round_def)
    then have "committed_by W (en_blockchain e) (b\<lparr>blk_CommitSignatures := commit_sigs am ?p\<rparr>) ?e1 (commitBlockWithSignatures C W am b ?e1)"
      using am W r same e'(3) by (intro commitBlockWithSignatures_commits) (auto simp: calm_def store_ready_def in_round_def)
    then show ?thesis using True step e'(5) unfolding committed_by_def decided_def by auto
  next
    case False
    have "tally ?VS h r VoteTypePrevote (votes @ [v]) = ?T VoteTypePrevote votes"
      using v(2) by (intro tally_other) (simp add: VoteTypePrevote_def VoteTypePrecommit_def)
    then show ?thesis using False step e'(6) keeps_trans [OF e'(1) keeps_cast(3)] r
      by (simp add: collecting_def Let_def in_round_def del: tally_simps)
  qed
qed

lemma quorum_snoc:
  "vote_Type v \<noteq> t \<Longrightarrow> quorum VS t (votes @ [v]) = quorum VS t votes"
  "quorum VS t votes \<Longrightarrow> quorum VS t (votes @ [v])"
proof -
  assume "vote_Type v \<noteq> t"
  then have "{w \<in> set (votes @ [v]). vote_Type w = t} = {w \<in> set votes. vote_Type w = t}" by auto
  then show "quorum VS t (votes @ [v]) = quorum VS t votes" by (simp add: quorum_def)
next
  have "(\<Sum>a\<in>vote_VoterID ` {w \<in> set votes. vote_Type w = t}. unat (power_of VS a)) \<le>
      (\<Sum>a\<in>vote_VoterID ` {w \<in> set (votes @ [v]). vote_Type w = t}. unat (power_of VS a))"
    by (rule sum_mono2) auto
  then show "quorum VS t votes \<Longrightarrow> quorum VS t (votes @ [v])" unfolding quorum_def by linarith
qed

text \<open>After the decision, votes of the old height are ignored.\<close>

lemma decided_ignores:
  assumes "decided W b e e'" "in_round C h r b e" "blk_Height b = h" "wf_Hash (blk_Hash b)" "db_laws W" "vote_Height v = h"
  shows "HandleVote C W am v e' = e'"
proof -
  obtain sigs where add: "AddBlock W (en_blockchain e) (b\<lparr>blk_CommitSignatures := sigs\<rparr>) = (en_blockchain e', Inr True)"
    using assms(1) by (auto simp: decided_def)
  have wf: "wf_Hash (blk_Hash (b\<lparr>blk_CommitSignatures := sigs\<rparr>))" using assms(4) by simp
  have tip: "moves_tip (en_blockchain e) (b\<lparr>blk_CommitSignatures := sigs\<rparr>)"
    using assms(2,3) by (auto simp: moves_tip_def in_round_def latest_def GetLatestHeight_def)
  have "bc_LatestHeight (en_blockchain e') = blk_Height (b\<lparr>blk_CommitSignatures := sigs\<rparr>)"
  proof (rule AddBlock_ok [OF assms(5) wf add], goal_cases)
    case (1 u)
    then show ?case using tip by blast
  qed
  then have "bc_LatestHeight (en_blockchain e') = h" using assms(3) by simp
  then show ?thesis using assms(6) by (simp add: HandleVote_def latest_def GetLatestHeight_def)
qed

lemma hear_round:
  assumes r: "in_round C h r b e" "blk_Height b = h" "wf_Hash (blk_Hash b)"
    and new: "en_prevotes e = Some (NewVoteSet h r VoteTypePrevote)" "en_precommits e = Some (NewVoteSet h r VoteTypePrecommit)"
    and W: "store_ready W (bc_db (en_blockchain e))"
    and avs: "\<forall>(am, v)\<in>set avs. calm C b e am \<and> vote_for C (en_consensus e) h r (blk_Hash b) v"
  shows "if quorum (co_ValidatorSet (en_consensus e)) VoteTypePrecommit (map snd avs) then decided W b e (hear C W avs e)
    else collecting e (map snd avs) (hear C W avs e) \<and>
      (quorum (co_ValidatorSet (en_consensus e)) VoteTypePrevote (map snd avs) \<and> co_LocalValidator (en_consensus e) = Some x \<and>
         co_LocalProposer (en_consensus e) = Some p \<longrightarrow> own_precommit e (blk_Hash b) x \<in> set (en_pending (hear C W avs e)))"
  using avs
proof (induction avs rule: rev_induct)
  case Nil
  have "\<not> quorum VS t []" for VS t by (simp add: quorum_def)
  then show ?case using r(1) new by (simp add: collecting_def in_round_def)
next
  case (snoc av avs)
  obtain am v where av: "av = (am, v)" by (rule prod.exhaust)
  let ?VS = "co_ValidatorSet (en_consensus e)" and ?vs = "map snd avs" and ?e = "hear C W avs e"
  have cv: "calm C b e am" "vote_for C (en_consensus e) h r (blk_Hash b) v" using snoc.prems av by auto
  have votes: "\<forall>v\<in>set ?vs. vote_for C (en_consensus e) h r (blk_Hash b) v" using snoc.prems by auto
  show ?case
  proof (cases "quorum ?VS VoteTypePrecommit ?vs")
    case True
    then have "decided W b e ?e" using snoc by simp
    then have "HandleVote C W am v ?e = ?e"
      using r W cv(2) by (intro decided_ignores) (auto simp: store_ready_def vote_for_def)
    then show ?thesis using True snoc quorum_snoc(2) [OF True, of v] by (simp add: av)
  next
    case False
    then have c: "collecting e ?vs ?e" and own: "quorum ?VS VoteTypePrevote ?vs \<and> co_LocalValidator (en_consensus e) = Some x \<and>
         co_LocalProposer (en_consensus e) = Some p \<longrightarrow> own_precommit e (blk_Hash b) x \<in> set (en_pending ?e)" using snoc by simp_all
    consider "vote_Type v = VoteTypePrevote" | "vote_Type v = VoteTypePrecommit" using cv(2) by (auto simp: vote_for_def)
    then show ?thesis
    proof cases
      case 1
      then have "quorum ?VS VoteTypePrecommit (?vs @ [v]) = quorum ?VS VoteTypePrecommit ?vs"
        by (intro quorum_snoc(1)) (simp add: VoteTypePrevote_def VoteTypePrecommit_def)
      then show ?thesis using hear_prevote [OF r(1) c cv(2) 1 votes, of W am x p] False by (simp add: av)
    next
      case 2
      then have "quorum ?VS VoteTypePrevote (?vs @ [v]) = quorum ?VS VoteTypePrevote ?vs"
        by (intro quorum_snoc(1)) (simp add: VoteTypePrevote_def VoteTypePrecommit_def)
      then show ?thesis using hear_precommit [OF r(1,2) c cv(2) 2 votes cv(1) W] own by (auto simp: av split: if_splits)
    qed
  qed
qed

section \<open>From the proposal on\<close>

lemma round_cong:
  assumes "co_ValidatorSet (en_consensus e') = co_ValidatorSet (en_consensus e)" "en_blockchain e' = en_blockchain e"
  shows "vote_for C (en_consensus e') = vote_for C (en_consensus e)" "calm C b e' = calm C b e"
proof -
  show "vote_for C (en_consensus e') = vote_for C (en_consensus e)" using assms(1) by (intro ext) (simp add: vote_for_def commit_signed_def)
  show "calm C b e' = calm C b e" using assms(2) proposer_validator_cong [OF assms(1), of C] by (intro ext) (simp add: calm_def)
qed

lemma HandleProposal_opens:
  assumes "acceptable C am h r b e" "undisturbed am" "calm C b e am" "cert_ready (en_consensus e)"
    "e1 = HandleProposal C am h r bh b e"
  shows "in_round C h r b e1" "en_prevotes e1 = Some (NewVoteSet h r VoteTypePrevote)" "en_precommits e1 = Some (NewVoteSet h r VoteTypePrecommit)"
    "en_blockchain e1 = en_blockchain e" "co_ValidatorSet (en_consensus e1) = co_ValidatorSet (en_consensus e)"
    "co_LocalValidator (en_consensus e1) = co_LocalValidator (en_consensus e)" "co_LocalProposer (en_consensus e1) = co_LocalProposer (en_consensus e)"
    "en_onBlockCommit e1 = en_onBlockCommit e"
proof -
  have e1: "e1 = take_up am h r bh b (reposition h r e)" using assms(1,5) unfolding HandleProposal_eq by simp
  have cast: "en_consensus (castVote t x e0) = en_consensus e0" "en_prevotes (castVote t x e0) = en_prevotes e0"
    "en_precommits (castVote t x e0) = en_precommits e0" "en_blockchain (castVote t x e0) = en_blockchain e0"
    "en_onBlockCommit (castVote t x e0) = en_onBlockCommit e0" for t x e0
    by (simp_all add: castVote_def Let_def split: option.split)
  have am: "am_asleep am (en_blockchain e) = en_blockchain e" using assms(3) by (simp add: calm_def)
  show bc: "en_blockchain e1 = en_blockchain e"
    using am by (simp add: e1 take_up_def Let_def engine_defs reposition_frame cast)
  show VS: "co_ValidatorSet (en_consensus e1) = co_ValidatorSet (en_consensus e)"
    "co_LocalValidator (en_consensus e1) = co_LocalValidator (en_consensus e)" "co_LocalProposer (en_consensus e1) = co_LocalProposer (en_consensus e)"
    using assms(2) by (simp_all add: e1 take_up_def Let_def engine_defs reposition_frame cast undisturbed_def ambient_ok_def)
  show "en_prevotes e1 = Some (NewVoteSet h r VoteTypePrevote)" "en_precommits e1 = Some (NewVoteSet h r VoteTypePrecommit)"
    by (simp_all add: e1 take_up_def Let_def engine_defs cast)
  show "en_onBlockCommit e1 = en_onBlockCommit e"
    by (simp add: e1 take_up_def Let_def engine_defs cast) (simp add: reposition_def engine_defs)
  have "co_CurrentHeight (en_consensus e1) = h" "co_CurrentRound (en_consensus e1) = r"
    using assms(2) by (simp_all add: e1 take_up_def Let_def engine_defs reposition_frame cast undisturbed_def)
  moreover have "en_proposedBlock e1 = Some b" using HandleProposal_takes [OF assms(1)] assms(5) by simp
  ultimately show "in_round C h r b e1" using assms(1,4) bc VS(1) by (auto simp: in_round_def acceptable_def latest_def cert_ready_def)
qed

end
