(* ===== verification/Consensus_Theorems.thy ===== *)
theory Consensus_Theorems
  imports Rounds
begin

text \<open>
  The theorems on the consensus engine and the sets it keeps: what a committed block proves about its
  signers, when a block is committed, which proposals are taken up, how votes, stakes and proposers are
  counted and chosen.
\<close>

section \<open>Committed blocks\<close>



text \<open>
  C6: A round decides.  After an engine has taken up a proposal for its next height, it may hear the votes of active
  validators for it in any order, prevotes and precommits mixed and repeated.  It commits the block if and only if the
  validators whose precommits it heard have more than two thirds of the power: then the block with a
  certificate is imported, reported to the callback, and the engine is in round 0 of the next height; until then its
  chain and its proposal stay, and once the prevotes it heard have more than two thirds, its own precommit is on its way.
\<close>

theorem round_decides:
  assumes acc: "acceptable C am h r b e" "undisturbed am" "calm C b e am" "cert_ready (en_consensus e)" "blk_Height b = h" "wf_Hash (blk_Hash b)"
    and W: "store_ready W (bc_db (en_blockchain e))"
    and loc: "co_LocalValidator (en_consensus e) = Some x" "co_LocalProposer (en_consensus e) = Some p"
    and avs: "\<forall>(am, v)\<in>set avs. calm C b e am \<and> vote_for C (en_consensus e) h r (blk_Hash b) v"
    and e': "e' = hear C W avs (HandleProposal C am h r (blk_Hash b) b e)"
  shows "if quorum (co_ValidatorSet (en_consensus e)) VoteTypePrecommit (map snd avs) then decided W b e e'
    else en_blockchain e' = en_blockchain e \<and> en_proposedBlock e' = Some b \<and>
      (quorum (co_ValidatorSet (en_consensus e)) VoteTypePrevote (map snd avs) \<longrightarrow>
         Cast VoteTypePrecommit (blk_Hash b) h r (val_Address x) (val_VotingPower x) (vs_TotalVotingPower (co_ValidatorSet (en_consensus e)))
           \<in> set (en_pending e'))"
proof -
  define e1 where "e1 = HandleProposal C am h r (blk_Hash b) b e"
  note o = HandleProposal_opens [OF acc(1-4) e1_def]
  note cong = round_cong [OF o(5,4)]
  have dec: "decided W b e1 e' = decided W b e e'" by (simp add: decided_def o(4,8))
  have "\<forall>(am, v)\<in>set avs. calm C b e1 am \<and> vote_for C (en_consensus e1) h r (blk_Hash b) v" using avs by (simp add: cong)
  from hear_round [OF o(1) acc(5,6) o(2,3) _ this, of W x p] W loc
  have out: "if quorum (co_ValidatorSet (en_consensus e)) VoteTypePrecommit (map snd avs) then decided W b e1 e'
    else collecting e1 (map snd avs) e' \<and>
      (quorum (co_ValidatorSet (en_consensus e)) VoteTypePrevote (map snd avs) \<longrightarrow> own_precommit e1 (blk_Hash b) x \<in> set (en_pending e'))"
    by (simp add: o e' flip: e1_def)
  have "own_precommit e1 (blk_Hash b) x = Cast VoteTypePrecommit (blk_Hash b) h r (val_Address x) (val_VotingPower x) (vs_TotalVotingPower (co_ValidatorSet (en_consensus e)))"
    using o(1,5) by (simp add: own_precommit_def in_round_def)
  then show ?thesis using out dec o(1,4) by (auto simp: collecting_def keeps_def in_round_def split: if_splits)
qed

theorem round_decides_witness:
  "decided mem_ops toy_proposal toy_engine
     (hear toy mem_ops [(toy_ambient, toy_vote), (toy_ambient, toy_vote)] (HandleProposal toy toy_ambient 1 0 (blk_Hash toy_proposal) toy_proposal toy_engine))"
proof -
  have calm: "calm toy toy_proposal toy_engine toy_ambient" by (simp add: calm_def toy_proposal_valid)
  have acc: "acceptable toy toy_ambient 1 0 toy_proposal toy_engine" by (simp add: acceptable_def toy_proposal_valid)
  have vote: "vote_for toy toy_consensus 1 0 (blk_Hash toy_proposal) toy_vote" by (simp add: vote_for_def commit_signed_def)
  have store: "store_ready mem_ops (bc_db toy_chain)" by (simp add: store_ready_def)
  have "{v. (v = toy_vote \<or> v = toy_vote) \<and> vote_Type v = VoteTypePrecommit} = {toy_vote}" by auto
  then have "quorum toy_set VoteTypePrecommit [toy_vote, toy_vote]" by (simp add: quorum_def)
  with round_decides [OF acc toy_ambient_ok(2) calm, of mem_ops "toy_validator 1" "NewProposer (Some (toy_validator 1)) [1]"
      "[(toy_ambient, toy_vote), (toy_ambient, toy_vote)]"] calm vote store show ?thesis by simp
qed





section \<open>Proposals\<close>

text \<open>
  C7: A block that an honest proposer builds on its tip, signs and proposes is taken up by every validator with the
  same stored chain, configuration and validator set, and gets its prevote, whatever the two nodes' map orders are
  and as long as the clocks differ by no more than the validation allows.
\<close>

theorem honest_proposal_prevoted:
  assumes "der_signatures C" "signatures_verify C" "proposer_ready C am e p v reg" "ambient_ok am" "undisturbed am'"
    "select_proposer C am e (latest e + 1) r (prev_hash_for_vrf (en_blockchain e) (latest e)) = Some w" "val_Address w = val_Address v"
    "build_next C am e = (e1, b)" "signBlockHash C (am_coin am) p (blk_Hash b) = Inr s"
    "getBlockByHeightNoLock (en_blockchain e) (latest e) = Inr prev" "blk_Height prev = latest e" "latest e < latest e + 1"
    "hdr_Timestamp (blk_Header prev) \<le> am_block_time am" "am_block_time am \<le> am_check_time am' + MaxFutureBlockTime"
    "same_view e e'" "co_LocalValidator (en_consensus e') = Some v'" "co_LocalProposer (en_consensus e') = Some p'"
  shows "en_proposedBlock (HandleProposal C am' (latest e + 1) r (blk_Hash b) b e') = Some b \<and>
    en_pending (HandleProposal C am' (latest e + 1) r (blk_Hash b) b e') =
      en_pending e' @ [Cast VoteTypePrevote (blk_Hash b) (latest e + 1) r (val_Address v') (val_VotingPower v')
                         (vs_TotalVotingPower (co_ValidatorSet (en_consensus e')))]"
proof -
  have "ambient_ok am'" using assms(5) by (simp add: undisturbed_def)
  from honest_proposal_acceptable [OF assms(1-4) this assms(6-15)]
  show ?thesis by (rule HandleProposal_accepts [OF _ assms(5,16,17)])
qed

theorem honest_proposal_prevoted_witness:
  "en_proposedBlock (HandleProposal toy toy_ambient 1 0 (blk_Hash toy_proposal) toy_proposal toy_engine) = Some toy_proposal"
proof -
  have ready: "proposer_ready toy toy_ambient toy_engine (NewProposer (Some (toy_validator 1)) [1]) (toy_validator 1) (toy_validator 1)"
    by (simp add: proposer_ready_def key_matches_def) (simp add: NewProposer_def)
  obtain e1 where build: "build_next toy toy_ambient toy_engine = (e1, toy_proposal)"
    by (simp add: build_next_def sign_new_def local_addr_def hash_at_def GetBlockByHeight_def toy_SetBlock gob_block_def toy_proposal_def Let_def)
  show ?thesis
    using honest_proposal_prevoted [OF toy_laws(1,2) ready toy_ambient_ok _ _ build, where r = 0 and s = toy_sig and
        prev = "gob_block toy_genesis" and e' = toy_engine and w = "toy_validator 1" and v' = "toy_validator 1" and
        p' = "NewProposer (Some (toy_validator 1)) [1]"]
    by (simp add: gob_block_def same_view_def MaxFutureBlockTime_def)
qed

text \<open>
  C18: A proposal is taken up exactly when it is for the next height, comes from the proposer selected for its
  round and its block passes validation; any other proposal leaves the proposed block, the pending votes and the
  chain as they were.  The vote is for the hash in the message, which is not compared with the block's.
\<close>

theorem proposal_guard:
  "en_proposedBlock (HandleProposal C am h r bh b e) = (if acceptable C am h r b e then Some b else en_proposedBlock e) \<and>
   (\<not> acceptable C am h r b e \<longrightarrow> en_pending (HandleProposal C am h r bh b e) = en_pending e \<and>
      en_blockchain (HandleProposal C am h r bh b e) = en_blockchain e)"
  using HandleProposal_takes [of C am h r b e bh] HandleProposal_rejects [of C am h r b e bh] by auto

theorem proposal_guard_witness:
  "en_pending (HandleProposal toy toy_ambient 2 0 zero_Hash toy_proposal toy_engine) = []"
  using proposal_guard [of toy toy_ambient 2 0 zero_Hash toy_proposal toy_engine] by (simp add: acceptable_def)

text \<open>
  A proposal for the next height whose block has height 0 is checked as a genesis block only: it is taken up
  without any valid signature of the proposer it names, and importing it sets the tip of the chain back to
  height 0.
\<close>

theorem height_zero_proposal:
  assumes "latest e < h" "h = latest e + 1"
    "select_proposer C am e h r (prev_hash_for_vrf (en_blockchain e) (latest e)) = Some v" "blk_Proposer b = val_Address v"
    "blk_Height b = 0" "hdr_PrevHash (blk_Header b) = zero_Hash"
    "hdr_MerkleRoot (blk_Header b) = calculateMerkleRoot C (blk_Transactions b)"
    "blk_Hash b = Hash_BlockHeader C ((blk_Header b)\<lparr>hdr_Hash := zero_Hash\<rparr>)"
    "db_laws W" "wf_Hash (blk_Hash b)" "AddBlock W p b = (p', Inr res)"
  shows "en_proposedBlock (HandleProposal C am h r bh (b\<lparr>blk_Signature := sig\<rparr>) e) = Some (b\<lparr>blk_Signature := sig\<rparr>) \<and>
    bc_LatestHeight p' = 0"
proof -
  have "acceptable C am h r (b\<lparr>blk_Signature := sig\<rparr>) e"
    using assms(1-8) by (simp add: acceptable_def ValidateBlock_def validateGenesisBlock_ok)
  moreover have "moves_tip p b" using assms(5) by (simp add: moves_tip_def)
  then have "bc_LatestHeight p' = 0" using AddBlock_ok [OF assms(9-11)] assms(5) by metis
  ultimately show ?thesis by (simp add: HandleProposal_takes)
qed

theorem height_zero_proposal_witness:
  "en_proposedBlock (HandleProposal toy toy_ambient 1 0 zero_Hash (toy_genesis\<lparr>blk_Proposer := toy_address 1, blk_Signature := zero_Signature\<rparr>) toy_engine) =
     Some (toy_genesis\<lparr>blk_Proposer := toy_address 1, blk_Signature := zero_Signature\<rparr>)"
proof -
  let ?b = "toy_genesis\<lparr>blk_Proposer := toy_address 1\<rparr>"
  obtain p' where add: "AddBlock mem_ops toy_start ?b = (p', Inr True)"
    using AddBlock_succeeds [OF mem_ops_laws(2), of toy_start ?b] toy_start_fields by (auto simp: utxo_db_ok_def consumed_def block_inputs_def)
  have "blk_Hash toy_genesis = Hash_BlockHeader toy ((blk_Header toy_genesis)\<lparr>hdr_Hash := zero_Hash\<rparr>)"
    "hdr_MerkleRoot (blk_Header toy_genesis) = calculateMerkleRoot toy (blk_Transactions toy_genesis)"
    "hdr_PrevHash (blk_Header toy_genesis) = zero_Hash"
    by (simp_all add: toy_genesis_def seal_def Let_def)
  then show ?thesis
    using height_zero_proposal [where C = toy and am = toy_ambient and e = toy_engine and h = 1 and r = 0 and v = "toy_validator 1" and
        b = ?b and W = mem_ops and p = toy_start and p' = p' and res = True and bh = zero_Hash and sig = zero_Signature] add toy_genesis_fields(4) by auto
qed

section \<open>Stakes and proposers\<close>

text \<open>
  C27: After a successful \<open>Stake\<close> or \<open>Unstake\<close> the sets are consistent again (each counter is the sum of its
  entries), what is stored is what is in memory, so that a restart loads the same sets, and the validators are
  exactly the active stakers with at least the minimum stake, with their stake as voting power.
\<close>

theorem staking_persisted:
  assumes "db_laws W" "wf_Consensus c" "range_ok \<rho>"
    "Stake W \<rho> now c a amt pk = (c', None) \<or> Unstake W \<rho> c a amt = (c', None)"
  shows "wf_Consensus c' \<and> LoadStakerSet (co_DB c') = Inr (co_StakerSet c') \<and> LoadValidatorSet (co_DB c') = Inr (co_ValidatorSet c') \<and>
    (\<forall>b. GetValidator (co_ValidatorSet c') b =
       (case GetStaker (co_StakerSet c') b of
          None \<Rightarrow> None | Some st \<Rightarrow> if eligible MinStakeAmount st then Some (validator_of st) else None))"
proof -
  have wf: "wf_Consensus c'" using assms(2-4) wf_Stake wf_Unstake by blast
  obtain ss c1 where c1: "save_sets W c1 = (c', None)" "co_StakerSet c1 = ss" "co_ValidatorSet c1 = UpdateFromStakerSet \<rho> ss MinStakeAmount"
    using assms(4) by (auto simp: Stake_def Unstake_def Let_def split: sum.splits)
  from save_sets_sets [OF c1(1)] save_sets_stored [OF assms(1) c1(1)] c1 wf
    GetValidator_UpdateFromStakerSet [OF _ assms(3), of ss MinStakeAmount]
  show ?thesis by (simp add: wf_Consensus_def)
qed

theorem staking_persisted_witness:
  "LoadStakerSet (co_DB (fst (Stake mem_ops (\<lambda>m. m) 6 toy_consensus (toy_address 2) 5000 [2]))) =
     Inr (co_StakerSet (fst (Stake mem_ops (\<lambda>m. m) 6 toy_consensus (toy_address 2) 5000 [2])))"
proof -
  let ?s = "Stake mem_ops (\<lambda>m. m) 6 toy_consensus (toy_address 2) 5000 [2]"
  have "wf_Consensus toy_consensus" by (simp add: wf_Consensus_def) (simp add: toy_consensus_def RegisterValidator_def Let_def)
  moreover have "?s = (fst ?s, None)"
    by (simp add: Stake_def Let_def save_sets_def SaveStakerSet_def SaveValidatorSet_def mem_ops_def)
  ultimately show ?thesis using staking_persisted [OF mem_ops_laws(1)] range_ok_id by blast
qed

text \<open>
  Unstaking succeeds exactly for a known staker with enough stake, takes the amount from that staker and from
  the total without underflow, deactivates the staker when nothing is left and changes no other staker.
\<close>

theorem unstake_exact:
  assumes "wf_StakerSet s" "msum (unat \<circ> st_Amount) (ss_Stakers s) < 2 ^ 64"
  shows "((\<exists>s'. RemoveStaker s a amt = Inr s') \<longleftrightarrow> (\<exists>st. GetStaker s a = Some st \<and> amt \<le> st_Amount st)) \<and>
    (\<forall>s'. RemoveStaker s a amt = Inr s' \<longrightarrow>
       unat (ss_TotalStaked s') + unat amt = unat (ss_TotalStaked s) \<and> (\<forall>b. b \<noteq> a \<longrightarrow> GetStaker s' b = GetStaker s b) \<and>
       (\<exists>st. GetStaker s a = Some st \<and> GetStaker s' a =
          Some (st\<lparr>st_Amount := st_Amount st - amt, st_IsActive := st_IsActive st \<and> st_Amount st \<noteq> amt\<rparr>)))"
proof (intro conjI allI impI)
  fix s' assume ok: "RemoveStaker s a amt = Inr s'"
  show "unat (ss_TotalStaked s') + unat amt = unat (ss_TotalStaked s)" by (rule RemoveStaker_no_underflow [OF assms ok])
  from ok obtain st where st: "GetStaker s a = Some st" "s' = s\<lparr>ss_Stakers := mput (AddressToString a)
     (st\<lparr>st_Amount := st_Amount st - amt, st_IsActive := st_IsActive st \<and> st_Amount st \<noteq> amt\<rparr>) (ss_Stakers s),
     ss_TotalStaked := ss_TotalStaked s - amt\<rparr>" by (auto simp: RemoveStaker_spec)
  then show "\<exists>st. GetStaker s a = Some st \<and> GetStaker s' a =
          Some (st\<lparr>st_Amount := st_Amount st - amt, st_IsActive := st_IsActive st \<and> st_Amount st \<noteq> amt\<rparr>)"
    by (simp add: GetStaker_def map_of_mput)
  show "GetStaker s' b = GetStaker s b" if "b \<noteq> a" for b using st(2) that by (simp add: GetStaker_def map_of_mput)
qed (auto simp: RemoveStaker_spec)

theorem unstake_exact_witness:
  "\<exists>s'. RemoveStaker (AddStaker 6 NewStakerSet (toy_address 2) 5000 [2]) (toy_address 2) 4000 = Inr s' \<and> unat (ss_TotalStaked s') + 4000 = 5000"
proof -
  let ?s = "AddStaker 6 NewStakerSet (toy_address 2) 5000 [2]"
  have s: "GetStaker ?s (toy_address 2) = Some \<lparr>st_Address = toy_address 2, st_PublicKey = [2], st_Amount = 5000, st_StartTime = 6,
      st_EndTime = 0, st_IsActive = True\<rparr>" "ss_TotalStaked ?s = 5000" "msum (unat \<circ> st_Amount) (ss_Stakers ?s) < 2 ^ 64"
    by (simp_all add: GetStaker_def AddStaker_def NewStakerSet_def)
  from unstake_exact [OF wf_AddStaker [OF wf_NewStakerSet] s(3), of "toy_address 2" 4000] s(1,2) show ?thesis by auto
qed

text \<open>
  C30: Nodes with the same validator set and selection mode select the same proposer for a height, round and
  previous hash, whatever order their maps are visited in, and it is an active validator.
\<close>

theorem proposer_agreement:
  assumes "wf_ValidatorSet (co_ValidatorSet c)" "few_validators (co_ValidatorSet c)" "active_set (co_ValidatorSet c) \<noteq> {}"
    "range_ok \<rho>" "range_ok \<rho>'" "range_ok \<sigma>" "range_ok \<sigma>'"
    "co_ValidatorSet c' = co_ValidatorSet c" "co_ProposerSelectionMode c' = co_ProposerSelectionMode c"
  shows "\<exists>v\<in>active_set (co_ValidatorSet c).
    SelectProposerByMode C \<rho> \<rho>' c h r prev = Some v \<and> SelectProposerByMode C \<sigma> \<sigma>' c' h r prev = Some v"
  using SelectProposerByMode_active [OF assms(1,2,4,5,3)] SelectProposerByMode_agrees [OF assms(1,2,4-9)] by simp

theorem proposer_agreement_witness:
  "\<exists>v\<in>active_set toy_set. SelectProposerByMode toy (\<lambda>m. m) (\<lambda>m. m) toy_consensus 1 0 zero_Hash = Some v \<and>
     SelectProposerByMode toy rev rev toy_consensus 1 0 zero_Hash = Some v"
  using proposer_agreement [of toy_consensus "\<lambda>m. m" "\<lambda>m. m" rev rev toy_consensus toy 1 0 zero_Hash]
  by (simp add: active_set_def toy_set_entries range_ok_def iterates_def)

text \<open>
  C31: Round robin is fair: over as many consecutive heights, or as many consecutive rounds of one height, as there
  are active validators, each active validator is the proposer exactly once.
\<close>

theorem round_robin_fair:
  assumes "wf_ValidatorSet vs" "few_validators vs" "canonical vs \<noteq> []" "\<And>i. range_ok (\<rho> i)"
    "unat h + length (canonical vs) < 2 ^ 64" "length (canonical vs) < 2 ^ 32"
  shows "mset (GetNextProposers \<rho> vs h (length (canonical vs))) = image_mset Some (mset (canonical vs)) \<and>
    mset (map (\<lambda>i. SelectProposer (\<rho> i) vs h (word_of_nat i)) [0..<length (canonical vs)]) = image_mset Some (mset (canonical vs)) \<and>
    distinct (canonical vs) \<and> set (canonical vs) = active_set vs"
proof (intro conjI)
  show "mset (GetNextProposers \<rho> vs h (length (canonical vs))) = image_mset Some (mset (canonical vs))"
    unfolding GetNextProposers_def
  proof (rule SelectProposer_turns [OF assms(1-4)])
    fix i assume "i < length (canonical vs)"
    then show "unat (h + go_uint64 i + ucast (0 :: uint32)) = unat h + i"
      using assms(5) unat_add_no_wrap [of h "go_uint64 i"] by (simp add: unat_go_uint64)
  qed
  show "mset (map (\<lambda>i. SelectProposer (\<rho> i) vs h (word_of_nat i)) [0..<length (canonical vs)]) = image_mset Some (mset (canonical vs))"
    by (rule SelectProposer_turns [OF assms(1-4), where a = "unat h"]) (use assms(5,6) in \<open>simp add: unat_height_round\<close>)
qed (simp_all add: distinct_canonical [OF assms(1)] set_canonical)

theorem round_robin_fair_witness:
  "GetNextProposers (\<lambda>i m. m) toy_set 7 1 = [Some (toy_validator 1)]"
proof -
  have c: "canonical toy_set = [toy_validator 1]" by (simp add: canonical_def toy_set_entries)
  from round_robin_fair [of toy_set "\<lambda>i m. m" 7] show ?thesis by (simp add: c range_ok_def iterates_def)
qed

end
