(* ===== verification/Messages.thy ===== *)
theory Messages
  imports Data_Model
begin

text \<open>
  \<open>p2p/message.go\<close>: message types, messages and payloads.  A payload travels as the text of the JSON
  encoder and a block or transaction in it as the bytes of the Gob encoder; both encoders are library
  code and parameters here (\<open>wire\<close>).
\<close>

section \<open>Message types\<close>

type_synonym MessageType = uint8

definition MsgTypeHandshake :: MessageType where "MsgTypeHandshake = 0"
definition MsgTypeHandshakeAck :: MessageType where "MsgTypeHandshakeAck = 1"
definition MsgTypeNewBlock :: MessageType where "MsgTypeNewBlock = 2"
definition MsgTypeGetBlock :: MessageType where "MsgTypeGetBlock = 3"
definition MsgTypeBlock :: MessageType where "MsgTypeBlock = 4"
definition MsgTypeGetBlocks :: MessageType where "MsgTypeGetBlocks = 5"
definition MsgTypeBlocks :: MessageType where "MsgTypeBlocks = 6"
definition MsgTypeNewTx :: MessageType where "MsgTypeNewTx = 7"
definition MsgTypeGetTx :: MessageType where "MsgTypeGetTx = 8"
definition MsgTypeTx :: MessageType where "MsgTypeTx = 9"
definition MsgTypePing :: MessageType where "MsgTypePing = 10"
definition MsgTypePong :: MessageType where "MsgTypePong = 11"
definition MsgTypeGetPeers :: MessageType where "MsgTypeGetPeers = 12"
definition MsgTypePeers :: MessageType where "MsgTypePeers = 13"
definition MsgTypeProposal :: MessageType where "MsgTypeProposal = 14"
definition MsgTypeVote :: MessageType where "MsgTypeVote = 15"

lemmas msg_type_defs =
  MsgTypeHandshake_def MsgTypeHandshakeAck_def MsgTypeNewBlock_def MsgTypeGetBlock_def MsgTypeBlock_def MsgTypeGetBlocks_def
  MsgTypeBlocks_def MsgTypeNewTx_def MsgTypeGetTx_def MsgTypeTx_def MsgTypePing_def MsgTypePong_def MsgTypeGetPeers_def
  MsgTypePeers_def MsgTypeProposal_def MsgTypeVote_def

section \<open>Messages and payloads\<close>

record Message =
  msg_Type :: MessageType
  msg_Payload :: "byte list"
  msg_From :: string
  msg_Timestamp :: int

definition NewMessage :: "MessageType \<Rightarrow> byte list \<Rightarrow> string \<Rightarrow> Message" where
  "NewMessage msgType payload sender = \<lparr>msg_Type = msgType, msg_Payload = payload, msg_From = sender, msg_Timestamp = 0\<rparr>"

record HandshakePayload =
  hs_Version :: string
  hs_NodeID :: string
  hs_NetworkID :: string
  hs_ListenPort :: int
  hs_BestHeight :: uint64
  hs_BestHash :: string

record NewBlockPayload =
  nb_Height :: uint64
  nb_Hash :: Hash
  nb_BlockData :: "byte list"

record GetBlocksPayload =
  gb_StartHeight :: uint64
  gb_EndHeight :: uint64

record NewTxPayload =
  nt_TxID :: Hash
  nt_TxData :: "byte list"

record PeerInfo =
  pi_ID :: string
  pi_Address :: string
  pi_Port :: int

record PeersPayload =
  pp_Peers :: "PeerInfo list"

record ProposalPayload =
  pr_Height :: uint64
  pr_Round :: uint32
  pr_BlockHash :: Hash
  pr_BlockData :: "byte list"
  pr_ProposerID :: string
  pr_Signature :: Signature

record VotePayload =
  vp_Height :: uint64
  vp_Round :: uint32
  vp_VoteType :: uint8
  vp_BlockHash :: Hash
  vp_VoterID :: string
  vp_Signature :: Signature

record BlocksPayload =
  bp_BlocksData :: "byte list list"

text \<open>
  What the node uses of \<open>encoding/json\<close> and \<open>encoding/gob\<close>: an encoder and a decoder for each type.  The
  encoders of these types do not fail; a decoder fails (\<open>None\<close>) on bytes that do not parse.
\<close>

record wire =
  enc_Message :: "Message \<Rightarrow> byte list"
  dec_Message :: "byte list \<Rightarrow> Message option"
  enc_Handshake :: "HandshakePayload \<Rightarrow> byte list"
  dec_Handshake :: "byte list \<Rightarrow> HandshakePayload option"
  enc_NewBlock :: "NewBlockPayload \<Rightarrow> byte list"
  dec_NewBlock :: "byte list \<Rightarrow> NewBlockPayload option"
  enc_GetBlocks :: "GetBlocksPayload \<Rightarrow> byte list"
  dec_GetBlocks :: "byte list \<Rightarrow> GetBlocksPayload option"
  enc_Blocks :: "BlocksPayload \<Rightarrow> byte list"
  dec_Blocks :: "byte list \<Rightarrow> BlocksPayload option"
  enc_NewTx :: "NewTxPayload \<Rightarrow> byte list"
  dec_NewTx :: "byte list \<Rightarrow> NewTxPayload option"
  enc_Peers :: "PeersPayload \<Rightarrow> byte list"
  dec_Peers :: "byte list \<Rightarrow> PeersPayload option"
  enc_Proposal :: "ProposalPayload \<Rightarrow> byte list"
  dec_Proposal :: "byte list \<Rightarrow> ProposalPayload option"
  enc_Vote :: "VotePayload \<Rightarrow> byte list"
  dec_Vote :: "byte list \<Rightarrow> VotePayload option"
  gob_enc_Block :: "Block \<Rightarrow> byte list"
  gob_dec_Block :: "byte list \<Rightarrow> Block option"
  gob_enc_Tx :: "Transaction \<Rightarrow> byte list"
  gob_dec_Tx :: "byte list \<Rightarrow> Transaction option"

definition Serialize :: "wire \<Rightarrow> Message \<Rightarrow> byte list" where
  "Serialize w m = enc_Message w m"

definition DeserializeMessage :: "wire \<Rightarrow> byte list \<Rightarrow> Message option" where
  "DeserializeMessage w data = dec_Message w data"

end
