(* ===== verification/Rate_Limit.thy ===== *)
theory Rate_Limit
  imports Messages Complex_Main
begin

text \<open>
  \<open>p2p/ratelimit.go\<close>: a token bucket and per-type counters for each peer.  Times are nanoseconds.  The
  bucket holds a \<open>float64\<close>: its values are rational numbers and each operation is followed by the rounding
  \<open>rnd\<close> of the machine, of which only monotonicity and exactness on small integers are used.
\<close>

section \<open>Time and floating-point numbers\<close>

definition Second :: int where "Second = 1000000000"

text \<open>\<open>Time.Sub\<close> saturates at the ends of the 64-bit range of durations.\<close>

definition time_Sub :: "int \<Rightarrow> int \<Rightarrow> int" where
  "time_Sub t u = max (- (2 ^ 63)) (min (2 ^ 63 - 1) (t - u))"

type_synonym rounding = "rat \<Rightarrow> rat"

definition rounds :: "rounding \<Rightarrow> bool" where
  "rounds rnd \<longleftrightarrow> mono rnd \<and> (\<forall>n::int. \<bar>n\<bar> \<le> 2 ^ 53 \<longrightarrow> rnd (of_int n) = of_int n)"

text \<open>\<open>Duration.Seconds\<close>: whole seconds plus the rest, divided; the division truncates.\<close>

definition Seconds :: "rounding \<Rightarrow> int \<Rightarrow> rat" where
  "Seconds rnd d =
     (let sec = sgn d * (\<bar>d\<bar> div Second); nsec = sgn d * (\<bar>d\<bar> mod Second)
      in rnd (rnd (of_int sec) + rnd (rnd (of_int nsec) / of_int Second)))"

section \<open>State\<close>

record RateLimitConfig =
  rl_MaxMessagesPerSecond :: int
  rl_BurstSize :: int
  rl_BanDuration :: int
  rl_MaxBlocksPerSecond :: int
  rl_MaxTxPerSecond :: int
  rl_MaxProposalsPerSecond :: int
  rl_MaxVotesPerSecond :: int

definition DefaultRateLimitConfig :: RateLimitConfig where
  "DefaultRateLimitConfig =
     \<lparr>rl_MaxMessagesPerSecond = 100, rl_BurstSize = 200, rl_BanDuration = 60 * Second, rl_MaxBlocksPerSecond = 5,
      rl_MaxTxPerSecond = 50, rl_MaxProposalsPerSecond = 10, rl_MaxVotesPerSecond = 50\<rparr>"

record messageCounter =
  mc_count :: int
  mc_windowStart :: int

record PeerRateLimiter =
  prl_tokens :: rat
  prl_maxTokens :: rat
  prl_refillRate :: rat
  prl_lastRefill :: int
  prl_messageCounters :: "(MessageType, messageCounter) gomap"
  prl_bannedUntil :: int

record RateLimiter =
  rl_config :: RateLimitConfig
  rl_peers :: "(string, PeerRateLimiter) gomap"

text \<open>The zero \<open>time.Time\<close> is the first of January of the year 1.\<close>

definition zero_Time :: int where "zero_Time = - (62135596800 * Second)"

definition NewRateLimiter :: "RateLimitConfig option \<Rightarrow> RateLimiter" where
  "NewRateLimiter config =
     \<lparr>rl_config = (case config of None \<Rightarrow> DefaultRateLimitConfig | Some c \<Rightarrow> c), rl_peers = []\<rparr>"

section \<open>Operations\<close>

text \<open>The cleanup visits the map and deletes stale entries; deleting during the visit is allowed in Go.\<close>

definition cleanup :: "int \<Rightarrow> RateLimiter \<Rightarrow> RateLimiter" where
  "cleanup now rl =
     rl\<lparr>rl_peers := filter (\<lambda>(peerID, prl). \<not> 600 * Second < time_Sub now (prl_lastRefill prl)) (rl_peers rl)\<rparr>"

definition getPeerLimiter :: "rounding \<Rightarrow> int \<Rightarrow> RateLimiter \<Rightarrow> string \<Rightarrow> RateLimiter \<times> PeerRateLimiter" where
  "getPeerLimiter rnd now rl peerID =
     (case map_of (rl_peers rl) peerID of
        Some prl \<Rightarrow> (rl, prl)
      | None \<Rightarrow>
          let prl = \<lparr>prl_tokens = rnd (of_int (rl_BurstSize (rl_config rl))), prl_maxTokens = rnd (of_int (rl_BurstSize (rl_config rl))),
                     prl_refillRate = rnd (of_int (rl_MaxMessagesPerSecond (rl_config rl))), prl_lastRefill = now,
                     prl_messageCounters = [], prl_bannedUntil = zero_Time\<rparr>
          in (rl\<lparr>rl_peers := mput peerID prl (rl_peers rl)\<rparr>, prl))"

definition getMessageTypeLimit :: "RateLimitConfig \<Rightarrow> MessageType \<Rightarrow> int" where
  "getMessageTypeLimit cfg msgType =
     (if msgType = MsgTypeGetBlocks then rl_MaxBlocksPerSecond cfg
      else if msgType = MsgTypeNewTx then rl_MaxTxPerSecond cfg
      else if msgType = MsgTypeProposal then rl_MaxProposalsPerSecond cfg
      else if msgType = MsgTypeVote then rl_MaxVotesPerSecond cfg
      else 0)"

definition checkMessageTypeLimit :: "RateLimitConfig \<Rightarrow> PeerRateLimiter \<Rightarrow> MessageType \<Rightarrow> int \<Rightarrow> PeerRateLimiter \<times> bool" where
  "checkMessageTypeLimit cfg prl msgType now =
     (let limit = getMessageTypeLimit cfg msgType in
      if limit = 0 then (prl, True)
      else let counter = (case map_of (prl_messageCounters prl) msgType of
                            Some c \<Rightarrow> c | None \<Rightarrow> \<lparr>mc_count = 0, mc_windowStart = now\<rparr>);
               counter = (if Second \<le> time_Sub now (mc_windowStart counter) then \<lparr>mc_count = 0, mc_windowStart = now\<rparr> else counter);
               put = (\<lambda>c. prl\<lparr>prl_messageCounters := mput msgType c (prl_messageCounters prl)\<rparr>)
           in if limit \<le> mc_count counter then (put counter, False)
              else (put (counter\<lparr>mc_count := mc_count counter + 1\<rparr>), True))"

definition refill :: "rounding \<Rightarrow> int \<Rightarrow> PeerRateLimiter \<Rightarrow> PeerRateLimiter" where
  "refill rnd now prl =
     (let elapsed = Seconds rnd (time_Sub now (prl_lastRefill prl));
          tokens = rnd (prl_tokens prl + rnd (elapsed * prl_refillRate prl))
      in prl\<lparr>prl_tokens := (if prl_maxTokens prl < tokens then prl_maxTokens prl else tokens), prl_lastRefill := now\<rparr>)"

definition allow_peer ::
    "rounding \<Rightarrow> RateLimitConfig \<Rightarrow> int \<Rightarrow> PeerRateLimiter \<Rightarrow> MessageType \<Rightarrow> PeerRateLimiter \<times> bool \<times> string" where
  "allow_peer rnd cfg now prl msgType =
     (if now < prl_bannedUntil prl then (prl, False, ''peer is temporarily banned'')
      else let prl = refill rnd now prl in
           if prl_tokens prl < 1
           then (prl\<lparr>prl_bannedUntil := now + rl_BanDuration cfg\<rparr>, False, ''overall rate limit exceeded, peer banned'')
           else case checkMessageTypeLimit cfg prl msgType now of
                  (prl, False) \<Rightarrow> (prl, False, ''message type rate limit exceeded'')
                | (prl, True) \<Rightarrow> (prl\<lparr>prl_tokens := rnd (prl_tokens prl - 1)\<rparr>, True, []))"

text \<open>\<open>time.Now\<close> is read once when a limiter is created (\<open>now0\<close>) and once by the check itself.\<close>

definition AllowMessage ::
    "rounding \<Rightarrow> int \<Rightarrow> int \<Rightarrow> RateLimiter \<Rightarrow> string \<Rightarrow> MessageType \<Rightarrow> RateLimiter \<times> bool \<times> string" where
  "AllowMessage rnd now0 now rl peerID msgType =
     (let (rl, prl) = getPeerLimiter rnd now0 rl peerID;
          (prl, allowed, reason) = allow_peer rnd (rl_config rl) now prl msgType
      in (rl\<lparr>rl_peers := mput peerID prl (rl_peers rl)\<rparr>, allowed, reason))"

definition IsBanned :: "int \<Rightarrow> RateLimiter \<Rightarrow> string \<Rightarrow> bool" where
  "IsBanned now rl peerID =
     (case map_of (rl_peers rl) peerID of None \<Rightarrow> False | Some prl \<Rightarrow> now < prl_bannedUntil prl)"

record PeerStats =
  ps_tokens :: rat
  ps_maxTokens :: rat
  ps_isBanned :: bool
  ps_bannedUntil :: int

definition GetPeerStats :: "int \<Rightarrow> RateLimiter \<Rightarrow> string \<Rightarrow> PeerStats option" where
  "GetPeerStats now rl peerID =
     (case map_of (rl_peers rl) peerID of
        None \<Rightarrow> None
      | Some prl \<Rightarrow> Some \<lparr>ps_tokens = prl_tokens prl, ps_maxTokens = prl_maxTokens prl,
                          ps_isBanned = (now < prl_bannedUntil prl), ps_bannedUntil = prl_bannedUntil prl\<rparr>)"

section \<open>The bucket\<close>

lemma rounds_nonneg: "rounds rnd \<Longrightarrow> 0 \<le> x \<Longrightarrow> 0 \<le> rnd x"
  unfolding rounds_def by (metis (no_types, lifting) abs_zero monoE of_int_0 zero_le_numeral zero_le_power)

lemma rounds_int: "rounds rnd \<Longrightarrow> \<bar>n\<bar> \<le> 2 ^ 53 \<Longrightarrow> rnd (of_int n) = of_int n"
  by (simp add: rounds_def)

lemma Seconds_nonneg: "rounds rnd \<Longrightarrow> 0 \<le> d \<Longrightarrow> 0 \<le> Seconds rnd d"
  by (simp add: Seconds_def Let_def Second_def rounds_nonneg sgn_if)

lemma time_Sub_le: "Second \<le> time_Sub t u \<longleftrightarrow> Second \<le> t - u" "u \<le> t \<Longrightarrow> 0 \<le> time_Sub t u"
  by (auto simp: time_Sub_def Second_def)

definition bucket_ok :: "PeerRateLimiter \<Rightarrow> bool" where
  "bucket_ok prl \<longleftrightarrow> 0 \<le> prl_tokens prl \<and> prl_tokens prl \<le> prl_maxTokens prl \<and> 0 \<le> prl_refillRate prl \<and>
     (\<exists>n::int. 0 \<le> n \<and> n \<le> 2 ^ 53 \<and> prl_maxTokens prl = of_int n)"

lemma refill_ok:
  assumes "rounds rnd" "bucket_ok prl" "prl_lastRefill prl \<le> now"
  shows "bucket_ok (refill rnd now prl)"
  using assms by (auto simp: bucket_ok_def refill_def Let_def rounds_nonneg Seconds_nonneg time_Sub_le)

lemma checkMessageTypeLimit_frame:
  assumes "checkMessageTypeLimit cfg prl t now = (prl', b)"
  shows "prl_tokens prl' = prl_tokens prl" "prl_maxTokens prl' = prl_maxTokens prl" "prl_refillRate prl' = prl_refillRate prl"
    "prl_lastRefill prl' = prl_lastRefill prl" "prl_bannedUntil prl' = prl_bannedUntil prl"
    "u \<noteq> t \<Longrightarrow> map_of (prl_messageCounters prl') u = map_of (prl_messageCounters prl) u"
  using assms by (auto simp: checkMessageTypeLimit_def Let_def map_of_mput split: if_splits)

lemma refill_frame [simp]:
  "prl_messageCounters (refill rnd now prl) = prl_messageCounters prl" "prl_bannedUntil (refill rnd now prl) = prl_bannedUntil prl"
  "prl_maxTokens (refill rnd now prl) = prl_maxTokens prl" "prl_lastRefill (refill rnd now prl) = now"
  by (simp_all add: refill_def Let_def)

lemma allow_peer_ok:
  assumes rnd: "rounds rnd" and ok: "bucket_ok prl" "prl_lastRefill prl \<le> now" and call: "allow_peer rnd cfg now prl t = (prl', r)"
  shows "bucket_ok prl' \<and> prl_lastRefill prl' \<le> now"
proof -
  let ?q = "refill rnd now prl"
  have q: "bucket_ok ?q" by (rule refill_ok [OF rnd ok])
  obtain p1 b where c: "checkMessageTypeLimit cfg ?q t now = (p1, b)" by (rule prod.exhaust)
  note f = checkMessageTypeLimit_frame [OF c]
  have "bucket_ok (p1\<lparr>prl_tokens := rnd (prl_tokens p1 - 1)\<rparr>)" if one: "\<not> prl_tokens ?q < 1"
  proof -
    from q obtain n :: int where n: "0 \<le> n" "n \<le> 2 ^ 53" "prl_maxTokens ?q = of_int n" by (auto simp: bucket_ok_def)
    have "prl_tokens ?q - 1 \<le> of_int n" using q n(3) by (simp add: bucket_ok_def)
    then have "rnd (prl_tokens ?q - 1) \<le> rnd (of_int n)" using rnd by (simp add: rounds_def monoD)
    with n rnd have "rnd (prl_tokens ?q - 1) \<le> prl_maxTokens ?q" by (simp add: rounds_int)
    with one q n rnd show ?thesis by (auto simp: bucket_ok_def f rounds_nonneg)
  qed
  moreover have "bucket_ok p1" "prl_lastRefill p1 = now" using q by (simp_all add: bucket_ok_def f)
  moreover have "bucket_ok (?q\<lparr>prl_bannedUntil := x\<rparr>)" for x using q by (simp add: bucket_ok_def)
  ultimately show ?thesis
    using call c ok unfolding allow_peer_def Let_def by (cases b) (auto split: if_splits)
qed

section \<open>The limiter of a peer\<close>

definition limits_ok :: "int \<Rightarrow> RateLimiter \<Rightarrow> bool" where
  "limits_ok now rl \<longleftrightarrow> 0 \<le> rl_BurstSize (rl_config rl) \<and> rl_BurstSize (rl_config rl) \<le> 2 ^ 53 \<and>
     0 \<le> rl_MaxMessagesPerSecond (rl_config rl) \<and>
     (\<forall>p prl. map_of (rl_peers rl) p = Some prl \<longrightarrow> bucket_ok prl \<and> prl_lastRefill prl \<le> now)"

definition limiter_of :: "rounding \<Rightarrow> int \<Rightarrow> RateLimiter \<Rightarrow> string \<Rightarrow> PeerRateLimiter" where
  "limiter_of rnd now rl p = snd (getPeerLimiter rnd now rl p)"

lemma AllowMessage_peers:
  "AllowMessage rnd now0 now rl p t = (rl', ok, why) \<longleftrightarrow>
     (\<exists>prl'. allow_peer rnd (rl_config rl) now (limiter_of rnd now0 rl p) t = (prl', ok, why) \<and>
        rl' = rl\<lparr>rl_peers := mput p prl' (rl_peers (fst (getPeerLimiter rnd now0 rl p)))\<rparr>)"
  by (auto simp: AllowMessage_def limiter_of_def getPeerLimiter_def Let_def split: prod.splits option.splits)

lemma AllowMessage_lookup:
  assumes "AllowMessage rnd now0 now rl p t = (rl', ok, why)"
  shows "map_of (rl_peers rl') q =
     (if q = p then Some (fst (allow_peer rnd (rl_config rl) now (limiter_of rnd now0 rl p) t)) else map_of (rl_peers rl) q)"
    "rl_config rl' = rl_config rl" "ok = fst (snd (allow_peer rnd (rl_config rl) now (limiter_of rnd now0 rl p) t))"
  using assms
  by (auto simp: AllowMessage_peers getPeerLimiter_def map_of_mput Let_def split: option.splits)

lemma limits_AllowMessage:
  assumes "rounds rnd" "limits_ok T rl" "T \<le> now0" "now0 \<le> now" "AllowMessage rnd now0 now rl p t = (rl', r)"
  shows "limits_ok now rl'"
proof -
  obtain ok why where r: "AllowMessage rnd now0 now rl p t = (rl', ok, why)" using assms(5) by (cases r) simp
  have "bucket_ok (limiter_of rnd now0 rl p) \<and> prl_lastRefill (limiter_of rnd now0 rl p) \<le> now"
  proof (cases "map_of (rl_peers rl) p")
    case None
    with assms(1,2,4) show ?thesis
      by (auto simp: limiter_of_def getPeerLimiter_def limits_ok_def bucket_ok_def rounds_int rounds_nonneg Let_def)
  next
    case (Some prl)
    with assms(2) have "bucket_ok prl" "prl_lastRefill prl \<le> T" by (simp_all add: limits_ok_def)
    with Some assms(3,4) show ?thesis by (simp add: limiter_of_def getPeerLimiter_def)
  qed
  then have "bucket_ok (fst (allow_peer rnd (rl_config rl) now (limiter_of rnd now0 rl p) t)) \<and>
      prl_lastRefill (fst (allow_peer rnd (rl_config rl) now (limiter_of rnd now0 rl p) t)) \<le> now"
    using allow_peer_ok [OF assms(1)] by (metis prod.collapse)
  moreover have "bucket_ok prl \<and> prl_lastRefill prl \<le> now" if "map_of (rl_peers rl) q = Some prl" for q prl
    using assms(2-4) that unfolding limits_ok_def by fastforce
  ultimately show ?thesis using assms(2) by (simp add: limits_ok_def AllowMessage_lookup [OF r])
qed

section \<open>Runs\<close>

text \<open>
  A run is a sequence of calls (peer, message type, the two clock readings); \<open>accepted\<close> counts those that are
  allowed and satisfy a predicate.
\<close>

fun accepted :: "rounding \<Rightarrow> RateLimiter \<Rightarrow> (string \<Rightarrow> MessageType \<Rightarrow> bool) \<Rightarrow> (string \<times> MessageType \<times> int \<times> int) list \<Rightarrow> nat" where
  "accepted rnd rl P [] = 0"
| "accepted rnd rl P ((q, u, now0, now) # calls) =
     (case AllowMessage rnd now0 now rl q u of
        (rl', ok, why) \<Rightarrow> (if ok \<and> P q u then 1 else 0) + accepted rnd rl' P calls)"

lemma banned_refused:
  assumes "map_of (rl_peers rl) p = Some prl" "\<forall>(q, u, now0, now)\<in>set calls. now < prl_bannedUntil prl"
  shows "accepted rnd rl (\<lambda>q u. q = p) calls = 0"
  using assms
proof (induction calls arbitrary: rl)
  case (Cons call calls)
  obtain q u now0 now where c: "call = (q, u, now0, now)" by (cases call)
  obtain rl' ok why where a: "AllowMessage rnd now0 now rl q u = (rl', ok, why)" by (cases "AllowMessage rnd now0 now rl q u")
  have p: "limiter_of rnd now0 rl p = prl" using Cons.prems(1) by (simp add: limiter_of_def getPeerLimiter_def)
  have "map_of (rl_peers rl') p = Some prl" "q = p \<Longrightarrow> \<not> ok"
    using Cons.prems c p by (auto simp: AllowMessage_lookup [OF a] allow_peer_def)
  with Cons.IH Cons.prems(2) show ?case by (auto simp: c a)
qed simp

text \<open>What the counter of a peer and type still admits before the time \<open>s + Second\<close>, from \<open>s\<close> on.\<close>

definition allowance :: "int \<Rightarrow> int \<Rightarrow> messageCounter option \<Rightarrow> nat" where
  "allowance L s c =
     (case c of None \<Rightarrow> nat L
      | Some c \<Rightarrow> nat (L - mc_count c) + (if mc_windowStart c < s then nat L else 0))"

definition counter_of :: "RateLimiter \<Rightarrow> string \<Rightarrow> MessageType \<Rightarrow> messageCounter option" where
  "counter_of rl p t = (case map_of (rl_peers rl) p of None \<Rightarrow> None | Some prl \<Rightarrow> map_of (prl_messageCounters prl) t)"

lemma check_allowance:
  assumes "checkMessageTypeLimit cfg prl t now = (prl', b)" "getMessageTypeLimit cfg t = L" "L \<noteq> 0" "s \<le> now" "now < s + Second"
  shows "(if b then 1 else 0) + allowance L s (map_of (prl_messageCounters prl') t) \<le> allowance L s (map_of (prl_messageCounters prl) t)"
  using assms
  by (auto simp: checkMessageTypeLimit_def Let_def allowance_def map_of_mput time_Sub_le split: if_splits option.splits)

lemma allow_peer_allowance:
  assumes "getMessageTypeLimit cfg t = L" "L \<noteq> 0" "s \<le> now" "now < s + Second"
  shows "(if fst (snd (allow_peer rnd cfg now prl u)) \<and> u = t then 1 else 0) +
     allowance L s (map_of (prl_messageCounters (fst (allow_peer rnd cfg now prl u))) t) \<le> allowance L s (map_of (prl_messageCounters prl) t)"
proof -
  obtain prl' b where c: "checkMessageTypeLimit cfg (refill rnd now prl) u now = (prl', b)" by (rule prod.exhaust)
  show ?thesis
  proof (cases "u = t")
    case True
    with check_allowance [OF c _ assms(2-4)] assms(1) c show ?thesis by (cases b) (auto simp: allow_peer_def Let_def)
  next
    case False
    with checkMessageTypeLimit_frame(6) [OF c, of t] c show ?thesis by (cases b) (auto simp: allow_peer_def Let_def)
  qed
qed

lemma AllowMessage_allowance:
  assumes a: "AllowMessage rnd now0 now rl q u = (rl', ok, why)"
    and L: "getMessageTypeLimit (rl_config rl) t = L" "L \<noteq> 0" "s \<le> now" "now < s + Second"
  shows "(if ok \<and> q = p \<and> u = t then 1 else 0) + allowance L s (counter_of rl' p t) \<le> allowance L s (counter_of rl p t)"
proof (cases "q = p")
  case True
  have "map_of (prl_messageCounters (limiter_of rnd now0 rl p)) t = counter_of rl p t"
    by (simp add: limiter_of_def getPeerLimiter_def counter_of_def Let_def split: option.split)
  with allow_peer_allowance [OF L, of rnd "limiter_of rnd now0 rl p" u] True show ?thesis
    using AllowMessage_lookup(1,3) [OF a] by (simp add: counter_of_def)
next
  case False
  then show ?thesis using AllowMessage_lookup(1) [OF a, of p] by (simp add: counter_of_def)
qed

lemma accepted_allowance:
  assumes "getMessageTypeLimit (rl_config rl) t = L" "L \<noteq> 0" "\<forall>(q, u, now0, now)\<in>set calls. s \<le> now \<and> now < s + Second"
  shows "accepted rnd rl (\<lambda>q u. q = p \<and> u = t) calls \<le> allowance L s (counter_of rl p t)"
  using assms
proof (induction calls arbitrary: rl)
  case (Cons call calls)
  obtain q u now0 now where c: "call = (q, u, now0, now)" by (cases call)
  obtain rl' ok why where a: "AllowMessage rnd now0 now rl q u = (rl', ok, why)" by (cases "AllowMessage rnd now0 now rl q u")
  from AllowMessage_lookup(2) [OF a] Cons.IH [of rl'] Cons.prems
  have "accepted rnd rl' (\<lambda>q u. q = p \<and> u = t) calls \<le> allowance L s (counter_of rl' p t)" by simp
  moreover have "s \<le> now" "now < s + Second" using Cons.prems(3) c by auto
  from AllowMessage_allowance [OF a Cons.prems(1,2) this, of p]
  have "(if ok \<and> q = p \<and> u = t then 1 else 0) + allowance L s (counter_of rl' p t) \<le> allowance L s (counter_of rl p t)" .
  ultimately show ?case by (auto simp: c a)
qed simp

section \<open>Theorems\<close>

text \<open>
  A peer that exceeds the overall rate is banned: whatever other calls follow, for it or for other peers, none
  of its messages is allowed until the ban has run out.
\<close>

theorem ban_enforced:
  assumes "AllowMessage rnd now0 now rl p t = (rl', False, ''overall rate limit exceeded, peer banned'')"
    "\<forall>(q, u, n0, n)\<in>set calls. n < now + rl_BanDuration (rl_config rl)"
  shows "accepted rnd rl' (\<lambda>q u. q = p) calls = 0"
proof -
  have "allow_peer rnd (rl_config rl) now (limiter_of rnd now0 rl p) t =
      (fst (allow_peer rnd (rl_config rl) now (limiter_of rnd now0 rl p) t), False, ''overall rate limit exceeded, peer banned'')"
    using assms(1) by (auto simp: AllowMessage_peers)
  then have "prl_bannedUntil (fst (allow_peer rnd (rl_config rl) now (limiter_of rnd now0 rl p) t)) = now + rl_BanDuration (rl_config rl)"
    by (auto simp: allow_peer_def Let_def split: if_splits prod.splits bool.splits)
  with banned_refused [OF AllowMessage_lookup(1) [OF assms(1), of p, simplified]] assms(2) show ?thesis by simp
qed

definition drained :: RateLimiter where
  "drained = \<lparr>rl_config = DefaultRateLimitConfig, rl_peers =
     [(''p'', \<lparr>prl_tokens = 0, prl_maxTokens = 200, prl_refillRate = 100, prl_lastRefill = 0, prl_messageCounters = [], prl_bannedUntil = zero_Time\<rparr>)]\<rparr>"

theorem ban_enforced_witness:
  "accepted id (fst (AllowMessage id 0 0 drained ''p'' MsgTypePing)) (\<lambda>q u. q = ''p'') [(''p'', MsgTypePing, Second, Second), (''p'', MsgTypeVote, 2 * Second, 2 * Second)] = 0"
proof -
  have "AllowMessage id 0 0 drained ''p'' MsgTypePing =
      (fst (AllowMessage id 0 0 drained ''p'' MsgTypePing), False, ''overall rate limit exceeded, peer banned'')"
    by (simp add: AllowMessage_def getPeerLimiter_def allow_peer_def refill_def Seconds_def time_Sub_def drained_def zero_Time_def Second_def)
  then show ?thesis by (rule ban_enforced) (simp add: drained_def DefaultRateLimitConfig_def Second_def)
qed

text \<open>
  In any period of one second, the messages of one peer and of one limited type that are allowed are at most
  twice the limit, however the calls of all peers are interleaved.
\<close>

theorem type_limit_window:
  assumes "getMessageTypeLimit (rl_config rl) t = L" "L \<noteq> 0" "\<forall>c. counter_of rl p t = Some c \<longrightarrow> 0 \<le> mc_count c"
    "\<forall>(q, u, now0, now)\<in>set calls. s \<le> now \<and> now < s + Second"
  shows "accepted rnd rl (\<lambda>q u. q = p \<and> u = t) calls \<le> 2 * nat L"
  using accepted_allowance [OF assms(1,2,4), of rnd p] assms(3) by (auto simp: allowance_def split: option.splits if_splits)

theorem type_limit_window_witness:
  "accepted id (NewRateLimiter None) (\<lambda>q u. q = ''p'' \<and> u = MsgTypeGetBlocks) (replicate 30 (''p'', MsgTypeGetBlocks, 7, 7)) \<le> 10"
proof -
  have "accepted id (NewRateLimiter None) (\<lambda>q u. q = ''p'' \<and> u = MsgTypeGetBlocks) (replicate 30 (''p'', MsgTypeGetBlocks, 7, 7)) \<le> 2 * nat 5"
    by (rule type_limit_window [where s = 7])
      (simp_all add: NewRateLimiter_def DefaultRateLimitConfig_def getMessageTypeLimit_def counter_of_def Second_def)
  then show ?thesis by simp
qed

text \<open>
  The windows of a counter do not slide, so the bound is nearly reached: of ten requests for blocks, one at the
  start of a window, four at its end and five at the start of the next, all are allowed, nine of them within a
  tenth of a second, with a limit of five per second.
\<close>

lemma window_boundary:
  "accepted id (NewRateLimiter None) (\<lambda>q u. True)
     ([(''p'', MsgTypeGetBlocks, 0, 0)] @ replicate 4 (''p'', MsgTypeGetBlocks, 900000000, 900000000) @
      replicate 5 (''p'', MsgTypeGetBlocks, Second, Second)) = 10"
  by code_simp

end
