(* ===== verification/Node.thy ===== *)
theory Node
  imports Rate_Limit Blockchain "HOL-Library.List_Lexorder" "HOL-Library.Char_ord"
begin

text \<open>
  \<open>p2p/node.go\<close>: the table of peers, handshakes and the framing of messages.  A peer object is created for
  one connection and shared between the goroutine of that connection and the table, so both refer to it by the
  connection: \<open>no_objs\<close> holds the objects and \<open>no_Peers\<close> maps peer identifiers to connections.  What the node
  does to the network is appended to \<open>no_out\<close>.  A slice expression out of range is a run-time panic, which ends
  the process: \<open>Inl SliceBounds\<close>.
\<close>

section \<open>State\<close>

datatype PeerState = PeerStateDisconnected | PeerStateConnecting | PeerStateConnected | PeerStateHandshaking | PeerStateActive

definition PeerState_String :: "PeerState \<Rightarrow> string" where
  "PeerState_String s =
     (case s of PeerStateDisconnected \<Rightarrow> ''DISCONNECTED'' | PeerStateConnecting \<Rightarrow> ''CONNECTING''
      | PeerStateConnected \<Rightarrow> ''CONNECTED'' | PeerStateHandshaking \<Rightarrow> ''HANDSHAKING'' | PeerStateActive \<Rightarrow> ''ACTIVE'')"

type_synonym conn = nat

record Peer =
  pe_ID :: string
  pe_Address :: string
  pe_Port :: int
  pe_State :: PeerState
  pe_Version :: string
  pe_BestHeight :: uint64
  pe_LastSeen :: int
  pe_Inbound :: bool

datatype net_output =
    SendPacket conn "byte list"
  | CloseConn conn
  | DialPeer string
  | OnPeerConnected conn
  | OnPeerExchange "conn list"

datatype go_panic = SliceBounds

datatype net_error =
    AlreadyRunning | ListenFailed | MaxPeersReached | ConnectFailed | SendFailed | NoBlockchain | NoPeers
  | NodeStart net_error

record Node =
  no_ID :: string
  no_Address :: string
  no_Port :: int
  no_NetworkID :: string
  no_Version :: string
  no_Peers :: "(string, conn) gomap"
  no_MaxPeers :: nat
  no_BootNodes :: "string list"
  no_OnPeerConnected :: bool
  no_OnPeerExchange :: bool
  no_running :: bool
  no_stopped :: bool
  no_objs :: "(conn, Peer) gomap"
  no_out :: "net_output list"

text \<open>The random identifier is an argument.\<close>

definition NewNode :: "byte list \<Rightarrow> string \<Rightarrow> int \<Rightarrow> string \<Rightarrow> Node" where
  "NewNode random address port networkID =
     \<lparr>no_ID = hex_EncodeToString random, no_Address = address, no_Port = port, no_NetworkID = networkID, no_Version = ''1.0.0'',
      no_Peers = [], no_MaxPeers = 50, no_BootNodes = [], no_OnPeerConnected = False, no_OnPeerExchange = False,
      no_running = False, no_stopped = False, no_objs = [], no_out = []\<rparr>"

definition net_emit :: "net_output \<Rightarrow> Node \<Rightarrow> Node" where
  "net_emit x n = n\<lparr>no_out := no_out n @ [x]\<rparr>"

definition close_conn :: "conn \<Rightarrow> Node \<Rightarrow> Node" where
  "close_conn c = net_emit (CloseConn c)"

definition no_peer :: Peer where
  "no_peer = \<lparr>pe_ID = [], pe_Address = [], pe_Port = 0, pe_State = PeerStateDisconnected, pe_Version = [], pe_BestHeight = 0,
     pe_LastSeen = zero_Time, pe_Inbound = False\<rparr>"

definition peer_of :: "Node \<Rightarrow> conn \<Rightarrow> Peer" where
  "peer_of n c = (case map_of (no_objs n) c of None \<Rightarrow> no_peer | Some p \<Rightarrow> p)"

definition set_peer :: "conn \<Rightarrow> Peer \<Rightarrow> Node \<Rightarrow> Node" where
  "set_peer c p n = n\<lparr>no_objs := mput c p (no_objs n)\<rparr>"

text \<open>\<open>s[:16]\<close>\<close>

definition slice16 :: "string \<Rightarrow> go_panic + string" where
  "slice16 s = (if length s < 16 then Inl SliceBounds else Inr (take 16 s))"

section \<open>Framing\<close>

definition packet :: "byte list \<Rightarrow> byte list" where
  "packet data =
     (let msgLen = word_of_nat (length data) :: uint32
      in [ucast (drop_bit 24 msgLen), ucast (drop_bit 16 msgLen), ucast (drop_bit 8 msgLen), ucast msgLen] @ data)"

definition header_len :: "byte list \<Rightarrow> uint32" where
  "header_len header =
     or (or (or (push_bit 24 (ucast (header ! 0))) (push_bit 16 (ucast (header ! 1)))) (push_bit 8 (ucast (header ! 2)))) (ucast (header ! 3))"

definition MaxFrame :: nat where "MaxFrame = 10 * 1024 * 1024"

datatype read_end = ShortHeader | TooLarge uint32 | ShortBody

text \<open>What the read loop takes off a stream of bytes, and why it stops.\<close>

function frames :: "byte list \<Rightarrow> byte list list \<times> read_end" where
  "frames s =
     (if length s < 4 then ([], ShortHeader)
      else let msgLen = header_len (take 4 s) in
           if MaxFrame < unat msgLen then ([], TooLarge msgLen)
           else if length s < 4 + unat msgLen then ([], ShortBody)
           else let (fs, e) = frames (drop (4 + unat msgLen) s) in (take (unat msgLen) (drop 4 s) # fs, e))"
  by pat_completeness auto
termination by (relation "measure length") auto

declare frames.simps [simp del]

definition sendMessage :: "wire \<Rightarrow> int \<Rightarrow> Node \<Rightarrow> conn \<Rightarrow> Message \<Rightarrow> Node" where
  "sendMessage w now n c msg = net_emit (SendPacket c (packet (Serialize w (msg\<lparr>msg_Timestamp := now div Second\<rparr>)))) n"

section \<open>The table of peers\<close>

definition addPeer :: "Node \<Rightarrow> conn \<Rightarrow> go_panic + (Node \<times> bool)" where
  "addPeer n c =
     (let peer = peer_of n c; insert = (\<lambda>n. n\<lparr>no_Peers := mput (pe_ID peer) c (no_Peers n)\<rparr>) in
      case map_of (no_Peers n) (pe_ID peer) of
        Some existing \<Rightarrow>
          bindE (slice16 (pe_ID peer)) (\<lambda>_.
          if no_ID n < pe_ID peer
          then if pe_Inbound peer then Inr (n, False) else Inr (insert (close_conn existing n), True)
          else if \<not> pe_Inbound peer then Inr (n, False) else Inr (insert (close_conn existing n), True))
      | None \<Rightarrow> Inr (insert n, True))"

definition removePeer :: "Node \<Rightarrow> conn \<Rightarrow> go_panic + Node" where
  "removePeer n c =
     (let peer = peer_of n c; delete = Inr (n\<lparr>no_Peers := mdel (pe_ID peer) (no_Peers n)\<rparr>) in
      case map_of (no_Peers n) (pe_ID peer) of
        Some existing \<Rightarrow> if existing \<noteq> c then bindE (slice16 (pe_ID peer)) (\<lambda>_. Inr n) else delete
      | None \<Rightarrow> delete)"

definition GetPeers :: "(string, conn) ranging \<Rightarrow> Node \<Rightarrow> conn list" where
  "GetPeers \<rho> n = map snd (\<rho> (no_Peers n))"

definition GetPeerCount :: "Node \<Rightarrow> nat" where
  "GetPeerCount n = length (filter (\<lambda>(id, c). pe_State (peer_of n c) = PeerStateActive) (no_Peers n))"

definition active_peers :: "(string, conn) ranging \<Rightarrow> Node \<Rightarrow> conn list" where
  "active_peers \<rho> n = filter (\<lambda>c. pe_State (peer_of n c) = PeerStateActive) (map snd (\<rho> (no_Peers n)))"

definition Broadcast :: "wire \<Rightarrow> int \<Rightarrow> (string, conn) ranging \<Rightarrow> Node \<Rightarrow> Message \<Rightarrow> Node" where
  "Broadcast w now \<rho> n msg = foldl (\<lambda>n c. sendMessage w now n c msg) n (active_peers \<rho> n)"

definition removeInactivePeers :: "(string, conn) ranging \<Rightarrow> int \<Rightarrow> Node \<Rightarrow> Node" where
  "removeInactivePeers \<rho> now n =
     foldl (\<lambda>n (id, c). if pe_LastSeen (peer_of n c) < now - 120 * Second
                        then (close_conn c n)\<lparr>no_Peers := mdel id (no_Peers n)\<rparr> else n) n (\<rho> (no_Peers n))"

definition pingPeers :: "wire \<Rightarrow> int \<Rightarrow> (string, conn) ranging \<Rightarrow> Node \<Rightarrow> Node" where
  "pingPeers w now \<rho> n = Broadcast w now \<rho> n (NewMessage MsgTypePing [] (no_ID n))"

definition exchangePeers :: "(string, conn) ranging \<Rightarrow> Node \<Rightarrow> Node" where
  "exchangePeers \<rho> n =
     (let peers = GetPeers \<rho> n in
      if length peers = 0 then n else if no_OnPeerExchange n then net_emit (OnPeerExchange peers) n else n)"

definition connectToBootNodes :: "Node \<Rightarrow> Node" where
  "connectToBootNodes n = foldl (\<lambda>n addr. net_emit (DialPeer addr) n) n (no_BootNodes n)"

definition reconnectIfNeeded :: "Node \<Rightarrow> Node" where
  "reconnectIfNeeded n = (if 0 < GetPeerCount n then n else connectToBootNodes n)"

text \<open>One turn of the maintenance ticker.\<close>

definition maintainPeers ::
    "wire \<Rightarrow> int \<Rightarrow> (string, conn) ranging \<Rightarrow> (string, conn) ranging \<Rightarrow> Node \<Rightarrow> Node" where
  "maintainPeers w now \<rho> \<rho>' n = reconnectIfNeeded (removeInactivePeers \<rho>' now (pingPeers w now \<rho> n))"

section \<open>Connections and handshakes\<close>

definition Node_Start :: "bool \<Rightarrow> Node \<Rightarrow> net_error + Node" where
  "Node_Start listening n =
     (if no_running n then Inl AlreadyRunning
      else if \<not> listening then Inl ListenFailed
      else Inr (connectToBootNodes (n\<lparr>no_running := True\<rparr>)))"

definition Node_Stop :: "(string, conn) ranging \<Rightarrow> Node \<Rightarrow> Node" where
  "Node_Stop \<rho> n =
     (if \<not> no_running n then n
      else foldl (\<lambda>n (id, c). close_conn c n) (n\<lparr>no_running := False, no_stopped := True\<rparr>) (\<rho> (no_Peers n)))"

text \<open>The height and hash of the tip that a handshake reports.\<close>

definition handshake_payload :: "BlockChain option \<Rightarrow> Node \<Rightarrow> HandshakePayload" where
  "handshake_payload bc n =
     \<lparr>hs_Version = no_Version n, hs_NodeID = no_ID n, hs_NetworkID = no_NetworkID n, hs_ListenPort = no_Port n,
      hs_BestHeight = (case bc of None \<Rightarrow> 0 | Some p \<Rightarrow> GetLatestHeight p),
      hs_BestHash = (case bc of None \<Rightarrow> [] | Some p \<Rightarrow> (case GetLatestBlockHash p of Inl e \<Rightarrow> [] | Inr h \<Rightarrow> h))\<rparr>"

definition sendHandshake :: "wire \<Rightarrow> int \<Rightarrow> BlockChain option \<Rightarrow> Node \<Rightarrow> conn \<Rightarrow> Node" where
  "sendHandshake w now bc n c =
     sendMessage w now n c (NewMessage MsgTypeHandshake (enc_Handshake w (handshake_payload bc n)) (no_ID n))"

definition sendHandshakeAck :: "wire \<Rightarrow> int \<Rightarrow> BlockChain option \<Rightarrow> Node \<Rightarrow> conn \<Rightarrow> Node" where
  "sendHandshakeAck w now bc n c =
     sendMessage w now n c (NewMessage MsgTypeHandshakeAck (enc_Handshake w (handshake_payload bc n)) (no_ID n))"

definition handleInboundConnection :: "int \<Rightarrow> string \<Rightarrow> Node \<Rightarrow> conn \<Rightarrow> Node" where
  "handleInboundConnection now remote n c =
     (if no_MaxPeers n \<le> length (no_Peers n) then close_conn c n
      else set_peer c (no_peer\<lparr>pe_Address := remote, pe_State := PeerStateHandshaking, pe_LastSeen := now, pe_Inbound := True\<rparr>) n)"

text \<open>\<open>dialed\<close> is the connection that the dialler returns, if any, and \<open>sent\<close> whether the first write succeeds.\<close>

definition Connect ::
    "wire \<Rightarrow> int \<Rightarrow> BlockChain option \<Rightarrow> conn option \<Rightarrow> bool \<Rightarrow> Node \<Rightarrow> string \<Rightarrow> Node \<times> net_error option" where
  "Connect w now bc dialed sent n address =
     (if no_MaxPeers n \<le> length (no_Peers n) then (n, Some MaxPeersReached)
      else case dialed of
             None \<Rightarrow> (n, Some ConnectFailed)
           | Some c \<Rightarrow>
               let peer = no_peer\<lparr>pe_Address := address, pe_State := PeerStateConnecting, pe_LastSeen := now\<rparr>;
                   n1 = sendHandshake w now bc (set_peer c peer n) c
               in if \<not> sent then (close_conn c n1, Some SendFailed)
                  else (set_peer c (peer\<lparr>pe_State := PeerStateHandshaking\<rparr>) n1, None))"

text \<open>The part of the handshake that fills in the peer and acknowledges.\<close>

definition greet :: "wire \<Rightarrow> int \<Rightarrow> BlockChain option \<Rightarrow> Message \<Rightarrow> HandshakePayload \<Rightarrow> Node \<Rightarrow> conn \<Rightarrow> Node" where
  "greet w now bc msg payload n c =
     (let peer = (peer_of n c)\<lparr>pe_ID := hs_NodeID payload, pe_Version := hs_Version payload,
            pe_BestHeight := hs_BestHeight payload, pe_Port := hs_ListenPort payload, pe_State := PeerStateActive\<rparr>;
          n1 = set_peer c peer n
      in if pe_Inbound peer \<and> msg_Type msg = MsgTypeHandshake then sendHandshakeAck w now bc n1 c else n1)"

definition handleHandshake :: "wire \<Rightarrow> int \<Rightarrow> BlockChain option \<Rightarrow> Message \<Rightarrow> Node \<Rightarrow> conn \<Rightarrow> go_panic + Node" where
  "handleHandshake w now bc msg n c =
     (if msg_Type msg \<noteq> MsgTypeHandshake \<and> msg_Type msg \<noteq> MsgTypeHandshakeAck then Inr n
      else case dec_Handshake w (msg_Payload msg) of
             None \<Rightarrow> Inr n
           | Some payload \<Rightarrow>
               if hs_NetworkID payload \<noteq> no_NetworkID n then Inr (close_conn c n)
               else bindE (addPeer (greet w now bc msg payload n c) c) (\<lambda>(n1, added).
                    if \<not> added then bindE (slice16 (hs_NodeID payload)) (\<lambda>_. Inr (close_conn c n1))
                    else Inr (if no_OnPeerConnected n1 then net_emit (OnPeerConnected c) n1 else n1)))"

section \<open>Framing is lossless\<close>

lemma header_bytes:
  fixes m :: uint32
  shows "header_len [ucast (drop_bit 24 m), ucast (drop_bit 16 m), ucast (drop_bit 8 m), ucast m] = m"
proof (rule bit_word_eqI)
  fix i
  assume i: "i < LENGTH(32)"
  then consider "i < 8" | "8 \<le> i" "i < 16" | "16 \<le> i" "i < 24" | "24 \<le> i" "i < 32" by fastforce
  then show "bit (header_len [ucast (drop_bit 24 m), ucast (drop_bit 16 m), ucast (drop_bit 8 m), ucast m]) i = bit m i"
    by cases (auto simp: header_len_def bit_simps)
qed

lemma frames_packet:
  assumes "length data \<le> MaxFrame"
  shows "frames (packet data @ rest) = (data # fst (frames rest), snd (frames rest))"
proof -
  have small: "unat (word_of_nat (length data) :: uint32) = length data"
    using assms by (simp add: MaxFrame_def unat_of_nat)
  have "take 4 (packet data @ rest) =
      [ucast (drop_bit 24 (word_of_nat (length data) :: uint32)), ucast (drop_bit 16 (word_of_nat (length data) :: uint32)),
       ucast (drop_bit 8 (word_of_nat (length data) :: uint32)), ucast (word_of_nat (length data) :: uint32)]"
    by (simp add: packet_def Let_def)
  then have len: "header_len (take 4 (packet data @ rest)) = word_of_nat (length data)" by (simp only: header_bytes)
  have "drop 4 (packet data @ rest) = data @ rest" "length (packet data) = 4 + length data" by (simp_all add: packet_def Let_def)
  moreover from this(1) have "drop (4 + length data) (packet data @ rest) = rest"
    using drop_drop [of "length data" 4 "packet data @ rest"] by (simp add: add.commute)
  ultimately show ?thesis
    using assms len small frames.simps [of "packet data @ rest"] by (simp add: Let_def case_prod_unfold)
qed

lemma frames_packets:
  assumes "\<forall>d\<in>set datas. length d \<le> MaxFrame"
  shows "frames (concat (map packet datas) @ rest) = (datas @ fst (frames rest), snd (frames rest))"
  using assms by (induction datas) (simp_all add: frames_packet)

section \<open>The invariant of the table\<close>

text \<open>Each entry is an active peer under its own identifier.\<close>

definition wf_Node :: "Node \<Rightarrow> bool" where
  "wf_Node n \<longleftrightarrow> wf_map (no_Peers n) \<and>
     (\<forall>id c. map_of (no_Peers n) id = Some c \<longrightarrow> pe_ID (peer_of n c) = id \<and> pe_State (peer_of n c) = PeerStateActive)"

lemma peer_of_set_peer [simp]: "peer_of (set_peer c p n) d = (if d = c then p else peer_of n d)"
  by (simp add: peer_of_def set_peer_def map_of_mput)

lemma peer_of_frame [simp]:
  "peer_of (net_emit x n) c = peer_of n c" "peer_of (close_conn d n) c = peer_of n c" "peer_of (n\<lparr>no_Peers := m\<rparr>) c = peer_of n c"
  "peer_of (sendMessage w now n d msg) c = peer_of n c"
  by (simp_all add: peer_of_def net_emit_def close_conn_def sendMessage_def)

lemma peers_frame [simp]:
  "no_Peers (net_emit x n) = no_Peers n" "no_Peers (close_conn d n) = no_Peers n" "no_Peers (set_peer c p n) = no_Peers n"
  "no_Peers (sendMessage w now n d msg) = no_Peers n" "no_ID (net_emit x n) = no_ID n" "no_ID (close_conn d n) = no_ID n"
  "no_ID (set_peer c p n) = no_ID n" "no_ID (sendMessage w now n d msg) = no_ID n"
  by (simp_all add: net_emit_def close_conn_def set_peer_def sendMessage_def)

lemma peers_send [simp]:
  "no_Peers (foldl (\<lambda>n c. sendMessage w now n c msg) n cs) = no_Peers n"
  "peer_of (foldl (\<lambda>n c. sendMessage w now n c msg) n cs) d = peer_of n d"
  by (induction cs arbitrary: n) simp_all

lemma wf_Node_emit [simp]: "wf_Node (net_emit x n) = wf_Node n" "wf_Node (close_conn c n) = wf_Node n"
  "wf_Node (sendMessage w now n c msg) = wf_Node n"
  by (simp_all add: wf_Node_def)

lemma addPeer_cases:
  assumes "addPeer n c = Inr (n', added)"
  shows "if added
     then no_Peers n' = mput (pe_ID (peer_of n c)) c (no_Peers n) \<and> no_objs n' = no_objs n \<and>
       (\<forall>e. map_of (no_Peers n) (pe_ID (peer_of n c)) = Some e \<longrightarrow> CloseConn e \<in> set (no_out n'))
     else n' = n \<and> map_of (no_Peers n) (pe_ID (peer_of n c)) \<noteq> None"
  using assms by (auto simp: addPeer_def Let_def bindE_Inr net_emit_def close_conn_def split: option.splits if_splits)

lemma wf_addPeer:
  assumes "wf_Node n" "pe_State (peer_of n c) = PeerStateActive" "addPeer n c = Inr (n', added)"
  shows "wf_Node n'"
proof (cases added)
  case True
  with addPeer_cases [OF assms(3)] have p: "no_Peers n' = mput (pe_ID (peer_of n c)) c (no_Peers n)" "peer_of n' = peer_of n"
    by (auto simp: peer_of_def)
  with assms(1,2) show ?thesis by (auto simp: wf_Node_def map_of_mput split: if_splits)
next
  case False
  with addPeer_cases [OF assms(3)] assms(1) show ?thesis by simp
qed

lemma removePeer_cases:
  "removePeer n c = Inr n' \<Longrightarrow> n' = n \<or> n' = n\<lparr>no_Peers := mdel (pe_ID (peer_of n c)) (no_Peers n)\<rparr>"
  by (auto simp: removePeer_def Let_def bindE_Inr split: option.splits if_splits)

lemma wf_delete: "wf_Node n \<Longrightarrow> wf_Node (n\<lparr>no_Peers := mdel k (no_Peers n)\<rparr>)"
  by (simp add: wf_Node_def map_of_mdel)

lemma wf_removePeer: "wf_Node n \<Longrightarrow> removePeer n c = Inr n' \<Longrightarrow> wf_Node n'"
  using removePeer_cases wf_delete by blast

lemma removePeer_other:
  "removePeer n c = Inr n' \<Longrightarrow> map_of (no_Peers n) k = Some d \<Longrightarrow> d \<noteq> c \<Longrightarrow> map_of (no_Peers n') k = Some d"
  by (auto simp: removePeer_def Let_def bindE_Inr map_of_mdel split: option.splits if_splits)

lemma wf_set_new: "wf_Node n \<Longrightarrow> pe_State (peer_of n c) \<noteq> PeerStateActive \<Longrightarrow> wf_Node (set_peer c p n)"
  by (auto simp: wf_Node_def)

lemma wf_greet:
  assumes "wf_Node n" "pe_State (peer_of n c) = PeerStateHandshaking"
  shows "wf_Node (greet w now bc msg payload n c)" "pe_State (peer_of (greet w now bc msg payload n c) c) = PeerStateActive"
  using assms by (simp_all add: greet_def Let_def sendHandshakeAck_def wf_set_new)

lemma wf_handleHandshake:
  assumes "wf_Node n" "pe_State (peer_of n c) = PeerStateHandshaking" "handleHandshake w now bc msg n c = Inr n'"
  shows "wf_Node n'"
proof -
  note wf = wf_greet [OF assms(1,2)]
  from assms(3) consider "n' = n" | "n' = close_conn c n"
    | payload n1 added where "addPeer (greet w now bc msg payload n c) c = Inr (n1, added)"
        "n' \<in> {close_conn c n1, net_emit (OnPeerConnected c) n1, n1}"
    unfolding handleHandshake_def by (auto simp: bindE_Inr split: if_splits option.splits)
  then show ?thesis
  proof cases
    case 3
    have "wf_Node n1" by (rule wf_addPeer [OF wf 3(1)])
    with 3(2) show ?thesis by auto
  qed (use assms(1) in auto)
qed

section \<open>Theorems\<close>

text \<open>
  C29: Framing is lossless: the reader takes off a stream of packets exactly the messages that were packed, one by
  one and in order, whatever follows them, as long as each is at most ten megabytes long.
\<close>

theorem framing_roundtrip:
  assumes "\<forall>d\<in>set datas. length d \<le> MaxFrame"
  shows "frames (concat (map packet datas)) = (datas, ShortHeader) \<and>
    frames (concat (map packet datas) @ rest) = (datas @ fst (frames rest), snd (frames rest))"
  using frames_packets [OF assms, of "[]"] frames_packets [OF assms, of rest] by (simp add: frames.simps [of "[]"])

theorem framing_roundtrip_witness: "frames (packet [1, 2, 3] @ packet [] @ packet [4]) = ([[1, 2, 3], [], [4]], ShortHeader)"
  using framing_roundtrip [of "[[1, 2, 3], [], [4]]" "[]"] by (simp add: MaxFrame_def)

text \<open>
  C2: When two nodes dial each other at the same time, both end up with the same one of the two connections, the one
  that the node with the smaller identifier dialled, in whatever order each of them completes the two handshakes;
  and when the goroutine of the other connection ends later, it does not remove the entry.
\<close>

definition register_both :: "Node \<Rightarrow> conn \<Rightarrow> conn \<Rightarrow> go_panic + Node" where
  "register_both n c d = bindE (addPeer n c) (\<lambda>(n1, _). bindE (addPeer n1 d) (\<lambda>(n2, _). Inr n2))"

theorem simultaneous_connections:
  assumes "no_ID a < no_ID b" "16 \<le> length (no_ID a)" "16 \<le> length (no_ID b)"
    "map_of (no_Peers a) (no_ID b) = None" "map_of (no_Peers b) (no_ID a) = None" "x \<noteq> y" "(c, d) \<in> {(x, y), (y, x)}"
    "pe_ID (peer_of a x) = no_ID b" "\<not> pe_Inbound (peer_of a x)" "pe_ID (peer_of a y) = no_ID b" "pe_Inbound (peer_of a y)"
    "pe_ID (peer_of b x) = no_ID a" "pe_Inbound (peer_of b x)" "pe_ID (peer_of b y) = no_ID a" "\<not> pe_Inbound (peer_of b y)"
  shows "\<exists>a' b' a'' b''. register_both a c d = Inr a' \<and> register_both b c d = Inr b' \<and>
    map_of (no_Peers a') (no_ID b) = Some x \<and> map_of (no_Peers b') (no_ID a) = Some x \<and>
    removePeer a' y = Inr a'' \<and> removePeer b' y = Inr b'' \<and>
    map_of (no_Peers a'') (no_ID b) = Some x \<and> map_of (no_Peers b'') (no_ID a) = Some x"
  using assms
  by (auto simp: register_both_def addPeer_def removePeer_def slice16_def Let_def map_of_mput peer_of_def close_conn_def net_emit_def)

definition sample_node :: "char \<Rightarrow> char \<Rightarrow> bool \<Rightarrow> Node" where
  "sample_node me other dials =
     (NewNode [] [] 0 [])\<lparr>no_ID := replicate 16 me,
        no_objs := [(1, no_peer\<lparr>pe_ID := replicate 16 other, pe_State := PeerStateActive, pe_Inbound := \<not> dials\<rparr>),
                    (2, no_peer\<lparr>pe_ID := replicate 16 other, pe_State := PeerStateActive, pe_Inbound := dials\<rparr>)]\<rparr>"

theorem simultaneous_connections_witness:
  "\<exists>a' b'. register_both (sample_node (CHR ''a'') (CHR ''b'') True) 2 1 = Inr a' \<and>
     register_both (sample_node (CHR ''b'') (CHR ''a'') False) 2 1 = Inr b' \<and>
     map_of (no_Peers a') (replicate 16 (CHR ''b'')) = Some 1 \<and> map_of (no_Peers b') (replicate 16 (CHR ''a'')) = Some 1"
proof -
  have lt: "replicate 16 (CHR ''a'') < replicate 16 (CHR ''b'')" by code_simp
  show ?thesis
    using simultaneous_connections [of "sample_node (CHR ''a'') (CHR ''b'') True" "sample_node (CHR ''b'') (CHR ''a'') False" 1 2 2 1] lt
    by (fastforce simp: sample_node_def NewNode_def peer_of_def no_peer_def)
qed

end
