(* ===== verification/P2P_Service.thy ===== *)
theory P2P_Service
  imports Node Block_Store
begin

text \<open>
  \<open>p2p/p2p.go\<close>: the service on top of the node: rate limiting, dispatch of messages, relaying, caches of what was
  seen, requests for blocks and peers.  A callback that is set is recorded in \<open>sv_calls\<close> with its arguments; the
  application carries the calls out.  The clock readings and map orders of one message are the record \<open>p2p_env\<close>.
\<close>

section \<open>State\<close>

datatype delivered =
    BlockReceived Block
  | TxReceived Transaction
  | ProposalReceived uint64 uint32 Hash Block
  | VoteReceived uint64 uint32 uint8 Hash Address Signature

record P2PService =
  sv_Node :: Node
  sv_blockHandler :: bool
  sv_txHandler :: bool
  sv_proposalHandler :: bool
  sv_voteHandler :: bool
  sv_seenMessages :: "(string, int) gomap"
  sv_seenProposals :: "(string, int) gomap"
  sv_seenVotes :: "(string, int) gomap"
  sv_connectingPeers :: "(string, int) gomap"
  sv_rateLimiter :: "RateLimiter option"
  sv_running :: bool
  sv_calls :: "delivered list"

record p2p_env =
  ev_rnd :: rounding
  ev_now0 :: int
  ev_now :: int
  ev_mark :: int
  ev_clean :: int
  ev_relay_mark :: int
  ev_relay_clean :: int
  ev_send :: int
  ev_peers :: "(string, conn) ranging"

definition NewP2PService :: "Node \<Rightarrow> P2PService" where
  "NewP2PService node =
     \<lparr>sv_Node = node\<lparr>no_OnPeerConnected := True, no_OnPeerExchange := True\<rparr>, sv_blockHandler = False, sv_txHandler = False,
      sv_proposalHandler = False, sv_voteHandler = False, sv_seenMessages = [], sv_seenProposals = [], sv_seenVotes = [],
      sv_connectingPeers = [], sv_rateLimiter = Some (NewRateLimiter None), sv_running = False, sv_calls = []\<rparr>"

definition on_node :: "(Node \<Rightarrow> Node) \<Rightarrow> P2PService \<Rightarrow> P2PService" where
  "on_node f s = s\<lparr>sv_Node := f (sv_Node s)\<rparr>"

definition deliver :: "delivered \<Rightarrow> P2PService \<Rightarrow> P2PService" where
  "deliver x s = s\<lparr>sv_calls := sv_calls s @ [x]\<rparr>"

definition Service_Start :: "bool \<Rightarrow> P2PService \<Rightarrow> net_error + P2PService" where
  "Service_Start listening s =
     (if sv_running s then Inl AlreadyRunning
      else bindE (wrapE NodeStart (Node_Start listening (sv_Node s))) (\<lambda>n. Inr (s\<lparr>sv_Node := n, sv_running := True\<rparr>)))"

definition Service_Stop :: "(string, conn) ranging \<Rightarrow> P2PService \<Rightarrow> P2PService" where
  "Service_Stop \<rho> s =
     (if \<not> sv_running s then s else (on_node (Node_Stop \<rho>) s)\<lparr>sv_running := False\<rparr>)"

definition SetBlockHandler :: "P2PService \<Rightarrow> P2PService" where "SetBlockHandler s = s\<lparr>sv_blockHandler := True\<rparr>"
definition SetTxHandler :: "P2PService \<Rightarrow> P2PService" where "SetTxHandler s = s\<lparr>sv_txHandler := True\<rparr>"
definition SetProposalHandler :: "P2PService \<Rightarrow> P2PService" where "SetProposalHandler s = s\<lparr>sv_proposalHandler := True\<rparr>"
definition SetVoteHandler :: "P2PService \<Rightarrow> P2PService" where "SetVoteHandler s = s\<lparr>sv_voteHandler := True\<rparr>"

section \<open>Caches\<close>

text \<open>Marking an entry, and dropping the entries older than \<open>age\<close> when there are more than \<open>limit\<close>.\<close>

definition mark_seen :: "nat \<Rightarrow> int \<Rightarrow> int \<Rightarrow> int \<Rightarrow> string \<Rightarrow> (string, int) gomap \<Rightarrow> (string, int) gomap" where
  "mark_seen limit age now clean key cache =
     (let cache' = mput key now cache
      in if limit < length cache' then filter (\<lambda>(id, t). \<not> t < clean - age) cache' else cache')"

definition hasSeenMessage :: "P2PService \<Rightarrow> string \<Rightarrow> bool" where
  "hasSeenMessage s msgID \<longleftrightarrow> map_of (sv_seenMessages s) msgID \<noteq> None"

definition markMessageSeen :: "int \<Rightarrow> int \<Rightarrow> string \<Rightarrow> P2PService \<Rightarrow> P2PService" where
  "markMessageSeen now clean msgID s = s\<lparr>sv_seenMessages := mark_seen 1000 (60 * Second) now clean msgID (sv_seenMessages s)\<rparr>"

definition hasSeenProposal :: "P2PService \<Rightarrow> string \<Rightarrow> bool" where
  "hasSeenProposal s key \<longleftrightarrow> map_of (sv_seenProposals s) key \<noteq> None"

definition markProposalSeen :: "int \<Rightarrow> int \<Rightarrow> string \<Rightarrow> P2PService \<Rightarrow> P2PService" where
  "markProposalSeen now clean key s = s\<lparr>sv_seenProposals := mark_seen 500 (30 * Second) now clean key (sv_seenProposals s)\<rparr>"

definition hasSeenVote :: "P2PService \<Rightarrow> string \<Rightarrow> bool" where
  "hasSeenVote s key \<longleftrightarrow> map_of (sv_seenVotes s) key \<noteq> None"

definition markVoteSeen :: "int \<Rightarrow> int \<Rightarrow> string \<Rightarrow> P2PService \<Rightarrow> P2PService" where
  "markVoteSeen now clean key s = s\<lparr>sv_seenVotes := mark_seen 2000 (30 * Second) now clean key (sv_seenVotes s)\<rparr>"

definition tryMarkConnecting :: "int \<Rightarrow> string \<Rightarrow> P2PService \<Rightarrow> P2PService \<times> bool" where
  "tryMarkConnecting now peerID s =
     (let recent = filter (\<lambda>(id, t). \<not> t < now - 30 * Second) (sv_connectingPeers s)
      in if map_of recent peerID \<noteq> None then (s\<lparr>sv_connectingPeers := recent\<rparr>, False)
         else (s\<lparr>sv_connectingPeers := mput peerID now recent\<rparr>, True))"

definition unmarkConnecting :: "string \<Rightarrow> P2PService \<Rightarrow> P2PService" where
  "unmarkConnecting peerID s = s\<lparr>sv_connectingPeers := mdel peerID (sv_connectingPeers s)\<rparr>"

definition isConnectedToPeer :: "P2PService \<Rightarrow> string \<Rightarrow> bool" where
  "isConnectedToPeer s peerID \<longleftrightarrow> map_of (no_Peers (sv_Node s)) peerID \<noteq> None"

section \<open>Relaying\<close>

definition generateMessageID :: "crypto \<Rightarrow> Message \<Rightarrow> string" where
  "generateMessageID C msg =
     nat_to_dec (unat (msg_Type msg)) @ '':'' @ msg_From msg @ '':'' @ hex_EncodeToString (take 8 (sha256 C (msg_Payload msg)))"

definition relayMessageWithoutDuplicateCheck :: "wire \<Rightarrow> p2p_env \<Rightarrow> Message \<Rightarrow> conn \<Rightarrow> P2PService \<Rightarrow> P2PService" where
  "relayMessageWithoutDuplicateCheck w ev msg sender s =
     (let n = sv_Node s;
          peers = filter (\<lambda>c. pe_State (peer_of n c) = PeerStateActive \<and> pe_ID (peer_of n c) \<noteq> pe_ID (peer_of n sender) \<and>
                            pe_ID (peer_of n c) \<noteq> msg_From msg) (map snd (ev_peers ev (no_Peers n)))
      in on_node (\<lambda>n. foldl (\<lambda>n c. sendMessage w (ev_send ev) n c msg) n peers) s)"

definition relayMessage :: "crypto \<Rightarrow> wire \<Rightarrow> p2p_env \<Rightarrow> Message \<Rightarrow> conn \<Rightarrow> P2PService \<Rightarrow> P2PService" where
  "relayMessage C w ev msg sender s =
     (let msgID = generateMessageID C msg in
      if hasSeenMessage s msgID then s
      else relayMessageWithoutDuplicateCheck w ev msg sender (markMessageSeen (ev_relay_mark ev) (ev_relay_clean ev) msgID s))"

section \<open>Message handlers\<close>

definition handlePing :: "wire \<Rightarrow> p2p_env \<Rightarrow> conn \<Rightarrow> P2PService \<Rightarrow> P2PService" where
  "handlePing w ev c s = on_node (\<lambda>n. sendMessage w (ev_send ev) n c (NewMessage MsgTypePong [] (no_ID n))) s"

definition handleNewBlock :: "wire \<Rightarrow> Message \<Rightarrow> P2PService \<Rightarrow> P2PService" where
  "handleNewBlock w msg s =
     (case dec_NewBlock w (msg_Payload msg) of
        None \<Rightarrow> s
      | Some payload \<Rightarrow>
          (case gob_dec_Block w (nb_BlockData payload) of
             None \<Rightarrow> s
           | Some block \<Rightarrow> if sv_blockHandler s then deliver (BlockReceived block) s else s))"

definition handleNewTx :: "wire \<Rightarrow> Message \<Rightarrow> P2PService \<Rightarrow> P2PService" where
  "handleNewTx w msg s =
     (case dec_NewTx w (msg_Payload msg) of
        None \<Rightarrow> s
      | Some payload \<Rightarrow>
          (case gob_dec_Tx w (nt_TxData payload) of
             None \<Rightarrow> s
           | Some tx \<Rightarrow> if sv_txHandler s then deliver (TxReceived tx) s else s))"

text \<open>The loop that collects the requested blocks; the encoder does not fail on a block.\<close>

function collect_blocks :: "wire \<Rightarrow> BlockChain \<Rightarrow> uint64 \<Rightarrow> uint64 \<Rightarrow> byte list list \<Rightarrow> byte list list" where
  "collect_blocks w bc height endHeight blocksData =
     (if height \<le> endHeight \<and> length blocksData < 100
      then (case GetBlockByHeight bc height of
              Inl e \<Rightarrow> blocksData
            | Inr block \<Rightarrow> collect_blocks w bc (height + 1) endHeight (blocksData @ [gob_enc_Block w block]))
      else blocksData)"
  by pat_completeness auto
termination by (relation "measure (\<lambda>(w, bc, h, e, acc). 100 - length acc)") auto

declare collect_blocks.simps [simp del]

definition handleGetBlocks :: "wire \<Rightarrow> p2p_env \<Rightarrow> BlockChain option \<Rightarrow> Message \<Rightarrow> conn \<Rightarrow> P2PService \<Rightarrow> P2PService" where
  "handleGetBlocks w ev bc msg c s =
     (case dec_GetBlocks w (msg_Payload msg) of
        None \<Rightarrow> s
      | Some payload \<Rightarrow>
          (case bc of
             None \<Rightarrow> s
           | Some p \<Rightarrow>
               let blocksData = collect_blocks w p (gb_StartHeight payload) (gb_EndHeight payload) [];
                   response = NewMessage MsgTypeBlocks (enc_Blocks w \<lparr>bp_BlocksData = blocksData\<rparr>) (no_ID (sv_Node s))
               in on_node (\<lambda>n. sendMessage w (ev_send ev) n c response) s))"

definition handleBlocks :: "wire \<Rightarrow> Message \<Rightarrow> P2PService \<Rightarrow> P2PService" where
  "handleBlocks w msg s =
     (case dec_Blocks w (msg_Payload msg) of
        None \<Rightarrow> s
      | Some payload \<Rightarrow>
          if sv_blockHandler s
          then foldl (\<lambda>s blockData. case gob_dec_Block w blockData of None \<Rightarrow> s | Some block \<Rightarrow> deliver (BlockReceived block) s)
                 s (bp_BlocksData payload)
          else s)"

definition proposal_key :: "ProposalPayload \<Rightarrow> string" where
  "proposal_key p = nat_to_dec (unat (pr_Height p)) @ '':'' @ nat_to_dec (unat (pr_Round p)) @ '':'' @ pr_ProposerID p"

definition handleProposal :: "crypto \<Rightarrow> wire \<Rightarrow> p2p_env \<Rightarrow> Message \<Rightarrow> conn \<Rightarrow> P2PService \<Rightarrow> go_panic + P2PService" where
  "handleProposal C w ev msg c s =
     (case dec_Proposal w (msg_Payload msg) of
        None \<Rightarrow> Inr s
      | Some payload \<Rightarrow>
          if hasSeenProposal s (proposal_key payload) then Inr s
          else let s1 = markProposalSeen (ev_mark ev) (ev_clean ev) (proposal_key payload) s in
               case gob_dec_Block w (pr_BlockData payload) of
                 None \<Rightarrow> Inr s1
               | Some block \<Rightarrow>
                   bindE (slice16 (pr_ProposerID payload)) (\<lambda>_.
                   let s2 = relayMessage C w ev msg c s1
                   in Inr (if sv_proposalHandler s2
                           then deliver (ProposalReceived (pr_Height payload) (pr_Round payload) (pr_BlockHash payload) block) s2
                           else s2)))"

definition vote_key :: "VotePayload \<Rightarrow> string" where
  "vote_key p = nat_to_dec (unat (vp_Height p)) @ '':'' @ nat_to_dec (unat (vp_Round p)) @ '':'' @
     nat_to_dec (unat (vp_VoteType p)) @ '':'' @ vp_VoterID p"

definition handleVote :: "crypto \<Rightarrow> wire \<Rightarrow> p2p_env \<Rightarrow> Message \<Rightarrow> conn \<Rightarrow> P2PService \<Rightarrow> go_panic + P2PService" where
  "handleVote C w ev msg c s =
     (case dec_Vote w (msg_Payload msg) of
        None \<Rightarrow> Inr s
      | Some payload \<Rightarrow>
          if hasSeenVote s (vote_key payload) then Inr s
          else let s1 = markVoteSeen (ev_mark ev) (ev_clean ev) (vote_key payload) s in
               bindE (slice16 (vp_VoterID payload)) (\<lambda>_.
               let s2 = relayMessage C w ev msg c s1 in
               case StringToAddress (vp_VoterID payload) of
                 Inl e \<Rightarrow> Inr s2
               | Inr voterAddr \<Rightarrow>
                   Inr (if sv_voteHandler s2
                        then deliver (VoteReceived (vp_Height payload) (vp_Round payload) (vp_VoteType payload) (vp_BlockHash payload)
                               voterAddr (vp_Signature payload)) s2
                        else s2)))"

section \<open>Peer exchange\<close>

text \<open>
  \<open>fmt.Sscanf(portStr, "%d", &port)\<close>: spaces are skipped, then a sign and the longest run of digits are read; without
  a digit, or out of the range of an \<open>int\<close>, \<open>port\<close> stays 0.
\<close>

definition sscanf_d :: "string \<Rightarrow> int" where
  "sscanf_d s =
     (let s1 = dropWhile (\<lambda>c. c \<in> {CHR '' '', CHR 0x09, CHR 0x0B, CHR 0x0C}) s;
          neg = (s1 \<noteq> [] \<and> hd s1 = CHR ''-'');
          s2 = (if s1 \<noteq> [] \<and> hd s1 \<in> {CHR ''-'', CHR ''+''} then tl s1 else s1);
          digits = takeWhile (\<lambda>c. dec_value c \<noteq> None) s2;
          v = (case dec_to_nat digits of None \<Rightarrow> 0 | Some n \<Rightarrow> if neg then - int n else int n)
      in if digits = [] \<or> v < - (2 ^ 63) \<or> 2 ^ 63 \<le> v then 0 else v)"

text \<open>The split at the last colon.\<close>

definition parseAddress :: "string \<Rightarrow> string \<times> int" where
  "parseAddress address =
     (if CHR '':'' \<in> set address
      then let portStr = rev (takeWhile (\<lambda>c. c \<noteq> CHR '':'') (rev address));
               host = take (length address - length portStr - 1) address
           in (host, sscanf_d portStr)
      else (address, 0))"

definition peer_info :: "Node \<Rightarrow> conn \<Rightarrow> conn \<Rightarrow> PeerInfo option" where
  "peer_info n requester c =
     (let p = peer_of n c in
      if pe_ID p = pe_ID (peer_of n requester) then None
      else if pe_State p \<noteq> PeerStateActive then None
      else let (host, port) = parseAddress (pe_Address p) in
           if host = [] then None
           else Some \<lparr>pi_ID = pe_ID p, pi_Address = host, pi_Port = (if pe_Inbound p \<and> 0 < pe_Port p then pe_Port p else port)\<rparr>)"

definition handleGetPeers :: "wire \<Rightarrow> p2p_env \<Rightarrow> conn \<Rightarrow> P2PService \<Rightarrow> P2PService" where
  "handleGetPeers w ev c s =
     (let n = sv_Node s;
          peerInfos = List.map_filter (peer_info n c) (GetPeers (ev_peers ev) n);
          response = NewMessage MsgTypePeers (enc_Peers w \<lparr>pp_Peers = peerInfos\<rparr>) (no_ID n)
      in on_node (\<lambda>n. sendMessage w (ev_send ev) n c response) s)"

definition consider_peer :: "int \<Rightarrow> P2PService \<Rightarrow> PeerInfo \<Rightarrow> P2PService" where
  "consider_peer now s peerInfo =
     (if isConnectedToPeer s (pi_ID peerInfo) then s
      else if pi_ID peerInfo = no_ID (sv_Node s) then s
      else case tryMarkConnecting now (pi_ID peerInfo) s of
             (s1, False) \<Rightarrow> s1
           | (s1, True) \<Rightarrow> on_node (net_emit (DialPeer (pi_Address peerInfo @ '':'' @ strconv_Itoa (pi_Port peerInfo)))) s1)"

definition handlePeers :: "wire \<Rightarrow> p2p_env \<Rightarrow> Message \<Rightarrow> P2PService \<Rightarrow> P2PService" where
  "handlePeers w ev msg s =
     (case dec_Peers w (msg_Payload msg) of
        None \<Rightarrow> s
      | Some payload \<Rightarrow> foldl (consider_peer (ev_mark ev)) s (pp_Peers payload))"

definition RequestPeers :: "wire \<Rightarrow> int \<Rightarrow> conn \<Rightarrow> P2PService \<Rightarrow> P2PService" where
  "RequestPeers w now c s = on_node (\<lambda>n. sendMessage w now n c (NewMessage MsgTypeGetPeers [] (no_ID n))) s"

section \<open>Dispatch\<close>

definition dispatch ::
    "crypto \<Rightarrow> wire \<Rightarrow> p2p_env \<Rightarrow> BlockChain option \<Rightarrow> Message \<Rightarrow> conn \<Rightarrow> P2PService \<Rightarrow> go_panic + P2PService" where
  "dispatch C w ev bc msg c s =
     (let t = msg_Type msg in
      if t = MsgTypePing then Inr (handlePing w ev c s)
      else if t = MsgTypePong then Inr s
      else if t = MsgTypeNewBlock then Inr (handleNewBlock w msg s)
      else if t = MsgTypeNewTx then Inr (handleNewTx w msg s)
      else if t = MsgTypeGetBlocks then Inr (handleGetBlocks w ev bc msg c s)
      else if t = MsgTypeBlocks then Inr (handleBlocks w msg s)
      else if t = MsgTypeProposal then handleProposal C w ev msg c s
      else if t = MsgTypeVote then handleVote C w ev msg c s
      else if t = MsgTypeGetPeers then Inr (handleGetPeers w ev c s)
      else if t = MsgTypePeers then Inr (handlePeers w ev msg s)
      else Inr s)"

definition handleMessage ::
    "crypto \<Rightarrow> wire \<Rightarrow> p2p_env \<Rightarrow> BlockChain option \<Rightarrow> Message \<Rightarrow> conn \<Rightarrow> P2PService \<Rightarrow> go_panic + P2PService" where
  "handleMessage C w ev bc msg c s =
     (case sv_rateLimiter s of
        None \<Rightarrow> dispatch C w ev bc msg c s
      | Some rl \<Rightarrow>
          (case AllowMessage (ev_rnd ev) (ev_now0 ev) (ev_now ev) rl (pe_ID (peer_of (sv_Node s) c)) (msg_Type msg) of
             (rl', allowed, reason) \<Rightarrow>
               let s1 = s\<lparr>sv_rateLimiter := Some rl'\<rparr>
               in if \<not> allowed then Inr s1 else dispatch C w ev bc msg c s1))"

text \<open>
  One turn of the read loop \<open>handlePeer\<close> with a frame that was read: undecodable messages are skipped, the first
  message of a connection goes to the handshake.
\<close>

definition handle_frame ::
    "crypto \<Rightarrow> wire \<Rightarrow> p2p_env \<Rightarrow> BlockChain option \<Rightarrow> conn \<Rightarrow> P2PService \<Rightarrow> byte list \<Rightarrow> go_panic + P2PService" where
  "handle_frame C w ev bc c s buffer =
     (case DeserializeMessage w buffer of
        None \<Rightarrow> Inr s
      | Some msg \<Rightarrow>
          let peer = (peer_of (sv_Node s) c)\<lparr>pe_LastSeen := ev_now0 ev\<rparr>;
              s1 = on_node (set_peer c peer) s
          in if pe_State peer = PeerStateHandshaking
             then bindE (handleHandshake w (ev_send ev) bc msg (sv_Node s1) c) (\<lambda>n. Inr (s1\<lparr>sv_Node := n\<rparr>))
             else handleMessage C w ev bc msg c s1)"

text \<open>
  The whole loop of a connection over the bytes that arrive on it: it ends when the node stops, when the connection was
  closed on this side, or when no further frame can be read, and then closes the connection and removes the peer.
\<close>

definition conn_closed :: "conn \<Rightarrow> P2PService \<Rightarrow> bool" where
  "conn_closed c s \<longleftrightarrow> CloseConn c \<in> set (no_out (sv_Node s))"

fun serve ::
    "crypto \<Rightarrow> wire \<Rightarrow> BlockChain option \<Rightarrow> conn \<Rightarrow> P2PService \<Rightarrow> (p2p_env \<times> byte list) list \<Rightarrow> go_panic + P2PService" where
  "serve C w bc c s [] = Inr s"
| "serve C w bc c s ((ev, buffer) # rest) =
     (if no_stopped (sv_Node s) \<or> conn_closed c s then Inr s
      else bindE (handle_frame C w ev bc c s buffer) (\<lambda>s'. serve C w bc c s' rest))"

definition handlePeer ::
    "crypto \<Rightarrow> wire \<Rightarrow> (nat \<Rightarrow> p2p_env) \<Rightarrow> BlockChain option \<Rightarrow> conn \<Rightarrow> byte list \<Rightarrow> P2PService \<Rightarrow> go_panic + P2PService" where
  "handlePeer C w evs bc c stream s =
     bindE (serve C w bc c s (map (\<lambda>(i, f). (evs i, f)) (enumerate 0 (fst (frames stream))))) (\<lambda>s1.
     bindE (removePeer (close_conn c (sv_Node s1)) c) (\<lambda>n. Inr (s1\<lparr>sv_Node := n\<rparr>)))"

text \<open>The callbacks that the service installs in the node.\<close>

definition on_peer_connected :: "wire \<Rightarrow> int \<Rightarrow> conn \<Rightarrow> P2PService \<Rightarrow> P2PService" where
  "on_peer_connected w now c s = (if no_stopped (sv_Node s) then s else RequestPeers w now c s)"

definition on_peer_exchange :: "wire \<Rightarrow> int \<Rightarrow> conn list \<Rightarrow> P2PService \<Rightarrow> P2PService" where
  "on_peer_exchange w now peers s =
     foldl (\<lambda>s c. RequestPeers w now c s) s (filter (\<lambda>c. pe_State (peer_of (sv_Node s) c) = PeerStateActive) peers)"

section \<open>Requests and broadcasts\<close>

definition BroadcastBlock :: "wire \<Rightarrow> int \<Rightarrow> (string, conn) ranging \<Rightarrow> Block \<Rightarrow> P2PService \<Rightarrow> P2PService" where
  "BroadcastBlock w now \<rho> block s =
     (let payload = \<lparr>nb_Height = blk_Height block, nb_Hash = blk_Hash block, nb_BlockData = gob_enc_Block w block\<rparr>
      in on_node (\<lambda>n. Broadcast w now \<rho> n (NewMessage MsgTypeNewBlock (enc_NewBlock w payload) (no_ID n))) s)"

definition BroadcastTx :: "wire \<Rightarrow> int \<Rightarrow> (string, conn) ranging \<Rightarrow> Transaction \<Rightarrow> P2PService \<Rightarrow> P2PService" where
  "BroadcastTx w now \<rho> tx s =
     (let payload = \<lparr>nt_TxID = tx_ID tx, nt_TxData = gob_enc_Tx w tx\<rparr>
      in on_node (\<lambda>n. Broadcast w now \<rho> n (NewMessage MsgTypeNewTx (enc_NewTx w payload) (no_ID n))) s)"

definition Service_BroadcastProposal ::
    "wire \<Rightarrow> int \<Rightarrow> (string, conn) ranging \<Rightarrow> uint64 \<Rightarrow> uint32 \<Rightarrow> Hash \<Rightarrow> Block \<Rightarrow> string \<Rightarrow> Signature \<Rightarrow> P2PService \<Rightarrow> P2PService" where
  "Service_BroadcastProposal w now \<rho> height rd blockHash block proposerID signature s =
     (let payload = \<lparr>pr_Height = height, pr_Round = rd, pr_BlockHash = blockHash, pr_BlockData = gob_enc_Block w block,
                     pr_ProposerID = proposerID, pr_Signature = signature\<rparr>
      in on_node (\<lambda>n. Broadcast w now \<rho> n (NewMessage MsgTypeProposal (enc_Proposal w payload) (no_ID n))) s)"

definition Service_BroadcastVote ::
    "wire \<Rightarrow> int \<Rightarrow> (string, conn) ranging \<Rightarrow> uint64 \<Rightarrow> uint32 \<Rightarrow> Hash \<Rightarrow> uint8 \<Rightarrow> string \<Rightarrow> Signature \<Rightarrow> P2PService \<Rightarrow> P2PService" where
  "Service_BroadcastVote w now \<rho> height rd blockHash voteType voterID signature s =
     (let payload = \<lparr>vp_Height = height, vp_Round = rd, vp_VoteType = voteType, vp_BlockHash = blockHash, vp_VoterID = voterID,
                     vp_Signature = signature\<rparr>
      in on_node (\<lambda>n. Broadcast w now \<rho> n (NewMessage MsgTypeVote (enc_Vote w payload) (no_ID n))) s)"

text \<open>Whether the write succeeds is an argument (\<open>sent\<close>).\<close>

definition RequestBlocks :: "wire \<Rightarrow> int \<Rightarrow> bool \<Rightarrow> conn \<Rightarrow> uint64 \<Rightarrow> uint64 \<Rightarrow> P2PService \<Rightarrow> P2PService \<times> net_error option" where
  "RequestBlocks w now sent c startHeight endHeight s =
     (let payload = \<lparr>gb_StartHeight = startHeight, gb_EndHeight = endHeight\<rparr>
      in (on_node (\<lambda>n. sendMessage w now n c (NewMessage MsgTypeGetBlocks (enc_GetBlocks w payload) (no_ID n))) s,
          if sent then None else Some SendFailed))"

definition better_peer :: "Node \<Rightarrow> conn option \<times> uint64 \<Rightarrow> conn \<Rightarrow> conn option \<times> uint64" where
  "better_peer n best c =
     (let (bestPeer, bestHeight) = best; p = peer_of n c in
      if pe_State p = PeerStateActive \<and> bestHeight \<le> pe_BestHeight p
      then if bestPeer = None \<or> bestHeight < pe_BestHeight p then (Some c, pe_BestHeight p) else best
      else best)"

definition Service_SyncBlocks ::
    "wire \<Rightarrow> int \<Rightarrow> bool \<Rightarrow> (string, conn) ranging \<Rightarrow> BlockChain option \<Rightarrow> P2PService \<Rightarrow> P2PService \<times> net_error option" where
  "Service_SyncBlocks w now sent \<rho> bc s =
     (case bc of
        None \<Rightarrow> (s, Some NoBlockchain)
      | Some p \<Rightarrow>
          let peers = GetPeers \<rho> (sv_Node s) in
          if length peers = 0 then (s, Some NoPeers)
          else case foldl (better_peer (sv_Node s)) (None, 0) peers of
                 (None, bestHeight) \<Rightarrow> (s, None)
               | (Some bestPeer, bestHeight) \<Rightarrow>
                   let currentHeight = GetLatestHeight p
                   in if bestHeight \<le> currentHeight then (s, None)
                      else RequestBlocks w now sent bestPeer (currentHeight + 1) bestHeight s)"

definition AddBootNode :: "string \<Rightarrow> P2PService \<Rightarrow> P2PService" where
  "AddBootNode address = on_node (\<lambda>n. n\<lparr>no_BootNodes := no_BootNodes n @ [address]\<rparr>)"

section \<open>Serving blocks\<close>

text \<open>The blocks from \<open>h\<close> on that are collected with \<open>k\<close> already there: consecutive, and as many as possible.\<close>

definition run_of_blocks :: "BlockChain \<Rightarrow> uint64 \<Rightarrow> uint64 \<Rightarrow> nat \<Rightarrow> Block list \<Rightarrow> bool" where
  "run_of_blocks bc h e k bs \<longleftrightarrow>
     (\<forall>i<length bs. h + word_of_nat i \<le> e \<and> GetBlockByHeight bc (h + word_of_nat i) = Inr (bs ! i)) \<and>
     (bs \<noteq> [] \<longrightarrow> k + length bs \<le> 100) \<and>
     (100 \<le> k + length bs \<or> e < h + word_of_nat (length bs) \<or> (\<exists>err. GetBlockByHeight bc (h + word_of_nat (length bs)) = Inl err))"

lemma run_of_blocks_Cons:
  assumes "h \<le> e" "k < 100" "GetBlockByHeight bc h = Inr b" "run_of_blocks bc (h + 1) e (Suc k) bs"
  shows "run_of_blocks bc h e k (b # bs)"
proof -
  have "h + word_of_nat i \<le> e \<and> GetBlockByHeight bc (h + word_of_nat i) = Inr ((b # bs) ! i)" if "i < length (b # bs)" for i
    using assms that by (cases i) (auto simp: run_of_blocks_def add.assoc)
  with assms(2,4) show ?thesis by (cases bs) (auto simp: run_of_blocks_def add.assoc)
qed

lemma collect_blocks_run:
  "\<exists>bs. collect_blocks w bc h e acc = acc @ map (gob_enc_Block w) bs \<and> run_of_blocks bc h e (length acc) bs"
proof (induction w bc h e acc rule: collect_blocks.induct)
  case (1 w bc h e acc)
  show ?case
  proof (cases "h \<le> e \<and> length acc < 100")
    case False
    then have "collect_blocks w bc h e acc = acc @ map (gob_enc_Block w) [] \<and> run_of_blocks bc h e (length acc) []"
      by (auto simp: collect_blocks.simps [of w bc h] run_of_blocks_def)
    then show ?thesis by blast
  next
    case True
    show ?thesis
    proof (cases "GetBlockByHeight bc h")
      case (Inl err)
      with True have "collect_blocks w bc h e acc = acc @ map (gob_enc_Block w) [] \<and> run_of_blocks bc h e (length acc) []"
        by (simp add: collect_blocks.simps [of w bc h] run_of_blocks_def)
      then show ?thesis by blast
    next
      case (Inr b)
      from "1.IH" [OF True Inr] obtain bs where bs:
        "collect_blocks w bc (h + 1) e (acc @ [gob_enc_Block w b]) = (acc @ [gob_enc_Block w b]) @ map (gob_enc_Block w) bs"
        "run_of_blocks bc (h + 1) e (Suc (length acc)) bs" by auto
      with True Inr have "collect_blocks w bc h e acc = acc @ map (gob_enc_Block w) (b # bs) \<and> run_of_blocks bc h e (length acc) (b # bs)"
        by (simp add: collect_blocks.simps [of w bc h] run_of_blocks_Cons)
      then show ?thesis by blast
    qed
  qed
qed

lemma deliver_blocks:
  assumes "\<forall>b\<in>set bs. gob_dec_Block w (gob_enc_Block w b) = Some (gob_block b)"
  shows "foldl (\<lambda>s d. case gob_dec_Block w d of None \<Rightarrow> s | Some b \<Rightarrow> deliver (BlockReceived b) s) s (map (gob_enc_Block w) bs) =
     s\<lparr>sv_calls := sv_calls s @ map (BlockReceived \<circ> gob_block) bs\<rparr>"
  using assms by (induction bs arbitrary: s) (simp_all add: deliver_def)

section \<open>Caches keep what they have seen\<close>

locale seen_cache =
  fixes age :: int and seen :: "'s \<Rightarrow> string \<Rightarrow> int option" and mark :: "int \<Rightarrow> int \<Rightarrow> string \<Rightarrow> 's \<Rightarrow> 's"
  assumes mark_key: "clean - age \<le> now \<Longrightarrow> seen (mark now clean k s) k = Some now"
    and mark_keeps: "seen s j = Some t \<Longrightarrow> clean - age \<le> t \<Longrightarrow> j \<noteq> k \<Longrightarrow> seen (mark now clean k s) j = Some t"
begin

lemma keeps_key:
  assumes "seen s k = Some u" "t \<le> u" "t \<le> now" "clean - age \<le> t"
  shows "\<exists>u'. seen (mark now clean j s) k = Some u' \<and> t \<le> u'"
proof (cases "j = k")
  case True
  with mark_key [of clean now k s] assms(3,4) show ?thesis by auto
next
  case False
  with mark_keeps [OF assms(1), of clean j now] assms(2,4) show ?thesis by auto
qed

end

lemma map_of_filter_Some: "map_of m k = Some t \<Longrightarrow> P (k, t) \<Longrightarrow> map_of (filter P m) k = Some t"
  by (induction m) (auto split: if_splits)

lemma mark_seen_key: "clean - age \<le> now \<Longrightarrow> map_of (mark_seen limit age now clean k m) k = Some now"
  by (simp add: mark_seen_def Let_def map_of_filter_Some map_of_mput)

lemma mark_seen_keeps:
  "map_of m j = Some t \<Longrightarrow> clean - age \<le> t \<Longrightarrow> j \<noteq> k \<Longrightarrow> map_of (mark_seen limit age now clean k m) j = Some t"
  by (simp add: mark_seen_def Let_def map_of_filter_Some map_of_mput)

interpretation messages: seen_cache "60 * Second" "\<lambda>s. map_of (sv_seenMessages s)" markMessageSeen
  by unfold_locales (simp_all add: markMessageSeen_def mark_seen_key mark_seen_keeps)

interpretation proposals: seen_cache "30 * Second" "\<lambda>s. map_of (sv_seenProposals s)" markProposalSeen
  by unfold_locales (simp_all add: markProposalSeen_def mark_seen_key mark_seen_keeps)

interpretation votes: seen_cache "30 * Second" "\<lambda>s. map_of (sv_seenVotes s)" markVoteSeen
  by unfold_locales (simp_all add: markVoteSeen_def mark_seen_key mark_seen_keeps)

text \<open>The keys separate the votes and the proposals.\<close>

lemma dec_colon: "CHR '':'' \<notin> set (nat_to_dec n)"
  using nat_to_dec_digits [of "CHR '':''" n] by (auto simp: dec_value_def)

lemma dec_colon_split: "nat_to_dec m @ CHR '':'' # xs = nat_to_dec n @ CHR '':'' # ys \<longleftrightarrow> m = n \<and> xs = ys"
proof
  assume eq: "nat_to_dec m @ CHR '':'' # xs = nat_to_dec n @ CHR '':'' # ys"
  have "takeWhile (\<lambda>c. c \<noteq> CHR '':'') (nat_to_dec m @ CHR '':'' # xs) = nat_to_dec m" for m xs
    using dec_colon [of m] by (subst takeWhile_append2) auto
  with eq have "nat_to_dec m = nat_to_dec n" by metis
  with eq show "m = n \<and> xs = ys" by simp
qed simp

lemma vote_key_inj:
  "vote_key p = vote_key q \<longleftrightarrow>
     vp_Height p = vp_Height q \<and> vp_Round p = vp_Round q \<and> vp_VoteType p = vp_VoteType q \<and> vp_VoterID p = vp_VoterID q"
  by (simp add: vote_key_def dec_colon_split word_unat_eq_iff)

lemma proposal_key_inj:
  "proposal_key p = proposal_key q \<longleftrightarrow> pr_Height p = pr_Height q \<and> pr_Round p = pr_Round q \<and> pr_ProposerID p = pr_ProposerID q"
  by (simp add: proposal_key_def dec_colon_split word_unat_eq_iff)

section \<open>What a message changes\<close>

lemma seenVotes_frame [simp]:
  "sv_seenVotes (on_node f s) = sv_seenVotes s" "sv_seenVotes (deliver x s) = sv_seenVotes s"
  "sv_seenVotes (markMessageSeen a b k s) = sv_seenVotes s" "sv_seenVotes (markProposalSeen a b k s) = sv_seenVotes s"
  "sv_seenVotes (relayMessage C w ev msg c s) = sv_seenVotes s" "sv_seenVotes (consider_peer now s info) = sv_seenVotes s"
  by (simp_all add: on_node_def deliver_def markMessageSeen_def markProposalSeen_def relayMessage_def
      relayMessageWithoutDuplicateCheck_def consider_peer_def tryMarkConnecting_def Let_def)

lemma seenVotes_folds [simp]:
  "sv_seenVotes (foldl (consider_peer now) s xs) = sv_seenVotes s"
  "sv_seenVotes (foldl (\<lambda>s d. case gob_dec_Block w d of None \<Rightarrow> s | Some b \<Rightarrow> deliver (BlockReceived b) s) s ds) = sv_seenVotes s"
  by (induction xs arbitrary: s, simp_all) (induction ds arbitrary: s, simp_all split: option.split)

lemma handleVote_votes:
  "handleVote C w ev msg c s = Inr s' \<Longrightarrow>
     sv_seenVotes s' = sv_seenVotes s \<or> (\<exists>k. sv_seenVotes s' = sv_seenVotes (markVoteSeen (ev_mark ev) (ev_clean ev) k s))"
  by (auto simp: handleVote_def Let_def bindE_Inr split: option.splits if_splits sum.splits)

lemma handleProposal_votes: "handleProposal C w ev msg c s = Inr s' \<Longrightarrow> sv_seenVotes s' = sv_seenVotes s"
  by (auto simp: handleProposal_def Let_def bindE_Inr split: option.splits if_splits)

lemma dispatch_votes:
  assumes "dispatch C w ev bc msg c s = Inr s'"
  shows "sv_seenVotes s' = sv_seenVotes s \<or> (\<exists>k. sv_seenVotes s' = sv_seenVotes (markVoteSeen (ev_mark ev) (ev_clean ev) k s))"
proof (cases "msg_Type msg = MsgTypeVote \<or> msg_Type msg = MsgTypeProposal")
  case True
  with assms handleVote_votes [of C w ev msg c s s'] handleProposal_votes [of C w ev msg c s s'] show ?thesis by (auto simp: dispatch_def Let_def msg_type_defs)
next
  case False
  have "sv_seenVotes (handlePing w ev c s) = sv_seenVotes s" "sv_seenVotes (handleNewBlock w msg s) = sv_seenVotes s"
    "sv_seenVotes (handleNewTx w msg s) = sv_seenVotes s" "sv_seenVotes (handleGetBlocks w ev bc msg c s) = sv_seenVotes s"
    "sv_seenVotes (handleBlocks w msg s) = sv_seenVotes s" "sv_seenVotes (handleGetPeers w ev c s) = sv_seenVotes s"
    "sv_seenVotes (handlePeers w ev msg s) = sv_seenVotes s"
    by (simp_all add: handlePing_def handleNewBlock_def handleNewTx_def handleGetBlocks_def handleBlocks_def handleGetPeers_def handlePeers_def
        Let_def split: option.split)
  with assms False show ?thesis by (auto simp: dispatch_def Let_def split: if_splits)
qed

text \<open>A run of messages: for each the surroundings, the chain it sees, the message and its connection.\<close>

definition receive ::
    "crypto \<Rightarrow> wire \<Rightarrow> P2PService \<Rightarrow> p2p_env \<times> BlockChain option \<times> Message \<times> conn \<Rightarrow> go_panic + P2PService" where
  "receive C w s m = (case m of (ev, bc, msg, c) \<Rightarrow> handleMessage C w ev bc msg c s)"

lemma handleMessage_cases:
  assumes "handleMessage C w ev bc msg c s = Inr s'"
  shows "\<exists>rl. s' = s\<lparr>sv_rateLimiter := rl\<rparr> \<or> dispatch C w ev bc msg c (s\<lparr>sv_rateLimiter := rl\<rparr>) = Inr s'"
proof (cases "sv_rateLimiter s")
  case None
  then have "s\<lparr>sv_rateLimiter := None\<rparr> = s" by simp
  moreover have "dispatch C w ev bc msg c s = Inr s'" using assms None by (simp add: handleMessage_def)
  ultimately show ?thesis by (intro exI [of _ None]) simp
next
  case (Some rl)
  obtain rl' ok why where "AllowMessage (ev_rnd ev) (ev_now0 ev) (ev_now ev) rl (pe_ID (peer_of (sv_Node s) c)) (msg_Type msg) = (rl', ok, why)"
    by (rule prod_cases3)
  with assms Some show ?thesis by (cases ok) (auto simp: handleMessage_def Let_def)
qed

lemma receive_keeps_vote:
  assumes "receive C w s (ev, bc, msg, c) = Inr s'" "map_of (sv_seenVotes s) k = Some u" "t \<le> u" "t \<le> ev_mark ev"
    "ev_clean ev \<le> t + 30 * Second"
  shows "\<exists>u'. map_of (sv_seenVotes s') k = Some u' \<and> t \<le> u'"
proof -
  have "handleMessage C w ev bc msg c s = Inr s'" using assms(1) by (simp add: receive_def)
  from handleMessage_cases [OF this] obtain rl where rl: "s' = s\<lparr>sv_rateLimiter := rl\<rparr> \<or> dispatch C w ev bc msg c (s\<lparr>sv_rateLimiter := rl\<rparr>) = Inr s'"
    by blast
  define s1 where "s1 = s\<lparr>sv_rateLimiter := rl\<rparr>"
  have s1: "sv_seenVotes s1 = sv_seenVotes s" "s' = s1 \<or> dispatch C w ev bc msg c s1 = Inr s'" using rl by (simp_all add: s1_def)
  have "\<exists>u'. map_of (sv_seenVotes (markVoteSeen (ev_mark ev) (ev_clean ev) j s1)) k = Some u' \<and> t \<le> u'" for j
    using assms(2-5) s1(1) by (intro votes.keeps_key) auto
  with s1 dispatch_votes [of C w ev bc msg c s1 s'] assms(2,3) show ?thesis by metis
qed

lemma run_keeps_vote:
  assumes "foldE (receive C w) s ms = Inr s'" "map_of (sv_seenVotes s) k = Some u" "t \<le> u"
    "\<forall>(ev, bc, msg, c)\<in>set ms. t \<le> ev_mark ev \<and> ev_clean ev \<le> t + 30 * Second"
  shows "\<exists>u'. map_of (sv_seenVotes s') k = Some u' \<and> t \<le> u'"
  using assms
proof (induction ms arbitrary: s u)
  case (Cons m ms)
  obtain ev bc msg c where m: "m = (ev, bc, msg, c)" by (cases m)
  from Cons.prems(1) obtain s1 where s1: "receive C w s (ev, bc, msg, c) = Inr s1" "foldE (receive C w) s1 ms = Inr s'"
    by (auto simp: m bindE_Inr)
  from receive_keeps_vote [OF s1(1) Cons.prems(2,3)] Cons.prems(4) obtain u1 where "map_of (sv_seenVotes s1) k = Some u1" "t \<le> u1"
    by (auto simp: m)
  with Cons.IH [OF s1(2)] Cons.prems(4) show ?case by simp
qed auto

section \<open>The table under messages\<close>

lemma wf_touch: "wf_Node n \<Longrightarrow> wf_Node (set_peer c ((peer_of n c)\<lparr>pe_LastSeen := t\<rparr>) n)"
  by (auto simp: wf_Node_def)

text \<open>Identifier, boot nodes, table and peer objects.\<close>

definition table :: "Node \<Rightarrow> string \<times> string list \<times> (string, conn) gomap \<times> (conn \<Rightarrow> Peer)" where
  "table n = (no_ID n, no_BootNodes n, no_Peers n, peer_of n)"

lemma wf_table: "table n = table n' \<Longrightarrow> wf_Node n = wf_Node n'"
  by (simp add: table_def wf_Node_def)

lemma table_net_emit [simp]: "table (net_emit x n) = table n"
  by (simp add: table_def fun_eq_iff) (simp add: net_emit_def)

lemma table_send [simp]: "table (sendMessage w now n c msg) = table n"
  by (simp add: sendMessage_def)

lemma table_sends [simp]: "table (foldl (\<lambda>n c. sendMessage w now n c msg) n cs) = table n"
  by (induction cs arbitrary: n) simp_all

lemma sv_Node_frame [simp]:
  "sv_Node (deliver x s) = sv_Node s" "sv_Node (markMessageSeen t u k s) = sv_Node s" "sv_Node (markProposalSeen t u k s) = sv_Node s"
  "sv_Node (markVoteSeen t u k s) = sv_Node s" "sv_Node (on_node f s) = f (sv_Node s)" "sv_Node (fst (tryMarkConnecting t k s)) = sv_Node s"
  by (simp_all add: deliver_def markMessageSeen_def markProposalSeen_def markVoteSeen_def on_node_def tryMarkConnecting_def Let_def)

lemma table_relay [simp]: "table (sv_Node (relayMessage C w ev msg c s)) = table (sv_Node s)"
  by (simp add: relayMessage_def relayMessageWithoutDuplicateCheck_def Let_def)

lemma table_consider [simp]: "table (sv_Node (consider_peer now s info)) = table (sv_Node s)"
proof -
  obtain s1 b where t: "tryMarkConnecting now (pi_ID info) s = (s1, b)" by (rule prod.exhaust)
  have "sv_Node s1 = sv_Node s" using sv_Node_frame(6) [of now "pi_ID info" s] by (simp add: t)
  with t show ?thesis by (cases b) (simp_all add: consider_peer_def)
qed

lemma table_folds [simp]:
  "table (sv_Node (foldl (consider_peer now) s infos)) = table (sv_Node s)"
  "sv_Node (foldl (\<lambda>s d. case gob_dec_Block w d of None \<Rightarrow> s | Some b \<Rightarrow> deliver (BlockReceived b) s) s ds) = sv_Node s"
  by (induction infos arbitrary: s, simp_all) (induction ds arbitrary: s, simp_all split: option.split)

lemma dispatch_table:
  assumes "dispatch C w ev bc msg c s = Inr s'"
  shows "table (sv_Node s') = table (sv_Node s)"
proof -
  let ?t = "table (sv_Node s)"
  have "table (sv_Node (handlePing w ev c s)) = ?t" "table (sv_Node (handleNewBlock w msg s)) = ?t" "table (sv_Node (handleNewTx w msg s)) = ?t"
    "table (sv_Node (handleGetBlocks w ev bc msg c s)) = ?t" "table (sv_Node (handleBlocks w msg s)) = ?t"
    "table (sv_Node (handleGetPeers w ev c s)) = ?t" "table (sv_Node (handlePeers w ev msg s)) = ?t"
    by (simp_all add: handlePing_def handleNewBlock_def handleNewTx_def handleGetBlocks_def handleBlocks_def handleGetPeers_def handlePeers_def
        Let_def split: option.split)
  moreover have "handleVote C w ev msg c s = Inr s' \<Longrightarrow> table (sv_Node s') = ?t"
    by (auto simp: handleVote_def Let_def bindE_Inr split: option.splits if_splits sum.splits)
  moreover have "handleProposal C w ev msg c s = Inr s' \<Longrightarrow> table (sv_Node s') = ?t"
    by (auto simp: handleProposal_def Let_def bindE_Inr split: option.splits if_splits)
  ultimately show ?thesis using assms by (auto simp: dispatch_def Let_def split: if_splits)
qed

lemma handleMessage_table:
  assumes "handleMessage C w ev bc msg c s = Inr s'"
  shows "table (sv_Node s') = table (sv_Node s)"
  using handleMessage_cases [OF assms] dispatch_table by fastforce

lemma run_table: "foldE (receive C w) s ms = Inr s' \<Longrightarrow> table (sv_Node s') = table (sv_Node s)"
proof (induction ms arbitrary: s)
  case (Cons m ms)
  then obtain s1 where "receive C w s m = Inr s1" "foldE (receive C w) s1 ms = Inr s'" by (auto simp: bindE_Inr)
  moreover from this(1) have "table (sv_Node s1) = table (sv_Node s)" by (cases m) (simp add: receive_def handleMessage_table)
  ultimately show ?case using Cons.IH by simp
qed simp

lemma wf_handle_frame:
  assumes "handle_frame C w ev bc c s f = Inr s'" "wf_Node (sv_Node s)"
  shows "wf_Node (sv_Node s')"
proof (cases "DeserializeMessage w f")
  case None
  with assms show ?thesis by (simp add: handle_frame_def)
next
  case (Some msg)
  let ?s = "on_node (set_peer c ((peer_of (sv_Node s) c)\<lparr>pe_LastSeen := ev_now0 ev\<rparr>)) s"
  have wf: "wf_Node (sv_Node ?s)" using assms(2) by (simp add: wf_touch)
  show ?thesis
  proof (cases "pe_State (peer_of (sv_Node s) c) = PeerStateHandshaking")
    case True
    then have "handleHandshake w (ev_send ev) bc msg (sv_Node ?s) c = Inr (sv_Node s')"
      using assms(1) Some by (auto simp: handle_frame_def Let_def bindE_Inr)
    moreover have "pe_State (peer_of (sv_Node ?s) c) = PeerStateHandshaking" using True by simp
    ultimately show ?thesis using wf_handleHandshake [OF wf] by blast
  next
    case False
    then have "handleMessage C w ev bc msg c ?s = Inr s'" using assms(1) Some by (simp add: handle_frame_def Let_def)
    from wf_table [OF handleMessage_table [OF this]] wf show ?thesis by simp
  qed
qed

lemma wf_serve: "serve C w bc c s fs = Inr s' \<Longrightarrow> wf_Node (sv_Node s) \<Longrightarrow> wf_Node (sv_Node s')"
  by (induction fs arbitrary: s) (auto simp: bindE_Inr wf_handle_frame split: if_splits)

lemma wf_handlePeer:
  assumes "handlePeer C w evs bc c stream s = Inr s'" "wf_Node (sv_Node s)"
  shows "wf_Node (sv_Node s')"
proof -
  from assms(1) obtain s1 n where "serve C w bc c s (map (\<lambda>(i, f). (evs i, f)) (enumerate 0 (fst (frames stream)))) = Inr s1"
    and n: "removePeer (close_conn c (sv_Node s1)) c = Inr n" "s' = s1\<lparr>sv_Node := n\<rparr>"
    by (auto simp: handlePeer_def bindE_Inr)
  then have "wf_Node (close_conn c (sv_Node s1))" using wf_serve assms(2) by simp
  from wf_removePeer [OF this n(1)] n(2) show ?thesis by simp
qed

section \<open>Which peer is asked\<close>

lemma better_peer_none:
  "(\<forall>c\<in>set cs. pe_BestHeight (peer_of n c) \<le> h) \<Longrightarrow> snd best \<le> h \<Longrightarrow> snd (foldl (better_peer n) best cs) \<le> h"
  by (induction cs arbitrary: best) (auto simp: better_peer_def Let_def split: prod.splits)

lemma SyncBlocks_idle:
  assumes "\<forall>c\<in>set (GetPeers \<rho> (sv_Node s)). pe_BestHeight (peer_of (sv_Node s) c) \<le> GetLatestHeight p"
  shows "fst (Service_SyncBlocks w now sent \<rho> (Some p) s) = s"
  using better_peer_none [OF assms, of "(None, 0)"]
  by (auto simp: Service_SyncBlocks_def Let_def split: prod.split option.split)

section \<open>Sending to every peer\<close>

lemma sent_to_all:
  "set (no_out n) \<subseteq> set (no_out (foldl (\<lambda>n c. sendMessage w now n c msg) n cs)) \<and>
   (\<forall>c\<in>set cs. SendPacket c (packet (Serialize w (msg\<lparr>msg_Timestamp := now div Second\<rparr>))) \<in> set (no_out (foldl (\<lambda>n c. sendMessage w now n c msg) n cs)))"
proof (induction cs arbitrary: n)
  case (Cons c cs)
  have "set (no_out (sendMessage w now n c msg)) =
      insert (SendPacket c (packet (Serialize w (msg\<lparr>msg_Timestamp := now div Second\<rparr>)))) (set (no_out n))"
    by (simp add: sendMessage_def net_emit_def)
  with Cons.IH [of "sendMessage w now n c msg"] show ?case by auto
qed simp

section \<open>Frames and the table of peers\<close>

text \<open>Frames of peers that have finished the handshake change neither the table of peers nor what was said in the handshakes.\<close>

definition same_heights :: "Node \<Rightarrow> Node \<Rightarrow> bool" where
  "same_heights n n' \<longleftrightarrow> no_Peers n' = no_Peers n \<and>
     (\<forall>c. pe_State (peer_of n' c) = pe_State (peer_of n c) \<and> pe_BestHeight (peer_of n' c) = pe_BestHeight (peer_of n c))"

fun receive_frame :: "crypto \<Rightarrow> wire \<Rightarrow> P2PService \<Rightarrow> p2p_env \<times> BlockChain option \<times> conn \<times> byte list \<Rightarrow> go_panic + P2PService" where
  "receive_frame C w s (ev, bc, c, f) = handle_frame C w ev bc c s f"

lemma handle_frame_heights:
  assumes "handle_frame C w ev bc c s f = Inr s'" "pe_State (peer_of (sv_Node s) c) \<noteq> PeerStateHandshaking"
  shows "same_heights (sv_Node s) (sv_Node s')"
proof (cases "DeserializeMessage w f")
  case None
  with assms(1) show ?thesis by (simp add: handle_frame_def same_heights_def)
next
  case (Some msg)
  let ?s = "on_node (set_peer c ((peer_of (sv_Node s) c)\<lparr>pe_LastSeen := ev_now0 ev\<rparr>)) s"
  have "handleMessage C w ev bc msg c ?s = Inr s'" using assms Some by (simp add: handle_frame_def Let_def)
  then have "table (sv_Node s') = table (sv_Node ?s)" by (rule handleMessage_table)
  then show ?thesis by (auto simp: table_def same_heights_def)
qed

lemma frames_heights:
  assumes "foldE (receive_frame C w) s fs = Inr s'" "\<forall>(ev, bc, c, f)\<in>set fs. pe_State (peer_of (sv_Node s) c) \<noteq> PeerStateHandshaking"
  shows "same_heights (sv_Node s) (sv_Node s')"
  using assms
proof (induction fs arbitrary: s)
  case (Cons x fs)
  obtain ev bc c f where x: "x = (ev, bc, c, f)" by (cases x)
  from Cons.prems(1) x obtain s1 where s1: "handle_frame C w ev bc c s f = Inr s1" "foldE (receive_frame C w) s1 fs = Inr s'"
    by (auto simp: bindE_Inr)
  have one: "same_heights (sv_Node s) (sv_Node s1)" by (rule handle_frame_heights [OF s1(1)]) (use Cons.prems(2) x in simp)
  have "same_heights (sv_Node s1) (sv_Node s')" by (rule Cons.IH [OF s1(2)]) (use Cons.prems(2) one in \<open>auto simp: same_heights_def\<close>)
  with one show ?case by (simp add: same_heights_def)
qed (simp add: same_heights_def)

text \<open>No frame, of a handshake or not, changes the list of boot nodes.\<close>

lemma handle_frame_boot:
  assumes "handle_frame C w ev bc c s f = Inr s'"
  shows "no_BootNodes (sv_Node s') = no_BootNodes (sv_Node s)"
proof -
  have h: "handleHandshake w t bc msg n c = Inr n' \<Longrightarrow> no_BootNodes n' = no_BootNodes n" for t msg n n'
    by (auto simp: handleHandshake_def greet_def sendHandshakeAck_def sendMessage_def set_peer_def close_conn_def net_emit_def addPeer_def Let_def
        bindE_Inr split: if_splits option.splits)
  show ?thesis
  proof (cases "DeserializeMessage w f")
    case None
    with assms show ?thesis by (simp add: handle_frame_def)
  next
    case (Some msg)
    let ?s = "on_node (set_peer c ((peer_of (sv_Node s) c)\<lparr>pe_LastSeen := ev_now0 ev\<rparr>)) s"
    have b: "no_BootNodes (sv_Node ?s) = no_BootNodes (sv_Node s)" by simp (simp add: set_peer_def)
    from assms Some consider n where "handleHandshake w (ev_send ev) bc msg (sv_Node ?s) c = Inr n" "s' = ?s\<lparr>sv_Node := n\<rparr>" |
      "handleMessage C w ev bc msg c ?s = Inr s'"
      by (auto simp: handle_frame_def Let_def bindE_Inr split: if_splits)
    then show ?thesis
    proof cases
      case 1
      then show ?thesis using h b by simp
    next
      case 2
      then show ?thesis using handleMessage_table [OF 2] b by (simp add: table_def)
    qed
  qed
qed

lemma frames_boot: "foldE (receive_frame C w) s fs = Inr s' \<Longrightarrow> no_BootNodes (sv_Node s') = no_BootNodes (sv_Node s)"
proof (induction fs arbitrary: s)
  case (Cons x fs)
  then show ?case using handle_frame_boot by (cases x) (fastforce simp: bindE_Inr)
qed simp

end
