(* ===== verification/App.thy ===== *)
theory App
  imports P2P_Service Engine
begin

text \<open>
  \<open>app/app.go\<close>: the wiring of chain, consensus engine and network.  The chain and the consensus object are shared;
  the engine record holds both.  A callback is a function on the application state: blocks, transactions, proposals and
  votes that the network delivers, and what the engine asks to be sent.  \<open>clock\<close> gives the reading of the clock when
  a block is validated.
\<close>

section \<open>State\<close>

record App =
  ap_engine :: ConsensusEngine
  ap_p2p :: P2PService
  ap_pending :: "(uint64, Block) gomap"

abbreviation ap_chain :: "App \<Rightarrow> BlockChain" where
  "ap_chain a \<equiv> en_blockchain (ap_engine a)"

abbreviation ap_consensus :: "App \<Rightarrow> Consensus" where
  "ap_consensus a \<equiv> en_consensus (ap_engine a)"

definition set_chain :: "BlockChain \<Rightarrow> App \<Rightarrow> App" where
  "set_chain p a = a\<lparr>ap_engine := (ap_engine a)\<lparr>en_blockchain := p\<rparr>\<rparr>"

definition sync_height :: "uint64 \<Rightarrow> App \<Rightarrow> App" where
  "sync_height h a = a\<lparr>ap_engine := upd_cons (\<lambda>c. UpdateHeight c h) (ap_engine a)\<rparr>"

definition app_p2p :: "(P2PService \<Rightarrow> P2PService) \<Rightarrow> App \<Rightarrow> App" where
  "app_p2p f a = a\<lparr>ap_p2p := f (ap_p2p a)\<rparr>"

section \<open>Blocks from the network\<close>

text \<open>The check and the import of one block: the new state and whether to go on.\<close>

definition import_block_app :: "crypto \<Rightarrow> db_ops \<Rightarrow> (Block \<Rightarrow> int) \<Rightarrow> Block \<Rightarrow> App \<Rightarrow> App \<times> bool" where
  "import_block_app C W clock block a =
     (case ValidateBlock C (clock block) (Some (proposer_validator C (ap_consensus a))) (ap_chain a) block True of
        Inl e \<Rightarrow> (a, False)
      | Inr _ \<Rightarrow>
          (case AddBlock W (ap_chain a) block of
             (p, Inl e) \<Rightarrow> (set_chain p a, False)
           | (p, Inr success) \<Rightarrow> (set_chain p a, success)))"

lemma import_block_app_pending: "import_block_app C W clock b a = (a', ok) \<Longrightarrow> ap_pending a' = ap_pending a"
  by (auto simp: import_block_app_def set_chain_def split: sum.splits prod.splits)

lemma length_mdel: "map_of m k = Some v \<Longrightarrow> length (mdel k m) < length m"
  unfolding AList.delete_eq by (intro length_filter_less) (auto dest: map_of_SomeD)

text \<open>The loop over the blocks that wait for their predecessor.\<close>

function import_pending :: "crypto \<Rightarrow> db_ops \<Rightarrow> (Block \<Rightarrow> int) \<Rightarrow> uint64 \<Rightarrow> App \<Rightarrow> App" where
  "import_pending C W clock height a =
     (case map_of (ap_pending a) (height + 1) of
        None \<Rightarrow> a
      | Some nextBlock \<Rightarrow>
          (case import_block_app C W clock nextBlock (a\<lparr>ap_pending := mdel (height + 1) (ap_pending a)\<rparr>) of
             (a1, ok) \<Rightarrow>
               if ok then import_pending C W clock (blk_Height nextBlock) (sync_height (blk_Height nextBlock + 1) a1) else a1))"
  by pat_completeness auto
termination
  by (relation "measure (\<lambda>(C, W, clock, h, a). length (ap_pending a))")
    (auto simp: sync_height_def length_mdel dest!: import_block_app_pending [OF sym])

declare import_pending.simps [simp del]

definition request_missing :: "wire \<Rightarrow> p2p_env \<Rightarrow> uint64 \<Rightarrow> uint64 \<Rightarrow> App \<Rightarrow> App" where
  "request_missing w ev startHeight endHeight a =
     (case GetPeers (ev_peers ev) (sv_Node (ap_p2p a)) of
        [] \<Rightarrow> a
      | c # cs \<Rightarrow> app_p2p (\<lambda>s. fst (RequestBlocks w (ev_send ev) True c startHeight endHeight s)) a)"

definition block_handler :: "crypto \<Rightarrow> db_ops \<Rightarrow> wire \<Rightarrow> p2p_env \<Rightarrow> (Block \<Rightarrow> int) \<Rightarrow> Block \<Rightarrow> App \<Rightarrow> App" where
  "block_handler C W w ev clock block a =
     (let currentHeight = GetLatestHeight (ap_chain a); height = blk_Height block in
      if currentHeight = 0 \<and> height = 0 then fst (import_block_app C W clock block a)
      else if height \<le> currentHeight then a
      else if currentHeight + 1 < height
      then request_missing w ev (currentHeight + 1) (height - 1) (a\<lparr>ap_pending := mput height block (ap_pending a)\<rparr>)
      else case import_block_app C W clock block a of
             (a1, False) \<Rightarrow> a1
           | (a1, True) \<Rightarrow>
               import_pending C W clock height
                 (app_p2p (BroadcastBlock w (ev_send ev) (ev_peers ev) block) (sync_height (height + 1) a1)))"

section \<open>Transactions, proposals and votes\<close>

definition tx_handler :: "crypto \<Rightarrow> wire \<Rightarrow> p2p_env \<Rightarrow> Transaction \<Rightarrow> App \<Rightarrow> App" where
  "tx_handler C w ev tx a =
     (case ValidateTransaction C (ap_chain a) tx of
        Inl e \<Rightarrow> a
      | Inr _ \<Rightarrow>
          (case NewTranaction (bc_Mempool (ap_chain a)) tx of
             Inl e \<Rightarrow> a
           | Inr m \<Rightarrow> app_p2p (BroadcastTx w (ev_send ev) (ev_peers ev) tx) (set_chain ((ap_chain a)\<lparr>bc_Mempool := m\<rparr>) a)))"

definition proposal_handler :: "crypto \<Rightarrow> ambient \<Rightarrow> uint64 \<Rightarrow> uint32 \<Rightarrow> Hash \<Rightarrow> Block \<Rightarrow> App \<Rightarrow> App" where
  "proposal_handler C am height rd blockHash block a = a\<lparr>ap_engine := HandleProposal C am height rd blockHash block (ap_engine a)\<rparr>"

definition vote_handler ::
    "crypto \<Rightarrow> db_ops \<Rightarrow> ambient \<Rightarrow> uint64 \<Rightarrow> uint32 \<Rightarrow> uint8 \<Rightarrow> Hash \<Rightarrow> Address \<Rightarrow> Signature \<Rightarrow> App \<Rightarrow> App" where
  "vote_handler C W am height rd voteType blockHash voterID signature a =
     (let vote = \<lparr>vote_Height = height, vote_Round = rd, vote_Type = voteType, vote_BlockHash = blockHash, vote_VoterID = voterID,
                  vote_Signature = signature, vote_Timestamp = 0\<rparr>
      in a\<lparr>ap_engine := HandleVote C W am vote (ap_engine a)\<rparr>)"

text \<open>One call of a callback by the network.\<close>

definition call_back :: "crypto \<Rightarrow> db_ops \<Rightarrow> wire \<Rightarrow> p2p_env \<Rightarrow> ambient \<Rightarrow> (Block \<Rightarrow> int) \<Rightarrow> App \<Rightarrow> delivered \<Rightarrow> App" where
  "call_back C W w ev am clock a d =
     (case d of
        BlockReceived b \<Rightarrow> block_handler C W w ev clock b a
      | TxReceived tx \<Rightarrow> tx_handler C w ev tx a
      | ProposalReceived h r bh b \<Rightarrow> proposal_handler C am h r bh b a
      | VoteReceived h r t bh v sig \<Rightarrow> vote_handler C W am h r t bh v sig a)"

section \<open>What the engine sends\<close>

definition commit_callback :: "wire \<Rightarrow> p2p_env \<Rightarrow> Block \<Rightarrow> P2PService \<Rightarrow> P2PService" where
  "commit_callback w ev block s = (if sv_running s then BroadcastBlock w (ev_send ev) (ev_peers ev) block s else s)"

text \<open>The state broadcasts go to WebSocket clients only.\<close>

definition send_out :: "wire \<Rightarrow> p2p_env \<Rightarrow> bool \<Rightarrow> BlockChain \<Rightarrow> P2PService \<Rightarrow> engine_output \<Rightarrow> P2PService" where
  "send_out w ev sent bc s x =
     (case x of
        OnBlockCommit b \<Rightarrow> commit_callback w ev b s
      | BroadcastProposal h r bh b proposer sig \<Rightarrow> Service_BroadcastProposal w (ev_send ev) (ev_peers ev) h r bh b proposer sig s
      | BroadcastVote h r bh t voter sig \<Rightarrow> Service_BroadcastVote w (ev_send ev) (ev_peers ev) h r bh t voter sig s
      | SyncBlocks \<Rightarrow> fst (Service_SyncBlocks w (ev_send ev) sent (ev_peers ev) (Some bc) s)
      | BroadcastConsensusState st h r proposer \<Rightarrow> s)"

text \<open>The periodic synchronisation.\<close>

definition periodic_sync :: "wire \<Rightarrow> p2p_env \<Rightarrow> bool \<Rightarrow> App \<Rightarrow> App" where
  "periodic_sync w ev sent a =
     (if 0 < GetPeerCount (sv_Node (ap_p2p a))
      then app_p2p (\<lambda>s. fst (Service_SyncBlocks w (ev_send ev) sent (ev_peers ev) (Some (ap_chain a)) s)) a
      else a)"

section \<open>Imports are certified\<close>

lemma app_frame [simp]:
  "ap_chain (set_chain p a) = p" "ap_consensus (set_chain p a) = ap_consensus a" "ap_pending (set_chain p a) = ap_pending a"
  "ap_chain (sync_height h a) = ap_chain a" "co_ValidatorSet (ap_consensus (sync_height h a)) = co_ValidatorSet (ap_consensus a)"
  "ap_pending (sync_height h a) = ap_pending a" "ap_engine (app_p2p f a) = ap_engine a" "ap_pending (app_p2p f a) = ap_pending a"
  "ap_engine (request_missing w ev x y a) = ap_engine a"
  by (simp_all add: set_chain_def sync_height_def app_p2p_def upd_cons_def UpdateHeight_def request_missing_def split: list.split)

text \<open>The chain after importing blocks one after another, each of which has an accepted certificate.\<close>

definition certified_imports :: "crypto \<Rightarrow> db_ops \<Rightarrow> ValidatorSet \<Rightarrow> BlockChain \<Rightarrow> BlockChain \<Rightarrow> bool" where
  "certified_imports C W VS p p' \<longleftrightarrow>
     (\<exists>bs. p' = foldl (\<lambda>p b. fst (AddBlock W p b)) p bs \<and> (\<forall>b\<in>set bs. blk_Height b \<noteq> 0 \<longrightarrow> commit_ok C VS b))"

lemma certified_refl [simp]: "certified_imports C W VS p p"
  unfolding certified_imports_def by (rule exI [of _ "[]"]) simp

lemma certified_add:
  assumes "blk_Height b \<noteq> 0 \<longrightarrow> commit_ok C VS b" "certified_imports C W VS (fst (AddBlock W p b)) p'"
  shows "certified_imports C W VS p p'"
proof -
  from assms(2) obtain bs where "p' = foldl (\<lambda>p b. fst (AddBlock W p b)) p (b # bs)" "\<forall>b\<in>set bs. blk_Height b \<noteq> 0 \<longrightarrow> commit_ok C VS b"
    by (auto simp: certified_imports_def)
  with assms(1) show ?thesis unfolding certified_imports_def by (intro exI [of _ "b # bs"]) auto
qed

lemma import_block_app_cases:
  assumes "import_block_app C W clock b a = (a', ok)"
  shows "ap_consensus a' = ap_consensus a \<and>
    (a' = a \<and> \<not> ok \<or> ap_chain a' = fst (AddBlock W (ap_chain a) b) \<and> (blk_Height b \<noteq> 0 \<longrightarrow> commit_ok C (co_ValidatorSet (ap_consensus a)) b))"
proof (cases "ValidateBlock C (clock b) (Some (proposer_validator C (ap_consensus a))) (ap_chain a) b True")
  case (Inl e)
  with assms show ?thesis by (simp add: import_block_app_def)
next
  case (Inr u)
  then have "blk_Height b \<noteq> 0 \<longrightarrow> commit_ok C (co_ValidatorSet (ap_consensus a)) b" using ValidateBlock_commit_ok by blast
  with assms Inr show ?thesis by (cases "AddBlock W (ap_chain a) b"; cases "snd (AddBlock W (ap_chain a) b)") (auto simp: import_block_app_def)
qed

lemma import_pending_certified:
  "certified_imports C W (co_ValidatorSet (ap_consensus a)) (ap_chain a) (ap_chain (import_pending C W clock h a))"
proof (induction C W clock h a rule: import_pending.induct)
  case (1 C W clock h a)
  show ?case
  proof (cases "map_of (ap_pending a) (h + 1)")
    case None
    then show ?thesis by (simp add: import_pending.simps [of C W clock h a])
  next
    case (Some b)
    let ?a = "a\<lparr>ap_pending := mdel (h + 1) (ap_pending a)\<rparr>"
    obtain a1 ok where a1: "import_block_app C W clock b ?a = (a1, ok)" by (rule prod.exhaust)
    note c = import_block_app_cases [OF a1]
    have eq: "import_pending C W clock h a =
        (if ok then import_pending C W clock (blk_Height b) (sync_height (blk_Height b + 1) a1) else a1)"
      by (simp add: import_pending.simps [of C W clock h a] Some a1)
    show ?thesis
    proof (cases ok)
      case True
      have "certified_imports C W (co_ValidatorSet (ap_consensus a1)) (ap_chain a1) (ap_chain (import_pending C W clock h a))"
        using "1.IH" [OF Some a1 [symmetric] True] eq True by simp
      with c True show ?thesis by (auto intro: certified_add [of b])
    next
      case False
      with c eq show ?thesis by (auto intro: certified_add [of b])
    qed
  qed
qed

lemma block_handler_certified:
  "certified_imports C W (co_ValidatorSet (ap_consensus a)) (ap_chain a) (ap_chain (block_handler C W w ev clock b a))"
proof -
  obtain a1 ok where a1: "import_block_app C W clock b a = (a1, ok)" by (rule prod.exhaust)
  note c = import_block_app_cases [OF a1]
  let ?VS = "co_ValidatorSet (ap_consensus a)"
  have one: "certified_imports C W ?VS (ap_chain a) (ap_chain a1)" using c by (auto intro: certified_add [of b])
  let ?a2 = "app_p2p (BroadcastBlock w (ev_send ev) (ev_peers ev) b) (sync_height (blk_Height b + 1) a1)"
  have "certified_imports C W ?VS (ap_chain a1) (ap_chain (import_pending C W clock (blk_Height b) ?a2))"
    using import_pending_certified [of C W ?a2 clock "blk_Height b"] c by simp
  then have "ok \<Longrightarrow> certified_imports C W ?VS (ap_chain a) (ap_chain (import_pending C W clock (blk_Height b) ?a2))"
    using c by (auto intro: certified_add [of b])
  with one a1 show ?thesis by (cases ok) (simp_all add: block_handler_def Let_def)
qed

section \<open>Blocks that arrive out of order\<close>

text \<open>Each block passes the checks on the chain that the ones before it leave, and is added to it.\<close>

fun importable :: "crypto \<Rightarrow> db_ops \<Rightarrow> (Block \<Rightarrow> int) \<Rightarrow> Consensus \<Rightarrow> BlockChain \<Rightarrow> Block list \<Rightarrow> BlockChain \<Rightarrow> bool" where
  "importable C W clock c p [] p' \<longleftrightarrow> p' = p"
| "importable C W clock c p (b # bs) p' \<longleftrightarrow>
     ValidateBlock C (clock b) (Some (proposer_validator C c)) p b True = Inr () \<and>
     (\<exists>p1. AddBlock W p b = (p1, Inr True) \<and> importable C W clock c p1 bs p')"

lemma importable_cong:
  "co_ValidatorSet c = co_ValidatorSet c' \<Longrightarrow> importable C W clock c p bs p' \<longleftrightarrow> importable C W clock c' p bs p'"
  by (induction bs arbitrary: p) (simp_all add: proposer_validator_cong [of c c'])

fun heights_from :: "uint64 \<Rightarrow> Block list \<Rightarrow> bool" where
  "heights_from h [] \<longleftrightarrow> True"
| "heights_from h (b # bs) \<longleftrightarrow> blk_Height b = h \<and> heights_from (h + 1) bs"

text \<open>The pending blocks above the height \<open>h\<close> are the run \<open>bs\<close>, and then there is a gap.\<close>

definition awaits :: "(uint64, Block) gomap \<Rightarrow> uint64 \<Rightarrow> Block list \<Rightarrow> bool" where
  "awaits m h bs \<longleftrightarrow> heights_from (h + 1) bs \<and> unat h + length bs + 1 < 2 ^ 64 \<and>
     (\<forall>b\<in>set bs. map_of m (blk_Height b) = Some b) \<and> map_of m (h + word_of_nat (length bs) + 1) = None"

lemma unat_plus_nat:
  fixes h :: uint64
  shows "unat h + n < 2 ^ 64 \<Longrightarrow> unat (h + word_of_nat n) = unat h + n"
  by (simp add: unat_add_no_wrap unat_of_nat)

lemma heights_above:
  "heights_from k bs \<Longrightarrow> unat k + length bs < 2 ^ 64 \<Longrightarrow> b \<in> set bs \<Longrightarrow> unat k \<le> unat (blk_Height b)"
proof (induction bs arbitrary: k)
  case (Cons x bs)
  have "unat (k + 1) = unat k + 1" using Cons.prems(2) unat_plus_nat [of k 1] by simp
  with Cons.IH [of "k + 1"] Cons.prems show ?case by auto
qed simp

lemma awaits_step:
  assumes "awaits m h (b # bs)"
  shows "map_of m (h + 1) = Some b \<and> blk_Height b = h + 1 \<and> awaits (mdel (h + 1) m) (h + 1) bs"
proof -
  note a = assms [unfolded awaits_def]
  have n: "unat h + 1 + length bs + 1 < 2 ^ 64" using a by simp
  have h1: "unat (h + 1) = unat h + 1" using n unat_plus_nat [of h 1] by simp
  have h2: "unat (h + 1 + 1) = unat h + 2" using n unat_plus_nat [of h 2] by (simp add: add.assoc)
  have "blk_Height x \<noteq> h + 1" if "x \<in> set bs" for x
    using heights_above [of "h + 1 + 1" bs x] a that n h1 h2 by auto
  moreover have "h + word_of_nat (length (b # bs)) + 1 = h + 1 + word_of_nat (length bs) + 1" by simp
  ultimately show ?thesis using a n h1 by (auto simp: awaits_def map_of_mdel)
qed

lemma import_pending_run:
  assumes "importable C W clock (ap_consensus a) (ap_chain a) bs p'" "awaits (ap_pending a) h bs"
  shows "ap_chain (import_pending C W clock h a) = p' \<and>
    (bs \<noteq> [] \<longrightarrow> co_CurrentHeight (ap_consensus (import_pending C W clock h a)) = h + word_of_nat (length bs) + 1)"
  using assms
proof (induction bs arbitrary: a h)
  case Nil
  then show ?case by (simp add: import_pending.simps [of C W clock h a] awaits_def)
next
  case (Cons b bs)
  note st = awaits_step [OF Cons.prems(2)]
  from Cons.prems(1) obtain p1 where p1: "AddBlock W (ap_chain a) b = (p1, Inr True)" "importable C W clock (ap_consensus a) p1 bs p'"
    "ValidateBlock C (clock b) (Some (proposer_validator C (ap_consensus a))) (ap_chain a) b True = Inr ()" by auto
  define a2 where "a2 = sync_height (blk_Height b + 1) (set_chain p1 (a\<lparr>ap_pending := mdel (h + 1) (ap_pending a)\<rparr>))"
  have eq: "import_pending C W clock h a = import_pending C W clock (h + 1) a2"
    using st p1 by (simp add: import_pending.simps [of C W clock h a] import_block_app_def a2_def)
  have "importable C W clock (ap_consensus a2) (ap_chain a2) bs p'"
    using p1(2) importable_cong [of "ap_consensus a2" "ap_consensus a"] by (simp add: a2_def)
  moreover have "awaits (ap_pending a2) (h + 1) bs" using st by (simp add: a2_def)
  ultimately have IH: "ap_chain (import_pending C W clock (h + 1) a2) = p' \<and>
    (bs \<noteq> [] \<longrightarrow> co_CurrentHeight (ap_consensus (import_pending C W clock (h + 1) a2)) = h + 1 + word_of_nat (length bs) + 1)"
    by (rule Cons.IH)
  show ?case
  proof (cases "bs = []")
    case False
    with IH show ?thesis by (simp add: eq)
  next
    case True
    then have none: "map_of (ap_pending a2) (h + 1 + 1) = None" using st by (simp add: awaits_def a2_def)
    have "import_pending C W clock (h + 1) a2 = a2" unfolding import_pending.simps [of C W clock "h + 1" a2] none by simp
    with IH st True show ?thesis by (simp add: eq a2_def sync_height_def upd_cons_def UpdateHeight_def)
  qed
qed

lemma block_handler_run:
  assumes "GetLatestHeight (ap_chain a) = h" "h < h + 1" "blk_Height b = h + 1" "importable C W clock (ap_consensus a) (ap_chain a) (b # bs) p'"
    "awaits (ap_pending a) (h + 1) bs"
  shows "ap_chain (block_handler C W w ev clock b a) = p' \<and>
    co_CurrentHeight (ap_consensus (block_handler C W w ev clock b a)) = h + word_of_nat (length (b # bs)) + 1"
proof -
  from assms(4) obtain p1 where p1: "AddBlock W (ap_chain a) b = (p1, Inr True)" "importable C W clock (ap_consensus a) p1 bs p'"
    "ValidateBlock C (clock b) (Some (proposer_validator C (ap_consensus a))) (ap_chain a) b True = Inr ()" by auto
  define a2 where "a2 = app_p2p (BroadcastBlock w (ev_send ev) (ev_peers ev) b) (sync_height (h + 1 + 1) (set_chain p1 a))"
  have "block_handler C W w ev clock b a = import_pending C W clock (h + 1) a2"
    using p1 assms(1-3) by (auto simp: block_handler_def Let_def import_block_app_def a2_def)
  moreover have "importable C W clock (ap_consensus a2) (ap_chain a2) bs p'"
    using p1(2) importable_cong [of "ap_consensus a2" "ap_consensus a"] by (simp add: a2_def)
  moreover have "awaits (ap_pending a2) (h + 1) bs" using assms(5) by (simp add: a2_def)
  moreover have "import_pending C W clock (h + 1) a2 = a2" if "bs = []"
  proof -
    have none: "map_of (ap_pending a2) (h + 1 + 1) = None" using assms(5) that by (simp add: awaits_def a2_def)
    show ?thesis unfolding import_pending.simps [of C W clock "h + 1" a2] none by simp
  qed
  ultimately show ?thesis
    using import_pending_run [of C W clock a2 bs p' "h + 1"]
    by (cases "bs = []") (simp_all add: a2_def sync_height_def upd_cons_def UpdateHeight_def)
qed

end
