(* ===== verification/Network_Theorems.thy ===== *)
theory Network_Theorems
  imports App Sample_Consensus
begin

text \<open>
  The theorems on the network: what is delivered of votes and blocks, how often, and what the application does with
  it; and where messages of a peer do what they should not.
\<close>

section \<open>Sample network\<close>

text \<open>
  An encoding of one message, one vote and one block: every value is written as no bytes and read as the given one.
\<close>

definition toy_wire :: "Message \<Rightarrow> VotePayload \<Rightarrow> Block \<Rightarrow> BlocksPayload \<Rightarrow> wire" where
  "toy_wire m v b bs =
     \<lparr>enc_Message = \<lambda>_. [], dec_Message = \<lambda>_. Some m, enc_Handshake = \<lambda>_. [], dec_Handshake = \<lambda>_. None,
      enc_NewBlock = \<lambda>_. [], dec_NewBlock = \<lambda>_. None, enc_GetBlocks = \<lambda>_. [], dec_GetBlocks = \<lambda>_. None,
      enc_Blocks = \<lambda>_. [], dec_Blocks = \<lambda>_. Some bs, enc_NewTx = \<lambda>_. [], dec_NewTx = \<lambda>_. None,
      enc_Peers = \<lambda>_. [], dec_Peers = \<lambda>_. None, enc_Proposal = \<lambda>_. [], dec_Proposal = \<lambda>_. None,
      enc_Vote = \<lambda>_. [], dec_Vote = \<lambda>_. Some v, gob_enc_Block = \<lambda>_. [], gob_dec_Block = \<lambda>_. Some b,
      gob_enc_Tx = \<lambda>_. [], gob_dec_Tx = \<lambda>_. None\<rparr>"

definition toy_payload :: "string \<Rightarrow> VotePayload" where
  "toy_payload voter = \<lparr>vp_Height = 1, vp_Round = 0, vp_VoteType = 1, vp_BlockHash = zero_Hash, vp_VoterID = voter, vp_Signature = zero_Signature\<rparr>"

definition toy_env :: p2p_env where
  "toy_env = \<lparr>ev_rnd = id, ev_now0 = 0, ev_now = 0, ev_mark = 0, ev_clean = 0, ev_relay_mark = 0, ev_relay_clean = 0, ev_send = 0,
     ev_peers = \<lambda>m. m\<rparr>"

definition toy_service :: P2PService where
  "toy_service = SetVoteHandler (SetBlockHandler (NewP2PService
     ((NewNode [] [] 0 [])\<lparr>no_Peers := [(''peer'', 2)], no_objs := [(2, no_peer\<lparr>pe_ID := ''peer'', pe_State := PeerStateActive\<rparr>)]\<rparr>)))"

definition plain_wire :: wire where
  "plain_wire = toy_wire (NewMessage MsgTypeVote [] ''peer'') (toy_payload (AddressToString (toy_address 1))) (gob_block toy_genesis) \<lparr>bp_BlocksData = [[]]\<rparr>"

lemma plain_wire_fields [simp]:
  "gob_enc_Block plain_wire b = []" "gob_dec_Block plain_wire bs = Some (gob_block toy_genesis)" "enc_Blocks plain_wire x = []"
  "dec_Blocks plain_wire bs = Some \<lparr>bp_BlocksData = [[]]\<rparr>" "enc_Vote plain_wire v = []"
  "dec_Vote plain_wire bs = Some (toy_payload (AddressToString (toy_address 1)))" "enc_Message plain_wire m = []"
  "dec_Message plain_wire bs = Some (NewMessage MsgTypeVote [] ''peer'')"
  by (simp_all add: plain_wire_def toy_wire_def)

definition toy_app :: App where
  "toy_app = \<lparr>ap_engine = toy_engine, ap_p2p = toy_service, ap_pending = []\<rparr>"

lemma toy_service_fields [simp]:
  "sv_voteHandler toy_service" "sv_blockHandler toy_service" "sv_seenVotes toy_service = []" "sv_calls toy_service = []"
  "sv_rateLimiter toy_service = Some (NewRateLimiter None)" "peer_of (sv_Node toy_service) 2 = no_peer\<lparr>pe_ID := ''peer'', pe_State := PeerStateActive\<rparr>"
  by (simp_all add: toy_service_def SetVoteHandler_def SetBlockHandler_def NewP2PService_def NewNode_def peer_of_def)

lemma toy_allowed: "\<exists>rl. AllowMessage id 0 0 (NewRateLimiter None) p MsgTypeVote = (rl, True, [])"
  by (simp add: AllowMessage_def NewRateLimiter_def DefaultRateLimitConfig_def getPeerLimiter_def allow_peer_def refill_def Seconds_def
      time_Sub_def zero_Time_def Second_def checkMessageTypeLimit_def getMessageTypeLimit_def msg_type_defs Let_def)

lemma toy_final_valid: "ValidateBlock toy 6 (Some (proposer_validator toy toy_consensus)) toy_chain toy_final True = Inr ()"
  unfolding toy_final_def
proof (rule ValidateBlock_certified [OF toy_proposal_valid])
  show "ValidateCommitSignatures toy toy_consensus (blk_Hash toy_proposal) (commit_sigs toy_ambient toy_votes) = Inr ()"
    by (rule commit_sigs_accepted [OF toy_consensus_fields(7) _ toy_commit_votes]) (simp add: toy_ambient_def)
qed simp

section \<open>Blocks from peers\<close>

text \<open>
  C8: Whatever block a peer sends, the chain of the node changes only by importing blocks above the genesis block that
  carry valid signatures of validators with more than two thirds of the power, one after another.
\<close>

theorem synced_blocks_certified:
  assumes "cert_ready (ap_consensus a)" "VS = co_ValidatorSet (ap_consensus a)"
  shows "\<exists>bs. ap_chain (block_handler C W w ev clock b a) = foldl (\<lambda>p b. fst (AddBlock W p b)) (ap_chain a) bs \<and>
    (\<forall>b\<in>set bs. blk_Height b \<noteq> 0 \<longrightarrow>
       (\<exists>S \<subseteq> validator_addrs VS. 2 * total_power VS < 3 * (\<Sum>v\<in>S. unat (power_of VS v)) \<and>
          (\<forall>v\<in>S. signed_commit C (ap_consensus a) (blk_Hash b) (blk_CommitSignatures b) v)))"
proof -
  from block_handler_certified [of C W a w ev clock b] obtain bs where
    bs: "ap_chain (block_handler C W w ev clock b a) = foldl (\<lambda>p b. fst (AddBlock W p b)) (ap_chain a) bs"
    "\<forall>b\<in>set bs. blk_Height b \<noteq> 0 \<longrightarrow> commit_ok C VS b"
    by (auto simp: certified_imports_def assms(2))
  have "\<exists>S \<subseteq> validator_addrs VS. 2 * total_power VS < 3 * (\<Sum>v\<in>S. unat (power_of VS v)) \<and>
          (\<forall>v\<in>S. signed_commit C (ap_consensus a) (blk_Hash b) (blk_CommitSignatures b) v)"
    if "commit_ok C VS b" for b
  proof -
    have "certified C (ap_consensus a) (blk_Hash b) (blk_CommitSignatures b)"
      using that assms by (simp add: certified_def commit_ok_def)
    from cert.sound [OF this] show ?thesis by (auto simp: assms(2) total_power_def)
  qed
  with bs show ?thesis by blast
qed

theorem synced_blocks_certified_witness:
  "\<exists>bs. ap_chain (block_handler toy mem_ops plain_wire toy_env (\<lambda>_. 6) toy_final toy_app) = foldl (\<lambda>p b. fst (AddBlock mem_ops p b)) toy_chain bs \<and>
    (\<forall>b\<in>set bs. blk_Height b \<noteq> 0 \<longrightarrow> (\<exists>S \<subseteq> validator_addrs toy_set. 20 < 3 * (\<Sum>v\<in>S. unat (power_of toy_set v))))"
  using synced_blocks_certified [of toy_app toy_set toy mem_ops plain_wire toy_env "\<lambda>_. 6" toy_final] by (fastforce simp: toy_app_def)



text \<open>
  C37: A node that has only its genesis block takes a genesis block from any peer: whatever block it has at height 0
  is replaced by the received one, which needs no signature.
\<close>

theorem foreign_genesis_replaces:
  assumes "GetLatestHeight (ap_chain a) = 0" "blk_Height g = 0" "hdr_PrevHash (blk_Header g) = zero_Hash"
    "hdr_MerkleRoot (blk_Header g) = calculateMerkleRoot C (blk_Transactions g)"
    "blk_Hash g = Hash_BlockHeader C ((blk_Header g)\<lparr>hdr_Hash := zero_Hash\<rparr>)" "wf_Hash (blk_Hash g)"
    "db_laws W" "db_reliable W" "lists_readable (bc_db (ap_chain a))" "index_complete (bc_db (ap_chain a))"
  shows "GetBlockByHeight (ap_chain (block_handler C W w ev clock g a)) 0 = Inr (gob_block g)"
proof -
  have "consumed g = {}" using assms(2) by (simp add: consumed_def)
  with AddBlock_succeeds [OF assms(8-10), of g] obtain p' where p': "AddBlock W (ap_chain a) g = (p', Inr True)" by auto
  have "validateGenesisBlock C g = Inr ()" using assms(2-5) by (simp add: validateGenesisBlock_ok)
  with p' assms(1,2) have "ap_chain (block_handler C W w ev clock g a) = p'"
    by (simp add: block_handler_def import_block_app_def ValidateBlock_def)
  with AddBlock_reads(1) [OF assms(7,6) p'] assms(2) show ?thesis by simp
qed

lemma toy_genesis_checks:
  "blk_Hash toy_genesis = Hash_BlockHeader toy ((blk_Header toy_genesis)\<lparr>hdr_Hash := zero_Hash\<rparr>)"
  "hdr_MerkleRoot (blk_Header toy_genesis) = calculateMerkleRoot toy (blk_Transactions toy_genesis)"
  "hdr_PrevHash (blk_Header toy_genesis) = zero_Hash"
  by (simp_all add: toy_genesis_def seal_def Let_def)

theorem foreign_genesis_replaces_witness:
  "GetBlockByHeight (ap_chain (block_handler toy mem_ops plain_wire toy_env (\<lambda>_. 6) (toy_genesis\<lparr>blk_Proposer := toy_address 9\<rparr>) toy_app)) 0 =
     Inr (gob_block (toy_genesis\<lparr>blk_Proposer := toy_address 9\<rparr>))"
  by (rule foreign_genesis_replaces)
    (use toy_genesis_checks toy_genesis_fields(4) in \<open>simp_all add: toy_app_def GetLatestHeight_def\<close>)

section \<open>Requests for blocks\<close>


lemma gob_block_idem: "gob_block (gob_block b) = gob_block b"
proof -
  have "gob_in (gob_in i) = gob_in i" for i by (simp add: gob_in_def gob_slice_def)
  then have "gob_in \<circ> gob_in = gob_in" by (rule ext [OF trans [OF comp_apply]])
  moreover have "gob_slice (gob_slice x) = gob_slice x" for x :: "'a slice" by (simp add: gob_slice_def)
  ultimately have "gob_slice (map_option (map gob_in) (gob_slice (map_option (map gob_in) x))) = gob_slice (map_option (map gob_in) x)" for x
    by (cases x) (simp_all add: gob_slice_def)
  then have "gob_tx (gob_tx tx) = gob_tx tx" for tx by (simp add: gob_tx_def) (simp add: gob_slice_def)
  then show ?thesis by (simp add: gob_block_def)
qed


section \<open>Votes\<close>

lemma relay_frame [simp]:
  "sv_calls (relayMessage C w ev msg c s) = sv_calls s" "sv_voteHandler (relayMessage C w ev msg c s) = sv_voteHandler s"
  by (simp_all add: relayMessage_def relayMessageWithoutDuplicateCheck_def markMessageSeen_def on_node_def Let_def)

text \<open>
  C10: A vote that a validator broadcasts is sent to each of its active peers, as one packet; a node that reads the
  packet from an active peer that is not limited, and has not seen the vote, hands the vote to its engine, with the
  same height, round, type, hash, voter and signature.
\<close>

theorem vote_delivered:
  assumes "wf_Address voter"
    "payload = \<lparr>vp_Height = h, vp_Round = r, vp_VoteType = t, vp_BlockHash = bh, vp_VoterID = AddressToString voter, vp_Signature = sig\<rparr>"
    "msg = (NewMessage MsgTypeVote (enc_Vote w payload) (no_ID (sv_Node s)))\<lparr>msg_Timestamp := now div Second\<rparr>"
    "data = Serialize w msg" "length data \<le> MaxFrame" "DeserializeMessage w data = Some msg" "dec_Vote w (enc_Vote w payload) = Some payload"
    "pe_State (peer_of (sv_Node q) c) = PeerStateActive" "sv_rateLimiter q = Some rl" "sv_voteHandler q" "\<not> hasSeenVote q (vote_key payload)"
    "AllowMessage (ev_rnd ev) (ev_now0 ev) (ev_now ev) rl (pe_ID (peer_of (sv_Node q) c)) MsgTypeVote = (rl', True, why)"
  shows "(\<forall>d\<in>set (active_peers \<rho> (sv_Node s)).
       SendPacket d (packet data) \<in> set (no_out (sv_Node (Service_BroadcastVote w now \<rho> h r bh t (AddressToString voter) sig s)))) \<and>
    frames (packet data) = ([data], ShortHeader) \<and>
    (\<exists>q'. handle_frame C w ev bc c q data = Inr q' \<and> sv_calls q' = sv_calls q @ [VoteReceived h r t bh voter sig])"
proof (intro conjI)
  let ?m = "NewMessage MsgTypeVote (enc_Vote w payload) (no_ID (sv_Node s))"
  show "\<forall>d\<in>set (active_peers \<rho> (sv_Node s)).
       SendPacket d (packet data) \<in> set (no_out (sv_Node (Service_BroadcastVote w now \<rho> h r bh t (AddressToString voter) sig s)))"
    using sent_to_all [where n = "sv_Node s" and cs = "active_peers \<rho> (sv_Node s)" and w = w and now = now and msg = ?m] assms(2-4)
    by (simp add: Service_BroadcastVote_def on_node_def Broadcast_def)
  show "frames (packet data) = ([data], ShortHeader)" using frames_packet [OF assms(5), of "[]"] by (simp add: frames.simps [of "[]"])
  have len: "slice16 (AddressToString voter) = Inr (take 16 (AddressToString voter))"
    using assms(1) by (simp add: slice16_def AddressToString_def wf_Address_def)
  have addr: "StringToAddress (AddressToString voter) = Inr voter" using assms(1) by simp
  have msg: "msg_Type msg = MsgTypeVote" "msg_Payload msg = enc_Vote w payload" using assms(3) by (simp_all add: NewMessage_def)
  let ?q = "on_node (set_peer c ((peer_of (sv_Node q) c)\<lparr>pe_LastSeen := ev_now0 ev\<rparr>)) q"
  let ?r = "?q\<lparr>sv_rateLimiter := Some rl'\<rparr>"
  have "handle_frame C w ev bc c q data = handleMessage C w ev bc msg c ?q"
    using assms(6,8) by (simp add: handle_frame_def Let_def)
  also have "\<dots> = dispatch C w ev bc msg c ?r"
    using assms(9,12) msg(1) by (simp add: handleMessage_def on_node_def)
  also have "\<dots> = handleVote C w ev msg c ?r" using msg(1) by (simp add: dispatch_def msg_type_defs)
  finally have eq: "handle_frame C w ev bc c q data = handleVote C w ev msg c ?r" .
  have "\<not> hasSeenVote ?r (vote_key payload)" using assms(11) by (simp add: hasSeenVote_def)
  moreover have "sv_voteHandler ?r" "sv_calls ?r = sv_calls q" using assms(10) by (simp_all add: on_node_def)
  ultimately show "\<exists>q'. handle_frame C w ev bc c q data = Inr q' \<and> sv_calls q' = sv_calls q @ [VoteReceived h r t bh voter sig]"
    unfolding eq using assms(2,7) msg(2) len addr by (simp add: handleVote_def Let_def markVoteSeen_def deliver_def)
qed

theorem vote_delivered_witness:
  "\<exists>q'. handle_frame toy plain_wire toy_env None 2 toy_service [] = Inr q' \<and>
     sv_calls q' = [VoteReceived 1 0 1 zero_Hash (toy_address 1) zero_Signature]"
proof -
  obtain rl where rl: "AllowMessage id 0 0 (NewRateLimiter None) ''peer'' MsgTypeVote = (rl, True, [])" using toy_allowed by blast
  show ?thesis
    using vote_delivered [where voter = "toy_address 1" and w = plain_wire and h = 1 and r = 0 and t = 1 and bh = zero_Hash and
        sig = zero_Signature and payload = "toy_payload (AddressToString (toy_address 1))" and now = 0 and
        msg = "NewMessage MsgTypeVote [] ''peer''" and data = "[]" and q = toy_service and c = 2 and rl = "NewRateLimiter None" and
        ev = toy_env and rl' = rl and why = "[]" and C = toy and bc = None and
        s = "toy_service\<lparr>sv_Node := (sv_Node toy_service)\<lparr>no_ID := ''peer''\<rparr>\<rparr>"] rl
    by (simp add: toy_address_def wf_Address_def toy_payload_def toy_env_def NewMessage_def Serialize_def DeserializeMessage_def MaxFrame_def hasSeenVote_def)
qed

text \<open>
  C28: A vote is taken up once: after a vote message was handled, another one for the same height, round, type and
  voter text changes nothing, it is neither relayed nor delivered, whatever messages of whatever peers come between,
  for thirty seconds; and only votes that agree in all four are taken for the same.
\<close>

theorem vote_taken_once:
  assumes "dec_Vote w (msg_Payload msg) = Some payload" "handleVote C w ev msg c s = Inr s1" "\<not> hasSeenVote s (vote_key payload)"
    "ev_clean ev \<le> ev_mark ev + 30 * Second" "foldE (receive C w) s1 ms = Inr s2"
    "\<forall>(ev', bc, msg, c)\<in>set ms. ev_mark ev \<le> ev_mark ev' \<and> ev_clean ev' \<le> ev_mark ev + 30 * Second"
    "dec_Vote w (msg_Payload msg') = Some payload'"
  shows "(vote_key payload' = vote_key payload \<longleftrightarrow>
      vp_Height payload' = vp_Height payload \<and> vp_Round payload' = vp_Round payload \<and> vp_VoteType payload' = vp_VoteType payload \<and>
      vp_VoterID payload' = vp_VoterID payload) \<and>
    (vote_key payload' = vote_key payload \<longrightarrow> handleVote C w ev' msg' c' s2 = Inr s2)"
proof -
  have "sv_seenVotes s1 = sv_seenVotes (markVoteSeen (ev_mark ev) (ev_clean ev) (vote_key payload) s)"
    using assms(1-3) by (auto simp: handleVote_def Let_def bindE_Inr split: if_splits sum.splits)
  then have "map_of (sv_seenVotes s1) (vote_key payload) = Some (ev_mark ev)"
    using votes.mark_key [of "ev_clean ev" "ev_mark ev"] assms(4) by simp
  from run_keeps_vote [OF assms(5) this, of "ev_mark ev"] assms(6) have "hasSeenVote s2 (vote_key payload)"
    by (auto simp: hasSeenVote_def)
  then have "vote_key payload' = vote_key payload \<Longrightarrow> handleVote C w ev' msg' c' s2 = Inr s2"
    using assms(7) by (simp add: handleVote_def)
  then show ?thesis using vote_key_inj by blast
qed

theorem vote_taken_once_witness:
  "\<exists>s. handleVote toy plain_wire toy_env (NewMessage MsgTypeVote [] ''peer'') 2 toy_service = Inr s \<and>
     handleVote toy plain_wire toy_env (NewMessage MsgTypeVote [] ''peer'') 2 s = Inr s"
proof -
  let ?m = "NewMessage MsgTypeVote [] ''peer''"
  have addr: "StringToAddress (AddressToString (toy_address 1)) = Inr (toy_address 1)" "16 \<le> length (AddressToString (toy_address 1))"
    by (simp add: toy_address_def wf_Address_def) (simp add: toy_address_def AddressToString_def)
  obtain s where s: "handleVote toy plain_wire toy_env ?m 2 toy_service = Inr s"
    using addr by (auto simp: handleVote_def hasSeenVote_def Let_def slice16_def toy_payload_def)
  have "handleVote toy plain_wire toy_env ?m 2 s = Inr s"
    using vote_taken_once [of plain_wire ?m _ toy toy_env 2 toy_service s "[]" s ?m _ toy_env 2] s
    by (simp add: hasSeenVote_def toy_env_def Second_def)
  with s show ?thesis by blast
qed

text \<open>
  A vote or proposal message whose voter or proposer text is shorter than sixteen characters, from any peer that
  is not limited and not seen before, ends the process: the text is cut to sixteen characters for the log without a
  check of its length.
\<close>

theorem short_identifier_panics:
  assumes "sv_rateLimiter s = Some rl"
    "AllowMessage (ev_rnd ev) (ev_now0 ev) (ev_now ev) rl (pe_ID (peer_of (sv_Node s) c)) (msg_Type msg) = (rl', True, why)"
    "(msg_Type msg = MsgTypeVote \<and> dec_Vote w (msg_Payload msg) = Some v \<and> length (vp_VoterID v) < 16 \<and> \<not> hasSeenVote s (vote_key v)) \<or>
     (msg_Type msg = MsgTypeProposal \<and> dec_Proposal w (msg_Payload msg) = Some p \<and> length (pr_ProposerID p) < 16 \<and>
        \<not> hasSeenProposal s (proposal_key p) \<and> gob_dec_Block w (pr_BlockData p) = Some b)"
  shows "handleMessage C w ev bc msg c s = Inl SliceBounds"
  using assms
  by (auto simp: handleMessage_def dispatch_def Let_def msg_type_defs handleVote_def handleProposal_def slice16_def hasSeenVote_def hasSeenProposal_def)

theorem short_identifier_panics_witness:
  "handleMessage toy (toy_wire (NewMessage MsgTypeVote [] ''peer'') (toy_payload ''v'') toy_genesis \<lparr>bp_BlocksData = []\<rparr>) toy_env None
     (NewMessage MsgTypeVote [] ''peer'') 2 toy_service = Inl SliceBounds"
proof -
  obtain rl where "AllowMessage id 0 0 (NewRateLimiter None) ''peer'' MsgTypeVote = (rl, True, [])" using toy_allowed by blast
  then show ?thesis
    by (intro short_identifier_panics [where rl = "NewRateLimiter None" and v = "toy_payload ''v''" and rl' = rl and why = "[]"])
      (simp_all add: toy_wire_def toy_payload_def toy_env_def NewMessage_def hasSeenVote_def)
qed

section \<open>Synchronisation\<close>

text \<open>
  C36: The height of a peer is recorded in the handshake and never again: once the chain has reached the heights that the
  peers named then, a synchronisation asks for nothing, whatever messages the peers have sent since, announcements of
  higher blocks among them.
\<close>

theorem sync_stalls:
  assumes "\<forall>c\<in>set (GetPeers \<rho> (sv_Node s)). pe_BestHeight (peer_of (sv_Node s) c) \<le> GetLatestHeight p"
    "foldE (receive_frame C w) s fs = Inr s'" "\<forall>(ev, bc, c, f)\<in>set fs. pe_State (peer_of (sv_Node s) c) \<noteq> PeerStateHandshaking"
  shows "fst (Service_SyncBlocks w now sent \<rho> (Some p) s') = s'"
  by (rule SyncBlocks_idle) (use frames_heights [OF assms(2,3)] assms(1) in \<open>simp add: same_heights_def GetPeers_def\<close>)

theorem sync_stalls_witness:
  "\<exists>s'. receive_frame toy plain_wire toy_service (toy_env, None, 2, []) = Inr s' \<and>
     fst (Service_SyncBlocks plain_wire 0 True (\<lambda>m. m) (Some toy_chain) s') = s'"
proof -
  have "slice16 (AddressToString (toy_address 1)) = Inr (take 16 (AddressToString (toy_address 1)))"
    by (simp add: slice16_def AddressToString_def toy_address_def)
  then have "\<exists>s'. handle_frame toy plain_wire toy_env None 2 toy_service [] = Inr s'"
    using toy_allowed [of "''peer''"]
    by (auto simp: handle_frame_def DeserializeMessage_def handleMessage_def dispatch_def msg_type_defs NewMessage_def handleVote_def toy_payload_def
        toy_env_def Let_def on_node_def hasSeenVote_def)
  then obtain s' where s': "handle_frame toy plain_wire toy_env None 2 toy_service [] = Inr s'" by blast
  have "fst (Service_SyncBlocks plain_wire 0 True (\<lambda>m. m) (Some toy_chain) s') = s'"
    using sync_stalls [of "\<lambda>m. m" toy_service toy_chain toy plain_wire "[(toy_env, None, 2, [])]" s' 0 True] s'
    by (simp add: GetPeers_def) (simp add: toy_service_def SetVoteHandler_def SetBlockHandler_def NewP2PService_def NewNode_def peer_of_def no_peer_def)
  with s' show ?thesis by auto
qed

end
