(* ===== verification/Wallet.thy ===== *)
theory Wallet
  imports Transfers
begin

text \<open>
  The wallet: \<open>wallet/types.go\<close>, \<open>wallet/keystore.go\<close>, \<open>wallet/wallet.go\<close> and the key derivation of
  \<open>common/crypto/keys.go\<close>.  The BIP-39 words, the curve, the encoding of private keys and the JSON text of the wallet
  file are library code, the fields of \<open>walletlib\<close>.  The file system is a map from paths to contents; whether the
  operating system lets a directory or a file be written is an argument of the operation that writes.
\<close>

section \<open>State\<close>

record Account_wallet =
  wa_Index :: int
  wa_Address :: Address
  wa_PrivateKey :: "byte list"
  wa_PublicKey :: "byte list"
  wa_Path :: string
  wa_Unlocked :: bool

record MnemonicWallet =
  mw_Mnemonic :: string
  mw_Seed :: "byte list"
  mw_MasterKey :: "byte list"
  mw_Accounts :: "Account_wallet list"
  mw_CurrentIndex :: int

record WalletManager =
  wm_walletDir :: string
  wm_Wallet :: "MnemonicWallet option"

record walletlib =
  bip39_NewMnemonic :: "byte list \<Rightarrow> string option"
  bip39_IsMnemonicValid :: "string \<Rightarrow> bool"
  bip39_NewSeed :: "string \<Rightarrow> string \<Rightarrow> byte list"
  ScalarBaseMult :: "byte list \<Rightarrow> nat \<times> nat"
  P256_N :: nat
  x509_MarshalECPrivateKey :: "PrivateKey \<Rightarrow> byte list option"
  enc_Wallet :: "MnemonicWallet \<Rightarrow> byte list"
  dec_Wallet :: "byte list \<Rightarrow> MnemonicWallet option"

type_synonym files = "string \<rightharpoonup> byte list"

text \<open>\<open>NilPointer\<close> and \<open>IndexRange\<close> are run-time panics.\<close>

datatype wallet_error =
    NoEntropy | NoMnemonic | InvalidMnemonic | NoMarshal crypto_error | NoMasterKey crypto_error | NoPublicBytes
  | WalletNil | NoAccounts | InvalidIndex | NoPrivateKey | NoPublicKey | PrivateParse crypto_error | PublicParse | NotInitialized
  | DirFailed | WriteFailed | NoDirectory | ReadFailed | UnmarshalFailed | NoWalletPath | Locked | NotImplemented | NoSignature
  | NilPointer | IndexRange
  | FirstAccount wallet_error | NextAccount wallet_error | LoadFailed wallet_error

section \<open>Key derivation\<close>

text \<open>\<open>big.Int\<close>: \<open>SetBytes\<close> and \<open>Bytes\<close>.\<close>

definition big_SetBytes :: "byte list \<Rightarrow> nat" where
  "big_SetBytes bs = foldl (\<lambda>n b. 256 * n + unat b) 0 bs"

fun big_Bytes :: "nat \<Rightarrow> byte list" where
  "big_Bytes n = (if n = 0 then [] else big_Bytes (n div 256) @ [word_of_nat (n mod 256)])"

declare big_Bytes.simps [simp del]

definition string_bytes :: "string \<Rightarrow> byte list" where
  "string_bytes s = map of_char s"

definition key_of :: "walletlib \<Rightarrow> nat \<Rightarrow> byte list \<Rightarrow> PrivateKey" where
  "key_of L d bs = (let (x, y) = ScalarBaseMult L bs in \<lparr>sk_D = d, sk_PublicKey = \<lparr>pk_Curve = ''P-256'', pk_X = x, pk_Y = y\<rparr>\<rparr>)"

definition DeriveMasterKey :: "crypto \<Rightarrow> walletlib \<Rightarrow> byte list \<Rightarrow> PrivateKey" where
  "DeriveMasterKey C L seed = (let hash = sha256 C seed in key_of L (big_SetBytes hash) hash)"

definition DeriveAccountKey :: "crypto \<Rightarrow> walletlib \<Rightarrow> PrivateKey \<Rightarrow> string \<Rightarrow> PrivateKey \<times> PublicKey" where
  "DeriveAccountKey C L masterKey path =
     (let offset = big_SetBytes (sha256 C (string_bytes path));
          newD = (sk_D masterKey + offset) mod P256_N L;
          privateKey = key_of L newD (big_Bytes newD)
      in (privateKey, sk_PublicKey privateKey))"

definition PrivateKeyToBytes :: "walletlib \<Rightarrow> PrivateKey option \<Rightarrow> crypto_error + byte list" where
  "PrivateKeyToBytes L privateKey =
     (case privateKey of
        None \<Rightarrow> Inr []
      | Some sk \<Rightarrow> (case x509_MarshalECPrivateKey L sk of None \<Rightarrow> Inl BadKey | Some bs \<Rightarrow> Inr bs))"

section \<open>Accounts\<close>

definition BIP44Purpose :: nat where "BIP44Purpose = 44"
definition BIP44CoinType :: nat where "BIP44CoinType = 60"
definition BIP44Account :: nat where "BIP44Account = 0"
definition BIP44Change :: nat where "BIP44Change = 0"

definition account_path :: "nat \<Rightarrow> string" where
  "account_path index =
     ''m/'' @ nat_to_dec BIP44Purpose @ [CHR 0x27, CHR ''/''] @ nat_to_dec BIP44CoinType @ [CHR 0x27, CHR ''/''] @
     nat_to_dec BIP44Account @ [CHR 0x27, CHR ''/''] @ nat_to_dec BIP44Change @ ''/'' @ nat_to_dec index"

text \<open>An empty master key parses as the nil key, which the derivation dereferences.\<close>

definition deriveAccount :: "crypto \<Rightarrow> walletlib \<Rightarrow> MnemonicWallet \<Rightarrow> nat \<Rightarrow> wallet_error + Account_wallet" where
  "deriveAccount C L wallet index =
     (let path = account_path index in
      bindE (wrapE NoMasterKey (BytesToPrivateKey C (mw_MasterKey wallet))) (\<lambda>mk.
      case mk of
        None \<Rightarrow> Inl NilPointer
      | Some masterKey \<Rightarrow>
          let (privateKey, publicKey) = DeriveAccountKey C L masterKey path; address = PublicKeyToAddress C publicKey in
          bindE (wrapE NoMarshal (PrivateKeyToBytes L (Some privateKey))) (\<lambda>privateKeyBytes.
          case x509_MarshalPKIXPublicKey C publicKey of
            None \<Rightarrow> Inl NoPublicBytes
          | Some publicKeyBytes \<Rightarrow>
              Inr \<lparr>wa_Index = int index, wa_Address = address, wa_PrivateKey = privateKeyBytes, wa_PublicKey = publicKeyBytes,
                   wa_Path = path, wa_Unlocked = True\<rparr>)))"

text \<open>The common part of creation and recovery: everything follows from the words.\<close>

definition wallet_of :: "crypto \<Rightarrow> walletlib \<Rightarrow> string \<Rightarrow> wallet_error + MnemonicWallet" where
  "wallet_of C L mnemonic =
     (let seed = bip39_NewSeed L mnemonic []; masterKey = DeriveMasterKey C L seed in
      bindE (wrapE NoMarshal (PrivateKeyToBytes L (Some masterKey))) (\<lambda>masterKeyBytes.
      let wallet = \<lparr>mw_Mnemonic = mnemonic, mw_Seed = seed, mw_MasterKey = masterKeyBytes, mw_Accounts = [], mw_CurrentIndex = 0\<rparr> in
      bindE (wrapE FirstAccount (deriveAccount C L wallet 0)) (\<lambda>account.
      Inr (wallet\<lparr>mw_Accounts := mw_Accounts wallet @ [account]\<rparr>))))"

definition NewWalletManager :: "string \<Rightarrow> WalletManager" where
  "NewWalletManager walletDir = \<lparr>wm_walletDir = walletDir, wm_Wallet = None\<rparr>"

text \<open>\<open>entropy\<close> is what \<open>bip39.NewEntropy(128)\<close> returns.\<close>

definition CreateWallet :: "crypto \<Rightarrow> walletlib \<Rightarrow> byte list option \<Rightarrow> WalletManager \<Rightarrow> wallet_error + WalletManager" where
  "CreateWallet C L entropy p =
     (case entropy of
        None \<Rightarrow> Inl NoEntropy
      | Some e \<Rightarrow>
          (case bip39_NewMnemonic L e of
             None \<Rightarrow> Inl NoMnemonic
           | Some mnemonic \<Rightarrow> bindE (wallet_of C L mnemonic) (\<lambda>wallet. Inr (p\<lparr>wm_Wallet := Some wallet\<rparr>))))"

definition RestoreWallet :: "crypto \<Rightarrow> walletlib \<Rightarrow> string \<Rightarrow> WalletManager \<Rightarrow> wallet_error + WalletManager" where
  "RestoreWallet C L mnemonic p =
     (if \<not> bip39_IsMnemonicValid L mnemonic then Inl InvalidMnemonic
      else bindE (wallet_of C L mnemonic) (\<lambda>wallet. Inr (p\<lparr>wm_Wallet := Some wallet\<rparr>)))"

definition AddAccount :: "crypto \<Rightarrow> walletlib \<Rightarrow> WalletManager \<Rightarrow> wallet_error + (WalletManager \<times> Account_wallet)" where
  "AddAccount C L p =
     (case wm_Wallet p of
        None \<Rightarrow> Inl WalletNil
      | Some wallet \<Rightarrow>
          bindE (wrapE NextAccount (deriveAccount C L wallet (length (mw_Accounts wallet)))) (\<lambda>account.
          Inr (p\<lparr>wm_Wallet := Some (wallet\<lparr>mw_Accounts := mw_Accounts wallet @ [account]\<rparr>)\<rparr>, account)))"

section \<open>The wallet file\<close>

text \<open>\<open>filepath.Clean\<close> and \<open>filepath.Join\<close> of two elements, for slash-separated paths.\<close>

fun split_slash :: "string \<Rightarrow> string list" where
  "split_slash [] = [[]]"
| "split_slash (c # cs) =
     (if c = CHR ''/'' then [] # split_slash cs else case split_slash cs of [] \<Rightarrow> [[c]] | s # ss \<Rightarrow> (c # s) # ss)"

definition clean_step :: "bool \<Rightarrow> string list \<Rightarrow> string \<Rightarrow> string list" where
  "clean_step rooted st s =
     (if s = [] \<or> s = ''.'' then st
      else if s = ''..'' then
        (if st \<noteq> [] \<and> hd st \<noteq> ''..'' then tl st else if rooted then st else s # st)
      else s # st)"

definition filepath_Clean :: "string \<Rightarrow> string" where
  "filepath_Clean path =
     (let rooted = (path \<noteq> [] \<and> hd path = CHR ''/'');
          parts = rev (foldl (clean_step rooted) [] (split_slash path));
          body = concat (map (\<lambda>(i, s). (if i = 0 then s else CHR ''/'' # s)) (enumerate 0 parts));
          result = (if rooted then CHR ''/'' # body else body)
      in if result = [] then ''.'' else result)"

definition filepath_Join :: "string \<Rightarrow> string \<Rightarrow> string" where
  "filepath_Join a b =
     (if a = [] \<and> b = [] then [] else if a = [] then filepath_Clean b else if b = [] then filepath_Clean a
      else filepath_Clean (a @ CHR ''/'' # b))"

definition json_suffix :: "string \<Rightarrow> bool" where
  "json_suffix s \<longleftrightarrow> 5 \<le> length s \<and> drop (length s - 5) s = ''.json''"

text \<open>\<open>os.MkdirAll\<close> fails on a path that is a file; other failures of the operating system are \<open>dir_ok\<close> and \<open>write_ok\<close>.\<close>

definition CreateDir :: "files \<Rightarrow> bool \<Rightarrow> string \<Rightarrow> bool" where
  "CreateDir fs dir_ok path \<longleftrightarrow> dir_ok \<and> fs path = None"

definition SaveWallet :: "walletlib \<Rightarrow> files \<Rightarrow> bool \<Rightarrow> bool \<Rightarrow> WalletManager \<Rightarrow> wallet_error + files" where
  "SaveWallet L fs dir_ok write_ok p =
     (case wm_Wallet p of
        None \<Rightarrow> Inl WalletNil
      | Some wallet \<Rightarrow>
          if \<not> CreateDir fs dir_ok (wm_walletDir p) then Inl DirFailed
          else if \<not> write_ok then Inl WriteFailed
          else Inr (fs(filepath_Join (wm_walletDir p) ''wallet.json'' \<mapsto> enc_Wallet L wallet)))"

definition wallet_file :: "string \<Rightarrow> string" where
  "wallet_file walletDir = (if json_suffix walletDir then walletDir else filepath_Join walletDir ''wallet.json'')"

definition LoadWalletFile :: "walletlib \<Rightarrow> files \<Rightarrow> WalletManager \<Rightarrow> wallet_error + WalletManager" where
  "LoadWalletFile L fs p =
     (if wm_walletDir p = [] then Inl NoDirectory
      else case fs (wallet_file (wm_walletDir p)) of
             None \<Rightarrow> Inl ReadFailed
           | Some bytes \<Rightarrow>
               (case dec_Wallet L bytes of
                  None \<Rightarrow> Inl UnmarshalFailed
                | Some wallet \<Rightarrow> Inr (p\<lparr>wm_Wallet := Some wallet\<rparr>)))"

definition InitWallet :: "walletlib \<Rightarrow> files \<Rightarrow> string \<Rightarrow> wallet_error + WalletManager" where
  "InitWallet L fs path =
     (if path = [] then Inl NoWalletPath else wrapE LoadFailed (LoadWalletFile L fs (NewWalletManager path)))"

section \<open>Queries\<close>

definition account_at :: "Account_wallet list \<Rightarrow> int \<Rightarrow> wallet_error + Account_wallet" where
  "account_at accounts i = (if 0 \<le> i \<and> nat i < length accounts then Inr (accounts ! nat i) else Inl IndexRange)"

definition GetCurrentAccount :: "WalletManager \<Rightarrow> wallet_error + Account_wallet" where
  "GetCurrentAccount p =
     (case wm_Wallet p of
        None \<Rightarrow> Inl NoAccounts
      | Some w \<Rightarrow> if length (mw_Accounts w) = 0 then Inl NoAccounts else account_at (mw_Accounts w) (mw_CurrentIndex w))"

definition SwitchAccount :: "int \<Rightarrow> WalletManager \<Rightarrow> wallet_error + WalletManager" where
  "SwitchAccount index p =
     (case wm_Wallet p of
        None \<Rightarrow> Inl WalletNil
      | Some w \<Rightarrow>
          if index < 0 \<or> int (length (mw_Accounts w)) \<le> index then Inl InvalidIndex
          else Inr (p\<lparr>wm_Wallet := Some (w\<lparr>mw_CurrentIndex := index\<rparr>)\<rparr>))"

definition GetMnemonic :: "WalletManager \<Rightarrow> wallet_error + string" where
  "GetMnemonic p = (case wm_Wallet p of None \<Rightarrow> Inl WalletNil | Some w \<Rightarrow> Inr (mw_Mnemonic w))"

definition GetAccounts :: "WalletManager \<Rightarrow> wallet_error + Account_wallet list" where
  "GetAccounts p = (case wm_Wallet p of None \<Rightarrow> Inl WalletNil | Some w \<Rightarrow> Inr (mw_Accounts w))"

definition GetCurrentPrivateKey :: "crypto \<Rightarrow> WalletManager \<Rightarrow> wallet_error + PrivateKey option" where
  "GetCurrentPrivateKey C p =
     bindE (GetCurrentAccount p) (\<lambda>account.
     if length (wa_PrivateKey account) = 0 then Inl NoPrivateKey
     else wrapE PrivateParse (BytesToPrivateKey C (wa_PrivateKey account)))"

text \<open>The result of the parser is asserted to be an ECDSA key, which panics for another kind.\<close>

definition GetCurrentPublicKey :: "crypto \<Rightarrow> WalletManager \<Rightarrow> wallet_error + PublicKey" where
  "GetCurrentPublicKey C p =
     bindE (GetCurrentAccount p) (\<lambda>account.
     if length (wa_PublicKey account) = 0 then Inl NoPublicKey
     else case x509_ParsePKIXPublicKey C (wa_PublicKey account) of
            None \<Rightarrow> Inl PublicParse
          | Some OtherKey \<Rightarrow> Inl NilPointer
          | Some (EcdsaKey pub) \<Rightarrow> Inr pub)"

definition GetAccountPrivateKey :: "crypto \<Rightarrow> int \<Rightarrow> WalletManager \<Rightarrow> wallet_error + PrivateKey option" where
  "GetAccountPrivateKey C index p =
     (case wm_Wallet p of
        None \<Rightarrow> Inl InvalidIndex
      | Some w \<Rightarrow>
          if index < 0 \<or> int (length (mw_Accounts w)) \<le> index then Inl InvalidIndex
          else let account = mw_Accounts w ! nat index in
               if length (wa_PrivateKey account) = 0 then Inl NoPrivateKey
               else wrapE PrivateParse (BytesToPrivateKey C (wa_PrivateKey account)))"

section \<open>The single-key wallet\<close>

record Wallet_key =
  wk_Address :: Address
  wk_PrivateKey :: "PrivateKey option"
  wk_PublicKey :: "PublicKey option"

text \<open>\<open>generated\<close> is the key that \<open>ecdsa.GenerateKey\<close> returns.\<close>

definition Wallet_CreateWallet :: "crypto \<Rightarrow> PrivateKey \<Rightarrow> Wallet_key \<Rightarrow> Wallet_key" where
  "Wallet_CreateWallet C generated w =
     w\<lparr>wk_PrivateKey := Some generated, wk_PublicKey := Some (sk_PublicKey generated),
       wk_Address := PublicKeyToAddress C (sk_PublicKey generated)\<rparr>"

definition SignTransaction :: "crypto \<Rightarrow> nat \<Rightarrow> Wallet_key \<Rightarrow> Transaction \<Rightarrow> wallet_error + Signature" where
  "SignTransaction C r w tx =
     (case wk_PrivateKey w of
        None \<Rightarrow> Inl Locked
      | Some sk \<Rightarrow>
          (case ecdsa_SignASN1 C r sk (HashToBytes (Hash_Transaction C tx)) of
             None \<Rightarrow> Inl NoSignature
           | Some signature \<Rightarrow> Inr (copy_into 72 signature)))"

definition Wallet_VerifySignature :: "crypto \<Rightarrow> Wallet_key \<Rightarrow> Transaction \<Rightarrow> Signature \<Rightarrow> wallet_error + bool" where
  "Wallet_VerifySignature C w tx sig =
     (case wk_PublicKey w of
        None \<Rightarrow> Inl NilPointer
      | Some pk \<Rightarrow> Inr (ecdsa_VerifyASN1 C pk (HashToBytes (Hash_Transaction C tx)) sig))"

definition CreateTransaction :: "Wallet_key \<Rightarrow> wallet_error + Transaction" where
  "CreateTransaction w = Inl NotImplemented"

section \<open>What the libraries provide\<close>

text \<open>
  Multiplication depends on the number that the bytes stand for, and what the encoders accept is parsed back: a
  private key below the order with its own public key, and a public key.
\<close>

definition ec_laws :: "crypto \<Rightarrow> walletlib \<Rightarrow> bool" where
  "ec_laws C L \<longleftrightarrow> 0 < P256_N L \<and>
     (\<forall>bs bs'. big_SetBytes bs = big_SetBytes bs' \<longrightarrow> ScalarBaseMult L bs = ScalarBaseMult L bs') \<and>
     (\<forall>d bs k. big_SetBytes bs = d \<longrightarrow> d < P256_N L \<longrightarrow> x509_MarshalECPrivateKey L (key_of L d bs) = Some k \<longrightarrow>
        k \<noteq> [] \<and> x509_ParseECPrivateKey C k = Some (key_of L d bs)) \<and>
     (\<forall>d bs k. big_SetBytes bs = d \<longrightarrow> d < P256_N L \<longrightarrow> x509_MarshalPKIXPublicKey C (sk_PublicKey (key_of L d bs)) = Some k \<longrightarrow>
        k \<noteq> [] \<and> x509_ParsePKIXPublicKey C k = Some (EcdsaKey (sk_PublicKey (key_of L d bs))))"

definition mnemonics_valid :: "walletlib \<Rightarrow> bool" where
  "mnemonics_valid L \<longleftrightarrow> (\<forall>e m. bip39_NewMnemonic L e = Some m \<longrightarrow> bip39_IsMnemonicValid L m)"

lemma big_SetBytes_append: "big_SetBytes (bs @ [b]) = 256 * big_SetBytes bs + unat b"
  by (simp add: big_SetBytes_def)

lemma big_roundtrip [simp]: "big_SetBytes (big_Bytes n) = n"
proof (induction n rule: big_Bytes.induct)
  case (1 n)
  show ?case
  proof (cases "n = 0")
    case True
    then show ?thesis by (simp add: big_Bytes.simps [of 0] big_SetBytes_def)
  next
    case False
    have "unat (word_of_nat (n mod 256) :: byte) = n mod 256" by (simp add: unat_of_nat)
    with False 1 show ?thesis by (simp add: big_Bytes.simps [of n] big_SetBytes_append)
  qed
qed

section \<open>Accounts and their keys\<close>

definition account_ok :: "crypto \<Rightarrow> Account_wallet \<Rightarrow> bool" where
  "account_ok C a \<longleftrightarrow>
     (\<exists>k. BytesToPrivateKey C (wa_PrivateKey a) = Inr (Some k) \<and> BytesToPublicKey C (wa_PublicKey a) = Inr (sk_PublicKey k) \<and>
        PublicKeyToAddress C (sk_PublicKey k) = wa_Address a)"

lemma deriveAccount_keys:
  assumes "ec_laws C L" "deriveAccount C L w i = Inr a"
  obtains k where "BytesToPrivateKey C (wa_PrivateKey a) = Inr (Some k)" "BytesToPublicKey C (wa_PublicKey a) = Inr (sk_PublicKey k)"
    "PublicKeyToBytes C (Some (sk_PublicKey k)) = Inr (wa_PublicKey a)" "PublicKeyToAddress C (sk_PublicKey k) = wa_Address a"
    "wa_Index a = int i" "wa_Path a = account_path i" "wa_PrivateKey a \<noteq> []"
proof -
  from assms(2) obtain mk where mk: "BytesToPrivateKey C (mw_MasterKey w) = Inr (Some mk)"
    by (auto simp: deriveAccount_def Let_def bindE_Inr wrapE_Inr split: option.splits)
  obtain priv pub where d: "DeriveAccountKey C L mk (account_path i) = (priv, pub)" by (rule prod.exhaust)
  from assms(2) obtain kb pb where kb: "x509_MarshalECPrivateKey L priv = Some kb" "x509_MarshalPKIXPublicKey C pub = Some pb"
    and a: "a = \<lparr>wa_Index = int i, wa_Address = PublicKeyToAddress C pub, wa_PrivateKey = kb, wa_PublicKey = pb,
                   wa_Path = account_path i, wa_Unlocked = True\<rparr>"
    by (auto simp: deriveAccount_def Let_def mk d bindE_Inr wrapE_Inr PrivateKeyToBytes_def split: option.splits)
  define n where "n = (sk_D mk + big_SetBytes (sha256 C (string_bytes (account_path i)))) mod P256_N L"
  have pr: "priv = key_of L n (big_Bytes n)" "pub = sk_PublicKey priv"
    using d by (auto simp: DeriveAccountKey_def Let_def n_def)
  have "n < P256_N L" using assms(1) by (simp add: ec_laws_def n_def)
  moreover have "big_SetBytes (big_Bytes n) = n" by simp
  ultimately have "kb \<noteq> [] \<and> x509_ParseECPrivateKey C kb = Some priv" "pb \<noteq> [] \<and> x509_ParsePKIXPublicKey C pb = Some (EcdsaKey pub)"
    using assms(1) [unfolded ec_laws_def] kb pr by blast+
  then show ?thesis using a pr(2) kb(2)
    by (intro that [of priv]) (simp_all add: BytesToPrivateKey_def BytesToPublicKey_def PublicKeyToBytes_def)
qed

lemma deriveAccount_ok:
  assumes "ec_laws C L" "deriveAccount C L w i = Inr a"
  shows "account_ok C a \<and> wa_Index a = int i \<and> wa_Path a = account_path i"
  by (rule deriveAccount_keys [OF assms]) (auto simp: account_ok_def)

text \<open>Each account of a wallet is the one derived for its position, and the current one exists.\<close>

definition wf_wallet :: "crypto \<Rightarrow> walletlib \<Rightarrow> MnemonicWallet \<Rightarrow> bool" where
  "wf_wallet C L w \<longleftrightarrow> (\<forall>i<length (mw_Accounts w). deriveAccount C L w i = Inr (mw_Accounts w ! i)) \<and>
     0 \<le> mw_CurrentIndex w \<and> mw_CurrentIndex w < int (length (mw_Accounts w))"

lemma deriveAccount_cong [simp]:
  "deriveAccount C L (w\<lparr>mw_Accounts := as\<rparr>) i = deriveAccount C L w i" "deriveAccount C L (w\<lparr>mw_CurrentIndex := n\<rparr>) i = deriveAccount C L w i"
  by (simp_all add: deriveAccount_def)

lemma wf_wallet_of: "wallet_of C L m = Inr w \<Longrightarrow> wf_wallet C L w \<and> mw_Mnemonic w = m"
  by (auto simp: wallet_of_def Let_def bindE_Inr wrapE_Inr wf_wallet_def) (simp add: deriveAccount_def)

lemma AddAccount_cases:
  assumes "AddAccount C L p = Inr (p', a)"
  obtains w where "wm_Wallet p = Some w" "deriveAccount C L w (length (mw_Accounts w)) = Inr a"
    "p' = p\<lparr>wm_Wallet := Some (w\<lparr>mw_Accounts := mw_Accounts w @ [a]\<rparr>)\<rparr>"
  using assms by (auto simp: AddAccount_def bindE_Inr wrapE_Inr split: option.splits)

lemma wf_AddAccount:
  assumes "AddAccount C L p = Inr (p', a)" "wm_Wallet p = Some w" "wf_wallet C L w"
  shows "\<exists>w'. wm_Wallet p' = Some w' \<and> wf_wallet C L w' \<and> mw_Accounts w' = mw_Accounts w @ [a]"
  using assms(1)
proof (rule AddAccount_cases)
  fix v
  assume "wm_Wallet p = Some v" "deriveAccount C L v (length (mw_Accounts v)) = Inr a"
    "p' = p\<lparr>wm_Wallet := Some (v\<lparr>mw_Accounts := mw_Accounts v @ [a]\<rparr>)\<rparr>"
  with assms(2,3) show ?thesis by (auto simp: wf_wallet_def nth_append less_Suc_eq)
qed

lemma wf_SwitchAccount:
  assumes "SwitchAccount i p = Inr p'" "wm_Wallet p = Some w" "wf_wallet C L w"
  shows "\<exists>w'. wm_Wallet p' = Some w' \<and> wf_wallet C L w' \<and> GetCurrentAccount p' = Inr (mw_Accounts w ! nat i)"
  using assms by (auto simp: SwitchAccount_def wf_wallet_def GetCurrentAccount_def account_at_def split: if_splits)

lemma wf_wallet_accounts:
  assumes "ec_laws C L" "wf_wallet C L w" "a \<in> set (mw_Accounts w)"
  shows "account_ok C a"
  using assms deriveAccount_ok by (fastforce simp: wf_wallet_def in_set_conv_nth)

lemma GetCurrentPrivateKey_ok:
  assumes "ec_laws C L" "wm_Wallet p = Some w" "wf_wallet C L w"
  shows "\<exists>a k. GetCurrentAccount p = Inr a \<and> GetCurrentPrivateKey C p = Inr (Some k) \<and> GetCurrentPublicKey C p = Inr (sk_PublicKey k) \<and>
    PublicKeyToAddress C (sk_PublicKey k) = wa_Address a"
proof -
  let ?a = "mw_Accounts w ! nat (mw_CurrentIndex w)"
  have i: "0 \<le> mw_CurrentIndex w" "nat (mw_CurrentIndex w) < length (mw_Accounts w)" using assms(3) by (auto simp: wf_wallet_def)
  then have a: "GetCurrentAccount p = Inr ?a" using assms(2) by (auto simp: GetCurrentAccount_def account_at_def)
  from wf_wallet_accounts [OF assms(1,3), of ?a] i have "account_ok C ?a" by simp
  then show ?thesis unfolding account_ok_def
    by (auto simp: a GetCurrentPrivateKey_def GetCurrentPublicKey_def BytesToPrivateKey_def BytesToPublicKey_def
        split: if_splits option.splits pkix_key.splits)
qed

text \<open>A number of calls of \<open>AddAccount\<close>.\<close>

definition add_accounts :: "crypto \<Rightarrow> walletlib \<Rightarrow> nat \<Rightarrow> WalletManager \<Rightarrow> wallet_error + WalletManager" where
  "add_accounts C L n p = foldE (\<lambda>p _. bindE (AddAccount C L p) (\<lambda>(p', a). Inr p')) p (replicate n ())"

lemma add_accounts_simps [simp]:
  "add_accounts C L 0 p = Inr p"
  "add_accounts C L (Suc n) p = bindE (AddAccount C L p) (\<lambda>(p', a). add_accounts C L n p')"
  by (auto simp: add_accounts_def bindE_def split: sum.split prod.split)

lemma AddAccount_same:
  assumes "AddAccount C L p = Inr (p', a)" "wm_Wallet p = wm_Wallet q"
  shows "\<exists>q'. AddAccount C L q = Inr (q', a) \<and> wm_Wallet q' = wm_Wallet p'"
  using assms by (auto simp: AddAccount_def bindE_Inr wrapE_Inr split: option.splits)

lemma add_accounts_same:
  "add_accounts C L n p = Inr p' \<Longrightarrow> wm_Wallet p = wm_Wallet q \<Longrightarrow> \<exists>q'. add_accounts C L n q = Inr q' \<and> wm_Wallet q' = wm_Wallet p'"
proof (induction n arbitrary: p q)
  case (Suc n)
  from Suc.prems(1) obtain p1 a where p1: "AddAccount C L p = Inr (p1, a)" "add_accounts C L n p1 = Inr p'" by (auto simp: bindE_Inr)
  from AddAccount_same [OF p1(1) Suc.prems(2)] obtain q1 where "AddAccount C L q = Inr (q1, a)" "wm_Wallet q1 = wm_Wallet p1" by blast
  with Suc.IH [OF p1(2), of q1] show ?case by simp
qed simp

lemma add_accounts_wf:
  "add_accounts C L n p = Inr p' \<Longrightarrow> wm_Wallet p = Some w \<Longrightarrow> wf_wallet C L w \<Longrightarrow>
     \<exists>w'. wm_Wallet p' = Some w' \<and> wf_wallet C L w' \<and> length (mw_Accounts w') = length (mw_Accounts w) + n"
proof (induction n arbitrary: p w)
  case (Suc n)
  from Suc.prems(1) obtain p1 a where p1: "AddAccount C L p = Inr (p1, a)" "add_accounts C L n p1 = Inr p'" by (auto simp: bindE_Inr)
  from wf_AddAccount [OF p1(1) Suc.prems(2,3)] obtain w1 where
    "wm_Wallet p1 = Some w1" "wf_wallet C L w1" "length (mw_Accounts w1) = Suc (length (mw_Accounts w))" by auto
  with Suc.IH [OF p1(2)] show ?case by auto
qed simp

section \<open>The wallet file\<close>

lemma SaveWallet_Load:
  assumes "SaveWallet L fs dir_ok write_ok p = Inr fs'" "wm_Wallet p = Some w" "dec_Wallet L (enc_Wallet L w) = Some w"
    "\<not> json_suffix (wm_walletDir p)" "wm_walletDir p \<noteq> []"
  shows "InitWallet L fs' (wm_walletDir p) = Inr p"
  using assms
  by (auto simp: SaveWallet_def InitWallet_def LoadWalletFile_def wallet_file_def NewWalletManager_def split: if_splits)

lemma LoadWalletFile_json:
  assumes "LoadWalletFile L fs p = Inr p'" "json_suffix (wm_walletDir p)"
  shows "fs (wm_walletDir p') \<noteq> None \<and> wm_walletDir p' = wm_walletDir p"
  using assms by (auto simp: LoadWalletFile_def wallet_file_def split: if_splits option.splits)

end
