(* ===== verification/Hub.thy ===== *)
theory Hub
  imports Blockchain
begin

text \<open>
  \<open>api/websocket.go\<close>: the hub that distributes events to WebSocket clients.  A client is a number; \<open>hub_objs\<close> holds
  its object and \<open>hub_clients\<close> the registered ones.  A client's channel holds at most 256 messages.  What arrives at
  the hub or is done by a client's goroutine is an event, and a run is a sequence of events.  Sending on a closed
  channel and closing a channel twice are run-time panics.
\<close>

section \<open>State\<close>

record WSMessage =
  ws_Event :: string
  ws_Data :: json

definition EventNewBlock :: string where "EventNewBlock = ''new_block''"
definition EventNewTransaction :: string where "EventNewTransaction = ''new_transaction''"
definition EventConsensusStateChange :: string where "EventConsensusStateChange = ''consensus_state_change''"

text \<open>\<open>cl_written\<close> is what the client's connection has been given; \<open>cl_pumping\<close> whether \<open>writePump\<close> runs.\<close>

record WSClient =
  cl_send :: "byte list list"
  cl_closed :: bool
  cl_pumping :: bool
  cl_written :: "byte list list"

record WSHub =
  hub_clients :: "(nat, bool) gomap"
  hub_objs :: "(nat, WSClient) gomap"
  hub_consensusStateProvider :: bool
  hub_latestBlockProvider :: bool

datatype hub_panic = SendOnClosed | CloseOfClosed

definition NewWSHub :: WSHub where
  "NewWSHub = \<lparr>hub_clients = [], hub_objs = [], hub_consensusStateProvider = False, hub_latestBlockProvider = False\<rparr>"

definition SetConsensusStateProvider :: "WSHub \<Rightarrow> WSHub" where
  "SetConsensusStateProvider h = h\<lparr>hub_consensusStateProvider := True\<rparr>"

definition SetLatestBlockProvider :: "WSHub \<Rightarrow> WSHub" where
  "SetLatestBlockProvider h = h\<lparr>hub_latestBlockProvider := True\<rparr>"

definition GetClientCount :: "WSHub \<Rightarrow> nat" where
  "GetClientCount h = length (hub_clients h)"

definition new_client :: WSClient where
  "new_client = \<lparr>cl_send = [], cl_closed = False, cl_pumping = False, cl_written = []\<rparr>"

definition client_of :: "WSHub \<Rightarrow> nat \<Rightarrow> WSClient" where
  "client_of h c = (case map_of (hub_objs h) c of None \<Rightarrow> new_client | Some x \<Rightarrow> x)"

definition upd_client :: "nat \<Rightarrow> (WSClient \<Rightarrow> WSClient) \<Rightarrow> WSHub \<Rightarrow> WSHub" where
  "upd_client c f h = h\<lparr>hub_objs := mput c (f (client_of h c)) (hub_objs h)\<rparr>"

section \<open>Messages\<close>

text \<open>The JSON encoder writes the keys of a map in order.\<close>

definition block_json :: "Block \<Rightarrow> json" where
  "block_json block =
     JObj [(''hash'', JStr (HashToString (blk_Hash block))), (''height'', JNum (uint (blk_Height block))),
           (''prevHash'', JStr (HashToString (hdr_PrevHash (blk_Header block)))), (''timestamp'', JNum (hdr_Timestamp (blk_Header block))),
           (''txCount'', JNum (int (length (blk_Transactions block))))]"

definition state_json :: "string \<Rightarrow> uint64 \<Rightarrow> uint32 \<Rightarrow> string \<Rightarrow> json" where
  "state_json state height rd proposerAddr =
     JObj [(''height'', JNum (uint height)), (''proposerAddr'', JStr proposerAddr), (''round'', JNum (uint rd)), (''state'', JStr state)]"

definition marshal_message :: "crypto \<Rightarrow> WSMessage \<Rightarrow> byte list" where
  "marshal_message C msg = json_text C (JObj [(''event'', JStr (ws_Event msg)), (''data'', ws_Data msg)])"

definition BroadcastNewBlock :: "Block \<Rightarrow> WSMessage" where
  "BroadcastNewBlock block = \<lparr>ws_Event = EventNewBlock, ws_Data = block_json block\<rparr>"

definition BroadcastNewTransaction :: "Transaction \<Rightarrow> WSMessage" where
  "BroadcastNewTransaction tx =
     \<lparr>ws_Event = EventNewTransaction,
      ws_Data = JObj [(''inputs'', JNum (int (length (ins tx)))), (''memo'', JStr (tx_Memo tx)), (''outputs'', JNum (int (length (outs tx)))),
                      (''timestamp'', JNum (tx_Timestamp tx)), (''txId'', JStr (HashToString (tx_ID tx)))]\<rparr>"

definition Hub_BroadcastConsensusState :: "string \<Rightarrow> uint64 \<Rightarrow> uint32 \<Rightarrow> string \<Rightarrow> WSMessage" where
  "Hub_BroadcastConsensusState state height rd proposerAddr =
     \<lparr>ws_Event = EventConsensusStateChange, ws_Data = state_json state height rd proposerAddr\<rparr>"

text \<open>What the providers return is an argument.\<close>

definition getCurrentConsensusState :: "crypto \<Rightarrow> WSHub \<Rightarrow> string \<times> uint64 \<times> uint32 \<times> string \<Rightarrow> byte list option" where
  "getCurrentConsensusState C h provided =
     (if \<not> hub_consensusStateProvider h then None
      else case provided of (state, height, rd, proposerAddr) \<Rightarrow>
        Some (marshal_message C \<lparr>ws_Event = EventConsensusStateChange, ws_Data = state_json state height rd proposerAddr\<rparr>))"

definition getLatestBlockMessage :: "crypto \<Rightarrow> WSHub \<Rightarrow> Block option \<Rightarrow> byte list option" where
  "getLatestBlockMessage C h provided =
     (if \<not> hub_latestBlockProvider h then None
      else map_option (\<lambda>block. marshal_message C \<lparr>ws_Event = EventNewBlock, ws_Data = block_json block\<rparr>) provided)"

section \<open>Events\<close>

definition channel_size :: nat where "channel_size = 256"

definition close_channel :: "nat \<Rightarrow> WSHub \<Rightarrow> hub_panic + WSHub" where
  "close_channel c h =
     (if cl_closed (client_of h c) then Inl CloseOfClosed else Inr (upd_client c (\<lambda>x. x\<lparr>cl_closed := True\<rparr>) h))"

definition enqueue :: "nat \<Rightarrow> byte list \<Rightarrow> WSHub \<Rightarrow> WSHub" where
  "enqueue c data = upd_client c (\<lambda>x. x\<lparr>cl_send := cl_send x @ [data]\<rparr>)"

text \<open>The body of the loop over the clients: a client whose channel is full is closed and forgotten.\<close>

definition offer :: "byte list \<Rightarrow> WSHub \<Rightarrow> nat \<Rightarrow> hub_panic + WSHub" where
  "offer data h c =
     (if cl_closed (client_of h c) then Inl SendOnClosed
      else if length (cl_send (client_of h c)) < channel_size then Inr (enqueue c data h)
      else bindE (close_channel c h) (\<lambda>h'. Inr (h'\<lparr>hub_clients := mdel c (hub_clients h')\<rparr>)))"

datatype hub_event =
    Register nat
  | Unregister nat
  | BroadcastMsg WSMessage "(nat, bool) ranging"
  | DirectSend nat "byte list"
  | StartPump nat
  | WriteNext nat bool

text \<open>
  The three cases of \<open>Run\<close>, the sends of \<open>HandleWebSocket\<close> to its client, and one turn of \<open>writePump\<close> (whose flag says
  whether the write succeeds).  A connection registers the client it has just made.  A direct send waits while the
  channel is full.
\<close>

definition Run_register :: "nat \<Rightarrow> WSHub \<Rightarrow> WSHub" where
  "Run_register c h = h\<lparr>hub_clients := mput c True (hub_clients h), hub_objs := mput c new_client (hub_objs h)\<rparr>"

definition Run_unregister :: "nat \<Rightarrow> WSHub \<Rightarrow> hub_panic + WSHub" where
  "Run_unregister c h =
     (if map_of (hub_clients h) c = None then Inr h else close_channel c (h\<lparr>hub_clients := mdel c (hub_clients h)\<rparr>))"

definition Run_broadcast :: "crypto \<Rightarrow> WSMessage \<Rightarrow> (nat, bool) ranging \<Rightarrow> WSHub \<Rightarrow> hub_panic + WSHub" where
  "Run_broadcast C msg \<rho> h = foldE (offer (marshal_message C msg)) h (map fst (\<rho> (hub_clients h)))"

definition direct_send :: "nat \<Rightarrow> byte list \<Rightarrow> WSHub \<Rightarrow> hub_panic + WSHub" where
  "direct_send c data h =
     (if cl_closed (client_of h c) then Inl SendOnClosed
      else if length (cl_send (client_of h c)) < channel_size then Inr (enqueue c data h) else Inr h)"

definition writePump :: "nat \<Rightarrow> bool \<Rightarrow> WSHub \<Rightarrow> WSHub" where
  "writePump c ok h =
     (let x = client_of h c in
      if \<not> cl_pumping x then h
      else case cl_send x of
             [] \<Rightarrow> if cl_closed x then upd_client c (\<lambda>x. x\<lparr>cl_pumping := False\<rparr>) h else h
           | m # ms \<Rightarrow>
               if ok then upd_client c (\<lambda>x. x\<lparr>cl_send := ms, cl_written := cl_written x @ [m]\<rparr>) h
               else upd_client c (\<lambda>x. x\<lparr>cl_send := ms, cl_pumping := False\<rparr>) h)"

definition hub_step :: "crypto \<Rightarrow> WSHub \<Rightarrow> hub_event \<Rightarrow> hub_panic + WSHub" where
  "hub_step C h ev =
     (case ev of
        Register c \<Rightarrow> Inr (Run_register c h)
      | Unregister c \<Rightarrow> Run_unregister c h
      | BroadcastMsg msg \<rho> \<Rightarrow> Run_broadcast C msg \<rho> h
      | DirectSend c data \<Rightarrow> direct_send c data h
      | StartPump c \<Rightarrow> Inr (upd_client c (\<lambda>x. x\<lparr>cl_pumping := True\<rparr>) h)
      | WriteNext c ok \<Rightarrow> Inr (writePump c ok h))"

definition welcomeMsg :: WSMessage where
  "welcomeMsg = \<lparr>ws_Event = ''connected'', ws_Data = JObj [(''message'', JStr ''Connected to ABCFe WebSocket'')]\<rparr>"

text \<open>The events of one connection, in order; others may come between them.\<close>

definition HandleWebSocket :: "crypto \<Rightarrow> WSHub \<Rightarrow> string \<times> uint64 \<times> uint32 \<times> string \<Rightarrow> Block option \<Rightarrow> nat \<Rightarrow> hub_event list" where
  "HandleWebSocket C h state block c =
     [Register c, DirectSend c (marshal_message C welcomeMsg)] @
     (case getCurrentConsensusState C h state of None \<Rightarrow> [] | Some data \<Rightarrow> [DirectSend c data]) @
     (case getLatestBlockMessage C h block of None \<Rightarrow> [] | Some data \<Rightarrow> [DirectSend c data]) @ [StartPump c]"

section \<open>The hub does not panic\<close>

text \<open>The registered clients are those whose channel is open, and no channel holds more than it can.\<close>

definition wf_Hub :: "WSHub \<Rightarrow> bool" where
  "wf_Hub h \<longleftrightarrow> wf_map (hub_clients h) \<and> (\<forall>c. map_of (hub_clients h) c \<noteq> None \<longrightarrow> \<not> cl_closed (client_of h c)) \<and>
     (\<forall>c. length (cl_send (client_of h c)) \<le> channel_size)"

lemma client_of_upd [simp]: "client_of (upd_client c f h) d = (if d = c then f (client_of h c) else client_of h d)"
  by (simp add: client_of_def upd_client_def map_of_mput)

lemma hub_frame [simp]:
  "hub_clients (upd_client c f h) = hub_clients h" "client_of (h\<lparr>hub_clients := m\<rparr>) d = client_of h d"
  "hub_clients (enqueue c x h) = hub_clients h"
  by (simp_all add: client_of_def upd_client_def enqueue_def)

lemma client_of_register [simp]: "client_of (Run_register c h) d = (if d = c then new_client else client_of h d)"
  by (simp add: client_of_def Run_register_def map_of_mput)

lemma client_of_enqueue [simp]:
  "client_of (enqueue c x h) d = (if d = c then (client_of h c)\<lparr>cl_send := cl_send (client_of h c) @ [x]\<rparr> else client_of h d)"
  by (simp add: enqueue_def)

text \<open>What an offer does to a registered client.\<close>

definition dropped :: "nat \<Rightarrow> WSHub \<Rightarrow> WSHub" where
  "dropped c h = (upd_client c (\<lambda>x. x\<lparr>cl_closed := True\<rparr>) h)\<lparr>hub_clients := mdel c (hub_clients h)\<rparr>"

lemma offer_open:
  assumes "\<not> cl_closed (client_of h c)"
  shows "offer x h c = Inr (if length (cl_send (client_of h c)) < channel_size then enqueue c x h else dropped c h)"
  using assms by (simp add: offer_def close_channel_def dropped_def)

lemma wf_enqueue: "wf_Hub h \<Longrightarrow> length (cl_send (client_of h c)) < channel_size \<Longrightarrow> wf_Hub (enqueue c x h)"
  by (auto simp: wf_Hub_def)

lemma wf_dropped: "wf_Hub h \<Longrightarrow> wf_Hub (dropped c h)"
  by (auto simp: wf_Hub_def dropped_def map_of_mdel)

lemma wf_register: "wf_Hub h \<Longrightarrow> wf_Hub (Run_register c h)"
  by (auto simp: wf_Hub_def new_client_def) (auto simp: Run_register_def map_of_mput split: if_splits)

lemma wf_unregister: "wf_Hub h \<Longrightarrow> \<exists>h'. Run_unregister c h = Inr h' \<and> wf_Hub h'"
  by (auto simp: wf_Hub_def Run_unregister_def close_channel_def map_of_mdel)

lemma wf_writePump: "wf_Hub h \<Longrightarrow> wf_Hub (writePump c ok h)"
proof -
  assume wf: "wf_Hub h"
  then have len: "length (cl_send (client_of h c)) \<le> channel_size" by (simp add: wf_Hub_def)
  from wf show ?thesis
    by (cases "cl_send (client_of h c)") (use len in \<open>auto simp: wf_Hub_def writePump_def Let_def\<close>)
qed

text \<open>Offers to distinct registered clients succeed; each client gets the message or is dropped.\<close>

lemma offers:
  assumes "wf_Hub h" "distinct cs" "\<forall>c\<in>set cs. map_of (hub_clients h) c \<noteq> None"
  shows "\<exists>h'. foldE (offer x) h cs = Inr h' \<and> wf_Hub h' \<and>
    (\<forall>c. client_of h' c =
       (if c \<in> set cs then if length (cl_send (client_of h c)) < channel_size then client_of (enqueue c x h) c else client_of (dropped c h) c
        else client_of h c)) \<and>
    (\<forall>c. map_of (hub_clients h') c =
       (if c \<in> set cs \<and> \<not> length (cl_send (client_of h c)) < channel_size then None else map_of (hub_clients h) c))"
  using assms
proof (induction cs arbitrary: h)
  case (Cons c cs)
  have o: "\<not> cl_closed (client_of h c)" using Cons.prems by (auto simp: wf_Hub_def)
  define h1 where "h1 = (if length (cl_send (client_of h c)) < channel_size then enqueue c x h else dropped c h)"
  have h1: "offer x h c = Inr h1" using offer_open [OF o] by (simp add: h1_def)
  have others: "client_of h1 d = client_of h d" "map_of (hub_clients h1) d = map_of (hub_clients h) d" if "d \<noteq> c" for d
    using that by (simp_all add: h1_def dropped_def map_of_mdel)
  have "wf_Hub h1" using Cons.prems(1) by (simp add: h1_def wf_enqueue wf_dropped)
  moreover have "map_of (hub_clients h1) d \<noteq> None" if "d \<in> set cs" for d
    using that Cons.prems(2,3) others(2) [of d] by (cases "d = c") auto
  ultimately obtain h' where h': "foldE (offer x) h1 cs = Inr h'" "wf_Hub h'"
    "\<forall>d. client_of h' d = (if d \<in> set cs then if length (cl_send (client_of h1 d)) < channel_size then client_of (enqueue d x h1) d
       else client_of (dropped d h1) d else client_of h1 d)"
    "\<forall>d. map_of (hub_clients h') d = (if d \<in> set cs \<and> \<not> length (cl_send (client_of h1 d)) < channel_size then None else map_of (hub_clients h1) d)"
    using Cons.IH [of h1] Cons.prems(2) by auto
  have c: "c \<notin> set cs" using Cons.prems(2) by simp
  have "client_of h' d = (if d \<in> set (c # cs) then if length (cl_send (client_of h d)) < channel_size then client_of (enqueue d x h) d
       else client_of (dropped d h) d else client_of h d)" for d
    using h'(3) [rule_format, of d] c others [of d] by (cases "d = c") (auto simp: h1_def dropped_def)
  moreover have "map_of (hub_clients h') d =
      (if d \<in> set (c # cs) \<and> \<not> length (cl_send (client_of h d)) < channel_size then None else map_of (hub_clients h) d)" for d
    using h'(4) [rule_format, of d] c others [of d] by (cases "d = c") (auto simp: h1_def dropped_def map_of_mdel)
  ultimately show ?case using h1 h'(1,2) by simp
qed simp

lemma range_keys:
  assumes "range_ok \<rho>" "wf_map m"
  shows "distinct (map fst (\<rho> m))" "set (map fst (\<rho> m)) = {c. map_of m c \<noteq> None}"
proof -
  have it: "iterates (\<rho> m) m" using assms(1) by (rule range_okD)
  show "distinct (map fst (\<rho> m))" using iterates_wf [OF it assms(2)] by (simp add: wf_map_def)
  show "set (map fst (\<rho> m)) = {c. map_of m c \<noteq> None}" using iterates_set [OF it] by (auto simp: map_of_eq_None_iff)
qed

lemma broadcast_effect:
  assumes "wf_Hub h" "range_ok \<rho>"
  shows "\<exists>h'. Run_broadcast C msg \<rho> h = Inr h' \<and> wf_Hub h' \<and>
    (\<forall>c. map_of (hub_clients h') c \<noteq> None \<longrightarrow> map_of (hub_clients h) c \<noteq> None \<and>
       cl_send (client_of h' c) = cl_send (client_of h c) @ [marshal_message C msg]) \<and>
    (\<forall>c. map_of (hub_clients h') c = None \<longrightarrow> cl_send (client_of h' c) = cl_send (client_of h c)) \<and>
    (\<forall>c. cl_written (client_of h' c) = cl_written (client_of h c)) \<and>
    (\<forall>c. cl_closed (client_of h c) \<longrightarrow> cl_closed (client_of h' c)) \<and>
    (\<forall>c. cl_pumping (client_of h' c) = cl_pumping (client_of h c))"
proof -
  have wf: "wf_map (hub_clients h)" using assms(1) by (simp add: wf_Hub_def)
  note keys = range_keys [OF assms(2) wf]
  define cs where "cs = map fst (\<rho> (hub_clients h))"
  have mem: "c \<in> set cs \<longleftrightarrow> map_of (hub_clients h) c \<noteq> None" for c using keys(2) by (simp add: cs_def)
  have "\<forall>c\<in>set cs. map_of (hub_clients h) c \<noteq> None" using mem by blast
  from offers [OF assms(1) keys(1) [folded cs_def] this, of "marshal_message C msg"]
  obtain h' where h': "Run_broadcast C msg \<rho> h = Inr h'" "wf_Hub h'"
    "\<forall>c. client_of h' c =
       (if map_of (hub_clients h) c \<noteq> None then if length (cl_send (client_of h c)) < channel_size then client_of (enqueue c (marshal_message C msg) h) c
        else client_of (dropped c h) c else client_of h c)"
    "\<forall>c. map_of (hub_clients h') c =
       (if map_of (hub_clients h) c \<noteq> None \<and> \<not> length (cl_send (client_of h c)) < channel_size then None else map_of (hub_clients h) c)"
    unfolding Run_broadcast_def cs_def [symmetric] mem by blast
  show ?thesis
    by (intro exI [of _ h'] conjI allI impI) (use h' in \<open>auto simp: dropped_def split: if_splits\<close>)
qed

section \<open>What a client receives\<close>

text \<open>An event that does not set up the client \<open>c\<close>, and the broadcasts among events.\<close>

fun quiet_for :: "nat \<Rightarrow> hub_event \<Rightarrow> bool" where
  "quiet_for c (Register d) \<longleftrightarrow> d \<noteq> c"
| "quiet_for c (StartPump d) \<longleftrightarrow> d \<noteq> c"
| "quiet_for c (DirectSend d x) \<longleftrightarrow> d \<noteq> c"
| "quiet_for c e \<longleftrightarrow> True"

fun ranges_ok :: "hub_event \<Rightarrow> bool" where
  "ranges_ok (BroadcastMsg msg \<rho>) \<longleftrightarrow> range_ok \<rho>"
| "ranges_ok e \<longleftrightarrow> True"

fun is_direct :: "hub_event \<Rightarrow> bool" where
  "is_direct (DirectSend d x) \<longleftrightarrow> True"
| "is_direct e \<longleftrightarrow> False"

fun news :: "crypto \<Rightarrow> hub_event \<Rightarrow> byte list list" where
  "news C (BroadcastMsg msg \<rho>) = [marshal_message C msg]"
| "news C e = []"

definition stream :: "crypto \<Rightarrow> hub_event list \<Rightarrow> byte list list" where
  "stream C es = concat (map (news C) es)"

text \<open>
  The client has been given a prefix of the stream \<open>s\<close>, has the next part of it waiting while its pump runs, and misses
  nothing while it is registered.
\<close>

definition follows :: "nat \<Rightarrow> byte list list \<Rightarrow> WSHub \<Rightarrow> bool" where
  "follows c s h \<longleftrightarrow>
     (let x = client_of h c in
      (\<exists>r. cl_written x @ r = s) \<and> (cl_pumping x \<longrightarrow> (\<exists>r. cl_written x @ cl_send x @ r = s)) \<and>
      (cl_pumping x \<and> map_of (hub_clients h) c \<noteq> None \<longrightarrow> cl_written x @ cl_send x = s))"

lemma follows_same:
  "follows c s h \<Longrightarrow> client_of h' c = client_of h c \<Longrightarrow> map_of (hub_clients h') c = map_of (hub_clients h) c \<Longrightarrow> follows c s h'"
  by (simp add: follows_def)

lemma step_wf:
  assumes "wf_Hub h" "ranges_ok e" "hub_step C h e = Inr h'"
  shows "wf_Hub h'"
proof (cases e)
  case (Register d)
  with assms show ?thesis by (auto simp: hub_step_def wf_register)
next
  case (Unregister d)
  with assms wf_unregister [OF assms(1), of d] show ?thesis by (auto simp: hub_step_def)
next
  case (BroadcastMsg msg \<rho>)
  with assms broadcast_effect [OF assms(1), of \<rho> C msg] show ?thesis by (auto simp: hub_step_def)
next
  case (DirectSend d x)
  with assms show ?thesis by (auto simp: hub_step_def direct_send_def wf_enqueue split: if_splits)
next
  case (StartPump d)
  with assms show ?thesis by (auto simp: hub_step_def wf_Hub_def split: if_splits)
next
  case (WriteNext d ok)
  with assms show ?thesis by (auto simp: hub_step_def wf_writePump)
qed

lemma step_total:
  assumes "wf_Hub h" "ranges_ok e" "\<not> is_direct e"
  shows "\<exists>h'. hub_step C h e = Inr h'"
proof (cases e)
  case (Unregister d)
  with wf_unregister [OF assms(1), of d] show ?thesis by (auto simp: hub_step_def)
next
  case (BroadcastMsg msg \<rho>)
  with assms broadcast_effect [OF assms(1), of \<rho> C msg] show ?thesis by (auto simp: hub_step_def)
qed (use assms(3) in \<open>simp_all add: hub_step_def\<close>)

lemma follows_broadcast:
  assumes "wf_Hub h" "range_ok \<rho>" "Run_broadcast C msg \<rho> h = Inr h'" "follows c s h"
  shows "follows c (s @ [marshal_message C msg]) h'"
proof -
  let ?x = "client_of h c" let ?y = "client_of h' c"
  from broadcast_effect [OF assms(1,2), of C msg] assms(3) have
    reg: "map_of (hub_clients h') c \<noteq> None \<longrightarrow> map_of (hub_clients h) c \<noteq> None \<and> cl_send ?y = cl_send ?x @ [marshal_message C msg]"
    and out: "map_of (hub_clients h') c = None \<longrightarrow> cl_send ?y = cl_send ?x"
    and same: "cl_written ?y = cl_written ?x" "cl_pumping ?y = cl_pumping ?x"
    by auto
  from assms(4) have f: "\<exists>r. cl_written ?x @ r = s" "cl_pumping ?x \<longrightarrow> (\<exists>r. cl_written ?x @ cl_send ?x @ r = s)"
    "cl_pumping ?x \<and> map_of (hub_clients h) c \<noteq> None \<longrightarrow> cl_written ?x @ cl_send ?x = s"
    by (simp_all add: follows_def Let_def)
  have "\<exists>r. cl_written ?y @ r = s @ [marshal_message C msg]" using f(1) same(1) by auto
  moreover have "cl_written ?y @ cl_send ?y = s @ [marshal_message C msg]" if "cl_pumping ?y" "map_of (hub_clients h') c \<noteq> None"
    using that reg f(3) same by auto
  moreover have "\<exists>r. cl_written ?y @ cl_send ?y @ r = s @ [marshal_message C msg]" if "cl_pumping ?y" "map_of (hub_clients h') c = None"
    using that out f(2) same by auto
  ultimately show ?thesis unfolding follows_def Let_def by (metis append.assoc append_Nil2)
qed

lemma follows_write: "follows c s h \<Longrightarrow> follows c s (writePump d ok h)"
  by (cases "d = c"; cases "cl_send (client_of h c)"; cases "cl_pumping (client_of h d)"; cases "cl_send (client_of h d)")
    (auto simp: follows_def writePump_def Let_def)

lemma follows_step:
  assumes "wf_Hub h" "ranges_ok e" "quiet_for c e" "hub_step C h e = Inr h'" "follows c s h"
  shows "follows c (s @ news C e) h'"
proof (cases e)
  case (Register d)
  have "map_of (hub_clients (Run_register d h)) c = map_of (hub_clients h) c" using Register assms(3)
    by (simp add: Run_register_def map_of_mput)
  with Register assms show ?thesis by (auto simp: hub_step_def intro: follows_same)
next
  case (Unregister d)
  show ?thesis
  proof (cases "d = c")
    case True
    with Unregister assms(4,5) show ?thesis
      by (auto simp: hub_step_def Run_unregister_def close_channel_def follows_def Let_def map_of_mdel split: if_splits)
  next
    case False
    with Unregister assms(4) have "client_of h' c = client_of h c" "map_of (hub_clients h') c = map_of (hub_clients h) c"
      by (auto simp: hub_step_def Run_unregister_def close_channel_def map_of_mdel split: if_splits)
    with Unregister assms(5) show ?thesis by (simp add: follows_same)
  qed
next
  case (BroadcastMsg msg \<rho>)
  with assms follows_broadcast show ?thesis by (simp add: hub_step_def)
next
  case (DirectSend d x)
  with assms(3,4) have "client_of h' c = client_of h c" "map_of (hub_clients h') c = map_of (hub_clients h) c"
    by (auto simp: hub_step_def direct_send_def split: if_splits)
  with DirectSend assms(5) show ?thesis by (simp add: follows_same)
next
  case (StartPump d)
  with assms(3,4) have "client_of h' c = client_of h c" "map_of (hub_clients h') c = map_of (hub_clients h) c"
    by (auto simp: hub_step_def)
  with StartPump assms(5) show ?thesis by (simp add: follows_same)
next
  case (WriteNext d ok)
  with assms follows_write show ?thesis by (auto simp: hub_step_def)
qed

lemma follows_run:
  assumes "wf_Hub h" "\<forall>e\<in>set es. ranges_ok e \<and> quiet_for c e" "foldE (hub_step C) h es = Inr h'" "follows c s h"
  shows "wf_Hub h' \<and> follows c (s @ stream C es) h'"
  using assms
proof (induction es arbitrary: h s)
  case (Cons e es)
  from Cons.prems(3) obtain h1 where h1: "hub_step C h e = Inr h1" "foldE (hub_step C) h1 es = Inr h'" by (auto simp: bindE_Inr)
  have "wf_Hub h1" using step_wf [OF Cons.prems(1) _ h1(1)] Cons.prems(2) by simp
  moreover have "follows c (s @ news C e) h1" using follows_step [OF Cons.prems(1) _ _ h1(1) Cons.prems(4)] Cons.prems(2) by simp
  ultimately show ?case using Cons.IH [OF _ _ h1(2), of "s @ news C e"] Cons.prems(2) by (simp add: stream_def)
qed (simp add: stream_def)

lemma run_total:
  assumes "wf_Hub h" "\<forall>e\<in>set es. ranges_ok e \<and> \<not> is_direct e"
  shows "\<exists>h'. foldE (hub_step C) h es = Inr h'"
  using assms
proof (induction es arbitrary: h)
  case (Cons e es)
  then obtain h1 where h1: "hub_step C h e = Inr h1" using step_total [OF Cons.prems(1), of e C] by auto
  then have "wf_Hub h1" using step_wf [OF Cons.prems(1) _ h1] Cons.prems(2) by simp
  with Cons h1 show ?case by simp
qed simp

text \<open>
  C14: The hub does not panic: whatever clients come and go, it neither sends on a closed channel nor closes one twice, as
  long as no connection is still sending its greeting.  And a client whose greeting is over gets the broadcasts
  in order and without a gap: what its connection was given is at any time a prefix of what was waiting and of the broadcasts
  since, and together with what is waiting it is all of them while the client is registered and its writes succeed.
\<close>

theorem hub_delivers:
  assumes "wf_Hub h" "map_of (hub_clients h) c \<noteq> None" "cl_pumping (client_of h c)" "cl_written (client_of h c) = []"
    "\<forall>e\<in>set es. ranges_ok e \<and> quiet_for c e"
  shows "((\<forall>e\<in>set es. \<not> is_direct e) \<longrightarrow> (\<exists>h'. foldE (hub_step C) h es = Inr h')) \<and>
    (\<forall>h'. foldE (hub_step C) h es = Inr h' \<longrightarrow>
       (\<exists>rest. cl_written (client_of h' c) @ rest = cl_send (client_of h c) @ stream C es) \<and>
       (map_of (hub_clients h') c \<noteq> None \<and> cl_pumping (client_of h' c) \<longrightarrow>
          cl_written (client_of h' c) @ cl_send (client_of h' c) = cl_send (client_of h c) @ stream C es))"
proof (intro conjI impI allI)
  have f: "follows c (cl_send (client_of h c)) h" using assms(2-4) by (simp add: follows_def)
  show "\<exists>h'. foldE (hub_step C) h es = Inr h'" if "\<forall>e\<in>set es. \<not> is_direct e" using run_total [OF assms(1)] assms(5) that by blast
  fix h'
  assume "foldE (hub_step C) h es = Inr h'"
  from follows_run [OF assms(1,5) this f] have "follows c (cl_send (client_of h c) @ stream C es) h'" by blast
  then show "\<exists>rest. cl_written (client_of h' c) @ rest = cl_send (client_of h c) @ stream C es"
    and "map_of (hub_clients h') c \<noteq> None \<and> cl_pumping (client_of h' c) \<Longrightarrow>
      cl_written (client_of h' c) @ cl_send (client_of h' c) = cl_send (client_of h c) @ stream C es"
    by (auto simp: follows_def Let_def)
qed

definition sample_hub :: WSHub where
  "sample_hub = upd_client 7 (\<lambda>x. x\<lparr>cl_pumping := True\<rparr>) (Run_register 7 NewWSHub)"

lemma sample_hub_fields:
  "client_of sample_hub d = (if d = 7 then new_client\<lparr>cl_pumping := True\<rparr> else new_client)" "hub_clients sample_hub = [(7, True)]"
  by (simp add: sample_hub_def) (simp_all add: client_of_def NewWSHub_def sample_hub_def Run_register_def upd_client_def)

theorem hub_delivers_witness:
  "\<exists>h'. foldE (hub_step toy) sample_hub [BroadcastMsg welcomeMsg (\<lambda>m. m), WriteNext 7 True] = Inr h' \<and>
     (\<exists>rest. cl_written (client_of h' 7) @ rest = [marshal_message toy welcomeMsg])"
proof -
  let ?es = "[BroadcastMsg welcomeMsg (\<lambda>m. m), WriteNext 7 True]"
  have wf: "wf_Hub sample_hub" by (auto simp: wf_Hub_def sample_hub_fields wf_map_def new_client_def)
  have "map_of (hub_clients sample_hub) 7 \<noteq> None" "cl_pumping (client_of sample_hub 7)" "cl_written (client_of sample_hub 7) = []"
    by (simp_all add: sample_hub_fields new_client_def)
  from hub_delivers [OF wf this, of ?es toy] show ?thesis by (auto simp: sample_hub_fields new_client_def stream_def)
qed

text \<open>
  A greeting may panic: when 257 broadcasts come between the registration of a client and the first message to it, its
  channel is full and then closed, and the send is one on a closed channel.
\<close>

lemma broadcasts_fill:
  assumes "n \<le> channel_size"
  shows "\<exists>h. foldE (hub_step C) (Run_register c NewWSHub) (replicate n (BroadcastMsg msg (\<lambda>m. m))) = Inr h \<and>
    hub_clients h = [(c, True)] \<and> length (cl_send (client_of h c)) = n \<and> \<not> cl_closed (client_of h c)"
  using assms
proof (induction n)
  case 0
  then show ?case by (simp add: new_client_def) (simp add: Run_register_def NewWSHub_def)
next
  case (Suc n)
  then obtain h where h: "foldE (hub_step C) (Run_register c NewWSHub) (replicate n (BroadcastMsg msg (\<lambda>m. m))) = Inr h"
    "hub_clients h = [(c, True)]" "length (cl_send (client_of h c)) = n" "\<not> cl_closed (client_of h c)" by auto
  have "hub_step C h (BroadcastMsg msg (\<lambda>m. m)) = Inr (enqueue c (marshal_message C msg) h)"
    using h(2-4) Suc.prems by (simp add: hub_step_def Run_broadcast_def offer_def)
  moreover have "replicate (Suc n) (BroadcastMsg msg (\<lambda>m. m)) = replicate n (BroadcastMsg msg (\<lambda>m. m)) @ [BroadcastMsg msg (\<lambda>m. m)]"
    by (simp add: replicate_append_same)
  ultimately show ?case using h by (simp add: foldE_append del: replicate_Suc)
qed

lemma greeting_panics:
  "foldE (hub_step C) NewWSHub (Register c # replicate (Suc channel_size) (BroadcastMsg msg (\<lambda>m. m)) @ [DirectSend c x]) = Inl SendOnClosed"
proof -
  obtain h where h: "foldE (hub_step C) (Run_register c NewWSHub) (replicate channel_size (BroadcastMsg msg (\<lambda>m. m))) = Inr h"
    "hub_clients h = [(c, True)]" "length (cl_send (client_of h c)) = channel_size" "\<not> cl_closed (client_of h c)"
    using broadcasts_fill [of channel_size] by blast
  let ?h = "(upd_client c (\<lambda>x. x\<lparr>cl_closed := True\<rparr>) h)\<lparr>hub_clients := []\<rparr>"
  have "hub_step C h (BroadcastMsg msg (\<lambda>m. m)) = Inr ?h" "hub_step C ?h (DirectSend c x) = Inl SendOnClosed"
    using h(2-4) by (simp_all add: hub_step_def Run_broadcast_def offer_def close_channel_def direct_send_def)
  moreover have "replicate (Suc channel_size) (BroadcastMsg msg (\<lambda>m. m)) = replicate channel_size (BroadcastMsg msg (\<lambda>m. m)) @ [BroadcastMsg msg (\<lambda>m. m)]"
    by (simp add: replicate_append_same)
  moreover have "hub_step C NewWSHub (Register c) = Inr (Run_register c NewWSHub)" by (simp add: hub_step_def)
  ultimately show ?thesis using h(1) by (simp add: foldE_append del: replicate_Suc)
qed

end
