(* ===== verification/Rest.thy ===== *)
theory Rest
  imports Wallet App Hub Accounts
begin

text \<open>
  \<open>api/rest\<close>: the handlers of the REST interface (\<open>handler.go\<close>), what they send back (\<open>types.go\<close>), and which router offers
  which of them (\<open>routes.go\<close>, \<open>server.go\<close>).  A request body is what the JSON decoder makes of it, \<open>None\<close> when it fails; a
  response is its status code with the data or the error, before the JSON encoder.  A handler that changes the node
  returns the new chain, service or wallet with its response.  Clock, randomness and map orders are arguments.
\<close>

section \<open>Responses\<close>

datatype api_error =
    BadBody
  | BadNumber string
  | BadText enc_error
  | CoreError core_error
  | WalletFailed wallet_error
  | NoWalletLoaded
  | BadAccountIndex int
  | BadTo enc_error
  | CreateFailed core_error
  | BadSignatures core_error
  | BadInputSignature nat enc_error
  | BadInputKey nat
  | BadInputTxID nat enc_error
  | BadOutputAddress nat enc_error
  | SaveFailed wallet_error
  | NoHub
  | NoConsensus
  | NoP2P

record 'd RestResp =
  re_StatusCode :: nat
  re_Success :: bool
  re_Data :: "'d option"
  re_Error :: "api_error option"

definition StatusOK :: nat where "StatusOK = 200"
definition StatusBadRequest :: nat where "StatusBadRequest = 400"
definition StatusNotFound :: nat where "StatusNotFound = 404"
definition StatusInternalServerError :: nat where "StatusInternalServerError = 500"

definition sendResp :: "nat \<Rightarrow> 'd option \<Rightarrow> api_error option \<Rightarrow> 'd RestResp" where
  "sendResp statusCode data err =
     \<lparr>re_StatusCode = statusCode, re_Success = (err = None), re_Data = data, re_Error = err\<rparr>"

record CommitSignatureResp =
  csr_ValidatorAddress :: string
  csr_Signature :: string

record BlockHeaderResp =
  bhr_Hash :: string
  bhr_PrevHash :: string
  bhr_Version :: string
  bhr_Height :: uint64
  bhr_MerkleRoot :: string
  bhr_Timestamp :: int

record TxInputResp =
  tir_txid :: string
  tir_outputIndex :: uint64
  tir_signature :: string
  tir_publicKey :: "byte slice"

record TxOutputResp =
  tor_address :: string
  tor_amount :: uint64
  tor_txType :: uint8
  tor_spent :: bool

record TxResp =
  txr_ID :: string
  txr_Version :: string
  txr_Timestamp :: int
  txr_Inputs :: "TxInputResp list"
  txr_Outputs :: "TxOutputResp list"
  txr_Memo :: string
  txr_Fee :: uint64

record BlockResp =
  br_Header :: BlockHeaderResp
  br_Transactions :: "TxResp list"
  br_Proposer :: string
  br_Signature :: string
  br_CommitSignatures :: "CommitSignatureResp list"

definition formatTxInputsResp :: "TxInput list \<Rightarrow> TxInputResp list" where
  "formatTxInputsResp inputs =
     map (\<lambda>i. \<lparr>tir_txid = HashToString (in_TxID i), tir_outputIndex = in_OutputIndex i, tir_signature = SignatureToString (in_Signature i),
               tir_publicKey = in_PublicKey i\<rparr>) inputs"

text \<open>An output without a record counts as spent.\<close>

definition formatTxOutputsRespWithSpent :: "Hash \<Rightarrow> TxOutput list \<Rightarrow> BlockChain \<Rightarrow> TxOutputResp list" where
  "formatTxOutputsRespWithSpent txID outputs bc =
     map (\<lambda>(i, output).
        \<lparr>tor_address = AddressToString (out_Address output), tor_amount = out_Amount output, tor_txType = out_TxType output,
         tor_spent = (case GetUtxoByTxIdAndIdx bc txID (go_uint64 i) of Inl e \<Rightarrow> True | Inr utxo \<Rightarrow> utxo_Spent utxo)\<rparr>) (enumerate 0 outputs)"

definition formatTxResp :: "Transaction \<Rightarrow> BlockChain \<Rightarrow> TxResp" where
  "formatTxResp tx bc =
     \<lparr>txr_ID = HashToString (tx_ID tx), txr_Version = tx_Version tx, txr_Timestamp = tx_Timestamp tx,
      txr_Inputs = formatTxInputsResp (ins tx), txr_Outputs = formatTxOutputsRespWithSpent (tx_ID tx) (outs tx) bc,
      txr_Memo = tx_Memo tx, txr_Fee = (case CalculateTxFee bc tx of Inl e \<Rightarrow> 0 | Inr fee \<Rightarrow> fee)\<rparr>"

definition formatTxsResp :: "Transaction list \<Rightarrow> BlockChain \<Rightarrow> TxResp list" where
  "formatTxsResp txs bc = map (\<lambda>tx. formatTxResp tx bc) txs"

definition formatBlockResp :: "Block \<Rightarrow> BlockChain \<Rightarrow> BlockResp" where
  "formatBlockResp block bc =
     \<lparr>br_Header = \<lparr>bhr_Hash = HashToString (blk_Hash block), bhr_PrevHash = HashToString (hdr_PrevHash (blk_Header block)),
        bhr_Version = hdr_Version (blk_Header block), bhr_Height = blk_Height block,
        bhr_MerkleRoot = HashToString (hdr_MerkleRoot (blk_Header block)), bhr_Timestamp = hdr_Timestamp (blk_Header block)\<rparr>,
      br_Transactions = map (\<lambda>tx. formatTxResp tx bc) (blk_Transactions block),
      br_Proposer = AddressToString (blk_Proposer block), br_Signature = SignatureToString (blk_Signature block),
      br_CommitSignatures =
        map (\<lambda>sig. \<lparr>csr_ValidatorAddress = AddressToString (cs_ValidatorAddress sig), csr_Signature = SignatureToString (cs_Signature sig)\<rparr>)
          (blk_CommitSignatures block)\<rparr>"

record UtxoResp =
  ur_txId :: string
  ur_outputIndex :: uint64
  ur_amount :: uint64
  ur_address :: string
  ur_height :: uint64

definition formatUtxoResp :: "UTXO list \<Rightarrow> UtxoResp list" where
  "formatUtxoResp utxos =
     map (\<lambda>u. \<lparr>ur_txId = HashToString (utxo_TxId u), ur_outputIndex = utxo_OutputIndex u, ur_amount = out_Amount (utxo_TxOut u),
               ur_address = AddressToString (out_Address (utxo_TxOut u)), ur_height = utxo_Height u\<rparr>) utxos"

record AddressTxResp =
  atr_txId :: string
  atr_type :: string
  atr_amount :: uint64
  atr_timestamp :: int
  atr_height :: uint64
  atr_spent :: bool
  atr_index :: uint64

definition formatAddressTxInfos :: "AddressTxInfo list \<Rightarrow> AddressTxResp list" where
  "formatAddressTxInfos txInfos =
     map (\<lambda>i. \<lparr>atr_txId = HashToString (ati_TxID i), atr_type = ati_Type i, atr_amount = ati_Amount i, atr_timestamp = ati_Timestamp i,
               atr_height = ati_Height i, atr_spent = ati_Spent i, atr_index = ati_Index i\<rparr>) txInfos"

section \<open>Numbers in requests\<close>

text \<open>\<open>strconv.ParseUint(s, 10, 64)\<close> and \<open>strconv.Atoi\<close>.\<close>

definition strconv_ParseUint :: "string \<Rightarrow> uint64 option" where
  "strconv_ParseUint s =
     (if s = [] then None
      else case dec_to_nat s of None \<Rightarrow> None | Some n \<Rightarrow> if n < 2 ^ 64 then Some (go_uint64 n) else None)"

definition strconv_Atoi :: "string \<Rightarrow> int option" where
  "strconv_Atoi s =
     (let neg = (s \<noteq> [] \<and> hd s = CHR ''-''); ds = (if s \<noteq> [] \<and> hd s \<in> {CHR ''-'', CHR ''+''} then tl s else s) in
      if ds = [] then None
      else case dec_to_nat ds of
             None \<Rightarrow> None
           | Some n \<Rightarrow> let v = (if neg then - int n else int n) in if - (2 ^ 63) \<le> v \<and> v < 2 ^ 63 then Some v else None)"

text \<open>Go's \<open>int\<close>: the result of an operation modulo \<open>2^64\<close>.\<close>

definition wrap_int :: "int \<Rightarrow> int" where
  "wrap_int x = sint (word_of_int x :: uint64)"

section \<open>Queries on the chain\<close>

record StatusResp =
  sr_currentHeight :: uint64
  sr_currentBlockHash :: string
  sr_genesisHash :: string
  sr_networkId :: string
  sr_mempoolSize :: nat

definition HomeHandler :: "(string \<times> string) RestResp" where
  "HomeHandler = sendResp StatusOK (Some (''ABCFE Blockchain API'', ''1.0.0'')) None"

definition GetStatus_api :: "(string \<times> TxWithFee) list \<Rightarrow> BlockChain \<Rightarrow> StatusResp RestResp" where
  "GetStatus_api order bc =
     (let status = GetChainStatus (Some bc);
          genesisHash = (case GetBlockByHeight bc 0 of Inl e \<Rightarrow> [] | Inr b \<Rightarrow> HashToString (blk_Hash b))
      in sendResp StatusOK (Some \<lparr>sr_currentHeight = fst status, sr_currentBlockHash = snd status, sr_genesisHash = genesisHash,
           sr_networkId = ''abcfe-mainnet'', sr_mempoolSize = length (GetTxs order)\<rparr>) None)"

definition GetLatestBlock_api :: "BlockChain \<Rightarrow> BlockResp RestResp" where
  "GetLatestBlock_api bc =
     (case GetBlockByHeight bc (GetLatestHeight bc) of
        Inl e \<Rightarrow> sendResp StatusInternalServerError None (Some (CoreError e))
      | Inr block \<Rightarrow> sendResp StatusOK (Some (formatBlockResp block bc)) None)"

definition GetBlockByHeight_api :: "BlockChain \<Rightarrow> string \<Rightarrow> BlockResp RestResp" where
  "GetBlockByHeight_api bc heightStr =
     (case strconv_ParseUint heightStr of
        None \<Rightarrow> sendResp StatusBadRequest None (Some (BadNumber heightStr))
      | Some height \<Rightarrow>
          (case GetBlockByHeight bc height of
             Inl e \<Rightarrow> sendResp StatusNotFound None (Some (CoreError e))
           | Inr block \<Rightarrow> sendResp StatusOK (Some (formatBlockResp block bc)) None))"

definition GetBlockByHash_api :: "BlockChain \<Rightarrow> string \<Rightarrow> BlockResp RestResp" where
  "GetBlockByHash_api bc hashStr =
     (case StringToHash hashStr of
        Inl e \<Rightarrow> sendResp StatusBadRequest None (Some (BadText e))
      | Inr hash \<Rightarrow>
          (case GetBlockByHash bc hash of
             Inl e \<Rightarrow> sendResp StatusNotFound None (Some (CoreError e))
           | Inr block \<Rightarrow> sendResp StatusOK (Some (formatBlockResp block bc)) None))"

definition GetTx_api :: "BlockChain \<Rightarrow> string \<Rightarrow> TxResp RestResp" where
  "GetTx_api bc txIDStr =
     (case StringToHash txIDStr of
        Inl e \<Rightarrow> sendResp StatusBadRequest None (Some (BadText e))
      | Inr txID \<Rightarrow>
          (case GetTx bc txID of
             Inl e \<Rightarrow> sendResp StatusNotFound None (Some (CoreError e))
           | Inr tx \<Rightarrow> sendResp StatusOK (Some (formatTxResp tx bc)) None))"

definition GetAddressUtxo :: "(string, bool) ranging \<Rightarrow> BlockChain \<Rightarrow> string \<Rightarrow> UtxoResp list RestResp" where
  "GetAddressUtxo \<rho> bc addrStr =
     (case StringToAddress addrStr of
        Inl e \<Rightarrow> sendResp StatusBadRequest None (Some (BadText e))
      | Inr address \<Rightarrow>
          (case GetUtxoList \<rho> bc address False of
             Inl e \<Rightarrow> sendResp StatusNotFound None (Some (CoreError e))
           | Inr utxos \<Rightarrow> sendResp StatusOK (Some (formatUtxoResp utxos)) None))"

definition GetBalanceByUtxo :: "(string, bool) ranging \<Rightarrow> BlockChain \<Rightarrow> string \<Rightarrow> (string \<times> uint64) RestResp" where
  "GetBalanceByUtxo \<rho> bc addrStr =
     (case StringToAddress addrStr of
        Inl e \<Rightarrow> sendResp StatusBadRequest None (Some (BadText e))
      | Inr address \<Rightarrow>
          (case GetBalance \<rho> bc address of
             Inl e \<Rightarrow> sendResp StatusNotFound None (Some (CoreError e))
           | Inr balance \<Rightarrow> sendResp StatusOK (Some (addrStr, balance)) None))"

text \<open>The history may not return; then neither does the request.\<close>

definition GetAddressTransactions_api :: "BlockChain \<Rightarrow> string \<Rightarrow> (string \<times> AddressTxResp list) RestResp option" where
  "GetAddressTransactions_api bc addrStr =
     (case StringToAddress addrStr of
        Inl e \<Rightarrow> Some (sendResp StatusBadRequest None (Some (BadText e)))
      | Inr address \<Rightarrow>
          map_option (\<lambda>txInfos. sendResp StatusOK (Some (addrStr, formatAddressTxInfos txInfos)) None) (GetAddressTransactions bc address))"

definition GetMempoolList :: "(string \<times> TxWithFee) list \<Rightarrow> BlockChain \<Rightarrow> TxResp list RestResp" where
  "GetMempoolList order bc = sendResp StatusOK (Some (formatTxsResp (GetTxs order) bc)) None"

section \<open>Pages of blocks\<close>

record PageResp =
  pgr_blocks :: "BlockResp list"
  pgr_page :: int
  pgr_limit :: int
  pgr_total :: int
  pgr_totalPages :: int

definition page_param :: "string \<Rightarrow> int" where
  "page_param pageStr =
     (if pageStr \<noteq> [] then case strconv_Atoi pageStr of Some p \<Rightarrow> if 0 < p then p else 1 | None \<Rightarrow> 1 else 1)"

definition limit_param :: "string \<Rightarrow> int" where
  "limit_param limitStr =
     (if limitStr \<noteq> [] then case strconv_Atoi limitStr of Some l \<Rightarrow> if 0 < l \<and> l \<le> 100 then l else 10 | None \<Rightarrow> 10 else 10)"

text \<open>The loops: the heights tried, in order, and the blocks found at them.\<close>

definition desc_heights :: "int \<Rightarrow> int \<Rightarrow> int list" where
  "desc_heights startHeight limit =
     takeWhile (\<lambda>h. 0 \<le> h) (map (\<lambda>i. wrap_int (startHeight - int i)) [0..<nat limit])"

definition asc_heights :: "int \<Rightarrow> int \<Rightarrow> int \<Rightarrow> int list" where
  "asc_heights latestHeight startHeight limit =
     takeWhile (\<lambda>h. h \<le> latestHeight) (map (\<lambda>i. wrap_int (startHeight + int i)) [0..<nat limit])"

definition blocks_at :: "BlockChain \<Rightarrow> int list \<Rightarrow> BlockResp list" where
  "blocks_at bc hs =
     concat (map (\<lambda>h. case GetBlockByHeight bc (word_of_int h) of Inl e \<Rightarrow> [] | Inr block \<Rightarrow> [formatBlockResp block bc]) hs)"

text \<open>Division of \<open>int\<close> truncates; the limit is positive.\<close>

definition GetBlocks :: "BlockChain \<Rightarrow> string \<Rightarrow> string \<Rightarrow> string \<Rightarrow> PageResp RestResp" where
  "GetBlocks bc pageStr limitStr order0 =
     (let page = page_param pageStr; limit = limit_param limitStr; order = (if order0 = [] then ''desc'' else order0);
          latestHeight = go_int (GetLatestHeight bc);
          totalBlocks = wrap_int (latestHeight + 1);
          n = wrap_int (wrap_int (totalBlocks + limit) - 1);
          totalPages = sgn n * (\<bar>n\<bar> div limit);
          offset = wrap_int (wrap_int (page - 1) * limit);
          blocks = (if order = ''desc'' then blocks_at bc (desc_heights (wrap_int (latestHeight - offset)) limit)
                    else blocks_at bc (asc_heights latestHeight offset limit))
      in sendResp StatusOK (Some \<lparr>pgr_blocks = blocks, pgr_page = page, pgr_limit = limit, pgr_total = totalBlocks, pgr_totalPages = totalPages\<rparr>) None)"

section \<open>Transactions\<close>

record SubmitTxReq =
  stq_From :: string
  stq_To :: string
  stq_Amount :: uint64
  stq_Fee :: uint64
  stq_Memo :: string
  stq_Data :: "byte slice"

definition fee_or_min :: "BlockChain \<Rightarrow> uint64 \<Rightarrow> uint64" where
  "fee_or_min bc fee = (if fee = 0 then GetMinFee bc else fee)"

definition SubmitTransferTx ::
    "crypto \<Rightarrow> (string, bool) ranging \<Rightarrow> (string, bool) ranging \<Rightarrow> int \<Rightarrow> SubmitTxReq option \<Rightarrow> BlockChain \<Rightarrow> BlockChain \<times> bool RestResp" where
  "SubmitTransferTx C \<rho>1 \<rho>2 now body bc =
     (case body of
        None \<Rightarrow> (bc, sendResp StatusBadRequest None (Some BadBody))
      | Some req \<Rightarrow>
          (case StringToAddress (stq_From req) of
             Inl e \<Rightarrow> (bc, sendResp StatusBadRequest None (Some (BadText e)))
           | Inr sender \<Rightarrow>
               (case StringToAddress (stq_To req) of
                  Inl e \<Rightarrow> (bc, sendResp StatusBadRequest None (Some (BadText e)))
                | Inr to \<Rightarrow>
                    (case SubmitTx C \<rho>1 \<rho>2 bc now sender to (stq_Amount req) (fee_or_min bc (stq_Fee req)) (stq_Memo req) (stq_Data req) TxTypeGeneral of
                       Inl e \<Rightarrow> (bc, sendResp StatusInternalServerError None (Some (CoreError e)))
                     | Inr bc' \<Rightarrow> (bc', sendResp StatusOK (Some True) None)))))"

definition ComposeAndAddBlock ::
    "crypto \<Rightarrow> db_ops \<Rightarrow> (string \<times> TxWithFee) list \<Rightarrow> int \<Rightarrow> BlockChain \<Rightarrow> BlockChain \<times> bool RestResp" where
  "ComposeAndAddBlock C W order now bc =
     (case StringToHash (bc_LatestBlockHash bc) of
        Inl e \<Rightarrow> (bc, sendResp StatusInternalServerError None (Some (BadText e)))
      | Inr prevHash \<Rightarrow>
          let (bc1, blk) = SetBlock C order bc prevHash (bc_LatestHeight bc + 1) zero_Address now in
          case AddBlock W bc1 blk of
            (bc2, Inl e) \<Rightarrow> (bc2, sendResp StatusInternalServerError None (Some (CoreError e)))
          | (bc2, Inr result) \<Rightarrow> (bc2, sendResp StatusOK (Some result) None))"

record SignedTxInput =
  sti_TxID :: string
  sti_OutputIndex :: uint64
  sti_Signature :: string
  sti_PublicKey :: string

record TxOutputReq =
  toq_Address :: string
  toq_Amount :: uint64
  toq_TxType :: uint8

record SubmitSignedTxReq =
  ssq_Version :: string
  ssq_Timestamp :: int
  ssq_Inputs :: "SignedTxInput list"
  ssq_Outputs :: "TxOutputReq list"
  ssq_Memo :: string
  ssq_Data :: "byte slice"

text \<open>A loop that fills a slice and stops at the first error.\<close>

fun mapE :: "('a \<Rightarrow> 'e + 'b) \<Rightarrow> 'a list \<Rightarrow> 'e + 'b list" where
  "mapE f [] = Inr []"
| "mapE f (x # xs) = bindE (f x) (\<lambda>y. bindE (mapE f xs) (\<lambda>ys. Inr (y # ys)))"

definition parse_signature :: "nat \<times> SignedTxInput \<Rightarrow> api_error + (Signature \<times> byte list)" where
  "parse_signature ix =
     (case ix of (i, inp) \<Rightarrow>
        bindE (wrapE (BadInputSignature i) (StringToSignature (sti_Signature inp))) (\<lambda>sig.
        case hex_DecodeString (sti_PublicKey inp) of None \<Rightarrow> Inl (BadInputKey i) | Some pubKey \<Rightarrow> Inr (sig, pubKey)))"

definition parse_input :: "nat \<times> SignedTxInput \<times> byte list \<Rightarrow> api_error + TxInput" where
  "parse_input ix =
     (case ix of (i, inp, pubKey) \<Rightarrow>
        bindE (wrapE (BadInputTxID i) (StringToHash (sti_TxID inp))) (\<lambda>txID.
        Inr \<lparr>in_TxID = txID, in_OutputIndex = sti_OutputIndex inp, in_Signature = zero_Signature, in_PublicKey = Some pubKey\<rparr>))"

definition parse_output :: "nat \<times> TxOutputReq \<Rightarrow> api_error + TxOutput" where
  "parse_output ix =
     (case ix of (i, out) \<Rightarrow>
        bindE (wrapE (BadOutputAddress i) (StringToAddress (toq_Address out))) (\<lambda>addr.
        Inr \<lparr>out_Address = addr, out_Amount = toq_Amount out, out_TxType = toq_TxType out\<rparr>))"

definition convertSignedTxReqToTx :: "crypto \<Rightarrow> SubmitSignedTxReq \<Rightarrow> string \<Rightarrow> api_error + Transaction" where
  "convertSignedTxReqToTx C req networkID =
     bindE (mapE parse_signature (enumerate 0 (ssq_Inputs req))) (\<lambda>sigs.
     bindE (mapE parse_input (enumerate 0 (zip (ssq_Inputs req) (map snd sigs)))) (\<lambda>inputs.
     bindE (mapE parse_output (enumerate 0 (ssq_Outputs req))) (\<lambda>outputs.
     let tx = \<lparr>tx_Version = ssq_Version req, tx_NetworkID = networkID, tx_ID = zero_Hash, tx_Timestamp = ssq_Timestamp req,
               tx_Inputs = Some inputs, tx_Outputs = Some outputs, tx_Memo = ssq_Memo req, tx_Data = nil_to_empty (ssq_Data req)\<rparr>;
         tx1 = tx\<lparr>tx_ID := Hash_Transaction C tx\<rparr>
     in Inr (tx1\<lparr>tx_Inputs := Some (map2 (\<lambda>input sig. input\<lparr>in_Signature := sig\<rparr>) inputs (map fst sigs))\<rparr>))))"

text \<open>What both submissions do with a transaction: the pool, then the network.\<close>

definition pool_and_send ::
    "wire \<Rightarrow> int \<Rightarrow> (string, conn) ranging \<Rightarrow> Transaction \<Rightarrow> BlockChain \<Rightarrow> P2PService option \<Rightarrow> core_error + (BlockChain \<times> P2PService option)" where
  "pool_and_send w now \<rho> tx bc p2p =
     bindE (NewTranaction (bc_Mempool bc) tx) (\<lambda>m. Inr (bc\<lparr>bc_Mempool := m\<rparr>, map_option (BroadcastTx w now \<rho> tx) p2p))"

definition SubmitSignedTx ::
    "crypto \<Rightarrow> wire \<Rightarrow> int \<Rightarrow> (string, conn) ranging \<Rightarrow> SubmitSignedTxReq option \<Rightarrow> BlockChain \<times> P2PService option \<Rightarrow>
     (BlockChain \<times> P2PService option) \<times> string RestResp" where
  "SubmitSignedTx C w now \<rho> body st =
     (case body of
        None \<Rightarrow> (st, sendResp StatusBadRequest None (Some BadBody))
      | Some req \<Rightarrow>
          (case convertSignedTxReqToTx C req (GetNetworkID (fst st)) of
             Inl e \<Rightarrow> (st, sendResp StatusBadRequest None (Some e))
           | Inr tx \<Rightarrow>
               (case ValidateTxSignatures C (fst st) tx of
                  Inl e \<Rightarrow> (st, sendResp StatusBadRequest None (Some (BadSignatures e)))
                | Inr _ \<Rightarrow>
                    (case pool_and_send w now \<rho> tx (fst st) (snd st) of
                       Inl e \<Rightarrow> (st, sendResp StatusInternalServerError None (Some (CoreError e)))
                     | Inr st' \<Rightarrow> (st', sendResp StatusOK (Some (HashToString (tx_ID tx))) None)))))"

record SendTxReq =
  seq_AccountIndex :: int
  seq_To :: string
  seq_Amount :: uint64
  seq_Fee :: uint64
  seq_Memo :: string
  seq_Data :: "byte slice"

record SendTxResp =
  ser_txId :: string
  ser_from :: string
  ser_to :: string

definition SendTxWithWallet ::
    "crypto \<Rightarrow> wire \<Rightarrow> (string, bool) ranging \<Rightarrow> (nat \<Rightarrow> nat) \<Rightarrow> int \<Rightarrow> int \<Rightarrow> (string, conn) ranging \<Rightarrow> SendTxReq option \<Rightarrow> WalletManager option \<Rightarrow>
     BlockChain \<times> P2PService option \<Rightarrow> (BlockChain \<times> P2PService option) \<times> SendTxResp RestResp" where
  "SendTxWithWallet C w \<rho>u r now send \<rho> body wm st =
     (case body of
        None \<Rightarrow> (st, sendResp StatusBadRequest None (Some BadBody))
      | Some req \<Rightarrow>
          (case Option.bind wm wm_Wallet of
             None \<Rightarrow> (st, sendResp StatusInternalServerError None (Some NoWalletLoaded))
           | Some wallet \<Rightarrow>
               let accounts = mw_Accounts wallet; i = seq_AccountIndex req in
               if i < 0 \<or> int (length accounts) \<le> i then (st, sendResp StatusBadRequest None (Some (BadAccountIndex i)))
               else let account = accounts ! nat i; sender = wa_Address account in
                    case StringToAddress (seq_To req) of
                      Inl e \<Rightarrow> (st, sendResp StatusBadRequest None (Some (BadTo e)))
                    | Inr to \<Rightarrow>
                        (case CreateSignedTx C \<rho>u r (fst st) now sender to (seq_Amount req) (fee_or_min (fst st) (seq_Fee req)) (seq_Memo req)
                                (seq_Data req) TxTypeGeneral (wa_PrivateKey account) (Some (wa_PublicKey account)) of
                           Inl e \<Rightarrow> (st, sendResp StatusInternalServerError None (Some (CreateFailed e)))
                         | Inr tx \<Rightarrow>
                             (case pool_and_send w send \<rho> tx (fst st) (snd st) of
                                Inl e \<Rightarrow> (st, sendResp StatusInternalServerError None (Some (CoreError e)))
                              | Inr st' \<Rightarrow>
                                  (st', sendResp StatusOK (Some \<lparr>ser_txId = HashToString (tx_ID tx), ser_from = AddressToString sender, ser_to = seq_To req\<rparr>) None)))))"

section \<open>The wallet\<close>

record WalletAccountResp =
  war_Index :: int
  war_Address :: string
  war_Path :: string

definition account_resp :: "Account_wallet \<Rightarrow> WalletAccountResp" where
  "account_resp a = \<lparr>war_Index = wa_Index a, war_Address = AddressToString (wa_Address a), war_Path = wa_Path a\<rparr>"

definition GetWalletAccounts :: "WalletManager option \<Rightarrow> WalletAccountResp list RestResp" where
  "GetWalletAccounts wm =
     (case Option.bind wm wm_Wallet of
        None \<Rightarrow> sendResp StatusInternalServerError None (Some NoWalletLoaded)
      | Some wallet \<Rightarrow> sendResp StatusOK (Some (map account_resp (mw_Accounts wallet))) None)"

text \<open>The account stays in memory when saving fails.\<close>

definition CreateNewAccount ::
    "crypto \<Rightarrow> walletlib \<Rightarrow> bool \<Rightarrow> bool \<Rightarrow> WalletManager option \<times> files \<Rightarrow> (WalletManager option \<times> files) \<times> WalletAccountResp RestResp" where
  "CreateNewAccount C L dir_ok write_ok st =
     (case fst st of
        None \<Rightarrow> (st, sendResp StatusInternalServerError None (Some NoWalletLoaded))
      | Some wm \<Rightarrow>
          if wm_Wallet wm = None then (st, sendResp StatusInternalServerError None (Some NoWalletLoaded))
          else case AddAccount C L wm of
                 Inl e \<Rightarrow> (st, sendResp StatusInternalServerError None (Some (WalletFailed e)))
               | Inr (wm', account) \<Rightarrow>
                   (case SaveWallet L (snd st) dir_ok write_ok wm' of
                      Inl e \<Rightarrow> ((Some wm', snd st), sendResp StatusInternalServerError None (Some (SaveFailed e)))
                    | Inr fs' \<Rightarrow> ((Some wm', fs'), sendResp StatusOK (Some (account_resp account)) None)))"

section \<open>Consensus, network and WebSocket status\<close>

definition ConsensusState_text :: "ConsensusState \<Rightarrow> string" where
  "ConsensusState_text s =
     (case s of StateIdle \<Rightarrow> ''IDLE'' | StateProposing \<Rightarrow> ''PROPOSING'' | StatePrevoting \<Rightarrow> ''PREVOTING''
      | StatePrecommitting \<Rightarrow> ''PRECOMMITTING'' | StateCommitting \<Rightarrow> ''COMMITTING'')"

text \<open>\<open>GetVoteProgress\<close> of \<open>consensus/engine.go\<close>; \<open>rnd\<close> is the rounding of \<open>float64\<close>.\<close>

record VoteReport =
  vr_votedPower :: uint64
  vr_voteCount :: nat
  vr_percentage :: rat
  vr_hasMajority :: bool

definition vote_report :: "rounding \<Rightarrow> uint64 \<Rightarrow> VoteSet option \<Rightarrow> VoteReport" where
  "vote_report rnd totalPower votes =
     (case votes of
        None \<Rightarrow> \<lparr>vr_votedPower = 0, vr_voteCount = 0, vr_percentage = 0, vr_hasMajority = False\<rparr>
      | Some vs \<Rightarrow>
          \<lparr>vr_votedPower = vt_VotedPower vs, vr_voteCount = length (vt_Votes vs),
           vr_percentage = (if 0 < totalPower
             then rnd (rnd (rnd (of_nat (unat (vt_VotedPower vs))) / rnd (of_nat (unat totalPower))) * 100) else 0),
           vr_hasMajority = totalPower * 2 < vt_VotedPower vs * 3\<rparr>)"

record VoteProgress =
  vpr_height :: uint64
  vpr_round :: uint32
  vpr_totalPower :: uint64
  vpr_prevote :: VoteReport
  vpr_precommit :: VoteReport

definition GetVoteProgress :: "rounding \<Rightarrow> ConsensusEngine \<Rightarrow> VoteProgress" where
  "GetVoteProgress rnd e =
     (let totalPower = vs_TotalVotingPower (co_ValidatorSet (en_consensus e)) in
      \<lparr>vpr_height = co_CurrentHeight (en_consensus e), vpr_round = co_CurrentRound (en_consensus e), vpr_totalPower = totalPower,
       vpr_prevote = vote_report rnd totalPower (en_prevotes e), vpr_precommit = vote_report rnd totalPower (en_precommits e)\<rparr>)"

record ConsensusResp =
  cr_state :: string
  cr_currentHeight :: uint64
  cr_currentRound :: uint32
  cr_proposer :: string
  cr_validators :: "(string \<times> uint64) list"
  cr_voteProgress :: "VoteProgress option"

text \<open>The list of validators and the map of their powers hold the same entries.\<close>

definition GetConsensusStatus ::
    "rounding \<Rightarrow> (string, Validator) ranging \<Rightarrow> (string, Validator) ranging \<Rightarrow> Consensus option \<Rightarrow> ConsensusEngine option \<Rightarrow> ConsensusResp RestResp" where
  "GetConsensusStatus rnd \<rho>1 \<rho>2 cons engine =
     (case cons of
        None \<Rightarrow> sendResp StatusInternalServerError None (Some NoConsensus)
      | Some c \<Rightarrow>
          sendResp StatusOK (Some
            \<lparr>cr_state = ConsensusState_text (co_State c), cr_currentHeight = co_CurrentHeight c, cr_currentRound = co_CurrentRound c,
             cr_proposer = (case GetCurrentProposer \<rho>1 c of None \<Rightarrow> [] | Some v \<Rightarrow> AddressToString (val_Address v)),
             cr_validators = map (\<lambda>(k, v). (k, val_VotingPower v)) (filter (\<lambda>(k, v). val_IsActive v) (\<rho>2 (vs_Validators (co_ValidatorSet c)))),
             cr_voteProgress = map_option (GetVoteProgress rnd) engine\<rparr>) None)"

definition GetWSStatus :: "WSHub option \<Rightarrow> (nat \<times> string) RestResp" where
  "GetWSStatus hub =
     (case hub of
        None \<Rightarrow> sendResp StatusInternalServerError None (Some NoHub)
      | Some h \<Rightarrow> sendResp StatusOK (Some (GetClientCount h, ''/ws'')) None)"

record StatsResp =
  st_height :: uint64
  st_latestHash :: string
  st_pendingTxCount :: nat
  st_wsConnections :: nat

definition GetNetworkStats :: "(string \<times> TxWithFee) list \<Rightarrow> BlockChain \<Rightarrow> WSHub option \<Rightarrow> StatsResp RestResp" where
  "GetNetworkStats order bc hub =
     sendResp StatusOK (Some
       \<lparr>st_height = GetLatestHeight bc, st_latestHash = (case GetLatestBlockHash bc of Inl e \<Rightarrow> [] | Inr h \<Rightarrow> h),
        st_pendingTxCount = length (GetTxs order), st_wsConnections = (case hub of None \<Rightarrow> 0 | Some h \<Rightarrow> GetClientCount h)\<rparr>) None"

record PeerResp =
  per_id :: string
  per_address :: string
  per_state :: string
  per_version :: string
  per_bestHeight :: uint64
  per_lastSeen :: int
  per_inbound :: bool

definition peer_resp :: "Peer \<Rightarrow> PeerResp" where
  "peer_resp p =
     \<lparr>per_id = pe_ID p, per_address = pe_Address p, per_state = PeerState_String (pe_State p), per_version = pe_Version p,
      per_bestHeight = pe_BestHeight p, per_lastSeen = pe_LastSeen p div Second, per_inbound = pe_Inbound p\<rparr>"

definition GetP2PPeers :: "(string, conn) ranging \<Rightarrow> P2PService option \<Rightarrow> (nat \<times> PeerResp list) RestResp" where
  "GetP2PPeers \<rho> p2p =
     (case p2p of
        None \<Rightarrow> sendResp StatusInternalServerError None (Some NoP2P)
      | Some s \<Rightarrow>
          let peers = map (peer_resp \<circ> peer_of (sv_Node s)) (GetPeers \<rho> (sv_Node s)) in sendResp StatusOK (Some (length peers, peers)) None)"

definition GetP2PStatus :: "P2PService option \<Rightarrow> (string \<times> bool \<times> nat) RestResp" where
  "GetP2PStatus p2p =
     (case p2p of
        None \<Rightarrow> sendResp StatusInternalServerError None (Some NoP2P)
      | Some s \<Rightarrow> sendResp StatusOK (Some (no_ID (sv_Node s), sv_running s, GetPeerCount (sv_Node s))) None)"

section \<open>Routes\<close>

text \<open>
  \<open>routes.go\<close>: a router is a list of routes, in the order of registration; a request goes to the first route whose
  path and method match.  A variable matches a non-empty segment.
\<close>

datatype endpoint =
    EHome | EWebSocket | EStatus | EStats | EConsensus | EBlocks | EComposeBlock | ELatestBlock | EBlockByHeight | EBlockByHash
  | ESubmitSigned | ETx | EMempool | EUtxo | EBalance | EAddressTxs | EWSStatus | EPeers | EP2PStatus | ESendTx | EWalletAccounts
  | ENewAccount

datatype seg = Lit string | Var

type_synonym route = "seg list \<times> string option \<times> endpoint"

definition api :: "seg list \<Rightarrow> string \<Rightarrow> endpoint \<Rightarrow> route" where
  "api segs verb e = (Lit ''api'' # Lit ''v1'' # segs, Some verb, e)"

definition setupPublicRouter :: "route list" where
  "setupPublicRouter =
     [([Lit []], Some ''GET'', EHome), ([Lit ''ws''], None, EWebSocket),
      api [Lit ''status''] ''GET'' EStatus, api [Lit ''stats''] ''GET'' EStats, api [Lit ''consensus'', Lit ''status''] ''GET'' EConsensus,
      api [Lit ''blocks''] ''GET'' EBlocks, api [Lit ''block'', Lit ''latest''] ''GET'' ELatestBlock,
      api [Lit ''block'', Lit ''height'', Var] ''GET'' EBlockByHeight, api [Lit ''block'', Var] ''GET'' EBlockByHeight,
      api [Lit ''block'', Lit ''hash'', Var] ''GET'' EBlockByHash,
      api [Lit ''tx'', Lit ''signed''] ''POST'' ESubmitSigned, api [Lit ''tx'', Var] ''GET'' ETx,
      api [Lit ''mempool'', Lit ''list''] ''GET'' EMempool,
      api [Lit ''address'', Var, Lit ''utxo''] ''GET'' EUtxo, api [Lit ''address'', Var, Lit ''balance''] ''GET'' EBalance,
      api [Lit ''address'', Var, Lit ''txs''] ''GET'' EAddressTxs,
      api [Lit ''ws'', Lit ''status''] ''GET'' EWSStatus, api [Lit ''p2p'', Lit ''peers''] ''GET'' EPeers,
      api [Lit ''p2p'', Lit ''status''] ''GET'' EP2PStatus]"

definition setupInternalRouter :: "route list" where
  "setupInternalRouter =
     [([Lit []], Some ''GET'', EHome),
      api [Lit ''status''] ''GET'' EStatus, api [Lit ''stats''] ''GET'' EStats, api [Lit ''consensus'', Lit ''status''] ''GET'' EConsensus,
      api [Lit ''blocks''] ''GET'' EBlocks, api [Lit ''block''] ''POST'' EComposeBlock, api [Lit ''block'', Lit ''latest''] ''GET'' ELatestBlock,
      api [Lit ''block'', Lit ''height'', Var] ''GET'' EBlockByHeight, api [Lit ''block'', Var] ''GET'' EBlockByHeight,
      api [Lit ''block'', Lit ''hash'', Var] ''GET'' EBlockByHash,
      api [Lit ''tx'', Lit ''signed''] ''POST'' ESubmitSigned, api [Lit ''tx'', Var] ''GET'' ETx,
      api [Lit ''mempool'', Lit ''list''] ''GET'' EMempool,
      api [Lit ''address'', Var, Lit ''utxo''] ''GET'' EUtxo, api [Lit ''address'', Var, Lit ''balance''] ''GET'' EBalance,
      api [Lit ''address'', Var, Lit ''txs''] ''GET'' EAddressTxs,
      api [Lit ''ws'', Lit ''status''] ''GET'' EWSStatus, api [Lit ''p2p'', Lit ''peers''] ''GET'' EPeers,
      api [Lit ''p2p'', Lit ''status''] ''GET'' EP2PStatus,
      api [Lit ''tx'', Lit ''send''] ''POST'' ESendTx, api [Lit ''wallet'', Lit ''accounts''] ''GET'' EWalletAccounts,
      api [Lit ''wallet'', Lit ''account'', Lit ''new''] ''POST'' ENewAccount]"

definition setupRouter :: "route list" where
  "setupRouter = setupInternalRouter"

fun match_seg :: "seg \<Rightarrow> string \<Rightarrow> bool" where
  "match_seg (Lit t) s \<longleftrightarrow> s = t"
| "match_seg Var s \<longleftrightarrow> s \<noteq> []"

definition route_matches :: "string \<Rightarrow> string list \<Rightarrow> route \<Rightarrow> bool" where
  "route_matches verb path rt =
     (case rt of (segs, v, e) \<Rightarrow> list_all2 match_seg segs path \<and> (case v of None \<Rightarrow> True | Some u \<Rightarrow> u = verb))"

definition route_for :: "route list \<Rightarrow> string \<Rightarrow> string list \<Rightarrow> endpoint option" where
  "route_for routes verb path = map_option (snd \<circ> snd) (find (route_matches verb path) routes)"

text \<open>\<open>server.go\<close>: which router listens at which address.\<close>

record Server =
  srv_port :: int
  srv_internalPort :: int
  srv_wsHub :: WSHub
  srv_p2p :: bool
  srv_consensusEngine :: bool

definition NewServer :: "int \<Rightarrow> Server" where
  "NewServer port = \<lparr>srv_port = port, srv_internalPort = 0, srv_wsHub = NewWSHub, srv_p2p = False, srv_consensusEngine = False\<rparr>"

definition NewServerWithInternalPort :: "int \<Rightarrow> int \<Rightarrow> Server" where
  "NewServerWithInternalPort port internalPort = (NewServer port)\<lparr>srv_internalPort := internalPort\<rparr>"

definition SetP2P :: "Server \<Rightarrow> Server" where "SetP2P s = s\<lparr>srv_p2p := True\<rparr>"
definition SetConsensusEngine :: "Server \<Rightarrow> Server" where "SetConsensusEngine s = s\<lparr>srv_consensusEngine := True\<rparr>"

definition startSingleServer :: "Server \<Rightarrow> (string \<times> route list) list" where
  "startSingleServer s = [('':'' @ strconv_Itoa (srv_port s), setupRouter)]"

definition startDualServers :: "Server \<Rightarrow> (string \<times> route list) list" where
  "startDualServers s =
     [(''0.0.0.0:'' @ strconv_Itoa (srv_port s), setupPublicRouter), (''127.0.0.1:'' @ strconv_Itoa (srv_internalPort s), setupInternalRouter)]"

definition Server_Start :: "Server \<Rightarrow> (string \<times> route list) list" where
  "Server_Start s = (if 0 < srv_internalPort s then startDualServers s else startSingleServer s)"

end
