(* ===== verification/Rest_Facts.thy ===== *)
theory Rest_Facts
  imports Rest
begin

text \<open>
  Facts on the REST interface: what the two routers offer, how the pages of blocks divide the heights, the request
  that stands for a transaction, and how the assembly of a block treats transactions without inputs.
\<close>

section \<open>Routers\<close>

text \<open>What is to be offered to the own host only.\<close>

lemma find_append: "find P (xs @ ys) = (case find P xs of None \<Rightarrow> find P ys | Some x \<Rightarrow> Some x)"
  by (induction xs) auto

definition sensitive :: "endpoint set" where
  "sensitive = {EComposeBlock, ESendTx, EWalletAccounts, ENewAccount}"

text \<open>The routes that both routers have, before and after the one that builds a block.\<close>

definition shared_first :: "route list" where
  "shared_first = take 4 (drop 2 setupPublicRouter)"

definition shared_rest :: "route list" where
  "shared_rest = drop 6 setupPublicRouter"

definition wallet_routes :: "route list" where
  "wallet_routes = drop 19 setupInternalRouter"

lemma routers_shared:
  "setupPublicRouter = [([Lit []], Some ''GET'', EHome), ([Lit ''ws''], None, EWebSocket)] @ shared_first @ shared_rest"
  "setupInternalRouter = [([Lit []], Some ''GET'', EHome)] @ shared_first @ [api [Lit ''block''] ''POST'' EComposeBlock] @ shared_rest @
     wallet_routes"
  by (simp_all add: shared_first_def shared_rest_def wallet_routes_def setupPublicRouter_def setupInternalRouter_def)

lemma shared_long: "rt \<in> set shared_rest \<Longrightarrow> 4 \<le> length (fst rt) \<and> snd (snd rt) \<notin> sensitive"
  by (auto simp: shared_rest_def setupPublicRouter_def api_def sensitive_def)

lemma shared_first_endpoints: "rt \<in> set shared_first \<Longrightarrow> snd (snd rt) \<notin> sensitive"
  by (auto simp: shared_first_def setupPublicRouter_def api_def sensitive_def)

lemma route_matches_length: "route_matches verb path rt \<Longrightarrow> length path = length (fst rt)"
  by (auto simp: route_matches_def dest: list_all2_lengthD split: prod.splits)

lemma find_in: "find P xs = Some x \<Longrightarrow> x \<in> set xs \<and> P x"
  by (induction xs) (auto split: if_splits)

lemma public_router:
  assumes "route_for setupPublicRouter verb path = Some e"
  shows "e \<notin> sensitive \<and> (e = EWebSocket \<or> route_for setupInternalRouter verb path = Some e)"
proof -
  let ?m = "route_matches verb path"
  from assms obtain rt where rt: "find ?m setupPublicRouter = Some rt" "e = snd (snd rt)" by (auto simp: route_for_def)
  consider "?m ([Lit []], Some ''GET'', EHome)" "rt = ([Lit []], Some ''GET'', EHome)" | "e = EWebSocket" |
    "\<not> ?m ([Lit []], Some ''GET'', EHome)" "find ?m shared_first = Some rt" |
    "\<not> ?m ([Lit []], Some ''GET'', EHome)" "find ?m shared_first = None" "find ?m shared_rest = Some rt"
    using rt unfolding routers_shared by (auto simp: find_append split: if_splits option.splits)
  then show ?thesis
  proof cases
    case 1
    with rt(2) show ?thesis by (simp add: route_for_def setupInternalRouter_def sensitive_def)
  next
    case 2
    then show ?thesis by (simp add: sensitive_def)
  next
    case 3
    with rt(2) shared_first_endpoints find_in show ?thesis unfolding route_for_def routers_shared by (fastforce simp: find_append)
  next
    case 4
    note in_rest = find_in [OF 4(3)]
    have "4 \<le> length path" using in_rest shared_long route_matches_length by fastforce
    then have "\<not> ?m (api [Lit ''block''] ''POST'' EComposeBlock)" using route_matches_length by (fastforce simp: api_def)
    with 4 rt(2) in_rest shared_long show ?thesis unfolding route_for_def routers_shared(2) by (fastforce simp: find_append)
  qed
qed

section \<open>Pages\<close>

lemma wrap_int_small: "- (2 ^ 63) \<le> x \<Longrightarrow> x < 2 ^ 63 \<Longrightarrow> wrap_int x = x"
  unfolding wrap_int_def sint_sbintrunc' by (simp add: signed_take_bit_int_eq_self)

lemma nat_to_dec_first: "nat_to_dec n \<noteq> [] \<and> (\<exists>d<10::nat. hd (nat_to_dec n) = char_of (48 + d))"
proof (induction n rule: nat_to_dec.induct)
  case (1 n)
  then show ?case by (cases "n < 10") (auto simp: nat_to_dec.simps [of n])
qed

lemma digit_not_sign:
  assumes "d < (10 :: nat)"
  shows "char_of (48 + d) \<noteq> CHR ''-''" "char_of (48 + d) \<noteq> CHR ''+''"
proof -
  have "dec_value (char_of (48 + d)) = Some d" using assms by simp
  moreover have "dec_value (CHR ''-'') = None" "dec_value (CHR ''+'') = None" by (simp_all add: dec_value_def)
  ultimately show "char_of (48 + d) \<noteq> CHR ''-''" "char_of (48 + d) \<noteq> CHR ''+''" by auto
qed

lemma Atoi_dec: "n < 2 ^ 63 \<Longrightarrow> strconv_Atoi (nat_to_dec n) = Some (int n)"
proof -
  assume n: "n < 2 ^ 63"
  obtain d :: nat where d: "d < 10" "hd (nat_to_dec n) = char_of (48 + d)" and ne: "nat_to_dec n \<noteq> []" using nat_to_dec_first by blast
  have "int n < 2 ^ 63" using n by (metis of_nat_less_iff of_nat_numeral of_nat_power)
  then show ?thesis using ne d digit_not_sign [OF d(1)] by (simp add: strconv_Atoi_def Let_def)
qed

lemma takeWhile_upt: "takeWhile (\<lambda>i. i < m) [0..<l] = [0..<min l m]"
proof (induction l)
  case (Suc l)
  then show ?case by (cases "l < m") (auto simp: takeWhile_append min_def not_less le_antisym)
qed simp

lemma chunks: "concat (map (\<lambda>k. take l (drop (k * l) xs)) [0..<m]) = take (m * l) xs"
proof (induction m)
  case (Suc m)
  have "take (Suc m * l) xs = take (m * l + l) xs" by (simp add: add.commute)
  also have "\<dots> = take (m * l) xs @ take l (drop (m * l) xs)" by (rule take_add)
  finally show ?case using Suc by simp
qed simp

lemma take_drop_map_upt: "take l (drop k (map f [0..<N])) = map (\<lambda>i. f (k + i)) [0..<min l (N - k)]"
  by (rule nth_equalityI) auto

lemma page_desc:
  assumes "k \<le> n" "n < 2 ^ 62" "l \<le> 100"
  shows "desc_heights (int n - int k) (int l) = take l (drop k (map (\<lambda>i. int n - int i) [0..<Suc n]))"
proof -
  have w: "wrap_int (int n - int k - int i) = int n - int k - int i" if "i < l" for i
    using assms that by (intro wrap_int_small) auto
  have "desc_heights (int n - int k) (int l) = takeWhile (\<lambda>h. 0 \<le> h) (map (\<lambda>i. int n - int k - int i) [0..<l])"
    unfolding desc_heights_def using w by (intro arg_cong [of _ _ "takeWhile _"]) auto
  also have "\<dots> = map (\<lambda>i. int n - int k - int i) (takeWhile (\<lambda>i. i < Suc n - k) [0..<l])"
    unfolding takeWhile_map using assms(1) by (intro arg_cong [of _ _ "map _"] takeWhile_cong) auto
  also have "\<dots> = map (\<lambda>i. int n - int k - int i) [0..<min l (Suc n - k)]" by (simp add: takeWhile_upt)
  finally show ?thesis by (simp add: take_drop_map_upt diff_diff_eq del: upt_Suc)
qed

lemma page_asc:
  assumes "k \<le> n" "n < 2 ^ 62" "l \<le> 100"
  shows "asc_heights (int n) (int k) (int l) = take l (drop k (map int [0..<Suc n]))"
proof -
  have w: "wrap_int (int k + int i) = int k + int i" if "i < l" for i
    using assms that by (intro wrap_int_small) auto
  have "asc_heights (int n) (int k) (int l) = takeWhile (\<lambda>h. h \<le> int n) (map (\<lambda>i. int k + int i) [0..<l])"
    unfolding asc_heights_def using w by (intro arg_cong [of _ _ "takeWhile _"]) auto
  also have "\<dots> = map (\<lambda>i. int k + int i) (takeWhile (\<lambda>i. i < Suc n - k) [0..<l])"
    unfolding takeWhile_map using assms(1) by (intro arg_cong [of _ _ "map _"] takeWhile_cong) auto
  also have "\<dots> = map (\<lambda>i. int k + int i) [0..<min l (Suc n - k)]" by (simp add: takeWhile_upt)
  finally show ?thesis by (simp add: take_drop_map_upt del: upt_Suc)
qed

lemma blocks_at_concat: "blocks_at bc (concat hss) = concat (map (blocks_at bc) hss)"
  by (induction hss) (simp_all add: blocks_at_def)

lemma GetLatestHeight_int:
  assumes "unat (GetLatestHeight bc) = n" "n < 2 ^ 62"
  shows "go_int (GetLatestHeight bc) = int n"
proof -
  have "GetLatestHeight bc = word_of_nat (unat (GetLatestHeight bc))" by simp
  also have "\<dots> = word_of_int (int n)" by (simp only: assms(1) of_int_of_nat_eq)
  finally show ?thesis using wrap_int_small [of "int n"] assms(2) by (simp add: go_int_def wrap_int_def)
qed

definition page_of :: "BlockChain \<Rightarrow> string \<Rightarrow> nat \<Rightarrow> nat \<Rightarrow> BlockResp list" where
  "page_of bc order l p = pgr_blocks (the (re_Data (GetBlocks bc (nat_to_dec p) (nat_to_dec l) order)))"

lemma page_of_eq:
  assumes "unat (GetLatestHeight bc) = n" "n < 2 ^ 62" "0 < l" "l \<le> 100" "p * l \<le> n"
  shows "page_of bc ''desc'' l (Suc p) = blocks_at bc (take l (drop (p * l) (map (\<lambda>i. int n - int i) [0..<Suc n])))"
    "page_of bc ''asc'' l (Suc p) = blocks_at bc (take l (drop (p * l) (map int [0..<Suc n])))"
proof -
  have "p \<le> p * l" using assms(3) by simp
  also note assms(5)
  finally have p: "Suc p < 2 ^ 63" using assms(2) by simp
  note latest = GetLatestHeight_int [OF assms(1,2)]
  have "page_param (nat_to_dec (Suc p)) = 1 + int p" "limit_param (nat_to_dec l) = int l"
    using Atoi_dec [OF p] Atoi_dec [of l] assms(3,4) nat_to_dec_first by (auto simp: page_param_def limit_param_def)
  moreover have "wrap_int (int p) = int p" "wrap_int (int p * int l) = int (p * l)" "wrap_int (int n - int (p * l)) = int n - int (p * l)"
    using p assms(2,5) by (auto intro!: wrap_int_small simp flip: of_nat_mult)
  ultimately show "page_of bc ''desc'' l (Suc p) = blocks_at bc (take l (drop (p * l) (map (\<lambda>i. int n - int i) [0..<Suc n])))"
    "page_of bc ''asc'' l (Suc p) = blocks_at bc (take l (drop (p * l) (map int [0..<Suc n])))"
    using page_desc [OF assms(5,2,4)] page_asc [OF assms(5,2,4)] by (simp_all add: page_of_def GetBlocks_def Let_def sendResp_def latest del: upt_Suc)
qed

lemma pages_join:
  assumes "\<And>p. p * l \<le> n \<Longrightarrow> f p = blocks_at bc (take l (drop (p * l) hs))" "length hs = Suc n" "0 < l"
  shows "concat (map f [0..<n div l + 1]) = blocks_at bc hs"
proof -
  have "map f [0..<n div l + 1] = map (\<lambda>p. blocks_at bc (take l (drop (p * l) hs))) [0..<n div l + 1]"
  proof (rule map_cong [OF refl])
    fix p
    assume "p \<in> set [0..<n div l + 1]"
    then have "p * l \<le> n div l * l" by auto
    also have "\<dots> \<le> n" by simp
    finally show "f p = blocks_at bc (take l (drop (p * l) hs))" by (rule assms(1))
  qed
  then have "concat (map f [0..<n div l + 1]) = blocks_at bc (concat (map (\<lambda>p. take l (drop (p * l) hs)) [0..<n div l + 1]))"
    by (simp only: blocks_at_concat map_map comp_def)
  also have "concat (map (\<lambda>p. take l (drop (p * l) hs)) [0..<n div l + 1]) = take ((n div l + 1) * l) hs" by (rule chunks)
  also have "\<dots> = hs"
  proof (rule take_all)
    have "n < (n div l + 1) * l" using assms(3) by (metis add.commute dividend_less_times_div mult.commute plus_1_eq_Suc mult_Suc_right)
    then show "length hs \<le> (n div l + 1) * l" using assms(2) by simp
  qed
  finally show ?thesis .
qed

lemma page_count:
  assumes "unat (GetLatestHeight bc) = n" "n < 2 ^ 62" "0 < l" "l \<le> 100"
  shows "pgr_totalPages (the (re_Data (GetBlocks bc pageStr (nat_to_dec l) order))) = int (n div l + 1)"
proof -
  have lim: "limit_param (nat_to_dec l) = int l"
    using Atoi_dec [of l] assms(3,4) nat_to_dec_first by (auto simp: limit_param_def)
  have "wrap_int (int n + 1) = int n + 1" "wrap_int (int n + 1 + int l) = int n + 1 + int l" "wrap_int (int n + int l) = int n + int l"
    using assms(2,4) by (auto intro!: wrap_int_small)
  moreover have "int (n + l) div int l = int (n div l + 1)" using assms(3) by (simp flip: zdiv_int)
  ultimately show ?thesis
    using GetLatestHeight_int [OF assms(1,2)] lim assms(3) by (simp add: GetBlocks_def Let_def sendResp_def)
qed

section \<open>Signed requests\<close>

text \<open>The request with which a client submits a transaction.\<close>

definition request_of :: "Transaction \<Rightarrow> SubmitSignedTxReq" where
  "request_of tx =
     \<lparr>ssq_Version = tx_Version tx, ssq_Timestamp = tx_Timestamp tx,
      ssq_Inputs = map (\<lambda>i. \<lparr>sti_TxID = HashToString (in_TxID i), sti_OutputIndex = in_OutputIndex i,
        sti_Signature = SignatureToString (in_Signature i), sti_PublicKey = hex_EncodeToString (elems (in_PublicKey i))\<rparr>) (ins tx),
      ssq_Outputs = map (\<lambda>p. \<lparr>toq_Address = AddressToString (out_Address p), toq_Amount = out_Amount p, toq_TxType = out_TxType p\<rparr>) (outs tx),
      ssq_Memo = tx_Memo tx, ssq_Data = tx_Data tx\<rparr>"

text \<open>Fixed-size fields have their size and slices are not nil.\<close>

definition presentable :: "Transaction \<Rightarrow> bool" where
  "presentable tx \<longleftrightarrow> tx_Inputs tx \<noteq> None \<and> tx_Outputs tx \<noteq> None \<and> tx_Data tx \<noteq> None \<and>
     (\<forall>i\<in>set (ins tx). wf_Hash (in_TxID i) \<and> wf_Signature (in_Signature i) \<and> in_PublicKey i \<noteq> None) \<and>
     (\<forall>p\<in>set (outs tx). wf_Address (out_Address p))"

lemma mapE_enumerate:
  assumes "\<And>i x. x \<in> set xs \<Longrightarrow> f (i, g x) = Inr (h x)"
  shows "mapE f (enumerate n (map g xs)) = Inr (map h xs)"
  using assms by (induction xs arbitrary: n) simp_all

lemma SignatureToString_back: "wf_Signature s \<Longrightarrow> StringToSignature (SignatureToString s) = Inr s"
  by (simp add: StringToSignature_def SignatureToString_def wf_Signature_def)

lemma convert_request:
  assumes "presentable tx" "ValidateTxHash C tx = Inr ()"
  shows "convertSignedTxReqToTx C (request_of tx) (tx_NetworkID tx) = Inr tx"
proof -
  let ?g = "\<lambda>i. \<lparr>sti_TxID = HashToString (in_TxID i), sti_OutputIndex = in_OutputIndex i,
        sti_Signature = SignatureToString (in_Signature i), sti_PublicKey = hex_EncodeToString (elems (in_PublicKey i))\<rparr>"
  have sigs: "mapE parse_signature (enumerate 0 (map ?g (ins tx))) = Inr (map (\<lambda>i. (in_Signature i, elems (in_PublicKey i))) (ins tx))"
    using assms(1) by (intro mapE_enumerate) (auto simp: parse_signature_def presentable_def SignatureToString_back)
  have z: "zip (map ?g (ins tx)) (map snd (map (\<lambda>i. (in_Signature i, elems (in_PublicKey i))) (ins tx))) =
      map (\<lambda>i. (?g i, elems (in_PublicKey i))) (ins tx)"
    by (simp add: zip_map1 zip_map2 zip_same_conv_map)
  have inputs: "mapE parse_input (enumerate 0 (map (\<lambda>i. (?g i, elems (in_PublicKey i))) (ins tx))) = Inr (map clear_sig (ins tx))"
    using assms(1) by (intro mapE_enumerate) (auto simp: parse_input_def presentable_def clear_sig_def)
  have outputs: "mapE parse_output (enumerate 0 (map (\<lambda>p. \<lparr>toq_Address = AddressToString (out_Address p), toq_Amount = out_Amount p,
      toq_TxType = out_TxType p\<rparr>) (outs tx))) = Inr (map (\<lambda>p. p) (outs tx))"
    using assms(1) by (intro mapE_enumerate) (auto simp: parse_output_def presentable_def)
  have "map2 (\<lambda>input sig. input\<lparr>in_Signature := sig\<rparr>) (map clear_sig (ins tx)) (map in_Signature (ins tx)) = ins tx"
    by (simp add: zip_map1 zip_map2 zip_same_conv_map clear_sig_def comp_def)
  moreover have "tx_preimage tx = \<lparr>tx_Version = tx_Version tx, tx_NetworkID = tx_NetworkID tx, tx_ID = zero_Hash, tx_Timestamp = tx_Timestamp tx,
      tx_Inputs = Some (map clear_sig (ins tx)), tx_Outputs = Some (outs tx), tx_Memo = tx_Memo tx, tx_Data = nil_to_empty (tx_Data tx)\<rparr>"
    using assms(1) by (auto simp: tx_preimage_def presentable_def nil_to_empty_def elems_def intro!: Transaction.equality)
  moreover have "tx_Data tx = nil_to_empty (tx_Data tx)" "tx_Inputs tx = Some (ins tx)" "tx_Outputs tx = Some (outs tx)"
    using assms(1) by (auto simp: presentable_def nil_to_empty_def elems_def)
  ultimately show ?thesis using assms(2) sigs inputs outputs z
    by (auto simp: convertSignedTxReqToTx_def request_of_def Let_def comp_def ValidateTxHash_ok)
qed

lemma CreateSignedTx_presentable:
  assumes "CreateSignedTx C \<rho> r p now src dst amount fee memo data ty priv pub = Inr tx" "wf_Address src" "wf_Address dst"
    "\<And>us. GetUtxoList \<rho> p src True = Inr us \<Longrightarrow> \<forall>u\<in>set us. wf_Hash (utxo_TxId u)"
  shows "presentable tx \<and> tx_NetworkID tx = GetNetworkID p"
proof -
  obtain us taken tot sk sgd tx0 where c:
    "GetUtxoList \<rho> p src True = Inr us" "take_utxos (amount + fee) 0 us = (taken, tot)" "amount + fee \<le> tot"
    "tx0 = unsigned_tx p now (Some (spend_inputs pub taken)) (Some (pay_outputs src dst amount (amount + fee) tot ty)) memo data"
    "BytesToPrivateKey C priv = Inr sk"
    "sign_inputs C r sk (Hash_Transaction C tx0) 0 (spend_inputs pub taken) = Inr sgd"
    "tx = tx0\<lparr>tx_ID := Hash_Transaction C tx0, tx_Inputs := Some sgd\<rparr>"
    by (rule CreateSignedTx_cases [OF assms(1)])
  have s: "map clear_sig sgd = spend_inputs pub taken" "\<forall>x\<in>set sgd. \<exists>n. SignData C n sk (Hash_Transaction C tx0) = Inr (in_Signature x)"
    using sign_inputs_ok [OF c(6)] by (simp_all add: spend_inputs_cleared)
  have "set taken \<subseteq> set us" using take_utxos_prefix [OF c(2)] by auto
  then have ids: "\<forall>u\<in>set taken. wf_Hash (utxo_TxId u)" using assms(4) [OF c(1)] by blast
  have "wf_Hash (in_TxID i) \<and> wf_Signature (in_Signature i) \<and> in_PublicKey i \<noteq> None" if i: "i \<in> set sgd" for i
  proof -
    obtain n where "SignData C n sk (Hash_Transaction C tx0) = Inr (in_Signature i)" using s(2) i by auto
    then have "wf_Signature (in_Signature i)" by (auto simp: SignData_def wf_Signature_def length_copy_into dest: sym split: option.splits if_splits)
    moreover have "clear_sig i \<in> set (spend_inputs pub taken)" using i by (simp flip: s(1))
    then have "in_TxID i \<in> utxo_TxId ` set taken" "in_PublicKey i = nil_to_empty pub" by (cases i, auto simp: spend_inputs_def clear_sig_def)+
    ultimately show ?thesis using ids by (auto simp: nil_to_empty_def)
  qed
  then show ?thesis
    using assms(2,3) by (auto simp: presentable_def c(4,7) unsigned_tx_def pay_outputs_def setTxOutput_def nil_to_empty_def GetNetworkID_def)
qed

section \<open>The pool and the network\<close>

text \<open>The packet in which a transaction is sent.\<close>

definition tx_packet :: "wire \<Rightarrow> int \<Rightarrow> P2PService \<Rightarrow> Transaction \<Rightarrow> byte list" where
  "tx_packet w now s tx =
     packet (Serialize w ((NewMessage MsgTypeNewTx (enc_NewTx w \<lparr>nt_TxID = tx_ID tx, nt_TxData = gob_enc_Tx w tx\<rparr>) (no_ID (sv_Node s)))
       \<lparr>msg_Timestamp := now div Second\<rparr>))"

text \<open>A transaction is in the pool of the new chain, which differs in nothing else, and was sent to every active peer.\<close>

definition pooled_and_sent ::
    "wire \<Rightarrow> int \<Rightarrow> (string, conn) ranging \<Rightarrow> Transaction \<Rightarrow> BlockChain \<Rightarrow> P2PService \<Rightarrow> BlockChain \<Rightarrow> P2PService \<Rightarrow> bool" where
  "pooled_and_sent w now \<rho> tx bc s bc' s' \<longleftrightarrow>
     GetTx_mempool (bc_Mempool bc') (tx_ID tx) = Some tx \<and> bc' = bc\<lparr>bc_Mempool := bc_Mempool bc'\<rparr> \<and>
     (\<forall>d\<in>set (active_peers \<rho> (sv_Node s)). SendPacket d (tx_packet w now s tx) \<in> set (no_out (sv_Node s')))"

lemma broadcast_tx_sent:
  "d \<in> set (active_peers \<rho> (sv_Node s)) \<Longrightarrow> SendPacket d (tx_packet w now s tx) \<in> set (no_out (sv_Node (BroadcastTx w now \<rho> tx s)))"
  using sent_to_all [where n = "sv_Node s" and cs = "active_peers \<rho> (sv_Node s)" and w = w and now = now and
      msg = "NewMessage MsgTypeNewTx (enc_NewTx w \<lparr>nt_TxID = tx_ID tx, nt_TxData = gob_enc_Tx w tx\<rparr>) (no_ID (sv_Node s))"]
  by (simp add: BroadcastTx_def on_node_def Broadcast_def tx_packet_def)

lemma pool_and_send_ok:
  assumes "map_of (bc_Mempool bc) (HashToString (tx_ID tx)) = None"
  shows "\<exists>bc' s'. pool_and_send w now \<rho> tx bc (Some s) = Inr (bc', Some s') \<and> pooled_and_sent w now \<rho> tx bc s bc' s'"
  using assms broadcast_tx_sent
  by (auto simp: pool_and_send_def NewTranaction_def Let_def pooled_and_sent_def GetTx_mempool_def map_of_mput)

section \<open>Transactions without inputs\<close>

lemma consider_tx_keeps: "tx \<in> set (bt_validTxs t) \<Longrightarrow> tx \<in> set (bt_validTxs (foldl (consider_tx C p) t txs))"
proof (induction txs arbitrary: t)
  case (Cons x txs)
  have "tx \<in> set (bt_validTxs (consider_tx C p t x))"
    using Cons.prems by (auto simp: consider_tx_def Let_def split: sum.splits)
  then show ?case using Cons.IH by simp
qed simp

lemma template_takes_inputless:
  assumes "tx \<in> set txs" "ins tx = []" "ValidateTransaction C p tx = Inr ()"
  shows "tx \<in> set (bt_validTxs (foldl (consider_tx C p) t txs))"
  using assms(1)
proof (induction txs arbitrary: t)
  case (Cons x txs)
  show ?case
  proof (cases "x = tx")
    case True
    have "consider_tx C p t tx = t\<lparr>bt_usedUTXOs := bt_usedUTXOs t, bt_totalFees := bt_totalFees t + 0, bt_validTxs := bt_validTxs t @ [tx]\<rparr>"
      using assms(2,3) by (simp add: consider_tx_def Let_def CalculateTxFee_def)
    then show ?thesis using True consider_tx_keeps [of tx "consider_tx C p t tx"] by simp
  next
    case False
    with Cons show ?thesis by simp
  qed
qed simp

lemma SetBlock_takes_inputless:
  assumes "iterates order (bc_Mempool p)" "length order \<le> MaxTxsPerBlock" "GetTx_mempool (bc_Mempool p) (tx_ID tx) = Some tx"
    "ins tx = []" "ValidateTransaction C p tx = Inr ()"
  shows "tx \<in> set (blk_Transactions (snd (SetBlock C order p prevHash height proposer t)))"
proof -
  obtain x where x: "map_of (bc_Mempool p) (HashToString (tx_ID tx)) = Some x" "twf_Tx x = tx" using assms(3) by (auto simp: GetTx_mempool_def)
  then have "x \<in> snd ` set order" using iterates_set [OF assms(1)] by (force dest: map_of_SomeD)
  then have "tx \<in> set (GetTxs order)" using assms(2) x(2) by (auto simp: GetTxs_def Let_def)
  from template_takes_inputless [OF this assms(4,5)] show ?thesis
    by (auto simp: SetBlock_def Let_def template_txs_def block_template_def)
qed

definition mint_request :: "string \<Rightarrow> int \<Rightarrow> Address \<Rightarrow> uint64 \<Rightarrow> uint8 \<Rightarrow> SubmitSignedTxReq" where
  "mint_request version time to amount ty =
     \<lparr>ssq_Version = version, ssq_Timestamp = time, ssq_Inputs = [],
      ssq_Outputs = [\<lparr>toq_Address = AddressToString to, toq_Amount = amount, toq_TxType = ty\<rparr>], ssq_Memo = [], ssq_Data = None\<rparr>"

definition minted :: "crypto \<Rightarrow> string \<Rightarrow> string \<Rightarrow> int \<Rightarrow> Address \<Rightarrow> uint64 \<Rightarrow> uint8 \<Rightarrow> Transaction" where
  "minted C version network time to amount ty =
     (let tx = \<lparr>tx_Version = version, tx_NetworkID = network, tx_ID = zero_Hash, tx_Timestamp = time, tx_Inputs = Some [],
                tx_Outputs = Some [\<lparr>out_Address = to, out_Amount = amount, out_TxType = ty\<rparr>], tx_Memo = [], tx_Data = Some []\<rparr>
      in tx\<lparr>tx_ID := Hash_Transaction C tx\<rparr>)"

lemma mint_converted:
  "wf_Address to \<Longrightarrow> convertSignedTxReqToTx C (mint_request version time to amount ty) network = Inr (minted C version network time to amount ty)"
  by (simp add: convertSignedTxReqToTx_def mint_request_def minted_def parse_output_def nil_to_empty_def Let_def)

lemma minted_valid:
  "amount \<noteq> 0 \<Longrightarrow> ValidateTransaction C p (minted C version (GetNetworkID p) time to amount ty) = Inr ()"
  by (simp add: ValidateTransaction_def ValidateTxHash_def guardE_def minted_def tx_preimage_def nil_to_empty_def Let_def GetNetworkID_def
      ValidateCoinbaseTx_def go_uint64_def)

end
