(* ===== verification/Startup.thy ===== *)
theory Startup
  imports Rest
begin

text \<open>
  \<open>app/app.go\<close>: construction of the node (\<open>New\<close>), its start and its end.  The configuration sections that only the
  application reads are added to those of the core.  The file system, the database, the randomness of the node
  identifier and what the operating system answers (listening, dialling, sending) are arguments.
\<close>

section \<open>State\<close>

record ServerConfig =
  scf_RestPort :: int
  scf_InternalRestPort :: int

record P2PConfig =
  pcf_Address :: string
  pcf_Port :: int
  pcf_BootNodes :: "string list"

record AppConfig =
  acf_core :: Config
  acf_Wallet_Path :: string
  acf_Server :: ServerConfig
  acf_P2P :: P2PConfig

record Application =
  an_Conf :: AppConfig
  an_app :: App
  an_restServer :: Server
  an_Wallet :: WalletManager
  an_serving :: "(string \<times> route list) list"
  an_syncing :: bool

datatype app_error =
    WalletInit wallet_error
  | NoFirstAccount
  | ChainInit core_error
  | ConsensusInit consensus_error
  | P2PStart net_error
  | EngineStart consensus_error

section \<open>Construction\<close>

definition wire_engine :: "ConsensusEngine \<Rightarrow> ConsensusEngine" where
  "wire_engine e = SetStateBroadcaster (SetBlockSyncer (SetP2PBroadcaster (SetBlockCommitCallback e)))"

definition wire_service :: "P2PService \<Rightarrow> P2PService" where
  "wire_service s = SetBlockHandler (SetTxHandler (SetVoteHandler (SetProposalHandler s)))"

definition wire_server :: "AppConfig \<Rightarrow> Server" where
  "wire_server cfg =
     (let sv = acf_Server cfg;
          s = SetConsensusEngine (SetP2P (if 0 < scf_InternalRestPort sv then NewServerWithInternalPort (scf_RestPort sv) (scf_InternalRestPort sv)
                                          else NewServer (scf_RestPort sv)))
      in s\<lparr>srv_wsHub := SetLatestBlockProvider (SetConsensusStateProvider (srv_wsHub s))\<rparr>)"

text \<open>The first account is read for a log line, so a wallet without accounts panics.\<close>

definition App_New ::
    "crypto \<Rightarrow> walletlib \<Rightarrow> db_ops \<Rightarrow> files \<Rightarrow> (string, Staker) ranging \<Rightarrow> int \<Rightarrow> leveldb \<Rightarrow> byte list \<Rightarrow> AppConfig \<Rightarrow> app_error + Application" where
  "App_New C L W fs \<rho> now db random cfg =
     bindE (wrapE WalletInit (InitWallet L fs (acf_Wallet_Path cfg))) (\<lambda>wm.
     case Option.bind (wm_Wallet wm) (\<lambda>w. case mw_Accounts w of [] \<Rightarrow> None | a # as \<Rightarrow> Some a) of
       None \<Rightarrow> Inl NoFirstAccount
     | Some account \<Rightarrow>
         bindE (wrapE ChainInit (NewChainState C W now db (acf_core cfg))) (\<lambda>bc.
         bindE (wrapE ConsensusInit (NewConsensus \<rho> (acf_core cfg) (bc_db bc))) (\<lambda>cons0.
         let cons = (if cm_BlockProducer (cfg_Common (acf_core cfg))
                     then RegisterValidator cons0 (wa_Address account) (wa_PublicKey account) (wa_PrivateKey account) else cons0);
             p2p = NewP2PService (NewNode random (pcf_Address (acf_P2P cfg)) (pcf_Port (acf_P2P cfg)) (cm_NetworkID (cfg_Common (acf_core cfg))))
         in Inr \<lparr>an_Conf = cfg,
                 an_app = \<lparr>ap_engine = wire_engine (NewConsensusEngine cons bc), ap_p2p = wire_service p2p, ap_pending = []\<rparr>,
                 an_restServer = wire_server cfg, an_Wallet = wm, an_serving = [], an_syncing = False\<rparr>)))"

text \<open>What a new WebSocket client is told: the state of the engine and the latest block, if it is not the genesis block.\<close>

definition consensus_state_provider :: "(string, Validator) ranging \<Rightarrow> Application \<Rightarrow> string \<times> uint64 \<times> uint32 \<times> string" where
  "consensus_state_provider \<rho> a =
     (let status = GetStatus \<rho> (ap_engine (an_app a))
      in (ConsensusState_text (es_state status), es_currentHeight status, es_currentRound status, es_proposerAddr status))"

definition latest_block_provider :: "Application \<Rightarrow> Block option" where
  "latest_block_provider a =
     (let bc = ap_chain (an_app a); height = GetLatestHeight bc in
      if height = 0 then None else case GetBlockByHeight bc height of Inl e \<Rightarrow> None | Inr block \<Rightarrow> Some block)"

section \<open>Start and end\<close>

definition on_app :: "(App \<Rightarrow> App) \<Rightarrow> Application \<Rightarrow> Application" where
  "on_app f a = a\<lparr>an_app := f (an_app a)\<rparr>"

definition NewRest :: "Application \<Rightarrow> Application" where
  "NewRest a = a\<lparr>an_serving := Server_Start (an_restServer a)\<rparr>"

definition StartP2P :: "bool \<Rightarrow> Application \<Rightarrow> app_error + Application" where
  "StartP2P listening a =
     bindE (wrapE P2PStart (Service_Start listening (ap_p2p (an_app a)))) (\<lambda>s. Inr (on_app (app_p2p (\<lambda>_. s)) a))"

definition StartConsensus :: "Application \<Rightarrow> app_error + Application" where
  "StartConsensus a = bindE (wrapE EngineStart (Start (ap_engine (an_app a)))) (\<lambda>e. Inr (on_app (\<lambda>x. x\<lparr>ap_engine := e\<rparr>) a))"

text \<open>Dialling one boot node: the answer of the dialler and whether the handshake can be sent; the number of successes.\<close>

definition connect_boot :: "wire \<Rightarrow> int \<Rightarrow> Application \<times> nat \<Rightarrow> string \<times> conn option \<times> bool \<Rightarrow> Application \<times> nat" where
  "connect_boot w now st x =
     (case (st, x) of ((a, k), (bootNode, dialed, sent)) \<Rightarrow>
        case Connect w now (Some (ap_chain (an_app a))) dialed sent (sv_Node (ap_p2p (an_app a))) bootNode of
          (n, err) \<Rightarrow> (on_app (app_p2p (on_node (\<lambda>_. n))) a, if err = None then k + 1 else k))"

definition initial_sync :: "wire \<Rightarrow> p2p_env \<Rightarrow> bool \<Rightarrow> App \<Rightarrow> App" where
  "initial_sync w ev sent x =
     app_p2p (\<lambda>s. fst (Service_SyncBlocks w (ev_send ev) sent (ev_peers ev) (Some (ap_chain x)) s)) x"

definition StartAll ::
    "wire \<Rightarrow> p2p_env \<Rightarrow> bool \<Rightarrow> (string \<Rightarrow> conn option \<times> bool) \<Rightarrow> bool \<Rightarrow> Application \<Rightarrow> app_error + Application" where
  "StartAll w ev listening dial sent a =
     bindE (StartP2P listening (NewRest a)) (\<lambda>a1.
     let (a2, connectedPeers) =
           foldl (connect_boot w (ev_now0 ev)) (a1, 0) (map (\<lambda>b. (b, dial b)) (pcf_BootNodes (acf_P2P (an_Conf a))));
         a3 = (if 0 < connectedPeers then (on_app (initial_sync w ev sent) a2)\<lparr>an_syncing := True\<rparr> else a2)
     in StartConsensus a3)"

definition Cleanup :: "(string, conn) ranging \<Rightarrow> Application \<Rightarrow> Application" where
  "Cleanup \<rho> a =
     (on_app (\<lambda>x. x\<lparr>ap_engine := Stop (ap_engine x), ap_p2p := Service_Stop \<rho> (ap_p2p x)\<rparr>) a)\<lparr>an_serving := []\<rparr>"

definition Terminate :: "(string, conn) ranging \<Rightarrow> Application \<Rightarrow> Application" where
  "Terminate \<rho> a = (Cleanup \<rho> a)\<lparr>an_syncing := False\<rparr>"

section \<open>A new node\<close>

lemma App_New_cases:
  assumes "App_New C L W fs \<rho> now db random cfg = Inr a"
  obtains wm w account rest bc cons0 where
    "InitWallet L fs (acf_Wallet_Path cfg) = Inr wm" "wm_Wallet wm = Some w" "mw_Accounts w = account # rest"
    "NewChainState C W now db (acf_core cfg) = Inr bc" "NewConsensus \<rho> (acf_core cfg) (bc_db bc) = Inr cons0"
    "an_app a = \<lparr>ap_engine = wire_engine (NewConsensusEngine
        (if cm_BlockProducer (cfg_Common (acf_core cfg))
         then RegisterValidator cons0 (wa_Address account) (wa_PublicKey account) (wa_PrivateKey account) else cons0) bc),
      ap_p2p = wire_service (NewP2PService (NewNode random (pcf_Address (acf_P2P cfg)) (pcf_Port (acf_P2P cfg)) (cm_NetworkID (cfg_Common (acf_core cfg))))),
      ap_pending = []\<rparr>"
    "an_restServer a = wire_server cfg" "an_Wallet a = wm" "an_Conf a = cfg"
proof -
  from assms obtain wm account where wm: "InitWallet L fs (acf_Wallet_Path cfg) = Inr wm"
    and acc: "Option.bind (wm_Wallet wm) (\<lambda>w. case mw_Accounts w of [] \<Rightarrow> None | a # as \<Rightarrow> Some a) = Some account"
    by (auto simp: App_New_def bindE_Inr wrapE_Inr split: option.splits)
  then obtain w rest where w: "wm_Wallet wm = Some w" "mw_Accounts w = account # rest"
    by (cases "wm_Wallet wm") (auto split: list.splits)
  from assms wm acc that [OF wm w] show thesis
    by (auto simp: App_New_def bindE_Inr wrapE_Inr Let_def)
qed

lemma wire_frame [simp]:
  "en_consensus (wire_engine e) = en_consensus e" "en_blockchain (wire_engine e) = en_blockchain e"
  "en_prevotes (wire_engine e) = en_prevotes e" "en_precommits (wire_engine e) = en_precommits e"
  "en_pending (wire_engine e) = en_pending e" "en_out (wire_engine e) = en_out e" "en_running (wire_engine e) = en_running e"
  "sv_Node (wire_service s) = sv_Node s" "sv_running (wire_service s) = sv_running s"
  by (simp_all add: wire_engine_def SetStateBroadcaster_def SetBlockSyncer_def SetP2PBroadcaster_def SetBlockCommitCallback_def
      wire_service_def SetBlockHandler_def SetTxHandler_def SetVoteHandler_def SetProposalHandler_def)

lemma registered_power:
  "co_LocalValidator (RegisterValidator c addr pk sk) = Some v \<Longrightarrow> power_of (co_ValidatorSet c) (val_Address v) = val_VotingPower v"
  by (auto simp: RegisterValidator_def power_of_def GetValidator_def Let_def split: option.splits)

lemma new_engine_inv:
  assumes "\<forall>v. co_LocalValidator c = Some v \<longrightarrow> power_of (co_ValidatorSet c) (val_Address v) = val_VotingPower v"
  shows "engine_inv C (co_ValidatorSet c) (wire_engine (NewConsensusEngine c bc))"
  using assms by (simp add: engine_inv_def NewConsensusEngine_def)

section \<open>Boot nodes are dialled once\<close>

text \<open>Nothing in the start of the node fills the table of boot nodes that the maintenance redials.\<close>

lemma Connect_boot [simp]: "no_BootNodes (fst (Connect w now bc dialed sent n addr)) = no_BootNodes n"
  by (auto simp: Connect_def Let_def sendHandshake_def sendMessage_def set_peer_def close_conn_def net_emit_def split: option.split)

abbreviation app_boot_nodes :: "Application \<Rightarrow> string list" where
  "app_boot_nodes a \<equiv> no_BootNodes (sv_Node (ap_p2p (an_app a)))"

lemma connect_boot_nodes: "app_boot_nodes (fst (connect_boot w now st x)) = app_boot_nodes (fst st)"
proof -
  obtain a k where st: "st = (a, k)" by (rule prod.exhaust)
  obtain b d s where x: "x = (b, d, s)" by (rule prod_cases3)
  obtain n err where c: "Connect w now (Some (ap_chain (an_app a))) d s (sv_Node (ap_p2p (an_app a))) b = (n, err)" by (rule prod.exhaust)
  then have "no_BootNodes n = app_boot_nodes a" by (metis Connect_boot fst_conv)
  then show ?thesis by (simp add: connect_boot_def st x c on_app_def app_p2p_def on_node_def)
qed

lemma connect_boot_fold: "app_boot_nodes (fst (foldl (connect_boot w now) st xs)) = app_boot_nodes (fst st)"
  by (induction xs arbitrary: st) (simp_all add: connect_boot_nodes)

lemma SyncBlocks_boot: "no_BootNodes (sv_Node (fst (Service_SyncBlocks w now sent \<rho> bc s))) = no_BootNodes (sv_Node s)"
  by (auto simp: Service_SyncBlocks_def RequestBlocks_def Let_def on_node_def sendMessage_def net_emit_def split: option.split prod.split)

lemma StartAll_boot_nodes:
  assumes "StartAll w ev listening dial sent a = Inr a'"
  shows "app_boot_nodes a' = app_boot_nodes a"
proof -
  obtain a1 where a1: "StartP2P listening (NewRest a) = Inr a1" using assms by (auto simp: StartAll_def bindE_Inr)
  have c: "no_BootNodes (connectToBootNodes n) = no_BootNodes n" for n
  proof -
    have "no_BootNodes (foldl (\<lambda>n addr. net_emit (DialPeer addr) n) m xs) = no_BootNodes m" for m xs
      by (induction xs arbitrary: m) (simp_all add: net_emit_def)
    then show ?thesis by (simp add: connectToBootNodes_def)
  qed
  have one: "app_boot_nodes a1 = app_boot_nodes a"
    using a1 c by (auto simp: StartP2P_def bindE_Inr wrapE_Inr Service_Start_def Node_Start_def on_app_def app_p2p_def NewRest_def split: if_splits)
  obtain a2 k where a2: "foldl (connect_boot w (ev_now0 ev)) (a1, 0) (map (\<lambda>b. (b, dial b)) (pcf_BootNodes (acf_P2P (an_Conf a)))) = (a2, k)"
    by (rule prod.exhaust)
  have two: "app_boot_nodes a2 = app_boot_nodes a1" using connect_boot_fold [of w "ev_now0 ev" "(a1, 0)"] a2 by (metis fst_conv)
  from assms show ?thesis
    using one two by (auto simp: StartAll_def a1 a2 StartConsensus_def bindE_Inr on_app_def initial_sync_def app_p2p_def SyncBlocks_boot split: if_splits)
qed

section \<open>A new node starts\<close>

lemma connect_boot_engine: "ap_engine (an_app (fst (connect_boot w now st x))) = ap_engine (an_app (fst st))"
  by (auto simp: connect_boot_def on_app_def app_p2p_def split: prod.split)

lemma connect_fold_engine: "ap_engine (an_app (fst (foldl (connect_boot w now) st xs))) = ap_engine (an_app (fst st))"
  by (induction xs arbitrary: st) (simp_all add: connect_boot_engine)

text \<open>A new node that can listen starts, whatever its boot nodes answer.\<close>

lemma StartAll_succeeds:
  assumes "App_New C L W fs \<rho> now db random cfg = Inr a"
  shows "\<exists>a'. StartAll w ev True dial sent a = Inr a'"
proof -
  have fresh: "\<not> en_running (ap_engine (an_app a))" "\<not> sv_running (ap_p2p (an_app a))" "\<not> no_running (sv_Node (ap_p2p (an_app a)))"
    using assms by (rule App_New_cases, simp add: NewConsensusEngine_def NewP2PService_def NewNode_def)+
  then obtain a1 where a1: "StartP2P True (NewRest a) = Inr a1" "ap_engine (an_app a1) = ap_engine (an_app a)"
    by (auto simp: StartP2P_def NewRest_def Service_Start_def Node_Start_def on_app_def app_p2p_def)
  obtain a2 k where a2: "foldl (connect_boot w (ev_now0 ev)) (a1, 0) (map (\<lambda>b. (b, dial b)) (pcf_BootNodes (acf_P2P (an_Conf a)))) = (a2, k)"
    by (rule prod.exhaust)
  have "ap_engine (an_app a2) = ap_engine (an_app a1)" using connect_fold_engine [of w "ev_now0 ev" "(a1, 0)"] a2 by (metis fst_conv)
  then have "\<not> en_running (ap_engine (an_app a2))" using a1(2) fresh(1) by simp
  then show ?thesis by (simp add: StartAll_def a1(1) a2 StartConsensus_def Start_def on_app_def initial_sync_def app_p2p_def)
qed

end
