(* ===== verification/Sample_Wallet.thy ===== *)
theory Sample_Wallet
  imports Startup Sample_Consensus
begin

text \<open>
  The sample instance of the wallet's library and a node on it: keys and their encodings are one byte, the curve has
  256 points, and the wallet holds the key of the first funded address.
\<close>

definition toy_walletlib :: walletlib where
  "toy_walletlib =
     \<lparr>bip39_NewMnemonic = \<lambda>e. Some ''words'', bip39_IsMnemonicValid = \<lambda>m. True, bip39_NewSeed = \<lambda>m pass. [5],
      ScalarBaseMult = \<lambda>bs. (big_SetBytes bs, 0), P256_N = 256, x509_MarshalECPrivateKey = \<lambda>sk. Some [word_of_nat (sk_D sk)],
      enc_Wallet = \<lambda>w. [], dec_Wallet = \<lambda>bs. None\<rparr>"

lemma toy_walletlib_laws [simp]: "ec_laws toy toy_walletlib" "mnemonics_valid toy_walletlib"
proof -
  have "unat (word_of_nat d :: byte) = d" if "d < 256" for d using that by (simp add: unat_of_nat)
  then show "ec_laws toy toy_walletlib"
    by (simp add: ec_laws_def toy_walletlib_def key_of_def toy_def toy_key_def)
qed (simp add: mnemonics_valid_def toy_walletlib_def)

definition toy_account :: Account_wallet where
  "toy_account = \<lparr>wa_Index = 0, wa_Address = toy_address 1, wa_PrivateKey = [1], wa_PublicKey = [1], wa_Path = account_path 0, wa_Unlocked = True\<rparr>"

definition toy_wallet :: MnemonicWallet where
  "toy_wallet = \<lparr>mw_Mnemonic = ''words'', mw_Seed = [5], mw_MasterKey = [1 - sum_list (string_bytes (account_path 0))],
     mw_Accounts = [toy_account], mw_CurrentIndex = 0\<rparr>"

definition toy_manager :: WalletManager where
  "toy_manager = \<lparr>wm_walletDir = ''wallet'', wm_Wallet = Some toy_wallet\<rparr>"

text \<open>The account that the derivation gives for a master key of one byte.\<close>

lemma toy_derive:
  assumes "mw_MasterKey w = [b]"
  shows "deriveAccount toy toy_walletlib w i = (let k = b + sum_list (string_bytes (account_path i)) in
     Inr \<lparr>wa_Index = int i, wa_Address = toy_address k, wa_PrivateKey = [k], wa_PublicKey = [k], wa_Path = account_path i, wa_Unlocked = True\<rparr>)"
proof -
  let ?s = "sum_list (string_bytes (account_path i))"
  have zeros: "foldl (\<lambda>n b. 256 * n + unat b) 0 (replicate m 0) = 0" for m by (induction m) simp_all
  have off: "big_SetBytes (sha256 toy (string_bytes (account_path i))) = unat ?s"
    by (simp add: toy_def toy_hash_def big_SetBytes_append) (simp add: big_SetBytes_def zeros)
  have d: "(unat b + unat ?s) mod 256 = unat (b + ?s)" by (simp add: unat_word_ariths)
  have key: "DeriveAccountKey toy toy_walletlib (toy_key (unat b)) (account_path i) = (toy_key (unat (b + ?s)), sk_PublicKey (toy_key (unat (b + ?s))))"
    by (simp add: DeriveAccountKey_def off key_of_def toy_walletlib_def toy_key_def Let_def d)
  have "BytesToPrivateKey toy (mw_MasterKey w) = Inr (Some (toy_key (unat b)))" by (simp add: assms)
  moreover have "PublicKeyToAddress toy (sk_PublicKey (toy_key (unat (b + ?s)))) = toy_address (b + ?s)" by (rule toy_keys)
  moreover have "PrivateKeyToBytes toy_walletlib (Some (toy_key (unat (b + ?s)))) = Inr [b + ?s]"
    by (simp add: PrivateKeyToBytes_def toy_walletlib_def) (simp add: toy_key_def)
  moreover have "x509_MarshalPKIXPublicKey toy (sk_PublicKey (toy_key (unat (b + ?s)))) = Some [b + ?s]"
    by (simp add: toy_def) (simp add: toy_key_def)
  ultimately show ?thesis by (simp add: deriveAccount_def key Let_def)
qed

lemma toy_wallet_wf [simp]: "wf_wallet toy toy_walletlib toy_wallet"
  using toy_derive [of toy_wallet "1 - sum_list (string_bytes (account_path 0))" 0]
  by (simp add: wf_wallet_def toy_wallet_def toy_account_def)

lemma toy_derives: "length (mw_MasterKey w) = 1 \<Longrightarrow> \<exists>a. deriveAccount toy toy_walletlib w i = Inr a"
  using toy_derive [of w] by (cases "mw_MasterKey w") (auto simp: Let_def)

lemma toy_derive_dec [simp]: "deriveAccount toy (toy_walletlib\<lparr>dec_Wallet := d\<rparr>) w i = deriveAccount toy toy_walletlib w i"
  by (simp add: deriveAccount_def DeriveAccountKey_def key_of_def PrivateKeyToBytes_def)

lemma toy_adds: "wm_Wallet p = Some w \<Longrightarrow> length (mw_MasterKey w) = 1 \<Longrightarrow> \<exists>p'. add_accounts toy toy_walletlib n p = Inr p'"
proof (induction n arbitrary: p w)
  case (Suc n)
  obtain a where "deriveAccount toy toy_walletlib w (length (mw_Accounts w)) = Inr a" using toy_derives Suc.prems(2) by blast
  with Suc show ?case by (simp add: AddAccount_def)
qed simp

lemma toy_wallet_of: "\<exists>w. wallet_of toy toy_walletlib m = Inr w \<and> length (mw_MasterKey w) = 1"
proof -
  let ?w = "\<lambda>k. \<lparr>mw_Mnemonic = m, mw_Seed = bip39_NewSeed toy_walletlib m [], mw_MasterKey = [k], mw_Accounts = [], mw_CurrentIndex = 0\<rparr>"
  have k: "\<exists>k. PrivateKeyToBytes toy_walletlib (Some sk) = Inr [k]" for sk by (simp add: PrivateKeyToBytes_def toy_walletlib_def)
  obtain k where k: "PrivateKeyToBytes toy_walletlib (Some (DeriveMasterKey toy toy_walletlib (bip39_NewSeed toy_walletlib m []))) = Inr [k]"
    using k by blast
  obtain a where "deriveAccount toy toy_walletlib (?w k) 0 = Inr a" using toy_derives [of "?w k"] by auto
  with k show ?thesis by (auto simp: wallet_of_def Let_def)
qed

lemma toy_next_account: "\<exists>a. deriveAccount toy toy_walletlib toy_wallet 1 = Inr a"
  by (rule toy_derives) (simp add: toy_wallet_def)

section \<open>A node\<close>

definition toy_app_cfg :: AppConfig where
  "toy_app_cfg = \<lparr>acf_core = toy_cfg, acf_Wallet_Path = ''wallet'', acf_Server = \<lparr>scf_RestPort = 8000, scf_InternalRestPort = 8800\<rparr>,
     acf_P2P = \<lparr>pcf_Address = ''0.0.0.0'', pcf_Port = 9000, pcf_BootNodes = [''other'']\<rparr>\<rparr>"

definition toy_files :: files where
  "toy_files = [filepath_Join ''wallet'' ''wallet.json'' \<mapsto> []]"

definition toy_lib :: walletlib where
  "toy_lib = toy_walletlib\<lparr>dec_Wallet := \<lambda>bs. Some toy_wallet\<rparr>"

lemma toy_consensus_boot: "\<exists>c. NewConsensus (\<lambda>m. m) toy_cfg (bc_db toy_chain) = Inr c"
proof -
  have "bc_db toy_chain k = Inl ErrNotFound" if "hd k \<notin> {CHR ''u'', CHR ''t'', CHR ''b'', CHR ''m''}" for k
    using AddBlock_keeps [OF mem_ops_laws(1) toy_genesis_fields(4) toy_AddBlock that] by (simp add: toy_start_def empty_db_def)
  then show ?thesis by (simp add: NewConsensus_def LoadStakerSet_def LoadValidatorSet_def key_kinds toy_cfg_def)
qed

lemma toy_booted: "\<exists>a. App_New toy toy_lib mem_ops toy_files (\<lambda>m. m) 0 empty_db [] toy_app_cfg = Inr a"
proof -
  obtain c where c: "NewConsensus (\<lambda>m. m) toy_cfg (bc_db toy_chain) = Inr c" using toy_consensus_boot by blast
  have "InitWallet toy_lib toy_files ''wallet'' = Inr toy_manager"
    by (simp add: InitWallet_def LoadWalletFile_def wallet_file_def json_suffix_def NewWalletManager_def toy_files_def toy_lib_def toy_manager_def)
  moreover have "wm_Wallet toy_manager = Some toy_wallet" "mw_Accounts toy_wallet = [toy_account]" by (simp_all add: toy_manager_def toy_wallet_def)
  ultimately show ?thesis using c toy_boot [of 0] by (simp add: App_New_def toy_app_cfg_def Let_def)
qed

end
