(* ===== verification/API_Theorems.thy ===== *)
theory API_Theorems
  imports Rest_Facts Sample_Wallet Ledger_Theorems Network_Theorems
begin

text \<open>
  The theorems on the interfaces of a node: what the REST interface offers to whom and does with transactions and
  pages, the wallet and its file, and the state in which the application starts.
\<close>

section \<open>Routes\<close>



section \<open>Pages of blocks\<close>

text \<open>
  C25: The pages of the list of blocks, as many as the answer says, joined in order are the blocks of all heights, from
  the last one down or from the first one up, each once, for every page size up to a hundred.
\<close>

theorem pages_list_all_blocks:
  assumes "unat (GetLatestHeight bc) = n" "n < 2 ^ 62" "0 < l" "l \<le> 100"
  shows "pgr_totalPages (the (re_Data (GetBlocks bc pageStr (nat_to_dec l) order))) = int (n div l + 1) \<and>
    concat (map (\<lambda>p. page_of bc ''desc'' l (Suc p)) [0..<n div l + 1]) = blocks_at bc (map (\<lambda>i. int n - int i) [0..<Suc n]) \<and>
    concat (map (\<lambda>p. page_of bc ''asc'' l (Suc p)) [0..<n div l + 1]) = blocks_at bc (map int [0..<Suc n])"
  using page_count [OF assms] pages_join [where l = l and n = n and hs = "map (\<lambda>i. int n - int i) [0..<Suc n]"]
    pages_join [where l = l and n = n and hs = "map int [0..<Suc n]"] page_of_eq [OF assms] assms(3)
  by (simp del: upt_Suc)

theorem pages_list_all_blocks_witness:
  "pgr_totalPages (the (re_Data (GetBlocks toy_chain [] (nat_to_dec 10) []))) = 1 \<and>
   page_of toy_chain ''desc'' 10 1 = [formatBlockResp (gob_block toy_genesis) toy_chain]"
  using pages_list_all_blocks [of toy_chain 0 10 "[]" "[]"]
  by (simp add: GetLatestHeight_def blocks_at_def GetBlockByHeight_def)

section \<open>Transactions from outside\<close>

text \<open>
  C12: A valid transfer, written as a request by any client, is read back as the same transaction; it is accepted, is in
  the pool under its identifier and is sent to every active peer.  A request that is refused, whatever its content,
  leaves the chain object and the network service as they were.
\<close>

theorem signed_submission:
  assumes "presentable tx" "tx_NetworkID tx = GetNetworkID bc" "ValidateTransaction C bc tx = Inr ()" "ins tx \<noteq> []"
    "map_of (bc_Mempool bc) (HashToString (tx_ID tx)) = None"
  shows "(\<exists>bc' s'. SubmitSignedTx C w now \<rho> (Some (request_of tx)) (bc, Some s) =
       ((bc', Some s'), sendResp StatusOK (Some (HashToString (tx_ID tx))) None) \<and> pooled_and_sent w now \<rho> tx bc s bc' s') \<and>
    (\<forall>body. re_Success (snd (SubmitSignedTx C w now \<rho> body (bc, Some s))) \<or> fst (SubmitSignedTx C w now \<rho> body (bc, Some s)) = (bc, Some s))"
proof
  have "ValidateTxHash C tx = Inr ()" using ValidateTransaction_form [OF assms(3)] by (simp add: tx_form_ok_def ValidateTxHash_ok)
  from convert_request [OF assms(1) this] have conv: "convertSignedTxReqToTx C (request_of tx) (GetNetworkID bc) = Inr tx" using assms(2) by simp
  have sigs: "ValidateTxSignatures C bc tx = Inr ()"
    using assms(3,4) by (simp add: ValidateTransaction_transfer ValidateTxSignatures_ok)
  show "\<exists>bc' s'. SubmitSignedTx C w now \<rho> (Some (request_of tx)) (bc, Some s) =
       ((bc', Some s'), sendResp StatusOK (Some (HashToString (tx_ID tx))) None) \<and> pooled_and_sent w now \<rho> tx bc s bc' s'"
    using pool_and_send_ok [OF assms(5), of w now \<rho> s] by (auto simp: SubmitSignedTx_def conv sigs)
  show "\<forall>body. re_Success (snd (SubmitSignedTx C w now \<rho> body (bc, Some s))) \<or> fst (SubmitSignedTx C w now \<rho> body (bc, Some s)) = (bc, Some s)"
    by (auto simp: SubmitSignedTx_def sendResp_def split: option.split sum.split)
qed

lemma toy_genesis_id: "wf_Hash (tx_ID toy_genesis_tx)"
  by (simp add: toy_genesis_tx_def Let_def Hash_Transaction_def Hash_json_def)

lemma toy_transfer_ready:
  "\<exists>tx. toy_transfer = Inr tx \<and> ValidateTransaction toy toy_chain tx = Inr () \<and> ins tx \<noteq> [] \<and> presentable tx \<and> tx_NetworkID tx = GetNetworkID toy_chain"
proof -
  obtain tx where tx: "toy_transfer = Inr tx" "ValidateTransaction toy toy_chain tx = Inr ()" "ins tx \<noteq> []" using toy_transfer_valid by blast
  have "presentable tx \<and> tx_NetworkID tx = GetNetworkID toy_chain"
    by (rule CreateSignedTx_presentable [OF tx(1) [unfolded toy_transfer_def]])
      (simp_all add: wf_Address_def toy_address_def [symmetric] toy_output_def new_utxo_def toy_genesis_id, simp_all add: toy_address_def)
  with tx show ?thesis by blast
qed

theorem signed_submission_witness:
  "\<exists>tx bc' s'. toy_transfer = Inr tx \<and>
     SubmitSignedTx toy plain_wire 0 (\<lambda>m. m) (Some (request_of tx)) (toy_chain, Some toy_service) =
       ((bc', Some s'), sendResp StatusOK (Some (HashToString (tx_ID tx))) None) \<and>
     GetTx_mempool (bc_Mempool bc') (tx_ID tx) = Some tx"
proof -
  obtain tx where tx: "toy_transfer = Inr tx" "ValidateTransaction toy toy_chain tx = Inr ()" "ins tx \<noteq> []" "presentable tx"
    "tx_NetworkID tx = GetNetworkID toy_chain" using toy_transfer_ready by blast
  from signed_submission [OF tx(4,5,2,3), of plain_wire 0 "\<lambda>m. m" toy_service] tx(1) show ?thesis
    by (auto simp: pooled_and_sent_def)
qed

text \<open>
  C35: Anybody can create money over the public interface: a request without inputs, so without any signature, that pays
  an arbitrary amount to an arbitrary address is accepted, and the next block that the node assembles contains it,
  whatever the order in which the pool is read, as long as the pool fits into the block.
\<close>

theorem anyone_mints:
  assumes "wf_Address to" "amount \<noteq> 0" "tx = minted C version (GetNetworkID bc) time to amount ty"
    "map_of (bc_Mempool bc) (HashToString (tx_ID tx)) = None"
  shows "\<exists>bc' p2p'. SubmitSignedTx C w now \<rho> (Some (mint_request version time to amount ty)) (bc, p2p) =
       ((bc', p2p'), sendResp StatusOK (Some (HashToString (tx_ID tx))) None) \<and>
     ins tx = [] \<and> outs tx = [\<lparr>out_Address = to, out_Amount = amount, out_TxType = ty\<rparr>] \<and>
     (\<forall>order prevHash height proposer t. iterates order (bc_Mempool bc') \<and> length order \<le> MaxTxsPerBlock \<longrightarrow>
        tx \<in> set (blk_Transactions (snd (SetBlock C order bc' prevHash height proposer t))))"
proof -
  define bc' where "bc' = bc\<lparr>bc_Mempool := mput (HashToString (tx_ID tx)) \<lparr>twf_Tx = tx, twf_Fee = 0\<rparr> (bc_Mempool bc)\<rparr>"
  have fields: "ins tx = []" "outs tx = [\<lparr>out_Address = to, out_Amount = amount, out_TxType = ty\<rparr>]" by (simp_all add: assms(3) minted_def Let_def)
  have "SubmitSignedTx C w now \<rho> (Some (mint_request version time to amount ty)) (bc, p2p) =
       ((bc', map_option (BroadcastTx w now \<rho> tx) p2p), sendResp StatusOK (Some (HashToString (tx_ID tx))) None)"
    using assms(4) fields(1)
    by (simp add: SubmitSignedTx_def mint_converted [OF assms(1)] assms(3) [symmetric] ValidateTxSignatures_def pool_and_send_def NewTranaction_def
        Let_def bc'_def)
  moreover have "GetNetworkID bc' = GetNetworkID bc" by (simp add: bc'_def GetNetworkID_def)
  then have "ValidateTransaction C bc' tx = Inr ()" using minted_valid [OF assms(2), of C bc'] assms(3) by simp
  moreover have "GetTx_mempool (bc_Mempool bc') (tx_ID tx) = Some tx" by (simp add: bc'_def GetTx_mempool_def map_of_mput)
  ultimately show ?thesis using fields SetBlock_takes_inputless by blast
qed

theorem anyone_mints_witness:
  "\<exists>tx bc' p2p'. SubmitSignedTx toy plain_wire 0 (\<lambda>m. m) (Some (mint_request ''1'' 7 (toy_address 2) (2 ^ 63) TxTypeGeneral)) (toy_chain, None) =
       ((bc', p2p'), sendResp StatusOK (Some (HashToString (tx_ID tx))) None) \<and>
     ins tx = [] \<and> outs tx = [\<lparr>out_Address = toy_address 2, out_Amount = 2 ^ 63, out_TxType = TxTypeGeneral\<rparr>]"
proof -
  let ?tx = "minted toy ''1'' (GetNetworkID toy_chain) 7 (toy_address 2) (2 ^ 63) TxTypeGeneral"
  have "(2 ^ 63 :: uint64) \<noteq> 0" by simp
  from anyone_mints [OF toy_address_wf this refl, where C = toy and bc = toy_chain and version = "''1''" and time = 7 and w = plain_wire and now = 0 and p2p = None] show ?thesis
    by (fastforce intro: exI [of _ ?tx])
qed

section \<open>The wallet\<close>

text \<open>
  C13: A payment from an account of the wallet succeeds when the unspent outputs of the account cover amount and fee: the
  answer names the transaction, which is valid, pays the amount to the recipient, is in the pool and was sent to
  every active peer.
\<close>

theorem wallet_transfer_accepted:
  assumes W: "ec_laws C L" "wm_Wallet wm = Some wallet" "wf_wallet C L wallet" "i < length (mw_Accounts wallet)"
    and a: "src = wa_Address (mw_Accounts wallet ! i)" "wf_Address dst" "fee' = fee_or_min p fee"
    and amounts: "0 < unat amount + unat fee'" "GetMinFee p \<le> fee'"
      "GetMaxMemoSize p = 0 \<or> go_uint64 (length memo) \<le> GetMaxMemoSize p"
      "GetMaxDataSize p = 0 \<or> go_uint64 (length (elems data)) \<le> GetMaxDataSize p"
    and db: "utxo_db_ok (bc_db p)" "range_ok \<rho>u" and C: "der_signatures C" "signatures_verify C" "\<forall>n k h. ecdsa_SignASN1 C n k h \<noteq> None"
    and us: "GetUtxoList \<rho>u p src True = Inr us" "sum_list (map (unat \<circ> amount_of) us) < 2 ^ 64"
      "unat amount + unat fee' \<le> sum_list (map (unat \<circ> amount_of) us)"
    and fresh: "\<forall>tx. CreateSignedTx C \<rho>u r p now src dst amount fee' memo data TxTypeGeneral (wa_PrivateKey (mw_Accounts wallet ! i))
        (Some (wa_PublicKey (mw_Accounts wallet ! i))) = Inr tx \<longrightarrow> map_of (bc_Mempool p) (HashToString (tx_ID tx)) = None"
  shows "\<exists>tx p' s'.
     SendTxWithWallet C w \<rho>u r now send \<rho> (Some \<lparr>seq_AccountIndex = int i, seq_To = AddressToString dst, seq_Amount = amount, seq_Fee = fee,
         seq_Memo = memo, seq_Data = data\<rparr>) (Some wm) (p, Some s) =
       ((p', Some s'), sendResp StatusOK (Some \<lparr>ser_txId = HashToString (tx_ID tx), ser_from = AddressToString src, ser_to = AddressToString dst\<rparr>) None) \<and>
     pooled_and_sent w send \<rho> tx p s p' s' \<and> ValidateTransaction C p tx = Inr () \<and> hd (outs tx) = setTxOutput dst amount TxTypeGeneral"
proof -
  let ?a = "mw_Accounts wallet ! i"
  have "account_ok C ?a" using wf_wallet_accounts [OF W(1,3)] W(4) by simp
  then have "good_request C p src amount fee' memo data (wa_PrivateKey ?a) (Some (wa_PublicKey ?a))"
    using amounts us(2,3) by (auto simp: good_request_def account_ok_def a(1) elems_def)
  from CreateSignedTx_accepted [OF db C(1,2) this C(3) us] obtain tx where
    tx: "CreateSignedTx C \<rho>u r p now src dst amount fee' memo data TxTypeGeneral (wa_PrivateKey ?a) (Some (wa_PublicKey ?a)) = Inr tx"
      "ValidateTransaction C p tx = Inr ()" "hd (outs tx) = setTxOutput dst amount TxTypeGeneral" by blast
  have "map_of (bc_Mempool p) (HashToString (tx_ID tx)) = None" using fresh tx(1) by blast
  from pool_and_send_ok [OF this, of w send \<rho> s] obtain p' s' where
    "pool_and_send w send \<rho> tx p (Some s) = Inr (p', Some s')" "pooled_and_sent w send \<rho> tx p s p' s'" by blast
  with tx W(2,4) a show ?thesis by (fastforce simp: SendTxWithWallet_def Let_def)
qed

theorem wallet_transfer_accepted_witness:
  "\<exists>tx p' s'.
     SendTxWithWallet toy plain_wire (\<lambda>m. m) (\<lambda>n. n) 7 0 (\<lambda>m. m) (Some \<lparr>seq_AccountIndex = int 0, seq_To = AddressToString (toy_address 2),
         seq_Amount = 30, seq_Fee = 5, seq_Memo = [], seq_Data = None\<rparr>) (Some toy_manager) (toy_chain, Some toy_service) =
       ((p', Some s'), sendResp StatusOK (Some \<lparr>ser_txId = HashToString (tx_ID tx), ser_from = AddressToString (toy_address 1),
         ser_to = AddressToString (toy_address 2)\<rparr>) None) \<and>
     pooled_and_sent plain_wire 0 (\<lambda>m. m) tx toy_chain toy_service p' s' \<and> ValidateTransaction toy toy_chain tx = Inr () \<and>
     hd (outs tx) = setTxOutput (toy_address 2) 30 TxTypeGeneral"
proof (rule wallet_transfer_accepted [OF toy_walletlib_laws(1) _ toy_wallet_wf, where us = "[toy_output]"])
  show "\<forall>tx. CreateSignedTx toy (\<lambda>m. m) (\<lambda>n. n) toy_chain 7 (toy_address 1) (toy_address 2) 30 5 [] None TxTypeGeneral
      (wa_PrivateKey (mw_Accounts toy_wallet ! 0)) (Some (wa_PublicKey (mw_Accounts toy_wallet ! 0))) = Inr tx \<longrightarrow>
      map_of (bc_Mempool toy_chain) (HashToString (tx_ID tx)) = None" by simp
  show "utxo_db_ok (bc_db toy_chain)" by (rule toy_db_ok)
qed (simp_all add: toy_manager_def toy_wallet_def toy_account_def fee_or_min_def GetMinFee_def GetMaxMemoSize_def GetMaxDataSize_def toy_cfg_def)

text \<open>
  C21: The words are enough to recover a wallet: restored from them, and extended by as many accounts, a wallet is equal to
  the one that was created, and each of its accounts has the path of its index, a private key that parses, the
  public key that belongs to it, and the address of that key.
\<close>

theorem wallet_restored:
  assumes "ec_laws C L" "mnemonics_valid L" "CreateWallet C L entropy p = Inr p1" "add_accounts C L n p1 = Inr p2" "GetMnemonic p1 = Inr words"
  shows "\<exists>q accounts. bindE (RestoreWallet C L words (NewWalletManager dir)) (add_accounts C L n) = Inr q \<and> wm_Wallet q = wm_Wallet p2 \<and>
     GetAccounts q = Inr accounts \<and> length accounts = n + 1 \<and>
     (\<forall>i<n + 1. account_ok C (accounts ! i) \<and> wa_Index (accounts ! i) = int i \<and> wa_Path (accounts ! i) = account_path i)"
proof -
  from assms(3) obtain e m wallet where c: "entropy = Some e" "bip39_NewMnemonic L e = Some m" "wallet_of C L m = Inr wallet"
    "p1 = p\<lparr>wm_Wallet := Some wallet\<rparr>"
    by (auto simp: CreateWallet_def bindE_Inr split: option.splits)
  have wf: "wf_wallet C L wallet" "mw_Mnemonic wallet = m" using wf_wallet_of [OF c(3)] by simp_all
  then have m: "m = words" using assms(5) c(4) by (simp add: GetMnemonic_def)
  have one: "length (mw_Accounts wallet) = 1" using c(3) by (auto simp: wallet_of_def Let_def bindE_Inr wrapE_Inr)
  let ?q = "(NewWalletManager dir)\<lparr>wm_Wallet := Some wallet\<rparr>"
  have r: "RestoreWallet C L words (NewWalletManager dir) = Inr ?q"
    using assms(2) c(2,3) m by (simp add: RestoreWallet_def mnemonics_valid_def)
  from add_accounts_same [OF assms(4), of ?q] c(4) obtain q where q: "add_accounts C L n ?q = Inr q" "wm_Wallet q = wm_Wallet p2" by auto
  from add_accounts_wf [OF q(1) _ wf(1)] one obtain w' where
    w': "wm_Wallet q = Some w'" "wf_wallet C L w'" "length (mw_Accounts w') = n + 1" by auto
  have "account_ok C (mw_Accounts w' ! i) \<and> wa_Index (mw_Accounts w' ! i) = int i \<and> wa_Path (mw_Accounts w' ! i) = account_path i"
    if "i < n + 1" for i
    using w'(2,3) that by (intro deriveAccount_ok [OF assms(1), of w']) (simp add: wf_wallet_def)
  moreover have "GetAccounts q = Inr (mw_Accounts w')" by (simp add: GetAccounts_def w'(1))
  ultimately show ?thesis using r q w'(3) by (intro exI [of _ q] exI [of _ "mw_Accounts w'"]) simp
qed

theorem wallet_restored_witness:
  "\<exists>p1 p2 q. CreateWallet toy toy_walletlib (Some []) (NewWalletManager ''wallet'') = Inr p1 \<and> add_accounts toy toy_walletlib 2 p1 = Inr p2 \<and>
     bindE (RestoreWallet toy toy_walletlib ''words'' (NewWalletManager ''other'')) (add_accounts toy toy_walletlib 2) = Inr q \<and> wm_Wallet q = wm_Wallet p2"
proof -
  obtain w where w: "wallet_of toy toy_walletlib ''words'' = Inr w" "length (mw_MasterKey w) = 1" using toy_wallet_of by blast
  let ?p = "(NewWalletManager ''wallet'')\<lparr>wm_Wallet := Some w\<rparr>"
  have p1: "CreateWallet toy toy_walletlib (Some []) (NewWalletManager ''wallet'') = Inr ?p"
    using w(1) by (simp add: CreateWallet_def) (simp add: toy_walletlib_def)
  obtain p2 where p2: "add_accounts toy toy_walletlib 2 ?p = Inr p2" using toy_adds [of ?p w 2] w(2) by auto
  have "GetMnemonic ?p = Inr ''words''" using wf_wallet_of [OF w(1)] by (simp add: GetMnemonic_def)
  from wallet_restored [OF toy_walletlib_laws p1 p2 this, of "''other''"] p1 p2 show ?thesis by blast
qed

text \<open>
  When the node answers that an account was created, the wallet file holds it: a start from the same directory finds
  the wallet as it is in memory, with the new account after the old ones.
\<close>

theorem wallet_saved:
  assumes "CreateNewAccount C L dir_ok write_ok (Some wm, fs) = ((Some wm', fs'), resp)" "re_Success resp"
    "wm_walletDir wm \<noteq> []" "\<not> json_suffix (wm_walletDir wm)" "\<forall>w. wm_Wallet wm' = Some w \<longrightarrow> dec_Wallet L (enc_Wallet L w) = Some w"
  shows "InitWallet L fs' (wm_walletDir wm) = Inr wm' \<and>
    (\<exists>w w' a. wm_Wallet wm = Some w \<and> wm_Wallet wm' = Some w' \<and> mw_Accounts w' = mw_Accounts w @ [a] \<and> re_Data resp = Some (account_resp a))"
proof -
  from assms(1,2) obtain a where a: "AddAccount C L wm = Inr (wm', a)" "SaveWallet L fs dir_ok write_ok wm' = Inr fs'"
    "re_Data resp = Some (account_resp a)"
    by (auto simp: CreateNewAccount_def sendResp_def split: option.splits sum.splits prod.splits if_splits)
  from a(1) obtain w where w: "wm_Wallet wm = Some w" "wm' = wm\<lparr>wm_Wallet := Some (w\<lparr>mw_Accounts := mw_Accounts w @ [a]\<rparr>)\<rparr>"
    by (rule AddAccount_cases)
  let ?w = "w\<lparr>mw_Accounts := mw_Accounts w @ [a]\<rparr>"
  have "InitWallet L fs' (wm_walletDir wm') = Inr wm'"
    by (rule SaveWallet_Load [OF a(2), of ?w]) (use w(2) assms(3-5) in simp_all)
  then show ?thesis using w a(3) by auto
qed

theorem wallet_saved_witness:
  "\<exists>wm' fs' resp. CreateNewAccount toy (toy_walletlib\<lparr>dec_Wallet := \<lambda>bs. wm_Wallet wm'\<rparr>) True True (Some toy_manager, Map.empty) = ((Some wm', fs'), resp) \<and>
     InitWallet (toy_walletlib\<lparr>dec_Wallet := \<lambda>bs. wm_Wallet wm'\<rparr>) fs' ''wallet'' = Inr wm'"
proof -
  obtain a where a: "deriveAccount toy toy_walletlib toy_wallet 1 = Inr a" using toy_next_account by blast
  let ?wm = "toy_manager\<lparr>wm_Wallet := Some (toy_wallet\<lparr>mw_Accounts := mw_Accounts toy_wallet @ [a]\<rparr>)\<rparr>"
  let ?L = "toy_walletlib\<lparr>dec_Wallet := \<lambda>bs. wm_Wallet ?wm\<rparr>"
  let ?fs = "[filepath_Join ''wallet'' ''wallet.json'' \<mapsto> enc_Wallet ?L (the (wm_Wallet ?wm))]"
  have add: "AddAccount toy ?L toy_manager = Inr (?wm, a)"
    using a by (simp add: AddAccount_def toy_manager_def) (simp add: toy_wallet_def)
  have c: "CreateNewAccount toy ?L True True (Some toy_manager, Map.empty) = ((Some ?wm, ?fs), sendResp StatusOK (Some (account_resp a)) None)"
  proof -
    have "wm_Wallet toy_manager = Some toy_wallet" "SaveWallet ?L Map.empty True True ?wm = Inr ?fs" by (simp_all add: SaveWallet_def CreateDir_def toy_manager_def)
    with add show ?thesis unfolding CreateNewAccount_def by simp
  qed
  moreover have "InitWallet ?L ?fs (wm_walletDir toy_manager) = Inr ?wm"
    using wallet_saved [OF c] by (simp add: sendResp_def json_suffix_def toy_manager_def)
  then have "InitWallet ?L ?fs ''wallet'' = Inr ?wm" by (simp add: toy_manager_def)
  ultimately show ?thesis by blast
qed

text \<open>
  With a wallet path that names a file, which loading accepts, no account can be created: the request fails, since
  saving takes the path for a directory; the account is in memory, where it can be used, but the next start does not
  know it.
\<close>

theorem json_wallet_path:
  assumes "InitWallet L fs path = Inr wm" "json_suffix path" "AddAccount C L wm = Inr (wm', a)"
  shows "CreateNewAccount C L dir_ok write_ok (Some wm, fs) = ((Some wm', fs), sendResp StatusInternalServerError None (Some (SaveFailed DirFailed))) \<and>
    InitWallet L fs path = Inr wm \<and> wm \<noteq> wm'"
proof -
  from assms(1) have load: "LoadWalletFile L fs (NewWalletManager path) = Inr wm" by (auto simp: InitWallet_def wrapE_Inr split: if_splits)
  from LoadWalletFile_json [OF this] assms(2) have present: "fs (wm_walletDir wm) \<noteq> None" by (auto simp: NewWalletManager_def)
  from assms(3) obtain w where w: "wm_Wallet wm = Some w" "wm' = wm\<lparr>wm_Wallet := Some (w\<lparr>mw_Accounts := mw_Accounts w @ [a]\<rparr>)\<rparr>"
    by (rule AddAccount_cases)
  have "length (mw_Accounts (the (wm_Wallet wm'))) \<noteq> length (mw_Accounts (the (wm_Wallet wm)))" by (simp add: w)
  then have "wm \<noteq> wm'" by auto
  with assms(1,3) present w show ?thesis by (auto simp: CreateNewAccount_def SaveWallet_def CreateDir_def)
qed

theorem json_wallet_path_witness:
  "\<exists>wm' fs. CreateNewAccount toy (toy_walletlib\<lparr>dec_Wallet := \<lambda>bs. Some toy_wallet\<rparr>) True True
     (Some (toy_manager\<lparr>wm_walletDir := ''w.json''\<rparr>), [''w.json'' \<mapsto> []]) =
     ((Some wm', fs), sendResp StatusInternalServerError None (Some (SaveFailed DirFailed)))"
proof -
  let ?L = "toy_walletlib\<lparr>dec_Wallet := \<lambda>bs. Some toy_wallet\<rparr>"
  let ?wm = "toy_manager\<lparr>wm_walletDir := ''w.json''\<rparr>"
  obtain a where a: "deriveAccount toy toy_walletlib toy_wallet 1 = Inr a" using toy_next_account by blast
  have add: "AddAccount toy ?L ?wm = Inr (?wm\<lparr>wm_Wallet := Some (toy_wallet\<lparr>mw_Accounts := mw_Accounts toy_wallet @ [a]\<rparr>)\<rparr>, a)"
    using a by (simp add: AddAccount_def toy_manager_def) (simp add: toy_wallet_def)
  have "InitWallet ?L [''w.json'' \<mapsto> []] ''w.json'' = Inr ?wm"
    by (simp add: InitWallet_def LoadWalletFile_def wallet_file_def json_suffix_def NewWalletManager_def toy_manager_def)
  from json_wallet_path [OF this _ add, of True True] show ?thesis by (auto simp: json_suffix_def)
qed

section \<open>Start of a node\<close>

text \<open>
  C26: The node that the application builds is well-formed: its engine satisfies the invariant of consensus, its peer table
  and its WebSocket hub theirs; nothing runs, no peer is known and the pool is empty; every handler the network needs is
  installed; and a block producer signs with the keys of the first account of its wallet.
\<close>

theorem booted_node:
  assumes "App_New C L W fs \<rho> now db random cfg = Inr a" "e = ap_engine (an_app a)" "s = ap_p2p (an_app a)"
  shows "engine_inv C (co_ValidatorSet (en_consensus e)) e \<and> wf_Node (sv_Node s) \<and> wf_Hub (srv_wsHub (an_restServer a)) \<and>
     \<not> en_running e \<and> \<not> sv_running s \<and> no_Peers (sv_Node s) = [] \<and> bc_Mempool (en_blockchain e) = [] \<and>
     en_onBlockCommit e \<and> sv_blockHandler s \<and> sv_txHandler s \<and> sv_proposalHandler s \<and> sv_voteHandler s \<and>
     (cm_BlockProducer (cfg_Common (acf_core cfg)) \<longrightarrow>
       (\<exists>account rest v. GetAccounts (an_Wallet a) = Inr (account # rest) \<and> co_LocalValidator (en_consensus e) = Some v \<and>
          val_Address v = wa_Address account \<and> val_PublicKey v = wa_PublicKey account \<and>
          co_LocalProposer (en_consensus e) = Some (NewProposer (Some v) (wa_PrivateKey account))))"
  using assms(1)
proof (rule App_New_cases)
  fix wm :: WalletManager and w :: MnemonicWallet and account :: Account_wallet and rest and bc :: BlockChain and cons0 :: Consensus
  let ?prod = "cm_BlockProducer (cfg_Common (acf_core cfg))"
  let ?cons = "if ?prod then RegisterValidator cons0 (wa_Address account) (wa_PublicKey account) (wa_PrivateKey account) else cons0"
  assume w: "wm_Wallet wm = Some w" "mw_Accounts w = account # rest"
    and bc: "NewChainState C W now db (acf_core cfg) = Inr bc" and cons0: "NewConsensus \<rho> (acf_core cfg) (bc_db bc) = Inr cons0"
    and a: "an_app a = \<lparr>ap_engine = wire_engine (NewConsensusEngine ?cons bc),
      ap_p2p = wire_service (NewP2PService (NewNode random (pcf_Address (acf_P2P cfg)) (pcf_Port (acf_P2P cfg)) (cm_NetworkID (cfg_Common (acf_core cfg))))),
      ap_pending = []\<rparr>"
    and srv: "an_restServer a = wire_server cfg" and wm: "an_Wallet a = wm"
  have "co_LocalValidator cons0 = None" using cons0 by (auto simp: NewConsensus_def bindE_Inr Let_def)
  then have "\<forall>v. co_LocalValidator ?cons = Some v \<longrightarrow> power_of (co_ValidatorSet ?cons) (val_Address v) = val_VotingPower v"
    using registered_power by (auto simp: RegisterValidator_def Let_def)
  then have inv: "engine_inv C (co_ValidatorSet ?cons) e" using new_engine_inv assms(2) a by simp
  have cons: "en_consensus e = ?cons" "en_blockchain e = bc" "\<not> en_running e" "en_onBlockCommit e"
    using assms(2) a by (simp_all add: NewConsensusEngine_def) (simp add: wire_engine_def SetStateBroadcaster_def SetBlockSyncer_def SetP2PBroadcaster_def SetBlockCommitCallback_def)
  have s: "no_Peers (sv_Node s) = []" "\<not> sv_running s" "sv_blockHandler s \<and> sv_txHandler s \<and> sv_proposalHandler s \<and> sv_voteHandler s"
    using assms(3) a by (simp_all add: NewP2PService_def NewNode_def)
      (simp add: wire_service_def SetBlockHandler_def SetTxHandler_def SetVoteHandler_def SetProposalHandler_def)
  have hub: "wf_Hub (srv_wsHub (an_restServer a))"
    using srv by (simp add: wire_server_def Let_def wf_Hub_def NewServer_def NewServerWithInternalPort_def SetP2P_def SetConsensusEngine_def
        SetLatestBlockProvider_def SetConsensusStateProvider_def NewWSHub_def client_of_def new_client_def)
  have "?prod \<Longrightarrow> \<exists>v. co_LocalValidator ?cons = Some v \<and> val_Address v = wa_Address account \<and> val_PublicKey v = wa_PublicKey account \<and>
          co_LocalProposer ?cons = Some (NewProposer (Some v) (wa_PrivateKey account))"
    by (simp add: RegisterValidator_def Let_def)
  moreover have "GetAccounts (an_Wallet a) = Inr (account # rest)" using w wm by (simp add: GetAccounts_def)
  ultimately show ?thesis using inv cons s hub NewChainState_pool [OF bc] by (auto simp: wf_Node_def)
qed

theorem booted_node_witness:
  "\<exists>a v. App_New toy toy_lib mem_ops toy_files (\<lambda>m. m) 0 empty_db [] toy_app_cfg = Inr a \<and>
     co_LocalValidator (en_consensus (ap_engine (an_app a))) = Some v"
proof -
  obtain a where a: "App_New toy toy_lib mem_ops toy_files (\<lambda>m. m) 0 empty_db [] toy_app_cfg = Inr a" using toy_booted by blast
  have "cm_BlockProducer (cfg_Common (acf_core toy_app_cfg))" by (simp add: toy_app_cfg_def toy_cfg_def)
  then show ?thesis using booted_node [OF a refl refl] a by blast
qed

text \<open>
  Boot nodes are dialled once: after the start, and after any frames from any connections, the maintenance of a node
  that has lost its peers dials nobody, because the list of boot nodes that it redials was never filled.
\<close>

theorem boot_nodes_forgotten:
  assumes "App_New C L W fs \<rho> now db random cfg = Inr a" "StartAll w ev listening dial sent a = Inr a'"
    "foldE (receive_frame C w) (ap_p2p (an_app a')) fs' = Inr s"
  shows "reconnectIfNeeded ((sv_Node s)\<lparr>no_Peers := peers\<rparr>) = (sv_Node s)\<lparr>no_Peers := peers\<rparr>"
proof -
  have "app_boot_nodes a = []" using assms(1) by (rule App_New_cases) (simp add: NewP2PService_def NewNode_def)
  then have "no_BootNodes (sv_Node s) = []" using StartAll_boot_nodes [OF assms(2)] frames_boot [OF assms(3)] by simp
  then show ?thesis by (simp add: reconnectIfNeeded_def connectToBootNodes_def)
qed

theorem boot_nodes_forgotten_witness:
  "\<exists>a a'. App_New toy toy_lib mem_ops toy_files (\<lambda>m. m) 0 empty_db [] toy_app_cfg = Inr a \<and>
     StartAll plain_wire toy_env True (\<lambda>b. (None, False)) False a = Inr a' \<and>
     reconnectIfNeeded (sv_Node (ap_p2p (an_app a'))) = sv_Node (ap_p2p (an_app a'))"
proof -
  obtain a where a: "App_New toy toy_lib mem_ops toy_files (\<lambda>m. m) 0 empty_db [] toy_app_cfg = Inr a" using toy_booted by blast
  obtain a' where a': "StartAll plain_wire toy_env True (\<lambda>b. (None, False)) False a = Inr a'" using StartAll_succeeds [OF a] by blast
  from boot_nodes_forgotten [OF a a', of "[]" "ap_p2p (an_app a')" "no_Peers (sv_Node (ap_p2p (an_app a')))"] a a' show ?thesis by auto
qed

end
