(* ===== verification/Command.thy ===== *)
theory Command
  imports Startup Rest_Facts
begin

text \<open>
  \<open>cmd/node/main.go\<close>: running the node, its daemon with the PID file, and the wallet commands.  The machine is the file
  system and the processes that may be signalled; what the operating system answers (starting a process, writing a
  file, the home directory) are arguments.  What a command prints is its result.
\<close>

section \<open>The node\<close>

datatype node_result = ExitCode nat | Running Application

definition runNode ::
    "crypto \<Rightarrow> walletlib \<Rightarrow> db_ops \<Rightarrow> files \<Rightarrow> (string, Staker) ranging \<Rightarrow> int \<Rightarrow> leveldb \<Rightarrow> byte list \<Rightarrow> AppConfig \<Rightarrow>
     wire \<Rightarrow> p2p_env \<Rightarrow> bool \<Rightarrow> (string \<Rightarrow> conn option \<times> bool) \<Rightarrow> bool \<Rightarrow> node_result" where
  "runNode C L W fs \<rho> now db random cfg w ev listening dial sent =
     (case App_New C L W fs \<rho> now db random cfg of
        Inl e \<Rightarrow> ExitCode 1
      | Inr application \<Rightarrow>
          (case StartAll w ev listening dial sent application of Inl e \<Rightarrow> ExitCode 1 | Inr a \<Rightarrow> Running a))"

section \<open>The PID file\<close>

record process =
  pr_argv :: "string list"
  pr_daemon_child :: bool
  pr_terminating :: bool

record machine =
  mc_files :: files
  mc_procs :: "(int, process) gomap"

definition filepath_Dir :: "string \<Rightarrow> string" where
  "filepath_Dir path = filepath_Clean (rev (dropWhile (\<lambda>c. c \<noteq> CHR ''/'') (rev path)))"

definition getPidFilePath :: "string option \<Rightarrow> string" where
  "getPidFilePath homeDir =
     (case homeDir of
        None \<Rightarrow> ''./abcfe-node.pid''
      | Some home \<Rightarrow> filepath_Clean (home @ ''/.abcfe-node/abcfe-node.pid''))"

definition readPidFile :: "files \<Rightarrow> string \<Rightarrow> int option" where
  "readPidFile fs pidFilePath = Option.bind (fs pidFilePath) (\<lambda>data. strconv_Atoi (map (\<lambda>b. char_of (unat b)) data))"

text \<open>\<open>mkdir_ok\<close> and \<open>write_ok\<close>: whether the directory can be made and the file be written.\<close>

definition writePidFile :: "(string \<Rightarrow> bool) \<Rightarrow> bool \<Rightarrow> files \<Rightarrow> string \<Rightarrow> int \<Rightarrow> files option" where
  "writePidFile mkdir_ok write_ok fs pidFilePath pid =
     (if \<not> mkdir_ok (filepath_Dir pidFilePath) then None
      else if \<not> write_ok then None else Some (fs(pidFilePath \<mapsto> string_bytes (strconv_Itoa pid))))"

definition removePidFile :: "string \<Rightarrow> machine \<Rightarrow> machine" where
  "removePidFile pidFilePath m = m\<lparr>mc_files := (mc_files m)(pidFilePath := None)\<rparr>"

text \<open>Finding a process does not fail; the signal 0 reaches it when it exists.\<close>

definition isRunning :: "string \<Rightarrow> machine \<Rightarrow> bool" where
  "isRunning pidFilePath m =
     (case readPidFile (mc_files m) pidFilePath of None \<Rightarrow> False | Some pid \<Rightarrow> map_of (mc_procs m) pid \<noteq> None)"

section \<open>The daemon\<close>

datatype daemon_result =
    RunsNode
  | NodeAlreadyRunning
  | NoExecutable
  | NotStarted
  | NoPidFile
  | Started int

text \<open>\<open>started\<close> is the identifier of the process that the operating system starts; the child is started without the options of its parent.\<close>

definition runNodeDaemon ::
    "bool \<Rightarrow> string option \<Rightarrow> int option \<Rightarrow> (string \<Rightarrow> bool) \<Rightarrow> bool \<Rightarrow> string \<Rightarrow> machine \<Rightarrow> machine \<times> daemon_result" where
  "runNodeDaemon child executable started mkdir_ok write_ok pidFilePath m =
     (if child then (m, RunsNode)
      else if isRunning pidFilePath m then (m, NodeAlreadyRunning)
      else case executable of
             None \<Rightarrow> (m, NoExecutable)
           | Some exe \<Rightarrow>
               (case started of
                  None \<Rightarrow> (m, NotStarted)
                | Some pid \<Rightarrow>
                    let proc = \<lparr>pr_argv = [exe, ''node'', ''start''], pr_daemon_child = True, pr_terminating = False\<rparr>;
                        m1 = m\<lparr>mc_procs := mput pid proc (mc_procs m)\<rparr>
                    in case writePidFile mkdir_ok write_ok (mc_files m1) pidFilePath pid of
                         None \<Rightarrow> (m1\<lparr>mc_procs := mdel pid (mc_procs m1)\<rparr>, NoPidFile)
                       | Some fs \<Rightarrow> (m1\<lparr>mc_files := fs\<rparr>, Started pid)))"

datatype stop_result = NothingToStop | StopFailed | Stopping int

definition stopDaemon :: "string \<Rightarrow> machine \<Rightarrow> machine \<times> stop_result" where
  "stopDaemon pidFilePath m =
     (case readPidFile (mc_files m) pidFilePath of
        None \<Rightarrow> (m, NothingToStop)
      | Some pid \<Rightarrow>
          (case map_of (mc_procs m) pid of
             None \<Rightarrow> (m, StopFailed)
           | Some proc \<Rightarrow>
               (removePidFile pidFilePath (m\<lparr>mc_procs := mput pid (proc\<lparr>pr_terminating := True\<rparr>) (mc_procs m)\<rparr>), Stopping pid)))"

text \<open>\<open>five_seconds\<close> is what happens on the machine while the command waits.\<close>

definition restartDaemon ::
    "bool \<Rightarrow> string option \<Rightarrow> int option \<Rightarrow> (string \<Rightarrow> bool) \<Rightarrow> bool \<Rightarrow> (machine \<Rightarrow> machine) \<Rightarrow> string \<Rightarrow> machine \<Rightarrow> machine \<times> daemon_result" where
  "restartDaemon child executable started mkdir_ok write_ok five_seconds pidFilePath m =
     runNodeDaemon child executable started mkdir_ok write_ok pidFilePath (five_seconds (fst (stopDaemon pidFilePath m)))"

datatype status_result = NodeRunning int | NodeNotRunning bool

definition showStatus :: "string \<Rightarrow> machine \<Rightarrow> machine \<times> status_result" where
  "showStatus pidFilePath m =
     (if isRunning pidFilePath m
      then (m, NodeRunning (case readPidFile (mc_files m) pidFilePath of None \<Rightarrow> 0 | Some pid \<Rightarrow> pid))
      else if mc_files m pidFilePath \<noteq> None then (removePidFile pidFilePath m, NodeNotRunning True)
      else (m, NodeNotRunning False))"

section \<open>Wallet commands\<close>

datatype wallet_result =
    NoMnemonicGiven
  | WalletExists string
  | CommandFailed wallet_error
  | NotSaved wallet_error
  | WalletCreated string "(string \<times> string) option"
  | WalletRestored "(string \<times> string) option"
  | AccountList "(nat \<times> bool \<times> string \<times> string) list"
  | AccountAdded int string string
  | MnemonicShown string

definition getDefaultWalletDir :: "string option \<Rightarrow> string" where
  "getDefaultWalletDir homeDir =
     (case homeDir of None \<Rightarrow> ''./wallets'' | Some home \<Rightarrow> filepath_Clean (home @ ''/.abcfe-node/wallets''))"

definition first_account :: "MnemonicWallet \<Rightarrow> (string \<times> string) option" where
  "first_account w = (case mw_Accounts w of [] \<Rightarrow> None | a # as \<Rightarrow> Some (hex_EncodeToString (wa_Address a), wa_Path a))"

definition walletCreateCmd ::
    "crypto \<Rightarrow> walletlib \<Rightarrow> byte list option \<Rightarrow> bool \<Rightarrow> bool \<Rightarrow> string \<Rightarrow> files \<Rightarrow> files \<times> wallet_result" where
  "walletCreateCmd C L entropy dir_ok write_ok walletDir fs =
     (let walletFile = filepath_Join walletDir ''wallet.json'' in
      if fs walletFile \<noteq> None then (fs, WalletExists walletFile)
      else case CreateWallet C L entropy (NewWalletManager walletDir) of
             Inl e \<Rightarrow> (fs, CommandFailed e)
           | Inr wm \<Rightarrow>
               (case SaveWallet L fs dir_ok write_ok wm of
                  Inl e \<Rightarrow> (fs, NotSaved e)
                | Inr fs' \<Rightarrow> (fs', WalletCreated (mw_Mnemonic (the (wm_Wallet wm))) (first_account (the (wm_Wallet wm))))))"

definition walletRestoreCmd ::
    "crypto \<Rightarrow> walletlib \<Rightarrow> string \<Rightarrow> bool \<Rightarrow> bool \<Rightarrow> string \<Rightarrow> files \<Rightarrow> files \<times> wallet_result" where
  "walletRestoreCmd C L mnemonic dir_ok write_ok walletDir fs =
     (if mnemonic = [] then (fs, NoMnemonicGiven)
      else let walletFile = filepath_Join walletDir ''wallet.json'' in
           if fs walletFile \<noteq> None then (fs, WalletExists walletFile)
           else case RestoreWallet C L mnemonic (NewWalletManager walletDir) of
                  Inl e \<Rightarrow> (fs, CommandFailed e)
                | Inr wm \<Rightarrow>
                    (case SaveWallet L fs dir_ok write_ok wm of
                       Inl e \<Rightarrow> (fs, NotSaved e)
                     | Inr fs' \<Rightarrow> (fs', WalletRestored (first_account (the (wm_Wallet wm))))))"

definition walletListCmd :: "walletlib \<Rightarrow> string \<Rightarrow> files \<Rightarrow> wallet_result" where
  "walletListCmd L walletDir fs =
     (case LoadWalletFile L fs (NewWalletManager walletDir) of
        Inl e \<Rightarrow> CommandFailed e
      | Inr wm \<Rightarrow>
          (case GetAccounts wm of
             Inl e \<Rightarrow> CommandFailed e
           | Inr accounts \<Rightarrow>
               AccountList (map (\<lambda>(i, a). (i, int i = mw_CurrentIndex (the (wm_Wallet wm)), hex_EncodeToString (wa_Address a), wa_Path a))
                 (enumerate 0 accounts))))"

definition walletAddAccountCmd :: "crypto \<Rightarrow> walletlib \<Rightarrow> bool \<Rightarrow> bool \<Rightarrow> string \<Rightarrow> files \<Rightarrow> files \<times> wallet_result" where
  "walletAddAccountCmd C L dir_ok write_ok walletDir fs =
     (case LoadWalletFile L fs (NewWalletManager walletDir) of
        Inl e \<Rightarrow> (fs, CommandFailed e)
      | Inr wm \<Rightarrow>
          (case AddAccount C L wm of
             Inl e \<Rightarrow> (fs, CommandFailed e)
           | Inr (wm', account) \<Rightarrow>
               (case SaveWallet L fs dir_ok write_ok wm' of
                  Inl e \<Rightarrow> (fs, NotSaved e)
                | Inr fs' \<Rightarrow> (fs', AccountAdded (wa_Index account) (hex_EncodeToString (wa_Address account)) (wa_Path account)))))"

definition walletShowMnemonicCmd :: "walletlib \<Rightarrow> string \<Rightarrow> files \<Rightarrow> wallet_result" where
  "walletShowMnemonicCmd L walletDir fs =
     (case LoadWalletFile L fs (NewWalletManager walletDir) of
        Inl e \<Rightarrow> CommandFailed e
      | Inr wm \<Rightarrow> (case GetMnemonic wm of Inl e \<Rightarrow> CommandFailed e | Inr mnemonic \<Rightarrow> MnemonicShown mnemonic))"

section \<open>The commands\<close>

text \<open>
  The tables of subcommands; \<open>None\<close> is a name that is not in them, which the command line library answers.  The text of
  \<open>node info\<close> goes to the log and not to the terminal.
\<close>

datatype node_outcome = StartOutcome daemon_result | StopOutcome stop_result | StatusOutcome status_result | InfoLogged "string list"

definition nodeCmd ::
    "bool \<Rightarrow> string option \<Rightarrow> int option \<Rightarrow> (string \<Rightarrow> bool) \<Rightarrow> bool \<Rightarrow> (machine \<Rightarrow> machine) \<Rightarrow> string option \<Rightarrow> string \<Rightarrow>
     machine \<Rightarrow> (machine \<times> node_outcome) option" where
  "nodeCmd child executable started mkdir_ok write_ok five_seconds homeDir sub m =
     (let pidFile = getPidFilePath homeDir in
      if sub = ''start'' then Some (map_prod (\<lambda>m. m) StartOutcome (runNodeDaemon child executable started mkdir_ok write_ok pidFile m))
      else if sub = ''stop'' then Some (map_prod (\<lambda>m. m) StopOutcome (stopDaemon pidFile m))
      else if sub = ''status'' then Some (map_prod (\<lambda>m. m) StatusOutcome (showStatus pidFile m))
      else if sub = ''restart''
      then Some (map_prod (\<lambda>m. m) StartOutcome (restartDaemon child executable started mkdir_ok write_ok five_seconds pidFile m))
      else if sub = ''info'' then Some (m, InfoLogged [''Node ID: abc123'', ''Network: mainnet'', ''Block height: 12345''])
      else None)"

text \<open>\<open>dir_flag\<close> is the option \<open>--wallet-dir\<close>, \<open>mnemonic\<close> the option of \<open>restore\<close>, which is empty by default.\<close>

definition walletCmd ::
    "crypto \<Rightarrow> walletlib \<Rightarrow> byte list option \<Rightarrow> bool \<Rightarrow> bool \<Rightarrow> string option \<Rightarrow> string option \<Rightarrow> string \<Rightarrow> string \<Rightarrow> files \<Rightarrow>
     (files \<times> wallet_result) option" where
  "walletCmd C L entropy dir_ok write_ok homeDir dir_flag mnemonic sub fs =
     (let walletDir = (case dir_flag of None \<Rightarrow> getDefaultWalletDir homeDir | Some d \<Rightarrow> d) in
      if sub = ''create'' then Some (walletCreateCmd C L entropy dir_ok write_ok walletDir fs)
      else if sub = ''restore'' then Some (walletRestoreCmd C L mnemonic dir_ok write_ok walletDir fs)
      else if sub = ''list'' then Some (fs, walletListCmd L walletDir fs)
      else if sub = ''add-account'' then Some (walletAddAccountCmd C L dir_ok write_ok walletDir fs)
      else if sub = ''show-mnemonic'' then Some (fs, walletShowMnemonicCmd L walletDir fs)
      else None)"

text \<open>A wallet command writes at most the wallet file; one that exists is overwritten only to add an account.\<close>

lemma SaveWallet_writes:
  assumes "SaveWallet L fs dir_ok write_ok p = Inr fs'"
  shows "\<exists>b. fs' = fs(filepath_Join (wm_walletDir p) ''wallet.json'' \<mapsto> b)"
  using assms by (auto simp: SaveWallet_def split: option.splits if_splits)

lemma manager_dirs:
  "CreateWallet C L entropy p = Inr p' \<Longrightarrow> wm_walletDir p' = wm_walletDir p" "RestoreWallet C L mnemonic p = Inr p' \<Longrightarrow> wm_walletDir p' = wm_walletDir p"
  "LoadWalletFile L fs p = Inr p' \<Longrightarrow> wm_walletDir p' = wm_walletDir p" "AddAccount C L p = Inr (p', a) \<Longrightarrow> wm_walletDir p' = wm_walletDir p"
  by (auto simp: CreateWallet_def RestoreWallet_def LoadWalletFile_def AddAccount_def bindE_Inr split: option.splits if_splits)

lemma walletCmd_writes:
  assumes "walletCmd C L entropy dir_ok write_ok homeDir dir_flag mnemonic sub fs = Some (fs', r)"
    "file_path = filepath_Join (case dir_flag of None \<Rightarrow> getDefaultWalletDir homeDir | Some d \<Rightarrow> d) ''wallet.json''"
  shows "fs' = fs \<or> (fs file_path = None \<or> sub = ''add-account'') \<and> (\<exists>b. fs' = fs(file_path \<mapsto> b))"
proof -
  have create: "fs' = fs \<or> fs (filepath_Join d ''wallet.json'') = None \<and> (\<exists>b. fs' = fs(filepath_Join d ''wallet.json'' \<mapsto> b))"
    if "walletCreateCmd C L entropy dir_ok write_ok d fs = (fs', r)" for d
    using that by (auto simp: walletCreateCmd_def Let_def NewWalletManager_def dest!: manager_dirs(1) SaveWallet_writes split: sum.splits if_splits)
  have restore: "fs' = fs \<or> fs (filepath_Join d ''wallet.json'') = None \<and> (\<exists>b. fs' = fs(filepath_Join d ''wallet.json'' \<mapsto> b))"
    if "walletRestoreCmd C L mnemonic dir_ok write_ok d fs = (fs', r)" for d
    using that by (auto simp: walletRestoreCmd_def Let_def NewWalletManager_def dest!: manager_dirs(2) SaveWallet_writes split: sum.splits if_splits)
  have add: "fs' = fs \<or> (\<exists>b. fs' = fs(filepath_Join d ''wallet.json'' \<mapsto> b))"
    if "walletAddAccountCmd C L dir_ok write_ok d fs = (fs', r)" for d
    using that by (auto simp: walletAddAccountCmd_def NewWalletManager_def dest!: manager_dirs(3,4) SaveWallet_writes split: sum.splits prod.splits)
  show ?thesis using assms create restore add by (auto simp: walletCmd_def Let_def split: if_splits)
qed

end
