(* ===== verification/Browser.thy ===== *)
theory Browser
  imports Command Chain
begin

text \<open>
  \<open>tools/db_browser.go\<close>: the tool that shows what the database of a node holds.  The iterator of the database visits its
  entries in the order of their keys and is an argument, \<open>entries\<close>; \<open>gob\<close> is the encoding of values that are not stored as
  text or bytes.  What a command prints is its result.
\<close>

section \<open>Values\<close>

definition stored_bytes :: "(dbval \<Rightarrow> byte list) \<Rightarrow> dbval \<Rightarrow> byte list" where
  "stored_bytes gob v = (case v of RawBytes b \<Rightarrow> b | RawText s \<Rightarrow> string_bytes s | _ \<Rightarrow> gob v)"

definition bytes_string :: "byte list \<Rightarrow> string" where
  "bytes_string bs = map (\<lambda>b. char_of (unat b)) bs"

text \<open>The size of a value and at most its first hundred bytes.\<close>

definition dump :: "byte list \<Rightarrow> nat \<times> string" where
  "dump data = (length data, hex_EncodeToString (take (min 100 (length data)) data))"

definition has_prefix :: "string \<Rightarrow> string \<Rightarrow> bool" where
  "has_prefix key p \<longleftrightarrow> length p \<le> length key \<and> take (length p) key = p"

text \<open>Named for containment, the function compares the end of the text.\<close>

definition contains :: "string \<Rightarrow> string \<Rightarrow> bool" where
  "contains s substr \<longleftrightarrow> length substr \<le> length s \<and> drop (length s - length substr) s = substr"

section \<open>Commands\<close>

definition showMetadata :: "(dbval \<Rightarrow> byte list) \<Rightarrow> leveldb \<Rightarrow> (get_error + string) \<times> (get_error + string)" where
  "showMetadata gob db =
     (let text = (\<lambda>r. case r of Inl e \<Rightarrow> Inl e | Inr v \<Rightarrow> Inr (bytes_string (stored_bytes gob v))) in
      (text (db ''meta:height''), text (db ''meta:hash'')))"

text \<open>The iterator starts at the first key that is not below the prefix and stops at the first that begins with another character.\<close>

definition scan :: "string \<Rightarrow> (string \<times> dbval) list \<Rightarrow> (string \<times> dbval) list" where
  "scan p entries = takeWhile (\<lambda>kv. hd (fst kv) = hd p) (dropWhile (\<lambda>kv. fst kv < p) entries)"

definition listBlocks :: "(dbval \<Rightarrow> byte list) \<Rightarrow> (string \<times> dbval) list \<Rightarrow> (string \<times> string) list" where
  "listBlocks gob entries =
     map (\<lambda>(k, v). (drop (length ''blk:h:'') k, bytes_string (stored_bytes gob v)))
       (filter (\<lambda>kv. has_prefix (fst kv) ''blk:h:'') (scan ''blk:h:'' entries))"

definition listTransactions :: "(string \<times> dbval) list \<Rightarrow> string list" where
  "listTransactions entries =
     map (\<lambda>(k, v). drop (length ''tx:'') k)
       (filter (\<lambda>kv. has_prefix (fst kv) ''tx:'' \<and> \<not> contains (fst kv) '':'') (scan ''tx:'' entries))"

text \<open>\<open>ShortSlice\<close> is a run-time panic.\<close>

datatype shown =
    NotFound get_error
  | InvalidHash string enc_error
  | NoData string get_error
  | BlockShown string "nat \<times> string"
  | TxShown "nat \<times> string" "string option"
  | ShortSlice

definition showBlock :: "(dbval \<Rightarrow> byte list) \<Rightarrow> leveldb \<Rightarrow> uint64 \<Rightarrow> shown" where
  "showBlock gob db height =
     (case db (GetBlockHeightKey height) of
        Inl e \<Rightarrow> NotFound e
      | Inr v \<Rightarrow>
          let blockHashStr = bytes_string (stored_bytes gob v) in
          case StringToHash blockHashStr of
            Inl e \<Rightarrow> InvalidHash blockHashStr e
          | Inr blockHash \<Rightarrow>
              (case db (GetBlockHashKey blockHash) of
                 Inl e \<Rightarrow> NoData blockHashStr e
               | Inr data \<Rightarrow> BlockShown blockHashStr (dump (stored_bytes gob data))))"

definition showTransaction :: "(dbval \<Rightarrow> byte list) \<Rightarrow> leveldb \<Rightarrow> string \<Rightarrow> shown" where
  "showTransaction gob db txHashStr =
     (case StringToHash txHashStr of
        Inl e \<Rightarrow> InvalidHash txHashStr e
      | Inr txHash \<Rightarrow>
          (case db (GetTxHashKey txHash) of
             Inl e \<Rightarrow> NotFound e
           | Inr data \<Rightarrow>
               (case db (GetTxBlockHashKey txHash) of
                  Inl e \<Rightarrow> TxShown (dump (stored_bytes gob data)) None
                | Inr v \<Rightarrow>
                    (case BytesToHash (stored_bytes gob v) of
                       None \<Rightarrow> ShortSlice
                     | Some blockHash \<Rightarrow> TxShown (dump (stored_bytes gob data)) (Some (HashToString blockHash))))))"

text \<open>At most fifty entries; a long value is shown by its first fifty bytes.\<close>

definition showAllData :: "(dbval \<Rightarrow> byte list) \<Rightarrow> (string \<times> dbval) list \<Rightarrow> (string \<times> nat \<times> string) list \<times> nat" where
  "showAllData gob entries =
     (let rows = map (\<lambda>(k, v). let value = stored_bytes gob v in
            (k, length value, if length value \<le> 100 then bytes_string value else hex_EncodeToString (take 50 value) @ ''...'')) (take 50 entries)
      in (rows, length rows))"

text \<open>
  \<open>args\<close> are the arguments of the process, its name first.  \<open>OpenFile\<close> opens a database, \<open>iterate\<close> lists its entries.
\<close>

datatype printed =
    Usage
  | DatabaseNotOpened string
  | Metadata "(get_error + string) \<times> (get_error + string)"
  | BlockList "(string \<times> string) list"
  | TransactionList "string list"
  | BlockUsage
  | InvalidHeight string
  | TxUsage
  | Shown shown
  | AllData "(string \<times> nat \<times> string) list \<times> nat"
  | UnknownCommand string

definition browser_main ::
    "(dbval \<Rightarrow> byte list) \<Rightarrow> (string \<Rightarrow> leveldb option) \<Rightarrow> (leveldb \<Rightarrow> (string \<times> dbval) list) \<Rightarrow> string list \<Rightarrow> printed" where
  "browser_main gob OpenFile iterate args =
     (if length args < 2 then Usage
      else let dbPath = args ! 1; command = (if 2 < length args then args ! 2 else ''meta'') in
           case OpenFile dbPath of
             None \<Rightarrow> DatabaseNotOpened dbPath
           | Some db \<Rightarrow>
               if command = ''meta'' then Metadata (showMetadata gob db)
               else if command = ''blocks'' then BlockList (listBlocks gob (iterate db))
               else if command = ''txs'' then TransactionList (listTransactions (iterate db))
               else if command = ''block''
               then if length args < 4 then BlockUsage
                    else (case StringToUint64 (args ! 3) of None \<Rightarrow> InvalidHeight (args ! 3) | Some height \<Rightarrow> Shown (showBlock gob db height))
               else if command = ''tx''
               then if length args < 4 then TxUsage else Shown (showTransaction gob db (args ! 3))
               else if command = ''all'' then AllData (showAllData gob (iterate db))
               else UnknownCommand command)"

section \<open>What is shown of an imported block\<close>

lemma hex_decode_length: "hex_DecodeString s = Some bs \<Longrightarrow> length s = 2 * length bs"
  by (induction s arbitrary: bs rule: hex_DecodeString.induct) (auto split: option.splits)

lemma short_text_no_hash: "length s < 64 \<Longrightarrow> \<exists>e. StringToHash s = Inl e"
proof -
  assume s: "length s < 64"
  have "length (strip_0x s) \<le> length s" by (auto simp: strip_0x_def)
  with s show ?thesis using hex_decode_length [of "strip_0x s"]
    by (cases "hex_DecodeString (strip_0x s)") (auto simp: StringToHash_def)
qed

text \<open>
  After the import of a block, each of its transactions is shown with its data and the hash of the block; the block itself
  is never shown: the record of the height holds the 32 bytes of the hash, which the tool takes for hexadecimal text.
\<close>

theorem browser_shows:
  assumes "db_laws W" "wf_Hash (blk_Hash blk)" "AddBlock W p blk = (p', Inr r)" "distinct (map tx_ID (blk_Transactions blk))"
    "tx \<in> set (blk_Transactions blk)" "wf_Hash (tx_ID tx)"
  shows "showTransaction gob (bc_db p') (HashToString (tx_ID tx)) = TxShown (dump (gob (GobTx (gob_tx tx)))) (Some (HashToString (blk_Hash blk))) \<and>
    (\<exists>e. showBlock gob (bc_db p') (blk_Height blk) = InvalidHash (bytes_string (blk_Hash blk)) e)"
proof -
  obtain u where u: "utxo_batch u" "bc_db p' = apply_batch (bc_db p) (block_batch blk u @ (if moves_tip p blk then tip_batch blk else []))"
    by (rule AddBlock_ok [OF assms(1-3)])
  have look: "bc_db p' k = apply_batch (bc_db p) (block_batch blk u) k" if "hd k \<noteq> CHR ''m''" for k
    unfolding u(2) apply_batch_append by (rule tip_batch_other [OF that])
  note recs = look key_kinds block_batch_tx_records [OF u(1) assms(5,4)] block_batch_block [OF u(1)]
  have "length (bytes_string (blk_Hash blk)) < 64" using assms(2) by (simp add: bytes_string_def wf_Hash_def)
  then obtain e where "StringToHash (bytes_string (blk_Hash blk)) = Inl e" using short_text_no_hash by blast
  then have "showBlock gob (bc_db p') (blk_Height blk) = InvalidHash (bytes_string (blk_Hash blk)) e"
    by (simp add: showBlock_def recs stored_bytes_def)
  moreover have "showTransaction gob (bc_db p') (HashToString (tx_ID tx)) = TxShown (dump (gob (GobTx (gob_tx tx)))) (Some (HashToString (blk_Hash blk)))"
    using assms(2,6) by (simp add: showTransaction_def recs stored_bytes_def BytesToHash_def wf_Hash_def)
  ultimately show ?thesis by blast
qed

end
