(* ===== verification/Settings.thy ===== *)
theory Settings
  imports Command
begin

text \<open>
  What happens before the application is built: finding and reading the configuration file (\<open>config.NewConfig\<close>,
  \<open>utils.FindProjectRoot\<close>, \<open>utils.HomeDir\<close>), the level of the log (\<open>logger.InitLogger\<close>) and the name
  of the database (\<open>storage.InitDB\<close>). Decoding TOML, rotating logs and opening the database are library code:
  their results are arguments.
\<close>

section \<open>The project root\<close>

subsection \<open>Cleaning a path\<close>

definition weight :: "string list \<Rightarrow> nat" where
  "weight st = (\<Sum>s\<leftarrow>st. Suc (length s))"

lemma weight_simps [simp]: "weight [] = 0" "weight (s # st) = Suc (length s) + weight st" "weight (st @ st') = weight st + weight st'"
  by (simp_all add: weight_def)

lemma weight_rev [simp]: "weight (rev st) = weight st"
  by (induction st) simp_all

lemma weight_split [simp]: "weight (split_slash p) = Suc (length p)"
  by (induction p) (auto split: list.split)

lemma weight_clean_step: "weight (clean_step rooted st s) \<le> weight st + Suc (length s)"
  by (cases st) (auto simp: clean_step_def)

lemma weight_clean: "weight (foldl (clean_step rooted) st ss) \<le> weight st + weight ss"
proof (induction ss arbitrary: st)
  case (Cons s ss)
  show ?case using Cons.IH [of "clean_step rooted st s"] weight_clean_step [of rooted st s] by simp
qed simp

lemma clean_step_Nil [simp]: "clean_step rooted st [] = st"
  by (simp add: clean_step_def)

lemma split_slash_nonempty: "split_slash p \<noteq> []"
  by (induction p) (auto split: list.split)

lemma split_slash_append: "split_slash (a @ CHR ''/'' # b) = split_slash a @ split_slash b"
proof (induction a)
  case (Cons c a)
  then show ?case using split_slash_nonempty [of a] by (auto split: list.split)
qed simp

lemma length_joined:
  "length (concat (map (\<lambda>(i, s). if i = 0 then s else CHR ''/'' # s) (enumerate n parts))) = (if n = 0 then weight parts - 1 else weight parts)"
  by (induction parts arbitrary: n) (auto simp: length_concat)

text \<open>A cleaned directory is shorter than its path with the slash, except for the two directories that are their own parents.\<close>

lemma length_Clean_dir:
  assumes "q \<noteq> []"
  shows "filepath_Clean (q @ ''/'') = ''.'' \<or> length (filepath_Clean (q @ ''/'')) \<le> length q"
proof -
  let ?rooted = "hd q = CHR ''/''"
  let ?st = "foldl (clean_step ?rooted) [] (split_slash q)"
  have st: "weight ?st \<le> (if ?rooted then length q else Suc (length q))"
  proof (cases ?rooted)
    case True
    then have "split_slash q = [] # split_slash (tl q)" using assms by (cases q) simp_all
    then show ?thesis using weight_clean [of ?rooted "[]" "split_slash (tl q)"] assms True by (simp del: foldl_Nil)
  qed (use weight_clean [of ?rooted "[]" "split_slash q"] in simp)
  have "split_slash (q @ ''/'') = split_slash q @ [[]]" using split_slash_append [of q "[]"] by simp
  moreover obtain n where "length q = Suc n" using assms by (cases q) simp_all
  ultimately show ?thesis using assms st by (auto simp: filepath_Clean_def Let_def length_joined)
qed

lemma filepath_Dir_shorter:
  "filepath_Dir d = d \<or> filepath_Dir d = ''.'' \<or> length (filepath_Dir d) < length d"
proof -
  define pre where "pre = rev (dropWhile (\<lambda>c. c \<noteq> CHR ''/'') (rev d))"
  have le: "length pre \<le> length d" using length_dropWhile_le [of "\<lambda>c. c \<noteq> CHR ''/''" "rev d"] by (simp add: pre_def)
  have dir: "filepath_Dir d = filepath_Clean pre" by (simp add: filepath_Dir_def pre_def)
  consider "pre = []" | "pre = ''/''" | q where "q \<noteq> []" "pre = q @ ''/''"
  proof (cases "dropWhile (\<lambda>c. c \<noteq> CHR ''/'') (rev d)")
    case (Cons c cs)
    then have "c = CHR ''/''" using hd_dropWhile [of "\<lambda>c. c \<noteq> CHR ''/''" "rev d"] by simp
    then have "pre = rev cs @ ''/''" using Cons by (simp add: pre_def)
    then show ?thesis using that(2) that(3) [of "rev cs"] by (cases "cs = []") simp_all
  qed (use that(1) in \<open>simp add: pre_def\<close>)
  then show ?thesis
  proof cases
    case 1
    moreover have "filepath_Clean [] = ''.''" by code_simp
    ultimately show ?thesis using dir by simp
  next
    case 2
    have "filepath_Clean ''/'' = ''/''" by code_simp
    then have root: "filepath_Dir d = ''/''" using 2 dir by simp
    have "set pre \<subseteq> set d" unfolding pre_def by (auto dest: set_dropWhileD)
    then have "d = ''/'' \<or> 1 < length d" using 2 by (cases d; cases "tl d") auto
    then show ?thesis using root by auto
  next
    case 3
    then show ?thesis using length_Clean_dir [of q] le dir by auto
  qed
qed

subsection \<open>Searching upwards\<close>

text \<open>\<open>stat\<close> tells which files exist. The loop of \<open>FindProjectRoot\<close> ends at the directory that is its own parent.\<close>

function find_root :: "(string \<Rightarrow> bool) \<Rightarrow> string \<Rightarrow> string \<Rightarrow> string" where
  "find_root stat startDir dir =
     (if stat (filepath_Join dir ''go.mod'') then dir
      else let parentDir = filepath_Dir dir in
           if parentDir = dir then startDir else find_root stat startDir parentDir)"
  by pat_completeness auto

termination find_root
proof (relation "measure (\<lambda>(stat, startDir, dir). if dir = ''.'' then 0 else Suc (length dir))")
  fix stat :: "string \<Rightarrow> bool" and startDir dir parentDir
  assume "parentDir = filepath_Dir dir" "parentDir \<noteq> dir"
  moreover have "filepath_Dir ''.'' = ''.''" by code_simp
  ultimately show "((stat, startDir, parentDir), stat, startDir, dir) \<in> measure (\<lambda>(stat, startDir, dir). if dir = ''.'' then 0 else Suc (length dir))"
    using filepath_Dir_shorter [of dir] by auto
qed simp

declare find_root.simps [simp del]

definition FindProjectRoot :: "(string \<Rightarrow> bool) \<Rightarrow> string \<Rightarrow> string" where
  "FindProjectRoot stat startDir = find_root stat startDir startDir"

abbreviation go_mod :: "(string \<Rightarrow> bool) \<Rightarrow> string \<Rightarrow> nat \<Rightarrow> bool" where
  "go_mod stat d n \<equiv> stat (filepath_Join ((filepath_Dir ^^ n) d) ''go.mod'')"

lemma find_root_cases:
  "(\<exists>n. find_root stat s d = (filepath_Dir ^^ n) d \<and> go_mod stat d n \<and> (\<forall>k<n. \<not> go_mod stat d k)) \<or>
   (find_root stat s d = s \<and> (\<forall>n. \<not> go_mod stat d n))"
proof (induction stat s d rule: find_root.induct)
  case (1 stat s d)
  let ?p = "filepath_Dir d"
  consider "go_mod stat d 0" | "\<not> go_mod stat d 0" "?p = d" | "\<not> go_mod stat d 0" "?p \<noteq> d" by blast
  then show ?case
  proof cases
    case 1
    then show ?thesis by (intro disjI1 exI [of _ 0]) (simp add: find_root.simps)
  next
    case 2
    then have "(filepath_Dir ^^ n) d = d" for n by (induction n) simp_all
    then show ?thesis using 2 by (simp add: find_root.simps)
  next
    case 3
    have up: "go_mod stat ?p n = go_mod stat d (Suc n)" for n by (simp add: funpow_swap1)
    have root: "find_root stat s d = find_root stat s ?p" using 3 by (simp add: find_root.simps [of stat s d] Let_def)
    have "(\<exists>n. find_root stat s ?p = (filepath_Dir ^^ n) ?p \<and> go_mod stat ?p n \<and> (\<forall>k<n. \<not> go_mod stat ?p k)) \<or>
      (find_root stat s ?p = s \<and> (\<forall>n. \<not> go_mod stat ?p n))"
      using "1.IH" [OF _ refl] 3 by simp
    then consider n where "find_root stat s ?p = (filepath_Dir ^^ n) ?p" "go_mod stat ?p n" "\<forall>k<n. \<not> go_mod stat ?p k"
      | "find_root stat s ?p = s" "\<forall>n. \<not> go_mod stat ?p n" by blast
    then show ?thesis
    proof cases
      case (1 n)
      then have "\<forall>k<Suc n. \<not> go_mod stat d k" using 3(1) up by (auto simp: less_Suc_eq_0_disj simp del: funpow.simps)
      moreover have "find_root stat s d = (filepath_Dir ^^ Suc n) d" using 1(1) root by (simp add: funpow_swap1)
      moreover have "go_mod stat d (Suc n)" using 1(2) up [of n] by blast
      ultimately show ?thesis by blast
    next
      case 2
      then have "\<not> go_mod stat d n" for n using 3(1) up by (cases n) (auto simp del: funpow.simps)
      then show ?thesis using 2(1) root by simp
    qed
  qed
qed

section \<open>The configuration file\<close>

text \<open>
  The file also names the log, where its alerts go, and the directory of the database. \<open>getenv_HOME\<close> and \<open>current_user\<close> are
  what the process is told of its user.
\<close>

record FileConfig = AppConfig +
  fc_LogInfo_Path :: string
  fc_ProdTelKey :: string
  fc_ProdChatId :: int
  fc_DevTelKey :: string
  fc_DevChatId :: int
  fc_DB_Path :: string

datatype start_error =
    ConfigNotOpened string
  | ConfigNotDecoded string
  | LogPathPanic
  | LoggerExit
  | DBNotOpened string
  | NotBuilt app_error

definition HomeDir :: "string \<Rightarrow> string option \<Rightarrow> string" where
  "HomeDir getenv_HOME current_user =
     (if getenv_HOME \<noteq> [] then getenv_HOME else case current_user of Some home \<Rightarrow> home | None \<Rightarrow> [])"

text \<open>The first byte is read without a test, so an empty path panics.\<close>

definition sanitize :: "string \<Rightarrow> FileConfig \<Rightarrow> start_error + FileConfig" where
  "sanitize home p =
     (case fc_LogInfo_Path p of
        [] \<Rightarrow> Inl LogPathPanic
      | c # rest \<Rightarrow> if c = CHR ''~'' then Inr (p\<lparr>fc_LogInfo_Path := filepath_Join home rest\<rparr>) else Inr p)"

definition config_path :: "(string \<Rightarrow> bool) \<Rightarrow> string \<Rightarrow> string \<Rightarrow> string" where
  "config_path stat workDir path =
     (if path = [] then filepath_Join (FindProjectRoot stat workDir) ''config/config.toml'' else path)"

definition NewConfig ::
    "(byte list \<Rightarrow> FileConfig option) \<Rightarrow> (string \<Rightarrow> bool) \<Rightarrow> string \<Rightarrow> string \<Rightarrow> files \<Rightarrow> string \<Rightarrow> start_error + FileConfig" where
  "NewConfig decode stat workDir home fs path =
     (let filepath = config_path stat workDir path in
      case fs filepath of
        None \<Rightarrow> Inl (ConfigNotOpened filepath)
      | Some toml \<Rightarrow> (case decode toml of None \<Rightarrow> Inl (ConfigNotDecoded filepath) | Some c \<Rightarrow> sanitize home c))"

text \<open>The logger replaces the level of the configuration by what the arguments of the process say.\<close>

definition hasDebugFlag :: "string list \<Rightarrow> bool" where
  "hasDebugFlag args = list_ex (\<lambda>arg. arg = ''-debug'' \<or> arg = ''--debug'') args"

definition InitLogger :: "string list \<Rightarrow> (string \<Rightarrow> bool) \<Rightarrow> string \<Rightarrow> FileConfig \<Rightarrow> start_error + FileConfig" where
  "InitLogger args rotator_ok today cfg =
     (let lPath = fc_LogInfo_Path cfg @ ''_'' @ today @ ''.log'';
          level = (if hasDebugFlag args then ''alpha'' else ''prod'');
          core = acf_core cfg
      in if rotator_ok lPath then Inr (cfg\<lparr>acf_core := core\<lparr>cfg_Common := (cfg_Common core)\<lparr>cm_Level := level\<rparr>\<rparr>\<rparr>)
         else Inl LoggerExit)"

definition db_path :: "FileConfig \<Rightarrow> string" where
  "db_path cfg = fc_DB_Path cfg @ ''leveldb_'' @ strconv_Itoa (cm_Port (cfg_Common (acf_core cfg))) @ ''.db''"

definition InitDB :: "(string \<Rightarrow> leveldb option) \<Rightarrow> FileConfig \<Rightarrow> start_error + leveldb" where
  "InitDB OpenFile cfg = (case OpenFile (db_path cfg) of None \<Rightarrow> Inl (DBNotOpened (db_path cfg)) | Some db \<Rightarrow> Inr db)"

text \<open>\<open>app.New\<close> from the file on: \<open>App_New\<close> is what it does with the configuration and the database.\<close>

definition New_from_file ::
    "crypto \<Rightarrow> walletlib \<Rightarrow> db_ops \<Rightarrow> (byte list \<Rightarrow> FileConfig option) \<Rightarrow> (string \<Rightarrow> bool) \<Rightarrow> string \<Rightarrow> string \<Rightarrow> files \<Rightarrow>
     string list \<Rightarrow> (string \<Rightarrow> bool) \<Rightarrow> string \<Rightarrow> (string \<Rightarrow> leveldb option) \<Rightarrow> (string, Staker) ranging \<Rightarrow> int \<Rightarrow> byte list \<Rightarrow>
     string \<Rightarrow> start_error + Application" where
  "New_from_file C L W decode stat workDir home fs args rotator_ok today OpenFile \<rho> now random configPath =
     bindE (NewConfig decode stat workDir home fs configPath) (\<lambda>cfg0.
     bindE (InitLogger args rotator_ok today cfg0) (\<lambda>cfg.
     bindE (InitDB OpenFile cfg) (\<lambda>db.
     wrapE NotBuilt (App_New C L W fs \<rho> now db random (AppConfig.truncate cfg)))))"

subsection \<open>What a node starts from\<close>

lemma New_from_file_cases:
  assumes "New_from_file C L W decode stat workDir home fs args rotator_ok today OpenFile \<rho> now random path = Inr a"
  obtains toml and c cfg :: FileConfig and db where "fs (config_path stat workDir path) = Some toml" "decode toml = Some c" "fc_LogInfo_Path c \<noteq> []"
    "OpenFile (db_path c) = Some db" "App_New C L W fs \<rho> now db random (AppConfig.truncate cfg) = Inr a"
    "cm_Level (cfg_Common (acf_core cfg)) = (if hasDebugFlag args then ''alpha'' else ''prod'')"
proof -
  obtain c0 cfg db where steps: "NewConfig decode stat workDir home fs path = Inr c0" "InitLogger args rotator_ok today c0 = Inr cfg"
    "InitDB OpenFile cfg = Inr db" "App_New C L W fs \<rho> now db random (AppConfig.truncate cfg) = Inr a"
    using assms by (auto simp: New_from_file_def res_simps)
  obtain toml c where c: "fs (config_path stat workDir path) = Some toml" "decode toml = Some c" "sanitize home c = Inr c0"
    using steps(1) by (auto simp: NewConfig_def Let_def split: option.splits)
  have san: "fc_LogInfo_Path c \<noteq> []" "db_path c0 = db_path c"
    using c(3) by (auto simp: sanitize_def db_path_def split: list.splits if_splits)
  have log: "db_path cfg = db_path c0" "cm_Level (cfg_Common (acf_core cfg)) = (if hasDebugFlag args then ''alpha'' else ''prod'')"
    using steps(2) by (auto simp: InitLogger_def Let_def db_path_def split: if_splits)
  have "OpenFile (db_path c) = Some db" using steps(3) san log by (simp add: InitDB_def split: option.splits)
  then show ?thesis using that [OF c(1,2) san(1) _ steps(4) log(2)] by blast
qed

text \<open>Two nodes on one machine with the same directory for databases and different ports have different databases.\<close>

lemma db_path_port:
  assumes "fc_DB_Path c = fc_DB_Path c'" "0 \<le> cm_Port (cfg_Common (acf_core c))" "0 \<le> cm_Port (cfg_Common (acf_core c'))"
  shows "db_path c = db_path c' \<longleftrightarrow> cm_Port (cfg_Common (acf_core c)) = cm_Port (cfg_Common (acf_core c'))"
  using assms by (auto simp: db_path_def strconv_Itoa_def)

end
