(* ===== verification/Command_Theorems.thy ===== *)
theory Command_Theorems
  imports Browser Settings Sample_Wallet "HOL-Library.Countable"
begin

text \<open>
  The theorems on the command line: the daemon and its PID file, and the wallet commands over the wallet file.
\<close>

section \<open>Running a node\<close>

text \<open>A node that can be built and can listen runs, whatever its boot nodes answer.\<close>

lemma runNode_runs:
  assumes "App_New C L W fs \<rho> now db random cfg = Inr a"
  shows "\<exists>a'. runNode C L W fs \<rho> now db random cfg w ev True dial sent = Running a'"
proof -
  obtain a' where "StartAll w ev True dial sent a = Inr a'" using StartAll_succeeds [OF assms] by blast
  with assms show ?thesis by (simp add: runNode_def)
qed

section \<open>The PID file\<close>

lemma bytes_text [simp]: "map (\<lambda>b. char_of (unat b)) (string_bytes s) = s"
proof -
  have "char_of (unat (of_char c :: byte)) = c" for c
  proof -
    have "unat (of_char c :: byte) = unat (word_of_nat (of_char c) :: byte)" by (simp only: of_nat_of_char)
    also have "\<dots> = of_char c" by (simp add: unat_of_nat)
    finally show ?thesis by simp
  qed
  then show ?thesis by (simp add: string_bytes_def comp_def)
qed

lemma pid_read_back:
  assumes "0 \<le> pid" "pid < 2 ^ 63" "writePidFile mk wr fs path pid = Some fs'"
  shows "readPidFile fs' path = Some pid" "fs'(path := None) = fs(path := None)"
proof -
  have "strconv_Atoi (strconv_Itoa pid) = Some pid"
    using assms(1,2) Atoi_dec [of "nat pid"] by (simp add: strconv_Itoa_def)
  then show "readPidFile fs' path = Some pid" "fs'(path := None) = fs(path := None)"
    using assms(3) by (auto simp: writePidFile_def readPidFile_def split: if_splits)
qed

text \<open>
  C23: A daemon that was started is found again by its PID file: the status names its process and another start does nothing;
  stopping it signals that process and no other and leaves no PID file.  The file is removed before the process has
  ended, so that a start right after the stop runs a second node beside the first.
\<close>

theorem daemon_lifecycle:
  assumes "runNodeDaemon False exe started mkdir_ok write_ok path m = (m1, Started pid)" "0 \<le> pid" "pid < 2 ^ 63"
  shows "showStatus path m1 = (m1, NodeRunning pid) \<and> runNodeDaemon False exe' started' mk wr path m1 = (m1, NodeAlreadyRunning) \<and>
    (\<exists>m2 proc. stopDaemon path m1 = (m2, Stopping pid) \<and> pr_terminating proc \<and> map_of (mc_procs m2) = (map_of (mc_procs m))(pid \<mapsto> proc) \<and>
       mc_files m2 = (mc_files m)(path := None) \<and> showStatus path m2 = (m2, NodeNotRunning False) \<and>
       (\<forall>e pid'. pid' \<noteq> pid \<longrightarrow> (\<exists>m3. runNodeDaemon False (Some e) (Some pid') (\<lambda>d. True) True path m2 = (m3, Started pid') \<and>
          map_of (mc_procs m3) pid = Some proc)))"
proof -
  let ?proc = "\<lparr>pr_argv = [the exe, ''node'', ''start''], pr_daemon_child = True, pr_terminating = False\<rparr>"
  from assms(1) obtain fs where fs: "writePidFile mkdir_ok write_ok (mc_files m) path pid = Some fs"
    "m1 = m\<lparr>mc_procs := mput pid ?proc (mc_procs m), mc_files := fs\<rparr>"
    by (auto simp: runNodeDaemon_def Let_def split: if_splits option.splits)
  note read = pid_read_back [OF assms(2,3) fs(1)]
  define m2 where "m2 = removePidFile path (m1\<lparr>mc_procs := mput pid (?proc\<lparr>pr_terminating := True\<rparr>) (mc_procs m1)\<rparr>)"
  have run: "isRunning path m1" "readPidFile (mc_files m1) path = Some pid" using read(1) by (simp_all add: isRunning_def fs(2) map_of_mput)
  then have "stopDaemon path m1 = (m2, Stopping pid)" by (simp add: stopDaemon_def m2_def) (simp add: fs(2) map_of_mput)
  moreover have m2: "mc_files m2 = (mc_files m)(path := None)"
    "map_of (mc_procs m2) = (map_of (mc_procs m))(pid \<mapsto> ?proc\<lparr>pr_terminating := True\<rparr>)"
    using read(2) by (simp_all add: m2_def removePidFile_def fs(2) map_of_mput)
  moreover have "showStatus path m2 = (m2, NodeNotRunning False)" by (simp add: showStatus_def isRunning_def readPidFile_def m2(1))
  moreover have "\<not> isRunning path m2" by (simp add: isRunning_def readPidFile_def m2(1))
  then have "\<exists>m3. runNodeDaemon False (Some e) (Some pid') (\<lambda>d. True) True path m2 = (m3, Started pid') \<and>
      map_of (mc_procs m3) pid = Some (?proc\<lparr>pr_terminating := True\<rparr>)" if "pid' \<noteq> pid" for e pid'
    using that m2(2) by (simp add: runNodeDaemon_def writePidFile_def map_of_mput)
  ultimately show ?thesis using run
    by (intro conjI exI [of _ m2] exI [of _ "?proc\<lparr>pr_terminating := True\<rparr>"]) (simp_all add: showStatus_def runNodeDaemon_def)
qed

theorem daemon_lifecycle_witness:
  "\<exists>m1 m2. runNodeDaemon False (Some ''abcfe-node'') (Some 42) (\<lambda>d. True) True ''node.pid'' \<lparr>mc_files = Map.empty, mc_procs = []\<rparr> = (m1, Started 42) \<and>
     showStatus ''node.pid'' m1 = (m1, NodeRunning 42) \<and> stopDaemon ''node.pid'' m1 = (m2, Stopping 42)"
proof -
  let ?m = "\<lparr>mc_files = Map.empty, mc_procs = []\<rparr>"
  obtain m1 where m1: "runNodeDaemon False (Some ''abcfe-node'') (Some 42) (\<lambda>d. True) True ''node.pid'' ?m = (m1, Started 42)"
    by (simp add: runNodeDaemon_def isRunning_def readPidFile_def writePidFile_def)
  from daemon_lifecycle [OF m1, of None None "\<lambda>d. True" True] m1 show ?thesis by fastforce
qed

section \<open>Paths\<close>

lemma wallet_path_json: "json_suffix (filepath_Join d ''wallet.json'')"
proof -
  have s: "split_slash ''wallet.json'' = [''wallet.json'']" by simp
  have clean: "json_suffix (filepath_Clean (a @ CHR ''/'' # ''wallet.json''))" for a
  proof -
    define rooted where "rooted = (a @ CHR ''/'' # ''wallet.json'' \<noteq> [] \<and> hd (a @ CHR ''/'' # ''wallet.json'') = CHR ''/'')"
    obtain st where st: "foldl (clean_step rooted) [] (split_slash (a @ CHR ''/'' # ''wallet.json'')) = ''wallet.json'' # st"
      by (simp only: split_slash_append s) (simp add: clean_step_def)
    have "\<exists>pre. filepath_Clean (a @ CHR ''/'' # ''wallet.json'') = pre @ ''wallet.json''"
      unfolding filepath_Clean_def Let_def rooted_def [symmetric] st
      by (simp add: enumerate_append_eq)
    then show ?thesis by (auto simp: json_suffix_def)
  qed
  show ?thesis
  proof (cases "d = []")
    case True
    then show ?thesis by (simp add: filepath_Join_def filepath_Clean_def clean_step_def json_suffix_def)
  next
    case False
    with clean show ?thesis by (simp add: filepath_Join_def)
  qed
qed

section \<open>Wallet commands\<close>

abbreviation wallet_json :: "string \<Rightarrow> string" where
  "wallet_json d \<equiv> filepath_Join d ''wallet.json''"

lemma wallet_json_other: "\<not> json_suffix d \<Longrightarrow> wallet_json d \<noteq> d"
  using wallet_path_json by metis

text \<open>A directory that holds the wallet \<open>w\<close>, in a file system where it is a directory.\<close>

definition holds :: "walletlib \<Rightarrow> files \<Rightarrow> string \<Rightarrow> MnemonicWallet \<Rightarrow> bool" where
  "holds L fs d w \<longleftrightarrow> d \<noteq> [] \<and> \<not> json_suffix d \<and> fs d = None \<and> fs (wallet_json d) = Some (enc_Wallet L w)"

lemma holds_load:
  "holds L fs d w \<Longrightarrow> dec_Wallet L (enc_Wallet L w) = Some w \<Longrightarrow> LoadWalletFile L fs (NewWalletManager d) = Inr \<lparr>wm_walletDir = d, wm_Wallet = Some w\<rparr>"
  by (simp add: holds_def LoadWalletFile_def wallet_file_def NewWalletManager_def)

lemma save_holds:
  assumes "d \<noteq> []" "\<not> json_suffix d" "fs d = None"
  shows "\<exists>fs'. SaveWallet L fs True True \<lparr>wm_walletDir = d, wm_Wallet = Some w\<rparr> = Inr fs' \<and> holds L fs' d w"
  using assms wallet_json_other [of d] by (auto simp: SaveWallet_def CreateDir_def holds_def)

lemma add_holds:
  assumes "\<forall>w. dec_Wallet L (enc_Wallet L w) = Some w" "holds L fs d w"
  shows "\<exists>w'. (\<forall>fs d. holds L fs d w \<longrightarrow> holds L (fst (walletAddAccountCmd C L True True d fs)) d w')"
proof (cases "deriveAccount C L w (length (mw_Accounts w))")
  case (Inl e)
  have "holds L (fst (walletAddAccountCmd C L True True d fs)) d w" if "holds L fs d w" for fs d
    using that holds_load [OF that] assms(1) Inl by (simp add: walletAddAccountCmd_def AddAccount_def)
  then show ?thesis by blast
next
  case (Inr a)
  let ?w = "w\<lparr>mw_Accounts := mw_Accounts w @ [a]\<rparr>"
  have "holds L (fst (walletAddAccountCmd C L True True d fs)) d ?w" if "holds L fs d w" for fs d
  proof -
    from that have "d \<noteq> []" "\<not> json_suffix d" "fs d = None" by (simp_all add: holds_def)
    from save_holds [where fs = fs, OF this] obtain fs' where
      "SaveWallet L fs True True \<lparr>wm_walletDir = d, wm_Wallet = Some ?w\<rparr> = Inr fs'" "holds L fs' d ?w" by blast
    then show ?thesis using holds_load [OF that] assms(1) Inr by (simp add: walletAddAccountCmd_def AddAccount_def)
  qed
  then show ?thesis by blast
qed

definition add_account_cmds :: "crypto \<Rightarrow> walletlib \<Rightarrow> string \<Rightarrow> nat \<Rightarrow> files \<Rightarrow> files" where
  "add_account_cmds C L d n = (\<lambda>fs. fst (walletAddAccountCmd C L True True d fs)) ^^ n"

lemma add_cmds_hold:
  assumes "\<forall>w. dec_Wallet L (enc_Wallet L w) = Some w" "holds L fs d w" "holds L fs' d' w"
  shows "\<exists>w'. holds L (add_account_cmds C L d n fs) d w' \<and> holds L (add_account_cmds C L d' n fs') d' w'"
proof (induction n)
  case 0
  then show ?case using assms(2,3) by (auto simp: add_account_cmds_def)
next
  case (Suc n)
  then obtain w' where w': "holds L (add_account_cmds C L d n fs) d w'" "holds L (add_account_cmds C L d' n fs') d' w'" by blast
  obtain w2 where "\<And>fs d. holds L fs d w' \<Longrightarrow> holds L (fst (walletAddAccountCmd C L True True d fs)) d w2"
    using add_holds [OF assms(1) w'(1), of C] by blast
  with w' show ?case by (auto simp: add_account_cmds_def)
qed

lemma walletCreateCmd_cases:
  assumes "walletCreateCmd C L entropy dir_ok write_ok d fs = (fs1, WalletCreated words first)"
  obtains w where "wallet_of C L words = Inr w" "mw_Mnemonic w = words" "first = first_account w" "\<exists>e. bip39_NewMnemonic L e = Some words"
    "fs d = None" "SaveWallet L fs dir_ok write_ok \<lparr>wm_walletDir = d, wm_Wallet = Some w\<rparr> = Inr fs1"
proof -
  from assms obtain wm where wm: "CreateWallet C L entropy (NewWalletManager d) = Inr wm" "SaveWallet L fs dir_ok write_ok wm = Inr fs1"
    "words = mw_Mnemonic (the (wm_Wallet wm))" "first = first_account (the (wm_Wallet wm))"
    by (auto simp: walletCreateCmd_def Let_def split: if_splits sum.splits)
  from wm(1) obtain e m w where w: "bip39_NewMnemonic L e = Some m" "wallet_of C L m = Inr w" "wm = \<lparr>wm_walletDir = d, wm_Wallet = Some w\<rparr>"
    by (auto simp: CreateWallet_def NewWalletManager_def bindE_Inr split: option.splits)
  have m: "mw_Mnemonic w = m" using wf_wallet_of [OF w(2)] by simp
  have "fs d = None" using wm(2) w(3) by (auto simp: SaveWallet_def CreateDir_def split: if_splits)
  with that [of w] w wm m show thesis by auto
qed

text \<open>
  C22: The wallet commands work together: after a wallet was created, its words and its account, marked as the current one,
  are shown, and neither creating nor restoring overwrites it; a wallet that is restored from the words in another
  directory has, after the same number of added accounts, exactly the same file.
\<close>

theorem wallet_commands:
  assumes L: "mnemonics_valid L" "\<forall>w. dec_Wallet L (enc_Wallet L w) = Some w"
    and d: "d \<noteq> []" "\<not> json_suffix d" "walletCreateCmd C L entropy True True d fs = (fs1, WalletCreated words first)" "words \<noteq> []"
    and d': "d' \<noteq> []" "\<not> json_suffix d'" "fs' d' = None" "fs' (wallet_json d') = None"
  shows "walletShowMnemonicCmd L d fs1 = MnemonicShown words \<and>
    (\<exists>address path. first = Some (address, path) \<and> walletListCmd L d fs1 = AccountList [(0, True, address, path)]) \<and>
    walletCreateCmd C L entropy' dir_ok write_ok d fs1 = (fs1, WalletExists (wallet_json d)) \<and>
    walletRestoreCmd C L words dir_ok write_ok d fs1 = (fs1, WalletExists (wallet_json d)) \<and>
    (\<exists>fs2. walletRestoreCmd C L words True True d' fs' = (fs2, WalletRestored first) \<and>
       add_account_cmds C L d' n fs2 (wallet_json d') = add_account_cmds C L d n fs1 (wallet_json d))"
proof -
  obtain w where w: "wallet_of C L words = Inr w" "mw_Mnemonic w = words" "first = first_account w" "\<exists>e. bip39_NewMnemonic L e = Some words"
    "fs d = None" "SaveWallet L fs True True \<lparr>wm_walletDir = d, wm_Wallet = Some w\<rparr> = Inr fs1"
    by (rule walletCreateCmd_cases [OF d(3)])
  have h: "holds L fs1 d w" using save_holds [where fs = fs, OF d(1,2) w(5), of L w] w(6) by auto
  note load = holds_load [OF h L(2) [rule_format]]
  obtain a where a: "mw_Accounts w = [a]" "mw_CurrentIndex w = 0" using w(1) by (auto simp: wallet_of_def Let_def bindE_Inr wrapE_Inr)
  from save_holds [where fs = fs', OF d'(1-3), of L w] obtain fs2 where
    fs2: "SaveWallet L fs' True True \<lparr>wm_walletDir = d', wm_Wallet = Some w\<rparr> = Inr fs2" "holds L fs2 d' w" by blast
  have "bip39_IsMnemonicValid L words" using L(1) w(4) by (auto simp: mnemonics_valid_def)
  then have r: "walletRestoreCmd C L words True True d' fs' = (fs2, WalletRestored first)"
    using w(1,3) fs2(1) d(4) d'(4) by (simp add: walletRestoreCmd_def RestoreWallet_def NewWalletManager_def)
  from add_cmds_hold [OF L(2) h fs2(2), of C n]
  have "add_account_cmds C L d' n fs2 (wallet_json d') = add_account_cmds C L d n fs1 (wallet_json d)" by (auto simp: holds_def)
  moreover have "fs1 (wallet_json d) \<noteq> None" using h by (simp add: holds_def)
  ultimately show ?thesis using r load w(2,3) a d(4)
    by (simp add: walletShowMnemonicCmd_def walletListCmd_def GetMnemonic_def GetAccounts_def first_account_def walletCreateCmd_def walletRestoreCmd_def)
qed

text \<open>Wallets can be numbered, so that there is an encoding of them that is read back.\<close>

instance Account_wallet_ext :: (countable) countable
proof (rule countable_classI [of "\<lambda>r. to_nat (wa_Index r, wa_Address r, wa_PrivateKey r, wa_PublicKey r, wa_Path r, wa_Unlocked r, Account_wallet.more r)"])
  fix r s :: "'a Account_wallet_scheme"
  assume "to_nat (wa_Index r, wa_Address r, wa_PrivateKey r, wa_PublicKey r, wa_Path r, wa_Unlocked r, Account_wallet.more r) =
     to_nat (wa_Index s, wa_Address s, wa_PrivateKey s, wa_PublicKey s, wa_Path s, wa_Unlocked s, Account_wallet.more s)"
  then show "r = s" by (intro Account_wallet.equality) simp_all
qed

instance MnemonicWallet_ext :: (countable) countable
proof (rule countable_classI [of "\<lambda>r. to_nat (mw_Mnemonic r, mw_Seed r, mw_MasterKey r, mw_Accounts r, mw_CurrentIndex r, MnemonicWallet.more r)"])
  fix r s :: "'a MnemonicWallet_scheme"
  assume "to_nat (mw_Mnemonic r, mw_Seed r, mw_MasterKey r, mw_Accounts r, mw_CurrentIndex r, MnemonicWallet.more r) =
     to_nat (mw_Mnemonic s, mw_Seed s, mw_MasterKey s, mw_Accounts s, mw_CurrentIndex s, MnemonicWallet.more s)"
  then show "r = s" by (intro MnemonicWallet.equality) simp_all
qed

definition toy_store :: walletlib where
  "toy_store = toy_walletlib\<lparr>enc_Wallet := \<lambda>w. big_Bytes (to_nat w), dec_Wallet := \<lambda>bs. Some (from_nat (big_SetBytes bs))\<rparr>"

lemma toy_store_roundtrip: "dec_Wallet toy_store (enc_Wallet toy_store w) = Some w"
  by (simp add: toy_store_def)

lemma toy_store_same:
  "mnemonics_valid toy_store" "wallet_of toy toy_store m = wallet_of toy toy_walletlib m" "CreateWallet toy toy_store e p = CreateWallet toy toy_walletlib e p"
proof -
  show w: "wallet_of toy toy_store m = wallet_of toy toy_walletlib m" for m
    by (simp add: toy_store_def wallet_of_def deriveAccount_def DeriveAccountKey_def DeriveMasterKey_def key_of_def PrivateKeyToBytes_def)
  have "bip39_NewMnemonic toy_store = bip39_NewMnemonic toy_walletlib" by (simp add: toy_store_def)
  with w show "CreateWallet toy toy_store e p = CreateWallet toy toy_walletlib e p" by (auto simp: CreateWallet_def split: option.split)
  show "mnemonics_valid toy_store" using toy_walletlib_laws(2) by (simp add: toy_store_def mnemonics_valid_def)
qed

theorem wallet_commands_witness:
  "\<exists>fs1 first. walletCreateCmd toy toy_store (Some []) True True ''a'' Map.empty = (fs1, WalletCreated ''words'' first) \<and>
     (\<exists>fs2. walletRestoreCmd toy toy_store ''words'' True True ''b'' Map.empty = (fs2, WalletRestored first) \<and>
       add_account_cmds toy toy_store ''b'' 3 fs2 (wallet_json ''b'') = add_account_cmds toy toy_store ''a'' 3 fs1 (wallet_json ''a''))"
proof -
  obtain w where w: "wallet_of toy toy_walletlib ''words'' = Inr w" using toy_wallet_of by blast
  have "CreateWallet toy toy_store (Some []) (NewWalletManager ''a'') = Inr \<lparr>wm_walletDir = ''a'', wm_Wallet = Some w\<rparr>"
    unfolding toy_store_same using w by (simp add: CreateWallet_def NewWalletManager_def) (simp add: toy_walletlib_def)
  then obtain fs1 first where c: "walletCreateCmd toy toy_store (Some []) True True ''a'' Map.empty = (fs1, WalletCreated ''words'' first)"
    using wf_wallet_of [OF w] by (simp add: walletCreateCmd_def SaveWallet_def CreateDir_def)
  have "\<not> json_suffix ''a''" "\<not> json_suffix ''b''" by (simp_all add: json_suffix_def)
  then show ?thesis
    using wallet_commands [OF toy_store_same(1) allI [OF toy_store_roundtrip] _ _ c, where d' = "''b''" and fs' = Map.empty and n = 3] c by auto
qed

end
