(* ===== verification/Logging.thy ===== *)
theory Logging
  imports Settings
begin

text \<open>
  \<open>common/logger/logger.go\<close> after \<open>InitLogger\<close> has set the level (\<open>Settings\<close>): where messages of each level go, the alert that
  an error sends, and the message that ends the process.  The library \<open>zap\<close> is an argument, as is the working directory
  that an alert names.  A message is given by its parts, formatted already.
\<close>

datatype log_level = DebugLevel | InfoLevel | WarnLevel | ErrorLevel | FatalLevel

datatype log_encoder = JSONEncoder | ConsoleEncoder

datatype log_sink = Rotator string | Stdout

record alert =
  al_url :: string
  al_chat_id :: int
  al_text :: string

text \<open>A line that a core has written has the level, the message and a field.\<close>

datatype log_effect = Line log_encoder log_sink log_level string "string \<times> string" | AlertSent alert

type_synonym zap_core = "(log_encoder \<times> log_sink \<times> log_level) list"

text \<open>What a call of the library writes, and whether it ends the process.\<close>

type_synonym zap = "zap_core \<Rightarrow> log_level \<Rightarrow> string \<Rightarrow> string \<times> string \<Rightarrow> log_effect list \<times> bool"

fun level_number :: "log_level \<Rightarrow> nat" where
  "level_number DebugLevel = 0"
| "level_number InfoLevel = 1"
| "level_number WarnLevel = 2"
| "level_number ErrorLevel = 3"
| "level_number FatalLevel = 4"

text \<open>Every core writes the messages of at least its level; a fatal message ends the process after it is written.\<close>

definition zap_laws :: "zap \<Rightarrow> bool" where
  "zap_laws zap \<longleftrightarrow>
     (\<forall>cores level msg field. zap cores level msg field =
        (concat (map (\<lambda>(enc, sink, least). if level_number least \<le> level_number level then [Line enc sink level msg field] else []) cores),
         level = FatalLevel))"

record Logger =
  lo_cores :: zap_core
  lo_stag :: string
  lo_cf :: FileConfig

section \<open>Operations\<close>

text \<open>The rest of \<open>InitLogger\<close>.\<close>

definition new_logger :: "string \<Rightarrow> FileConfig \<Rightarrow> Logger" where
  "new_logger today cfg =
     (let w = Rotator (fc_LogInfo_Path cfg @ ''_'' @ today @ ''.log''); stag = cm_Level (cfg_Common (acf_core cfg))
      in \<lparr>lo_cores = (if stag = ''alpha'' then [(JSONEncoder, w, DebugLevel), (ConsoleEncoder, Stdout, DebugLevel)] else [(JSONEncoder, w, InfoLevel)]),
          lo_stag = stag, lo_cf = cfg\<rparr>)"

definition Debug :: "zap \<Rightarrow> string list \<Rightarrow> Logger \<Rightarrow> log_effect list \<times> bool" where
  "Debug zap ctx lg = zap (lo_cores lg) DebugLevel ''debug'' (''Debug'', concat ctx)"

definition Info :: "zap \<Rightarrow> string list \<Rightarrow> Logger \<Rightarrow> log_effect list \<times> bool" where
  "Info zap ctx lg = zap (lo_cores lg) InfoLevel ''info'' (''Info'', concat ctx)"

definition Warn :: "zap \<Rightarrow> string list \<Rightarrow> Logger \<Rightarrow> log_effect list \<times> bool" where
  "Warn zap ctx lg = zap (lo_cores lg) WarnLevel ''warn'' (''Warn'', concat ctx)"

text \<open>The alert that is posted; whether it arrives is not looked at.\<close>

definition sendTelegramAlert :: "string \<Rightarrow> FileConfig \<Rightarrow> string \<Rightarrow> alert" where
  "sendTelegramAlert path cf body =
     (let common = cfg_Common (acf_core cf); level = cm_Level common; tag = ''['' @ cm_ServiceName common @ ''_'' @ level @ ''] '';
          tail = [CHR 0x0A] @ body @ [CHR 0x0A] @ ''Module : '' @ path
      in if level = ''prod''
         then \<lparr>al_url = fc_ProdTelKey cf, al_chat_id = fc_ProdChatId cf, al_text = tag @ ''!!!From Prod-live stage!!! : '' @ tail\<rparr>
         else if level = ''dev''
         then \<lparr>al_url = fc_DevTelKey cf, al_chat_id = fc_DevChatId cf, al_text = tag @ ''From dev stage : '' @ tail\<rparr>
         else \<lparr>al_url = fc_DevTelKey cf, al_chat_id = fc_DevChatId cf, al_text = tag @ '' Message : '' @ tail\<rparr>)"

text \<open>What follows a call that ends the process is not run.\<close>

definition alert_after :: "string \<Rightarrow> string \<Rightarrow> Logger \<Rightarrow> log_effect list \<times> bool \<Rightarrow> log_effect list \<times> bool" where
  "alert_after path body lg r =
     (case r of (written, ended) \<Rightarrow>
        if ended then (written, True)
        else if lo_stag lg \<noteq> ''alpha'' then (written @ [AlertSent (sendTelegramAlert path (lo_cf lg) body)], False)
        else (written, False))"

definition Error :: "zap \<Rightarrow> string \<Rightarrow> string list \<Rightarrow> Logger \<Rightarrow> log_effect list \<times> bool" where
  "Error zap path ctx lg = alert_after path (concat ctx) lg (zap (lo_cores lg) ErrorLevel ''error'' (''Err'', concat ctx))"

definition Crit :: "zap \<Rightarrow> string \<Rightarrow> string list \<Rightarrow> Logger \<Rightarrow> log_effect list \<times> bool" where
  "Crit zap path ctx lg = alert_after path (concat ctx) lg (zap (lo_cores lg) FatalLevel ''panic'' (''Crit'', concat ctx))"

definition HandleErr :: "zap \<Rightarrow> string \<Rightarrow> string option \<Rightarrow> Logger \<Rightarrow> log_effect list \<times> bool" where
  "HandleErr zap path err lg = (case err of None \<Rightarrow> ([], False) | Some e \<Rightarrow> Error zap path [e] lg)"

section \<open>What is logged\<close>

definition plain_zap :: zap where
  "plain_zap cores level msg field =
     (concat (map (\<lambda>(enc, sink, least). if level_number least \<le> level_number level then [Line enc sink level msg field] else []) cores),
      level = FatalLevel)"

lemma plain_zap_laws: "zap_laws plain_zap"
  by (simp add: zap_laws_def plain_zap_def)

lemma InitLogger_level:
  assumes "InitLogger args rotator_ok today cfg0 = Inr cfg"
  shows "lo_stag (new_logger today cfg) = (if hasDebugFlag args then ''alpha'' else ''prod'')"
  using assms by (auto simp: InitLogger_def new_logger_def Let_def split: if_splits)

text \<open>
  Without the flag, debugging messages are dropped, the others go to the file, and an error is reported to the production
  chat; the configured development chat is never used.  With the flag, all of them go to the file and the terminal and nothing
  is reported.  A critical message ends the process before its alert is sent.
\<close>

lemma logger_behaviour:
  assumes zap: "zap_laws zap" and init: "InitLogger args rotator_ok today cfg0 = Inr cfg"
    and lg: "lg = new_logger today cfg" and w: "w = Rotator (fc_LogInfo_Path cfg0 @ ''_'' @ today @ ''.log'')"
  shows "\<not> hasDebugFlag args \<Longrightarrow> Debug zap ctx lg = ([], False) \<and> Info zap ctx lg = ([Line JSONEncoder w InfoLevel ''info'' (''Info'', concat ctx)], False) \<and>
      (\<exists>a. Error zap path ctx lg = ([Line JSONEncoder w ErrorLevel ''error'' (''Err'', concat ctx), AlertSent a], False) \<and>
        al_url a = fc_ProdTelKey cfg0 \<and> al_chat_id a = fc_ProdChatId cfg0)"
    "hasDebugFlag args \<Longrightarrow> Debug zap ctx lg = ([Line JSONEncoder w DebugLevel ''debug'' (''Debug'', concat ctx),
        Line ConsoleEncoder Stdout DebugLevel ''debug'' (''Debug'', concat ctx)], False) \<and>
      AlertSent a \<notin> set (fst (Error zap path ctx lg))"
    "snd (Crit zap path ctx lg) \<and> AlertSent a \<notin> set (fst (Crit zap path ctx lg))"
proof -
  have cfg: "cm_Level (cfg_Common (acf_core cfg)) = (if hasDebugFlag args then ''alpha'' else ''prod'')" "fc_LogInfo_Path cfg = fc_LogInfo_Path cfg0"
    "fc_ProdTelKey cfg = fc_ProdTelKey cfg0" "fc_ProdChatId cfg = fc_ProdChatId cfg0"
    using init by (auto simp: InitLogger_def Let_def split: if_splits)
  note defs = zap [unfolded zap_laws_def, rule_format] lg w cfg new_logger_def Debug_def Info_def Error_def Crit_def alert_after_def sendTelegramAlert_def Let_def
  show "Debug zap ctx lg = ([], False) \<and> Info zap ctx lg = ([Line JSONEncoder w InfoLevel ''info'' (''Info'', concat ctx)], False) \<and>
      (\<exists>a. Error zap path ctx lg = ([Line JSONEncoder w ErrorLevel ''error'' (''Err'', concat ctx), AlertSent a], False) \<and>
        al_url a = fc_ProdTelKey cfg0 \<and> al_chat_id a = fc_ProdChatId cfg0)" if "\<not> hasDebugFlag args"
    using that by (simp add: defs)
  show "Debug zap ctx lg = ([Line JSONEncoder w DebugLevel ''debug'' (''Debug'', concat ctx), Line ConsoleEncoder Stdout DebugLevel ''debug'' (''Debug'', concat ctx)], False) \<and>
      AlertSent a \<notin> set (fst (Error zap path ctx lg))" if "hasDebugFlag args"
    using that by (simp add: defs)
  show "snd (Crit zap path ctx lg) \<and> AlertSent a \<notin> set (fst (Crit zap path ctx lg))" by (simp add: defs)
qed

end
