(* ===== verification/Load_Test.thy ===== *)
theory Load_Test
  imports Rest
begin

text \<open>
  \<open>cmd/load_test/main.go\<close>: a client that derives wallets from the words of a node's wallet, has them funded, and lets
  concurrent workers send one signed transaction from each.  The node at the other end of a connection is an argument: what a
  \<open>GET\<close> returned, and for a \<open>POST\<close> a function on its state with the status code, \<open>None\<close> when the connection fails.
\<close>

section \<open>State\<close>

record UTXOResponse =
  uq_TxID :: string
  uq_OutputIndex :: uint64
  uq_Amount :: uint64

record WalletInfo =
  wi_Index :: int
  wi_Address :: string
  wi_Manager :: WalletManager
  wi_HasFunds :: bool
  wi_Spent :: bool

record Stats =
  sa_TotalTx :: int
  sa_SuccessTx :: int
  sa_FailedTx :: int

type_synonym ('q, 's) http_post = "'q \<Rightarrow> 's \<Rightarrow> 's \<times> nat option"

datatype client_panic = WalletNotLoaded wallet_error | NoMnemonicThere wallet_error | NegativeLength | AccountFailed wallet_error

section \<open>Wallets\<close>

text \<open>Account \<open>i\<close> of a wallet restored from the words; account 0 is the node's own.\<close>

definition derive_wallet :: "crypto \<Rightarrow> walletlib \<Rightarrow> string \<Rightarrow> nat \<Rightarrow> wallet_error + WalletInfo" where
  "derive_wallet C L mnemonic i =
     (let accountIndex = i + 1 in
      bindE (RestoreWallet C L mnemonic (NewWalletManager (''/tmp/load_test_wallet_'' @ nat_to_dec accountIndex))) (\<lambda>wm0.
      bindE (add_accounts C L accountIndex wm0) (\<lambda>wm1.
      bindE (SwitchAccount (int accountIndex) wm1) (\<lambda>wm.
      bindE (GetCurrentAccount wm) (\<lambda>account.
      Inr \<lparr>wi_Index = int accountIndex, wi_Address = AddressToString (wa_Address account), wi_Manager = wm,
           wi_HasFunds = False, wi_Spent = False\<rparr>)))))"

text \<open>Steps 1 and 2 of \<open>main\<close>; the length of a slice must not be negative.\<close>

definition derive_wallets :: "crypto \<Rightarrow> walletlib \<Rightarrow> files \<Rightarrow> string \<Rightarrow> int \<Rightarrow> client_panic + WalletInfo list" where
  "derive_wallets C L fs walletPath walletCount =
     bindE (wrapE WalletNotLoaded (LoadWalletFile L fs (NewWalletManager walletPath))) (\<lambda>serverWM.
     bindE (wrapE NoMnemonicThere (GetMnemonic serverWM)) (\<lambda>mnemonic.
     if walletCount < 0 then Inl NegativeLength
     else wrapE AccountFailed (mapE (derive_wallet C L mnemonic) [0..<nat walletCount])))"

section \<open>Funding\<close>

definition fundWallet :: "(SendTxReq, 's) http_post \<Rightarrow> uint64 \<Rightarrow> string \<Rightarrow> uint64 \<Rightarrow> 's \<Rightarrow> 's \<times> bool" where
  "fundWallet post txFee toAddr amount s =
     (case post \<lparr>seq_AccountIndex = 0, seq_To = toAddr, seq_Amount = amount, seq_Fee = txFee, seq_Memo = ''load test funding'', seq_Data = None\<rparr> s of
        (s', status) \<Rightarrow> (s', status = Some 200))"

text \<open>Step 3: the wallets one after another, and how many were funded.\<close>

fun fund_all :: "(SendTxReq, 's) http_post \<Rightarrow> uint64 \<Rightarrow> uint64 \<Rightarrow> WalletInfo list \<Rightarrow> 's \<Rightarrow> 's \<times> nat" where
  "fund_all post txFee fundingAmount [] s = (s, 0)"
| "fund_all post txFee fundingAmount (w # ws) s =
     (let (s1, ok) = fundWallet post txFee (wi_Address w) fundingAmount s; (s2, n) = fund_all post txFee fundingAmount ws s1
      in (s2, if ok then Suc n else n))"

text \<open>A response that cannot be had or read is no outputs.\<close>

definition getUtxos :: "UTXOResponse list option \<Rightarrow> UTXOResponse list" where
  "getUtxos response = (case response of None \<Rightarrow> [] | Some utxos \<Rightarrow> utxos)"

definition confirm :: "(string \<Rightarrow> UTXOResponse list option) \<Rightarrow> WalletInfo \<Rightarrow> WalletInfo" where
  "confirm get w = (if wi_HasFunds w then w else if 0 < length (getUtxos (get (wi_Address w))) then w\<lparr>wi_HasFunds := True\<rparr> else w)"

text \<open>Step 4: one list element for each pass that starts before the timeout, with the responses of that pass.\<close>

fun wait_loop :: "WalletInfo list \<Rightarrow> nat \<Rightarrow> (string \<Rightarrow> UTXOResponse list option) list \<Rightarrow> WalletInfo list \<times> nat" where
  "wait_loop ws confirmedCount [] = (ws, confirmedCount)"
| "wait_loop ws confirmedCount (get # passes) =
     (let ws' = map (confirm get) ws; n = length (filter wi_HasFunds ws') in
      if n = length ws then (ws', n) else wait_loop ws' n passes)"

definition waitForConfirmations :: "WalletInfo list \<Rightarrow> (string \<Rightarrow> UTXOResponse list option) list \<Rightarrow> WalletInfo list \<times> nat" where
  "waitForConfirmations wallets passes = wait_loop wallets 0 passes"

section \<open>One transaction\<close>

text \<open>Outputs to the recipient and, if anything is left, back to the sender.\<close>

definition client_outputs :: "'a \<Rightarrow> 'a \<Rightarrow> uint64 \<Rightarrow> uint64 \<Rightarrow> ('a \<times> uint64) list" where
  "client_outputs to back amount change = (to, amount) # (if 0 < change then [(back, change)] else [])"

text \<open>The network identifier is not set.\<close>

definition client_tx ::
    "crypto \<Rightarrow> string \<Rightarrow> int \<Rightarrow> Hash \<Rightarrow> uint64 \<Rightarrow> byte list \<Rightarrow> (Address \<times> uint64) list \<Rightarrow> Transaction" where
  "client_tx C memo now inputTxID outputIndex pubKeyBytes outputs =
     (let tx = \<lparr>tx_Version = ''1.0.0'', tx_NetworkID = [], tx_ID = zero_Hash, tx_Timestamp = now,
                tx_Inputs = Some [\<lparr>in_TxID = inputTxID, in_OutputIndex = outputIndex, in_Signature = zero_Signature, in_PublicKey = Some pubKeyBytes\<rparr>],
                tx_Outputs = Some (map (\<lambda>(a, n). \<lparr>out_Address = a, out_Amount = n, out_TxType = TxTypeGeneral\<rparr>) outputs),
                tx_Memo = memo, tx_Data = Some []\<rparr>
      in tx\<lparr>tx_ID := Hash_Transaction C tx\<rparr>)"

definition client_request ::
    "string \<Rightarrow> int \<Rightarrow> UTXOResponse \<Rightarrow> Signature \<Rightarrow> byte list \<Rightarrow> (string \<times> uint64) list \<Rightarrow> SubmitSignedTxReq" where
  "client_request memo now utxo sig pubKeyBytes outputs =
     \<lparr>ssq_Version = ''1.0.0'', ssq_Timestamp = now,
      ssq_Inputs = [\<lparr>sti_TxID = uq_TxID utxo, sti_OutputIndex = uq_OutputIndex utxo, sti_Signature = SignatureToString sig,
                     sti_PublicKey = hex_EncodeToString pubKeyBytes\<rparr>],
      ssq_Outputs = map (\<lambda>(a, n). \<lparr>toq_Address = a, toq_Amount = n, toq_TxType = TxTypeGeneral\<rparr>) outputs,
      ssq_Memo = memo, ssq_Data = Some []\<rparr>"

text \<open>
  \<open>utxos\<close> is what the node answered to the request for the outputs of the wallet, \<open>r\<close> the random choice of the signature.
  The sum of amount and fee wraps.  A nil private key is a nil pointer, which ends the client: \<open>None\<close>.
\<close>

definition sendTransaction ::
    "crypto \<Rightarrow> (SubmitSignedTxReq, 's) http_post \<Rightarrow> nat \<Rightarrow> int \<Rightarrow> UTXOResponse list option \<Rightarrow> WalletInfo \<Rightarrow> string \<Rightarrow> uint64 \<Rightarrow> uint64 \<Rightarrow> 's \<Rightarrow>
     ('s \<times> bool) option" where
  "sendTransaction C post r now response w toAddrStr amount fee s =
     (case getUtxos response of
        [] \<Rightarrow> Some (s, False)
      | utxo # _ \<Rightarrow>
          if uq_Amount utxo < amount + fee then Some (s, False)
          else case GetCurrentPrivateKey C (wi_Manager w) of
                 Inl e \<Rightarrow> Some (s, False)
               | Inr None \<Rightarrow> None
               | Inr (Some privateKey) \<Rightarrow>
                   (case PublicKeyToBytes C (Some (sk_PublicKey privateKey)) of
                      Inl e \<Rightarrow> Some (s, False)
                    | Inr pubKeyBytes \<Rightarrow>
                        (case (StringToAddress toAddrStr, StringToAddress (wi_Address w), StringToHash (uq_TxID utxo)) of
                           (Inr toAddr, Inr myAddr, Inr inputTxID) \<Rightarrow>
                             let change = uq_Amount utxo - amount - fee;
                                 tx = client_tx C ''load test tx'' now inputTxID (uq_OutputIndex utxo) pubKeyBytes (client_outputs toAddr myAddr amount change)
                             in (case SignData C r (Some privateKey) (HashToBytes (tx_ID tx)) of
                                   Inl e \<Rightarrow> Some (s, False)
                                 | Inr sig \<Rightarrow>
                                     (case post (client_request ''load test tx'' now utxo sig pubKeyBytes (client_outputs toAddrStr (wi_Address w) amount change)) s of
                                        (s', status) \<Rightarrow> Some (s', status = Some 200)))
                         | _ \<Rightarrow> Some (s, False))))"

section \<open>The workers\<close>

text \<open>
  Step 5.  Wallets are shared by pointer: they are named by their position.  The channel \<open>jobs\<close> has room for all of them, so
  queueing never blocks; a worker that has taken a wallet sends and then updates the counters one by one.
\<close>

datatype worker =
    Ready
  | Sending nat
  | Answered nat bool
  | Counted nat bool
  | Finished

record pool =
  po_wallets :: "WalletInfo list"
  po_queue :: "nat list"
  po_jobs :: "nat list"
  po_closed :: bool
  po_workers :: "worker list"
  po_stats :: Stats
  po_sent :: "nat list"

definition start_pool :: "WalletInfo list \<Rightarrow> int \<Rightarrow> pool" where
  "start_pool wallets concurrency =
     \<lparr>po_wallets = wallets, po_queue = [0..<length wallets], po_jobs = [], po_closed = False,
      po_workers = replicate (nat concurrency) Ready, po_stats = \<lparr>sa_TotalTx = 0, sa_SuccessTx = 0, sa_FailedTx = 0\<rparr>, po_sent = []\<rparr>"

definition ready_to_send :: "WalletInfo \<Rightarrow> bool" where
  "ready_to_send w \<longleftrightarrow> wi_HasFunds w \<and> \<not> wi_Spent w"

definition set_worker :: "nat \<Rightarrow> worker \<Rightarrow> pool \<Rightarrow> pool" where
  "set_worker k x s = s\<lparr>po_workers := (po_workers s)[k := x]\<rparr>"

text \<open>What a worker does when it has counted an answer: the wallet is marked, and one of two counters grows.\<close>

definition record_answer :: "nat \<Rightarrow> bool \<Rightarrow> pool \<Rightarrow> pool" where
  "record_answer i success s =
     (if success
      then s\<lparr>po_stats := (po_stats s)\<lparr>sa_SuccessTx := sa_SuccessTx (po_stats s) + 1\<rparr>,
             po_wallets := (po_wallets s)[i := (po_wallets s ! i)\<lparr>wi_Spent := True\<rparr>]\<rparr>
      else s\<lparr>po_stats := (po_stats s)\<lparr>sa_FailedTx := sa_FailedTx (po_stats s) + 1\<rparr>\<rparr>)"

text \<open>\<open>answer\<close> is what \<open>sendTransaction\<close> returns for a wallet, whatever the node is like by then.\<close>

inductive pool_step :: "pool \<Rightarrow> pool \<Rightarrow> bool" where
  queue: "po_queue s = i # q \<Longrightarrow> pool_step s (s\<lparr>po_queue := q, po_jobs := po_jobs s @ [i]\<rparr>)"
| close: "po_queue s = [] \<Longrightarrow> \<not> po_closed s \<Longrightarrow> pool_step s (s\<lparr>po_closed := True\<rparr>)"
| take_job: "k < length (po_workers s) \<Longrightarrow> po_workers s ! k = Ready \<Longrightarrow> po_jobs s = i # js \<Longrightarrow>
    pool_step s (set_worker k (if ready_to_send (po_wallets s ! i) then Sending i else Ready) (s\<lparr>po_jobs := js\<rparr>))"
| send: "k < length (po_workers s) \<Longrightarrow> po_workers s ! k = Sending i \<Longrightarrow>
    pool_step s (set_worker k (Answered i success) (s\<lparr>po_sent := po_sent s @ [i]\<rparr>))"
| count_total: "k < length (po_workers s) \<Longrightarrow> po_workers s ! k = Answered i success \<Longrightarrow>
    pool_step s (set_worker k (Counted i success) (s\<lparr>po_stats := (po_stats s)\<lparr>sa_TotalTx := sa_TotalTx (po_stats s) + 1\<rparr>\<rparr>))"
| count_result: "k < length (po_workers s) \<Longrightarrow> po_workers s ! k = Counted i success \<Longrightarrow>
    pool_step s (set_worker k Ready (record_answer i success s))"
| finish: "k < length (po_workers s) \<Longrightarrow> po_workers s ! k = Ready \<Longrightarrow> po_jobs s = [] \<Longrightarrow> po_closed s \<Longrightarrow>
    pool_step s (set_worker k Finished s)"

text \<open>\<open>wg.Wait\<close> returns when every worker has finished; the queue has been closed before.\<close>

definition all_done :: "pool \<Rightarrow> bool" where
  "all_done s \<longleftrightarrow> po_closed s \<and> (\<forall>x\<in>set (po_workers s). x = Finished)"

end
