(* ===== verification/Api_Test.thy ===== *)
theory Api_Test
  imports Load_Test
begin

text \<open>
  \<open>cmd/api_test/main.go\<close>: a client that makes a key, has it funded by the node, and submits one transaction that it has
  signed.  Requests, responses and the transaction are as in \<open>Load_Test\<close>.
\<close>

datatype test_panic =
    KeyNotMade | ShortKey | FundingNotSent | FundingRefused | NotConfirmed | NoOutputs | TooLittle | NoPublicBytesThere | NotSigned | NotSubmitted

datatype test_result = TestPanic test_panic | TestPassed | TestFailed

text \<open>The first ten hexadecimal digits of the keys are printed; a shorter text is out of range.\<close>

definition printKeys :: "crypto \<Rightarrow> walletlib \<Rightarrow> Wallet_key \<Rightarrow> (string \<times> string) option" where
  "printKeys C L w =
     (let priv = hex_EncodeToString (case PrivateKeyToBytes L (wk_PrivateKey w) of Inl e \<Rightarrow> [] | Inr bs \<Rightarrow> bs);
          pub = hex_EncodeToString (case PublicKeyToBytes C (wk_PublicKey w) of Inl e \<Rightarrow> [] | Inr bs \<Rightarrow> bs)
      in if length priv < 10 \<or> length pub < 10 then None else Some (take 10 priv, take 10 pub))"

definition funding_request :: "string \<Rightarrow> SendTxReq" where
  "funding_request myAddr =
     \<lparr>seq_AccountIndex = 0, seq_To = myAddr, seq_Amount = 1000, seq_Fee = 1, seq_Memo = ''funding test wallet'', seq_Data = None\<rparr>"

definition burn_address :: string where
  "burn_address = ''0000000000000000000000000000000000000001''"

text \<open>The third part of \<open>main\<close>, on the outputs that the node lists; errors of two conversions are dropped, which leaves zeros.\<close>

definition submit_signed ::
    "crypto \<Rightarrow> (SubmitSignedTxReq, 's) http_post \<Rightarrow> nat \<Rightarrow> int \<Rightarrow> Wallet_key \<Rightarrow> UTXOResponse list \<Rightarrow> 's \<Rightarrow> 's \<times> test_result" where
  "submit_signed C post r now w utxos s =
     (case utxos of
        [] \<Rightarrow> (s, TestPanic NoOutputs)
      | utxo # _ \<Rightarrow>
          let amountToSend = 500; fee = 1; toAddr = (case StringToAddress burn_address of Inl e \<Rightarrow> zero_Address | Inr a \<Rightarrow> a) in
          if uq_Amount utxo < amountToSend + fee then (s, TestPanic TooLittle)
          else case PublicKeyToBytes C (wk_PublicKey w) of
                 Inl e \<Rightarrow> (s, TestPanic NoPublicBytesThere)
               | Inr pubKeyBytes \<Rightarrow>
                   let inputTxID = (case StringToHash (uq_TxID utxo) of Inl e \<Rightarrow> zero_Hash | Inr h \<Rightarrow> h);
                       change = uq_Amount utxo - amountToSend - fee;
                       tx = client_tx C ''signed by client test'' now inputTxID (uq_OutputIndex utxo) pubKeyBytes
                              (client_outputs toAddr (wk_Address w) amountToSend change)
                   in (case SignData C r (wk_PrivateKey w) (HashToBytes (tx_ID tx)) of
                         Inl e \<Rightarrow> (s, TestPanic NotSigned)
                       | Inr sig \<Rightarrow>
                           (case post (client_request ''signed by client test'' now utxo sig pubKeyBytes
                                    (client_outputs burn_address (AddressToString (wk_Address w)) amountToSend change)) s of
                              (s', None) \<Rightarrow> (s', TestPanic NotSubmitted)
                            | (s', Some status) \<Rightarrow> (s', if status = 200 then TestPassed else TestFailed))))"

text \<open>
  \<open>passes\<close> are the answers to the requests of the polling loop that start within a minute, \<open>answer\<close> the one to the request
  after it, \<open>meanwhile\<close> what happens to the node in between.
\<close>

definition api_test_main ::
    "crypto \<Rightarrow> walletlib \<Rightarrow> PrivateKey option \<Rightarrow> (SendTxReq, 's) http_post \<Rightarrow> (SubmitSignedTxReq, 's) http_post \<Rightarrow> UTXOResponse list option list \<Rightarrow>
     UTXOResponse list option \<Rightarrow> ('s \<Rightarrow> 's) \<Rightarrow> nat \<Rightarrow> int \<Rightarrow> 's \<Rightarrow> 's \<times> test_result" where
  "api_test_main C L generated send post passes answer meanwhile r now s =
     (case generated of
        None \<Rightarrow> (s, TestPanic KeyNotMade)
      | Some key \<Rightarrow>
          let w = Wallet_CreateWallet C key \<lparr>wk_Address = zero_Address, wk_PrivateKey = None, wk_PublicKey = None\<rparr>;
              myAddr = AddressToString (wk_Address w)
          in if printKeys C L w = None then (s, TestPanic ShortKey)
             else case send (funding_request myAddr) s of
                    (s1, None) \<Rightarrow> (s1, TestPanic FundingNotSent)
                  | (s1, Some status) \<Rightarrow>
                      if status \<noteq> 200 then (s1, TestPanic FundingRefused)
                      else if \<not> list_ex (\<lambda>p. 0 < length (getUtxos p)) passes then (meanwhile s1, TestPanic NotConfirmed)
                      else submit_signed C post r now w (getUtxos answer) (meanwhile s1))"

end
