(* ===== verification/Client_Theorems.thy ===== *)
theory Client_Theorems
  imports Api_Test API_Theorems
begin

text \<open>
  The theorems on the test clients: what the worker pool of the load test does and counts in every interleaving, and what a
  node makes of the transactions that the clients build and sign.
\<close>

section \<open>The worker pool\<close>

fun busy_with :: "worker \<Rightarrow> nat multiset" where
  "busy_with (Sending i) = {#i#}"
| "busy_with (Answered i ok) = {#i#}"
| "busy_with (Counted i ok) = {#i#}"
| "busy_with _ = {#}"

fun sending :: "worker \<Rightarrow> nat multiset" where
  "sending (Sending i) = {#i#}"
| "sending _ = {#}"

fun work_left :: "worker \<Rightarrow> nat" where
  "work_left Ready = 1" | "work_left (Sending i) = 4" | "work_left (Answered i ok) = 3" | "work_left (Counted i ok) = 2" | "work_left Finished = 0"

definition answered :: "worker \<Rightarrow> nat" where
  "answered x = (case x of Answered i ok \<Rightarrow> 1 | _ \<Rightarrow> 0)"

definition counted :: "worker \<Rightarrow> nat" where
  "counted x = (case x of Counted i ok \<Rightarrow> 1 | _ \<Rightarrow> 0)"

text \<open>Sums over the workers, so that a step of one worker changes one summand.\<close>

definition over :: "(worker \<Rightarrow> 'b::comm_monoid_add) \<Rightarrow> pool \<Rightarrow> 'b" where
  "over f s = (\<Sum>x\<in>#mset (po_workers s). f x)"

definition waiting :: "pool \<Rightarrow> nat multiset" where
  "waiting s = mset (po_queue s) + mset (po_jobs s)"

lemma set_worker_over:
  assumes "k < length (po_workers s)"
  shows "\<exists>R. over f s = R + f (po_workers s ! k) \<and> (\<forall>x. over f (set_worker k x s) = R + f x)"
proof -
  have "mset (po_workers s) = add_mset (po_workers s ! k) (mset (po_workers s) - {#po_workers s ! k#})" using assms by simp
  moreover have "mset ((po_workers s)[k := x]) = add_mset x (mset (po_workers s) - {#po_workers s ! k#})" for x
    using assms by (simp add: mset_update)
  ultimately show ?thesis unfolding over_def set_worker_def
    by (intro exI [of _ "\<Sum>x\<in>#mset (po_workers s) - {#po_workers s ! k#}. f x"]) (simp add: add.commute, metis image_mset_add_mset sum_mset.add_mset add.commute)
qed

lemma over_frame [simp]:
  "over f (s\<lparr>po_queue := q\<rparr>) = over f s" "over f (s\<lparr>po_jobs := j\<rparr>) = over f s" "over f (s\<lparr>po_closed := c\<rparr>) = over f s"
  "over f (s\<lparr>po_stats := st\<rparr>) = over f s" "over f (s\<lparr>po_sent := se\<rparr>) = over f s" "over f (s\<lparr>po_wallets := ws\<rparr>) = over f s"
  "over f (record_answer i ok s) = over f s"
  by (simp_all add: over_def record_answer_def)

lemma set_worker_frame [simp]:
  "po_wallets (set_worker k x s) = po_wallets s" "po_queue (set_worker k x s) = po_queue s" "po_jobs (set_worker k x s) = po_jobs s"
  "po_closed (set_worker k x s) = po_closed s" "po_stats (set_worker k x s) = po_stats s" "po_sent (set_worker k x s) = po_sent s"
  "length (po_workers (set_worker k x s)) = length (po_workers s)"
  by (simp_all add: set_worker_def)

subsection \<open>Termination\<close>

definition steps_left :: "pool \<Rightarrow> nat" where
  "steps_left s = 5 * length (po_queue s) + 4 * length (po_jobs s) + (if po_closed s then 0 else 1) + over work_left s"

lemma pool_step_decreases: "pool_step s s' \<Longrightarrow> steps_left s' < steps_left s"
proof (induction rule: pool_step.induct)
  case (take_job k s i js)
  then show ?case using set_worker_over [of k "s\<lparr>po_jobs := js\<rparr>" work_left] by (auto simp: steps_left_def)
next
  case (send k s i success)
  then show ?case using set_worker_over [of k "s\<lparr>po_sent := po_sent s @ [i]\<rparr>" work_left] by (auto simp: steps_left_def)
next
  case (count_total k s i success)
  then show ?case
    using set_worker_over [of k "s\<lparr>po_stats := (po_stats s)\<lparr>sa_TotalTx := sa_TotalTx (po_stats s) + 1\<rparr>\<rparr>" work_left] by (auto simp: steps_left_def)
next
  case (count_result k s i success)
  then show ?case using set_worker_over [of k "record_answer i success s" work_left] by (auto simp: steps_left_def record_answer_def)
next
  case (finish k s)
  then show ?case using set_worker_over [of k s work_left] by (auto simp: steps_left_def)
qed (simp_all add: steps_left_def)

lemma pool_steps_bound: "(pool_step ^^ m) s s' \<Longrightarrow> m + steps_left s' \<le> steps_left s"
proof (induction m arbitrary: s')
  case (Suc m)
  then obtain s1 where "(pool_step ^^ m) s s1" "pool_step s1 s'" by auto
  with Suc.IH pool_step_decreases show ?case by fastforce
qed simp

lemma pool_progress:
  assumes "\<not> all_done s"
  shows "\<exists>s'. pool_step s s'"
proof (cases "po_queue s = [] \<and> po_closed s")
  case True
  then obtain k where k: "k < length (po_workers s)" "po_workers s ! k \<noteq> Finished"
    using assms by (auto simp: all_done_def in_set_conv_nth)
  show ?thesis
  proof (cases "po_workers s ! k")
    case Ready
    then show ?thesis using k True by (cases "po_jobs s") (blast intro: pool_step.intros)+
  qed (use k True in \<open>blast intro: pool_step.intros\<close>)+
next
  case False
  then show ?thesis by (cases "po_queue s") (blast intro: pool_step.intros)+
qed

subsection \<open>Invariant\<close>

text \<open>
  No wallet is in two places, each one with funds is still waiting, being sent from or has been sent from, spent wallets are not
  touched again, and the counters lag behind the answers by what the workers have yet to count.
\<close>

definition balanced ::
    "WalletInfo list \<Rightarrow> WalletInfo list \<Rightarrow> nat multiset \<Rightarrow> nat multiset \<Rightarrow> nat multiset \<Rightarrow> nat list \<Rightarrow> nat \<Rightarrow> nat \<Rightarrow> Stats \<Rightarrow> bool" where
  "balanced ws wl W B S sent A N st \<longleftrightarrow>
     map wi_HasFunds wl = map wi_HasFunds ws \<and>
     W + B \<subseteq># mset [0..<length ws] \<and> W + S + mset sent \<subseteq># mset [0..<length ws] \<and>
     (\<forall>i<length ws. wi_HasFunds (ws ! i) \<longrightarrow> i \<in># W + S + mset sent) \<and>
     (\<forall>i\<in>#S + mset sent. wi_HasFunds (ws ! i)) \<and>
     (\<forall>i<length ws. wi_Spent (wl ! i) \<longrightarrow> i \<notin># W + B) \<and>
     sa_TotalTx st + int A = int (length sent) \<and> sa_SuccessTx st + sa_FailedTx st + int N = sa_TotalTx st \<and>
     sa_SuccessTx st = int (length (filter wi_Spent wl))"

definition closing :: "pool \<Rightarrow> bool" where
  "closing s \<longleftrightarrow> (po_closed s \<longrightarrow> po_queue s = []) \<and> (Finished \<in> set (po_workers s) \<longrightarrow> po_closed s \<and> po_jobs s = [])"

definition pool_ok :: "WalletInfo list \<Rightarrow> pool \<Rightarrow> bool" where
  "pool_ok ws s \<longleftrightarrow>
     balanced ws (po_wallets s) (waiting s) (over busy_with s) (over sending s) (po_sent s) (over answered s) (over counted s) (po_stats s) \<and> closing s"

lemma balanced_index:
  assumes "balanced ws wl W B S sent A N st" "i \<in># W + B"
  shows "i < length ws" "length wl = length ws" "wi_HasFunds (wl ! i) = wi_HasFunds (ws ! i)" "\<not> wi_Spent (wl ! i)"
proof -
  show i: "i < length ws" using assms mset_subset_eqD [of "W + B" "mset [0..<length ws]" i] by (auto simp: balanced_def)
  have m: "map wi_HasFunds wl = map wi_HasFunds ws" using assms(1) by (simp add: balanced_def)
  then show l: "length wl = length ws" by (metis length_map)
  then show "wi_HasFunds (wl ! i) = wi_HasFunds (ws ! i)" using arg_cong [OF m, of "\<lambda>xs. xs ! i"] i by simp
  show "\<not> wi_Spent (wl ! i)" using assms i by (auto simp: balanced_def)
qed

lemma add_mset_drop: "add_mset i M \<subseteq># X \<Longrightarrow> M \<subseteq># X"
  by (drule mset_subset_eq_insertD) (simp add: subset_mset.less_imp_le)

lemma balanced_take:
  assumes "balanced ws wl (add_mset i W) B S sent A N st"
  shows "if wi_HasFunds (ws ! i) then balanced ws wl W (add_mset i B) (add_mset i S) sent A N st else balanced ws wl W B S sent A N st"
  using assms by (auto simp: balanced_def dest: add_mset_drop)

lemma balanced_send: "balanced ws wl W B (add_mset i S) sent A N st \<Longrightarrow> balanced ws wl W B S (sent @ [i]) (Suc A) N st"
  by (auto simp: balanced_def)

lemma balanced_total: "balanced ws wl W B S sent (Suc A) N st \<Longrightarrow> balanced ws wl W B S sent A (Suc N) (st\<lparr>sa_TotalTx := sa_TotalTx st + 1\<rparr>)"
  by (auto simp: balanced_def)

lemma balanced_failed:
  "balanced ws wl W (add_mset i B) S sent A (Suc N) st \<Longrightarrow> balanced ws wl W B S sent A N (st\<lparr>sa_FailedTx := sa_FailedTx st + 1\<rparr>)"
  by (auto simp: balanced_def dest: add_mset_drop)

lemma length_filter_update:
  "i < length xs \<Longrightarrow> \<not> P (xs ! i) \<Longrightarrow> P x \<Longrightarrow> length (filter P (xs[i := x])) = Suc (length (filter P xs))"
  by (induction xs arbitrary: i) (auto split: nat.split)

lemma balanced_success:
  assumes "balanced ws wl W (add_mset i B) S sent A (Suc N) st"
  shows "balanced ws (wl[i := (wl ! i)\<lparr>wi_Spent := True\<rparr>]) W B S sent A N (st\<lparr>sa_SuccessTx := sa_SuccessTx st + 1\<rparr>)"
proof -
  note i = balanced_index [OF assms, of i, simplified]
  have sub: "add_mset i (W + B) \<subseteq># mset [0..<length ws]" using assms by (simp add: balanced_def)
  have "\<not> add_mset i (add_mset i M) \<subseteq># mset [0..<length ws]" for M
    by (auto dest!: mset_subset_eq_count [where a = i] simp: count_mset_set' split: if_splits)
  then have out: "i \<notin># W + B" using sub by (metis mset_add)
  have len: "length (filter wi_Spent (wl[i := (wl ! i)\<lparr>wi_Spent := True\<rparr>])) = Suc (length (filter wi_Spent wl))"
    using i by (intro length_filter_update) simp_all
  have funds: "map wi_HasFunds (wl[i := (wl ! i)\<lparr>wi_Spent := True\<rparr>]) = map wi_HasFunds wl"
    using i by (auto simp: map_update intro!: list_update_same_conv [THEN iffD2])
  show ?thesis using assms out len i(1,2) unfolding balanced_def funds
    by (auto simp: nth_list_update dest: add_mset_drop)
qed

lemma pool_ok_start:
  assumes "\<forall>w\<in>set ws. \<not> wi_Spent w"
  shows "pool_ok ws (start_pool ws n)"
proof -
  have z: "over busy_with (start_pool ws n) = {#}" "over sending (start_pool ws n) = {#}" "over answered (start_pool ws n) = 0"
    "over counted (start_pool ws n) = 0"
    by (simp_all add: over_def start_pool_def answered_def counted_def)
  have "filter wi_Spent ws = []" using assms by (simp add: filter_empty_conv)
  then show ?thesis using assms
    by (simp add: pool_ok_def z) (auto simp: start_pool_def waiting_def balanced_def closing_def)
qed

text \<open>A move of one worker: the sums change by its own share.\<close>

lemma waiting_frame [simp]:
  "waiting (set_worker k x s) = waiting s" "waiting (s\<lparr>po_stats := st\<rparr>) = waiting s" "waiting (s\<lparr>po_sent := se\<rparr>) = waiting s"
  "waiting (s\<lparr>po_closed := c\<rparr>) = waiting s" "waiting (record_answer i ok s) = waiting s" "waiting (s\<lparr>po_wallets := ws\<rparr>) = waiting s"
  by (simp_all add: waiting_def record_answer_def)

lemma closing_set_worker:
  assumes "closing s" "x \<noteq> Finished"
  shows "closing (set_worker k x s)"
  using assms set_update_subset_insert [of "po_workers s" k x] by (auto simp: closing_def set_worker_def)

lemma move_worker:
  assumes "k < length (po_workers s)" "po_workers s ! k = old" "x \<noteq> Finished" "closing s"
    "\<And>B S A N. balanced ws wl (waiting u) (B + busy_with old) (S + sending old) sent (A + answered old) (N + counted old) st \<Longrightarrow>
       balanced ws (po_wallets s) (waiting s) (B + busy_with x) (S + sending x) (po_sent s) (A + answered x) (N + counted x) (po_stats s)"
    "balanced ws wl (waiting u) (over busy_with s) (over sending s) sent (over answered s) (over counted s) st"
  shows "pool_ok ws (set_worker k x s)"
proof -
  obtain B S A N where "over busy_with s = B + busy_with old" "over busy_with (set_worker k x s) = B + busy_with x"
    "over sending s = S + sending old" "over sending (set_worker k x s) = S + sending x"
    "over answered s = A + answered old" "over answered (set_worker k x s) = A + answered x"
    "over counted s = N + counted old" "over counted (set_worker k x s) = N + counted x"
    using set_worker_over [OF assms(1), of busy_with] set_worker_over [OF assms(1), of sending]
      set_worker_over [OF assms(1), of answered] set_worker_over [OF assms(1), of counted] assms(2) by metis
  with assms(5) [of B S A N] assms(6) show ?thesis using closing_set_worker [OF assms(4,3)] by (simp add: pool_ok_def)
qed

lemma pool_ok_step:
  assumes "pool_step s s'" "pool_ok ws s"
  shows "pool_ok ws s'"
  using assms
proof (induction rule: pool_step.induct)
  case (queue s i q)
  have "waiting (s\<lparr>po_queue := q, po_jobs := po_jobs s @ [i]\<rparr>) = waiting s" using queue(1) by (simp add: waiting_def)
  then show ?case using queue by (auto simp: pool_ok_def closing_def)
next
  case (close s)
  then show ?case by (auto simp: pool_ok_def closing_def)
next
  case (take_job k s i js)
  have w: "waiting s = add_mset i (waiting (s\<lparr>po_jobs := js\<rparr>))" using take_job(3) by (simp add: waiting_def)
  have bal: "balanced ws (po_wallets s) (waiting s) (over busy_with s) (over sending s) (po_sent s) (over answered s) (over counted s) (po_stats s)"
    and c: "closing (s\<lparr>po_jobs := js\<rparr>)"
    using take_job(3,4) by (auto simp: pool_ok_def closing_def)
  have "ready_to_send (po_wallets s ! i) = wi_HasFunds (ws ! i)"
    using balanced_index [OF bal, of i] w by (simp add: ready_to_send_def)
  then have x: "(if ready_to_send (po_wallets s ! i) then Sending i else Ready) = (if wi_HasFunds (ws ! i) then Sending i else Ready)" by simp
  show ?case unfolding x
  proof (rule move_worker [where u = s and old = Ready])
    fix B S A N
    assume "balanced ws (po_wallets s) (waiting s) (B + busy_with Ready) (S + sending Ready) (po_sent s) (A + answered Ready) (N + counted Ready) (po_stats s)"
    from balanced_take [OF this [unfolded w]]
    show "balanced ws (po_wallets (s\<lparr>po_jobs := js\<rparr>)) (waiting (s\<lparr>po_jobs := js\<rparr>)) (B + busy_with (if wi_HasFunds (ws ! i) then Sending i else Ready))
       (S + sending (if wi_HasFunds (ws ! i) then Sending i else Ready)) (po_sent (s\<lparr>po_jobs := js\<rparr>))
       (A + answered (if wi_HasFunds (ws ! i) then Sending i else Ready)) (N + counted (if wi_HasFunds (ws ! i) then Sending i else Ready))
       (po_stats (s\<lparr>po_jobs := js\<rparr>))"
      by (simp add: answered_def counted_def split: if_splits)
  qed (use take_job bal c in simp_all)
next
  case (send k s i success)
  then show ?case
    by (intro move_worker [where s = "s\<lparr>po_sent := po_sent s @ [i]\<rparr>" and u = s and old = "Sending i"])
      (auto simp: pool_ok_def closing_def answered_def counted_def dest: balanced_send)
next
  case (count_total k s i success)
  then show ?case
    by (intro move_worker [where s = "s\<lparr>po_stats := (po_stats s)\<lparr>sa_TotalTx := sa_TotalTx (po_stats s) + 1\<rparr>\<rparr>" and u = s and old = "Answered i success"])
      (auto simp: pool_ok_def closing_def answered_def counted_def dest: balanced_total)
next
  case (count_result k s i success)
  then show ?case
    by (intro move_worker [where s = "record_answer i success s" and u = s and old = "Counted i success"])
      (auto simp: pool_ok_def closing_def answered_def counted_def record_answer_def dest: balanced_failed balanced_success)
next
  case (finish k s)
  then obtain B S A N where "over busy_with (set_worker k Finished s) = over busy_with s" "over sending (set_worker k Finished s) = over sending s"
    "over answered (set_worker k Finished s) = over answered s" "over counted (set_worker k Finished s) = over counted s"
    using set_worker_over [OF finish(1), of busy_with] set_worker_over [OF finish(1), of sending]
      set_worker_over [OF finish(1), of answered] set_worker_over [OF finish(1), of counted] by (auto simp: answered_def counted_def)
  then show ?case using finish by (auto simp: pool_ok_def closing_def)
qed

lemma pool_ok_steps: "(pool_step ^^ m) s s' \<Longrightarrow> pool_ok ws s \<Longrightarrow> pool_ok ws s' \<and> length (po_workers s') = length (po_workers s)"
proof (induction m arbitrary: s')
  case (Suc m)
  then obtain s1 where s1: "(pool_step ^^ m) s s1" "pool_step s1 s'" by auto
  have "length (po_workers s') = length (po_workers s1)" using s1(2) by (cases rule: pool_step.cases) (simp_all add: record_answer_def)
  with Suc s1 pool_ok_step show ?case by metis
qed simp

lemma sub_upt_distinct:
  assumes "mset xs \<subseteq># mset [0..<n]"
  shows "distinct xs"
  unfolding distinct_count_atmost_1
proof
  fix a
  have "count (mset xs) a \<le> count (mset_set {0..<n}) a" using mset_subset_eq_count [OF assms, of a] by simp
  also have "\<dots> \<le> 1" by (simp add: count_mset_set')
  finally have "count (mset xs) a \<le> 1" .
  moreover have "0 < count (mset xs) a \<longleftrightarrow> a \<in> set xs" by simp
  ultimately show "count (mset xs) a = (if a \<in> set xs then 1 else 0)" by (auto simp: le_Suc_eq)
qed

lemma over_finished:
  assumes "\<forall>x\<in>set (po_workers s). x = Finished"
  shows "over busy_with s = {#}" "over sending s = {#}" "over answered s = 0" "over counted s = 0"
proof -
  have w: "po_workers s = replicate (length (po_workers s)) Finished" using assms by (simp add: replicate_length_same)
  show "over busy_with s = {#}" "over sending s = {#}" "over answered s = 0" "over counted s = 0"
    unfolding over_def by (subst w, simp add: answered_def counted_def)+
qed

text \<open>
  C38: The worker pool of the load test, in every interleaving of the queueing and of its workers: a run takes at most five
  steps for each wallet, one for each worker and one to close the channel, it is stuck only when all workers have finished, and no
  wallet is ever sent from twice.  When all have finished, a transaction was sent from exactly the wallets with funds,
  the total counts them, it is the sum of successes and failures, and the successes are the wallets marked as spent.
\<close>

theorem load_test_counts:
  assumes "1 \<le> concurrency" "\<forall>w\<in>set wallets. \<not> wi_Spent w" "(pool_step ^^ m) (start_pool wallets concurrency) s"
  shows "m \<le> 5 * length wallets + nat concurrency + 1 \<and> (all_done s \<or> (\<exists>s'. pool_step s s')) \<and> distinct (po_sent s) \<and>
    (all_done s \<longrightarrow> set (po_sent s) = {i. i < length wallets \<and> wi_HasFunds (wallets ! i)} \<and>
       sa_TotalTx (po_stats s) = int (length (po_sent s)) \<and>
       sa_TotalTx (po_stats s) = sa_SuccessTx (po_stats s) + sa_FailedTx (po_stats s) \<and>
       sa_SuccessTx (po_stats s) = int (length (filter wi_Spent (po_wallets s))))"
proof (intro conjI impI)
  have ok: "pool_ok wallets s" and n: "length (po_workers s) = nat concurrency"
    using pool_ok_steps [OF assms(3) pool_ok_start [OF assms(2)]] by (simp_all add: start_pool_def)
  note b = ok [unfolded pool_ok_def balanced_def]
  have "steps_left (start_pool wallets concurrency) = 5 * length wallets + 1 + nat concurrency"
    by (simp add: steps_left_def start_pool_def over_def)
  then show "m \<le> 5 * length wallets + nat concurrency + 1" using pool_steps_bound [OF assms(3)] by linarith
  show "all_done s \<or> (\<exists>s'. pool_step s s')" using pool_progress by blast
  have "mset (po_sent s) \<subseteq># mset [0..<length wallets]" using b by (metis mset_subset_eq_add_right subset_mset.order_trans)
  then show "distinct (po_sent s)" by (rule sub_upt_distinct)
  assume d: "all_done s"
  note z = over_finished [of s]
  have "Finished \<in> set (po_workers s)" using d n assms(1) by (cases "po_workers s") (auto simp: all_done_def)
  then have "waiting s = {#}" using b d by (auto simp: closing_def waiting_def)
  moreover have "over sending s = {#}" "over answered s = 0" "over counted s = 0" using z d by (simp_all add: all_done_def)
  ultimately show "set (po_sent s) = {i. i < length wallets \<and> wi_HasFunds (wallets ! i)}" "sa_TotalTx (po_stats s) = int (length (po_sent s))"
    "sa_TotalTx (po_stats s) = sa_SuccessTx (po_stats s) + sa_FailedTx (po_stats s)"
    "sa_SuccessTx (po_stats s) = int (length (filter wi_Spent (po_wallets s)))"
    using b mset_subset_eqD [of "mset (po_sent s)" "mset [0..<length wallets]"] by auto
qed

text \<open>Two wallets, one of them with funds, and one worker: a run to the end.\<close>

definition toy_info :: "nat \<Rightarrow> bool \<Rightarrow> WalletInfo" where
  "toy_info i funds = \<lparr>wi_Index = int i, wi_Address = AddressToString (toy_address 1), wi_Manager = toy_manager, wi_HasFunds = funds, wi_Spent = False\<rparr>"

theorem load_test_counts_witness:
  "\<exists>s. (pool_step ^^ 9) (start_pool [toy_info 1 True, toy_info 2 False] 1) s \<and> all_done s \<and> po_sent s = [0] \<and>
     set (po_sent s) = {i. i < length [toy_info 1 True, toy_info 2 False] \<and> wi_HasFunds ([toy_info 1 True, toy_info 2 False] ! i)}"
proof -
  let ?ws = "[toy_info 1 True, toy_info 2 False]" and ?ws' = "[(toy_info 1 True)\<lparr>wi_Spent := True\<rparr>, toy_info 2 False]"
  define P where "P = (\<lambda>ws q j c w a b sent. \<lparr>po_wallets = ws, po_queue = q, po_jobs = j, po_closed = c, po_workers = [w],
      po_stats = \<lparr>sa_TotalTx = a, sa_SuccessTx = b, sa_FailedTx = 0\<rparr>, po_sent = sent\<rparr>)"
  have start: "start_pool ?ws 1 = P ?ws [0, 1] [] False Ready 0 0 []" by (simp add: P_def start_pool_def)
  have s1: "pool_step (P ?ws [0, 1] [] False Ready 0 0 []) (P ?ws [1] [0] False Ready 0 0 [])"
    using pool_step.queue [of "P ?ws [0, 1] [] False Ready 0 0 []" 0 "[1]"] by (simp add: P_def)
  have s2: "pool_step (P ?ws [1] [0] False Ready 0 0 []) (P ?ws [] [0, 1] False Ready 0 0 [])"
    using pool_step.queue [of "P ?ws [1] [0] False Ready 0 0 []" 1 "[]"] by (simp add: P_def)
  have s3: "pool_step (P ?ws [] [0, 1] False Ready 0 0 []) (P ?ws [] [0, 1] True Ready 0 0 [])"
    using pool_step.close [of "P ?ws [] [0, 1] False Ready 0 0 []"] by (simp add: P_def)
  have s4: "pool_step (P ?ws [] [0, 1] True Ready 0 0 []) (P ?ws [] [1] True (Sending 0) 0 0 [])"
    using pool_step.take_job [of 0 "P ?ws [] [0, 1] True Ready 0 0 []" 0 "[1]"] by (simp add: P_def set_worker_def ready_to_send_def toy_info_def)
  have s5: "pool_step (P ?ws [] [1] True (Sending 0) 0 0 []) (P ?ws [] [1] True (Answered 0 True) 0 0 [0])"
    using pool_step.send [of 0 "P ?ws [] [1] True (Sending 0) 0 0 []" 0 True] by (simp add: P_def set_worker_def)
  have s6: "pool_step (P ?ws [] [1] True (Answered 0 True) 0 0 [0]) (P ?ws [] [1] True (Counted 0 True) 1 0 [0])"
    using pool_step.count_total [of 0 "P ?ws [] [1] True (Answered 0 True) 0 0 [0]" 0 True] by (simp add: P_def set_worker_def)
  have s7: "pool_step (P ?ws [] [1] True (Counted 0 True) 1 0 [0]) (P ?ws' [] [1] True Ready 1 1 [0])"
    using pool_step.count_result [of 0 "P ?ws [] [1] True (Counted 0 True) 1 0 [0]" 0 True] by (simp add: P_def set_worker_def record_answer_def)
  have s8: "pool_step (P ?ws' [] [1] True Ready 1 1 [0]) (P ?ws' [] [] True Ready 1 1 [0])"
    using pool_step.take_job [of 0 "P ?ws' [] [1] True Ready 1 1 [0]" 1 "[]"] by (simp add: P_def set_worker_def ready_to_send_def toy_info_def)
  have s9: "pool_step (P ?ws' [] [] True Ready 1 1 [0]) (P ?ws' [] [] True Finished 1 1 [0])"
    using pool_step.finish [of 0 "P ?ws' [] [] True Ready 1 1 [0]"] by (simp add: P_def set_worker_def)
  note o = relpowp_Suc_I2 [where P = pool_step]
  have run: "(pool_step ^^ 9) (start_pool ?ws 1) (P ?ws' [] [] True Finished 1 1 [0])"
    using o [OF s1 o [OF s2 o [OF s3 o [OF s4 o [OF s5 o [OF s6 o [OF s7 o [OF s8 o [OF s9 relpowp_0_I [of pool_step]]]]]]]]]]
    unfolding start by (simp add: eval_nat_numeral del: relpowp.simps)
  have d: "all_done (P ?ws' [] [] True Finished 1 1 [0])" "po_sent (P ?ws' [] [] True Finished 1 1 [0]) = [0]" by (simp_all add: P_def all_done_def)
  from load_test_counts [OF _ _ run] d run show ?thesis by (intro exI [of _ "P ?ws' [] [] True Finished 1 1 [0]"]) (simp add: toy_info_def)
qed

section \<open>Transactions of the clients\<close>

text \<open>
  What a node answers to the two requests of the clients.  A request without a route is not answered with status 200.
\<close>

definition tx_signed_path :: "string list" where "tx_signed_path = [''api'', ''v1'', ''tx'', ''signed'']"
definition tx_send_path :: "string list" where "tx_send_path = [''api'', ''v1'', ''tx'', ''send'']"

definition post_signed ::
    "crypto \<Rightarrow> wire \<Rightarrow> int \<Rightarrow> (string, conn) ranging \<Rightarrow> route list \<Rightarrow> (SubmitSignedTxReq, BlockChain \<times> P2PService option) http_post" where
  "post_signed C w now \<rho> routes req st =
     (if route_for routes ''POST'' tx_signed_path = Some ESubmitSigned
      then case SubmitSignedTx C w now \<rho> (Some req) st of (st', resp) \<Rightarrow> (st', Some (re_StatusCode resp))
      else (st, Some StatusNotFound))"

definition post_send ::
    "crypto \<Rightarrow> wire \<Rightarrow> (string, bool) ranging \<Rightarrow> (nat \<Rightarrow> nat) \<Rightarrow> int \<Rightarrow> int \<Rightarrow> (string, conn) ranging \<Rightarrow> WalletManager option \<Rightarrow> route list \<Rightarrow>
     (SendTxReq, BlockChain \<times> P2PService option) http_post" where
  "post_send C w \<rho>u r now send \<rho> wm routes req st =
     (if route_for routes ''POST'' tx_send_path = Some ESendTx
      then case SendTxWithWallet C w \<rho>u r now send \<rho> (Some req) wm st of (st', resp) \<Rightarrow> (st', Some (re_StatusCode resp))
      else (st, Some StatusNotFound))"

lemma tx_routes:
  "route_for setupPublicRouter ''POST'' tx_signed_path = Some ESubmitSigned" "route_for setupInternalRouter ''POST'' tx_signed_path = Some ESubmitSigned"
  "route_for setupPublicRouter ''POST'' tx_send_path = None" "route_for setupInternalRouter ''POST'' tx_send_path = Some ESendTx"
  by code_simp+

text \<open>The port that the clients use by default is the public one, which does not pay from the wallet of the node.\<close>

lemma fund_all_public: "fund_all (post_send C w \<rho>u r now t \<rho> wm setupPublicRouter) fee amount ws st = (st, 0)"
  by (induction ws) (simp_all add: fundWallet_def post_send_def tx_routes StatusNotFound_def)

lemma api_test_public:
  assumes "api_test_main C L generated (post_send C w \<rho>u rs t1 t2 \<rho> wm setupPublicRouter) post passes answer meanwhile r now st = (st', x)"
  shows "st' = st \<and> x \<in> TestPanic ` {KeyNotMade, ShortKey, FundingRefused}"
  using assms by (auto simp: api_test_main_def post_send_def tx_routes StatusNotFound_def Let_def split: option.splits if_splits)

text \<open>The outputs of an address as the client reads them.\<close>

definition client_view :: "UtxoResp list \<Rightarrow> UTXOResponse list" where
  "client_view us = map (\<lambda>u. \<lparr>uq_TxID = ur_txId u, uq_OutputIndex = ur_outputIndex u, uq_Amount = ur_amount u\<rparr>) us"

text \<open>The transaction as the server reads it: with the network identifier of the server, the identifier computed from that.\<close>

definition as_read :: "crypto \<Rightarrow> string \<Rightarrow> Transaction \<Rightarrow> Signature \<Rightarrow> Transaction" where
  "as_read C network tx sig =
     (let tx0 = tx\<lparr>tx_NetworkID := network, tx_ID := zero_Hash\<rparr>
      in tx0\<lparr>tx_ID := Hash_Transaction C tx0, tx_Inputs := map_option (map (\<lambda>i. i\<lparr>in_Signature := sig\<rparr>)) (tx_Inputs tx)\<rparr>)"

lemma convert_client:
  assumes "wf_Hash h" "wf_Signature sig" "wf_Address to" "wf_Address back"
    "tx = client_tx C memo now h idx pub (client_outputs to back amount change)"
  shows "convertSignedTxReqToTx C (client_request memo now \<lparr>uq_TxID = HashToString h, uq_OutputIndex = idx, uq_Amount = n\<rparr> sig pub
      (client_outputs (AddressToString to) (AddressToString back) amount change)) network = Inr (as_read C network tx sig)"
proof -
  let ?tx = "as_read C network tx sig"
  have ins: "ins ?tx = [\<lparr>in_TxID = h, in_OutputIndex = idx, in_Signature = sig, in_PublicKey = Some pub\<rparr>]"
    by (simp add: as_read_def client_tx_def Let_def assms(5))
  have outs: "outs ?tx = map (\<lambda>(a, n). \<lparr>out_Address = a, out_Amount = n, out_TxType = TxTypeGeneral\<rparr>) (client_outputs to back amount change)"
    by (simp add: as_read_def client_tx_def Let_def assms(5))
  have "client_request memo now \<lparr>uq_TxID = HashToString h, uq_OutputIndex = idx, uq_Amount = n\<rparr> sig pub
      (client_outputs (AddressToString to) (AddressToString back) amount change) = request_of ?tx"
    unfolding request_of_def ins outs
    by (simp add: client_request_def client_outputs_def) (simp add: as_read_def client_tx_def Let_def assms(5))
  moreover have "presentable ?tx" unfolding presentable_def ins outs
    using assms(1-4) by (auto simp: client_outputs_def) (simp_all add: as_read_def client_tx_def Let_def assms(5))
  moreover have "ValidateTxHash C ?tx = Inr ()"
    by (simp add: ValidateTxHash_ok as_read_def client_tx_def Let_def assms(5) tx_preimage_def nil_to_empty_def clear_sig_def)
  moreover have "tx_NetworkID ?tx = network" by (simp add: as_read_def Let_def)
  ultimately show ?thesis using convert_request [of ?tx C] by simp
qed

text \<open>A wallet of the client: its current key, in the form that the node parses, and the address of that key.\<close>

definition wallet_key :: "crypto \<Rightarrow> WalletInfo \<Rightarrow> PrivateKey \<Rightarrow> byte list \<Rightarrow> bool" where
  "wallet_key C w k pub \<longleftrightarrow> GetCurrentPrivateKey C (wi_Manager w) = Inr (Some k) \<and> PublicKeyToBytes C (Some (sk_PublicKey k)) = Inr pub \<and>
     BytesToPublicKey C pub = Inr (sk_PublicKey k) \<and> wi_Address w = AddressToString (PublicKeyToAddress C (sk_PublicKey k))"

text \<open>Every wallet that the client derives is of that kind.\<close>

lemma derive_wallet_key:
  assumes "ec_laws C L" "derive_wallet C L mnemonic i = Inr w"
  shows "\<exists>k pub. wallet_key C w k pub"
proof -
  obtain wm0 wm1 wm a where wm: "RestoreWallet C L mnemonic (NewWalletManager (''/tmp/load_test_wallet_'' @ nat_to_dec (i + 1))) = Inr wm0"
    "add_accounts C L (i + 1) wm0 = Inr wm1" "SwitchAccount (int (i + 1)) wm1 = Inr wm" "GetCurrentAccount wm = Inr a"
    and w: "wi_Manager w = wm" "wi_Address w = AddressToString (wa_Address a)"
    using assms(2) by (auto simp: derive_wallet_def Let_def bindE_Inr)
  obtain mw0 where "wm_Wallet wm0 = Some mw0" "wf_wallet C L mw0"
    using wm(1) wf_wallet_of by (fastforce simp: RestoreWallet_def bindE_Inr split: if_splits)
  then obtain mw1 where "wm_Wallet wm1 = Some mw1" "wf_wallet C L mw1" using add_accounts_wf [OF wm(2)] by blast
  then obtain mw where mw: "wm_Wallet wm = Some mw" "wf_wallet C L mw" using wf_SwitchAccount [OF wm(3)] by blast
  then have "deriveAccount C L mw (nat (mw_CurrentIndex mw)) = Inr a"
    using wm(4) by (auto simp: GetCurrentAccount_def account_at_def wf_wallet_def split: if_splits)
  from deriveAccount_keys [OF assms(1) this] obtain k where
    k: "BytesToPrivateKey C (wa_PrivateKey a) = Inr (Some k)" "BytesToPublicKey C (wa_PublicKey a) = Inr (sk_PublicKey k)"
      "PublicKeyToBytes C (Some (sk_PublicKey k)) = Inr (wa_PublicKey a)" "PublicKeyToAddress C (sk_PublicKey k) = wa_Address a" "wa_PrivateKey a \<noteq> []"
    by metis
  have "GetCurrentPrivateKey C wm = Inr (Some k)" using k(1,5) wm(4) by (simp add: GetCurrentPrivateKey_def bindE_Inr)
  then show ?thesis using k w unfolding wallet_key_def by auto
qed

text \<open>A signature made for one digest of 32 bytes does not verify for another.\<close>

definition signature_binds :: "crypto \<Rightarrow> bool" where
  "signature_binds C \<longleftrightarrow>
     (\<forall>r k d d' s. length d = 32 \<longrightarrow> length d' = 32 \<longrightarrow>
        ecdsa_SignASN1 C r k d = Some s \<longrightarrow> ecdsa_VerifyASN1 C (sk_PublicKey k) d' s \<longrightarrow> d' = d)"

lemma SignData_binds:
  assumes "der_signatures C" "signature_binds C" "SignData C r (Some k) d = Inr sig" "VerifySignature C (Some (sk_PublicKey k)) d' sig"
    "length d = 32" "length d' = 32"
  shows "d' = d"
proof -
  from assms(3) obtain s where s: "ecdsa_SignASN1 C r k d = Some s" "sig = copy_into 72 s"
    by (auto simp: SignData_def split: option.splits if_splits)
  then obtain body where "s = 0x30 # word_of_nat (length body) # body" "length body \<le> 70" using assms(1) unfolding der_signatures_def by blast
  from der_trim [OF this] s assms(2,4-6) show ?thesis unfolding signature_binds_def by metis
qed

text \<open>The transaction that the load test builds for the first output of a wallet.\<close>

definition load_test_tx :: "crypto \<Rightarrow> int \<Rightarrow> UTXO \<Rightarrow> PrivateKey \<Rightarrow> byte list \<Rightarrow> Address \<Rightarrow> uint64 \<Rightarrow> uint64 \<Rightarrow> Transaction" where
  "load_test_tx C now u k pub to amount fee =
     client_tx C ''load test tx'' now (utxo_TxId u) (utxo_OutputIndex u) pub
       (client_outputs to (PublicKeyToAddress C (sk_PublicKey k)) amount (amount_of u - amount - fee))"

lemma sendTransaction_posts:
  assumes w: "wallet_key C w k pub" and wf: "wf_Hash (utxo_TxId u)" "wf_Address to"
    and pay: "unat amount + unat fee \<le> unat (amount_of u)" and sign: "\<forall>r k d. ecdsa_SignASN1 C r k d \<noteq> None" "der_signatures C"
    and tx: "tx = load_test_tx C now u k pub to amount fee"
  shows "\<exists>sig req. SignData C r (Some k) (tx_ID tx) = Inr sig \<and> (\<forall>network. convertSignedTxReqToTx C req network = Inr (as_read C network tx sig)) \<and>
    sendTransaction C post r now (Some (client_view (formatUtxoResp (u # us)))) w (AddressToString to) amount fee s =
      (case post req s of (s', status) \<Rightarrow> Some (s', status = Some 200))"
proof -
  let ?a = "PublicKeyToAddress C (sk_PublicKey k)" and ?n = "amount_of u"
  let ?u = "\<lparr>uq_TxID = HashToString (utxo_TxId u), uq_OutputIndex = utxo_OutputIndex u, uq_Amount = ?n\<rparr>"
  obtain x where "ecdsa_SignASN1 C r k (tx_ID tx) = Some x" using sign(1) by blast
  from SignData_ok [OF sign(2) this] obtain sig where sig: "SignData C r (Some k) (tx_ID tx) = Inr sig" by blast
  have a: "wf_Address ?a" by (simp add: wf_Address_def)
  have n64: "unat ?n < 2 ^ 64" by (rule order_less_le_trans [OF unsigned_less]) simp
  have "unat (amount + fee) = unat amount + unat fee" using pay n64 by (intro unat_add_no_wrap) simp
  then have le: "\<not> ?n < amount + fee" using pay by (simp add: word_less_nat_alt)
  have view: "getUtxos (Some (client_view (formatUtxoResp (u # us)))) = ?u # client_view (formatUtxoResp us)"
    by (simp add: getUtxos_def client_view_def formatUtxoResp_def)
  define req where "req = client_request ''load test tx'' now ?u sig pub (client_outputs (AddressToString to) (AddressToString ?a) amount (?n - amount - fee))"
  have "\<forall>network. convertSignedTxReqToTx C req network = Inr (as_read C network tx sig)"
    unfolding req_def tx load_test_tx_def
    using wf a SignData_length [OF sig] by (intro allI convert_client) (simp_all add: wf_Signature_def)
  moreover have "sendTransaction C post r now (Some (client_view (formatUtxoResp (u # us)))) w (AddressToString to) amount fee s =
      (case post req s of (s', status) \<Rightarrow> Some (s', status = Some 200))"
    unfolding sendTransaction_def view req_def using le w wf a sig
    by (simp add: wallet_key_def Let_def tx load_test_tx_def HashToBytes_def)
  ultimately show ?thesis using sig by blast
qed

lemma as_read_fields:
  "tx_ID (as_read C network tx sig) = Hash_Transaction C (tx\<lparr>tx_NetworkID := network, tx_ID := zero_Hash\<rparr>)"
  "ins (as_read C network tx sig) = map (\<lambda>i. i\<lparr>in_Signature := sig\<rparr>) (ins tx)"
  by (simp_all add: as_read_def Let_def elems_def split: option.split)

lemma load_test_tx_fields:
  assumes "tx = load_test_tx C now u k pub to amount fee"
  shows "tx_NetworkID tx = []" "tx_ID tx = Hash_Transaction C (tx\<lparr>tx_ID := zero_Hash\<rparr>)"
    "ins tx = [\<lparr>in_TxID = utxo_TxId u, in_OutputIndex = utxo_OutputIndex u, in_Signature = zero_Signature, in_PublicKey = Some pub\<rparr>]"
  by (simp_all add: assms load_test_tx_def client_tx_def Let_def)


text \<open>Signatures that contain what they sign.\<close>

definition toy_der :: "byte list \<Rightarrow> byte list" where
  "toy_der d = 0x30 # (if length d = 32 then 32 # d else [1, 0])"

definition binding_toy :: crypto where
  "binding_toy = toy\<lparr>ecdsa_VerifyASN1 := \<lambda>pk d s. s = toy_der d, ecdsa_SignASN1 := \<lambda>r sk d. Some (toy_der d)\<rparr>"

lemma binding_toy_laws:
  "\<forall>r k d. ecdsa_SignASN1 binding_toy r k d \<noteq> None" "der_signatures binding_toy" "signatures_verify binding_toy" "sha256_size binding_toy"
  "signature_binds binding_toy"
proof -
  show "der_signatures binding_toy" unfolding der_signatures_def binding_toy_def toy_der_def by (auto intro: exI [of _ "[0]"])
qed (auto simp: signatures_verify_def sha256_size_def signature_binds_def binding_toy_def toy_der_def toy_def toy_hash_def split: if_splits)


end
