(* ===== verification/Spec2Isabelle.thy ===== *)
theory Spec2Isabelle
  imports Ledger_Theorems Consensus_Theorems Network_Theorems API_Theorems Command_Theorems Logging Client_Theorems
begin

text \<open>
  A verification of the ABCFE node: a blockchain node in Go with unspent outputs, a mempool, a LevelDB
  store and a Byzantine-fault-tolerant consensus of staked validators.

  \<^bold>\<open>The program and its model.\<close>  Each theory models the operations of one or two Go files, in the order and with
  the names of the source.  Go's \<open>uint8\<close>, \<open>uint32\<close> and \<open>uint64\<close> are words of that width, so sums wrap as in the
  code; fixed-size arrays are byte lists (with \<open>wf_Hash\<close> for the length), slices that may be nil are options of
  lists, Go maps are association lists with distinct keys; an operation that returns an error returns
  \<open>Inl\<close> of an error value, one constructor per message.  Where Go visits a map in an unspecified order, the
  order is an argument (\<open>ranging\<close>), and theorems hold for every order that visits each entry once (\<open>range_ok\<close>).

    \<^item> \<open>Prelude\<close>: results and their folds, maps and their visits, words.
    \<^item> \<open>Encoding\<close>, \<open>Keys\<close>, \<open>Crypto\<close>: \<open>common/utils\<close>, \<open>common/crypto\<close>, \<open>protocol\<close>: hexadecimal and decimal text, database
      keys and that they do not clash, keys, addresses and signatures.  SHA-256, Keccak-256, ECDSA, x509 and the JSON
      encoder are fields of the record \<open>crypto\<close>; what is used of them are the named predicates \<open>signatures_verify\<close>,
      \<open>der_signatures\<close>, \<open>sha256_size\<close>.
    \<^item> \<open>Data_Model\<close>: the structures of \<open>core\<close>, \<open>consensus\<close> and \<open>config\<close>, the effect of Gob on them (empty slices come
      back nil), and the database: a map from keys to stored values with a write operation (\<open>db_ops\<close>) whose laws
      are \<open>db_laws\<close> (a batch is written as a whole or not at all).
    \<^item> \<open>Transactions\<close>, \<open>Mempool\<close>, \<open>Blockchain\<close>, \<open>Utxo\<close>, \<open>Block_Store\<close>, \<open>Validate\<close>, \<open>Transfers\<close>, \<open>Chain\<close>, \<open>Accounts\<close>:
      the package \<open>core\<close>.  \<open>Supply\<close> has the abstract ledger's total of coins.
    \<^item> \<open>Staking\<close>, \<open>Validators\<close>, \<open>Selection\<close>, \<open>Votes\<close>, \<open>Consensus_State\<close>, \<open>Engine\<close>: the package \<open>consensus\<close>.  An
      engine is a record; each handler is a function on it that takes what the surroundings contribute
      (clock, randomness, map orders, what other goroutines did meanwhile) in a record \<open>ambient\<close>; a run is a sequence of
      steps of \<open>engine_step\<close>, so that every interleaving of ticks, messages, delayed votes and timeouts is covered.  \<open>Rounds\<close>
      has the lemmas on one round: the votes that an engine has counted, and the state it is in before and after it decides.
    \<^item> \<open>Messages\<close>, \<open>Rate_Limit\<close>, \<open>Node\<close>, \<open>P2P_Service\<close>: the package \<open>p2p\<close>.  The JSON and Gob encoders of messages are the
      fields of the record \<open>wire\<close>; the \<open>float64\<close> of the token bucket is a rational number with a rounding after each operation.
      A connection is a number, the bytes read from it a list, and what the node does to the network (packets, closed
      connections, dials, callbacks) is a log.  An index out of range is the value \<open>Inl SliceBounds\<close>: it ends the process.
    \<^item> \<open>Wallet\<close>: the package \<open>wallet\<close> and the key derivation of \<open>common/crypto/keys.go\<close>.  BIP-39, the curve, the encoding of
      private keys and the JSON of the wallet file are fields of the record \<open>walletlib\<close>, with the laws \<open>ec_laws\<close> and
      \<open>mnemonics_valid\<close>; the file system is a map from paths to contents.
    \<^item> \<open>Hub\<close>: \<open>api/websocket.go\<close>, a run of events (registration, broadcast, greeting, writes) on the clients and their
      channels.  \<open>Rest\<close>: \<open>api/rest\<close>, each handler as a function from the decoded request to the new state and the
      response, and the routers as lists of routes; \<open>Rest_Facts\<close> has the lemmas on routes, pages and requests.
    \<^item> \<open>App\<close>, \<open>Startup\<close>: \<open>app/app.go\<close>, the callbacks that connect network, chain and engine, and the construction, start
      and end of a node.
    \<^item> \<open>Command\<close>: \<open>cmd/node/main.go\<close>, the daemon with its PID file and the wallet commands, on a machine of files and
      processes.  \<open>Browser\<close>: \<open>tools/db_browser.go\<close>.
    \<^item> \<open>Settings\<close>: \<open>config.NewConfig\<close>, \<open>utils.FindProjectRoot\<close>, \<open>logger.InitLogger\<close> and \<open>storage.InitDB\<close>, what precedes
      the building of the application: where the configuration is found, and which database belongs to it.  \<open>Logging\<close>:
      \<open>common/logger\<close>, where messages go and which are reported; the library \<open>zap\<close> is an argument with the laws \<open>zap_laws\<close>.
    \<^item> \<open>Load_Test\<close>, \<open>Api_Test\<close>: the clients \<open>cmd/load_test\<close> and \<open>cmd/api_test\<close>.  The node that they talk to is a function on
      its state, instantiated by the handlers of \<open>Rest\<close> in the theorems; the workers of the load test are a step relation on
      the queue, the counters and what each worker is doing.
    \<^item> \<open>Sample\<close>, \<open>Sample_Chain\<close>, \<open>Sample_Consensus\<close>, \<open>Sample_Wallet\<close>: a concrete network, wallet and node on which the
      hypotheses of the theorems hold.

  \<^bold>\<open>Interfaces.\<close>  Locales state what one part relies on: the mempool as a map, the ledger with its invariant and its
  import operation, the three transaction lists of an account, weighted quorums and commit certificates, the caches of
  messages seen.  Each is
  interpreted on the operations of the model.

  \<^bold>\<open>What is shown.\<close>  \<open>Ledger_Theorems\<close>: importing a block refines a step of an abstract ledger; no output is spent twice;
  the supply grows by the block reward; what validation accepts is imported, what the node builds is accepted; a
  restart resumes the same state; balances are exact.  \<open>Consensus_Theorems\<close>: blocks committed by two engines have
  common signers with more than a third of the power; an engine given a valid proposal and a quorum of prevotes and precommits, in
  any order, decides the block; honest proposals are prevoted; certificates and votes are counted exactly; staking keeps its sets consistent; proposers are agreed on and
  fair.  \<open>Network_Theorems\<close>: blocks from peers enter the chain only with a certificate and in any order of arrival; votes
  and requested blocks are delivered, votes once.  \<open>API_Theorems\<close>: transactions submitted by clients or paid from the wallet are
  read back as written, pooled and sent to every peer; the wallet is recovered from its words and from its file; the routes to
  the wallet are local; the pages of blocks are complete; a node starts in a state that satisfies the invariants of its
  parts.  \<open>Hub\<close>: a client that keeps up is given every event in order.  \<open>Command_Theorems\<close>: the daemon is found
  by its PID file, and the wallet commands create, show and restore the same wallet.  \<open>Client_Theorems\<close>: the load test stops with every answer
  counted once in every interleaving of its workers; which nodes accept the transactions that it signs.
  The other theorems stand beside their component: text and Gob round trips, identifiers and Merkle roots,
  the mempool, the history of an address.  Some theorems state what the code does where it departs from what it
  means: sums that wrap, blocks of height 0, a Merkle root that does not bind the length, transactions without inputs
  that anybody can submit, peers whose height is never updated, boot nodes that are never redialled.

  \<^bold>\<open>Termination and bounds.\<close>  The recursion on Merkle trees and the loop over heights, which need not end, are
  \<open>partial_function (option)\<close>, and it is proved when they return.  The search for
  the project root ends because the parent of a directory is shorter or its own parent.  All other loops are folds over finite data.  Theorems
  on sums of coins or powers name the bound below which nothing wraps.

  \<^bold>\<open>Not modelled.\<close>  Sockets with their deadlines, the HTTP transport with its logging and recovery middleware, the JSON text of
  requests and responses, the decoding of TOML, the files of the database, the rotation of the log, signals, the parsing of
  the command line: glue to libraries.  What the clients and tools print is left out where nothing depends on it, and so are
  functions without a caller (\<open>runNodeWithSignalHandling\<close>, \<open>formatTxOutputsResp\<close>, \<open>blockToJSON\<close>, \<open>MarshalJSON\<close>).  Tickers and
  goroutines are sequences of steps.  Locks are not modelled: each handler holds its lock, so that a handler is one step,
  except while it sleeps, which is what \<open>am_asleep\<close> and \<open>am_others\<close> stand for.
\<close>

end
